(* ===== verification/Prelude.thy ===== *)
theory Prelude
  imports Main "HOL-Library.Sublist"
begin

text \<open>
  Shared vocabulary of the development: the generic list operations the TypeScript sources use
  over and over (\<open>findIndex\<close>, \<open>at(-1)\<close>, \<open>slice\<close>, the "push unless present" loop,
  \<open>[...new Set(xs)]\<close>), with the facts the component theories rest on. The collection
  \<open>js_list\<close> holds the rewrite rules the component proofs hand to the simplifier.
\<close>

named_theorems js_list \<open>rewrite rules for the list operations of the sources\<close>

section \<open>Searching\<close>

text \<open>\<open>xs.findIndex(p)\<close>, with \<open>None\<close> for the source's \<open>-1\<close>.\<close>

fun findIdx :: "('a \<Rightarrow> bool) \<Rightarrow> 'a list \<Rightarrow> nat option" where
  "findIdx p [] = None"
| "findIdx p (x # xs) = (if p x then Some 0 else map_option Suc (findIdx p xs))"

lemma findIdx_None [js_list]: "findIdx p xs = None \<longleftrightarrow> (\<forall>x\<in>set xs. \<not> p x)"
  by (induction xs) auto

lemma findIdx_SomeD:
  "findIdx p xs = Some i \<Longrightarrow> i < length xs \<and> p (xs ! i) \<and> (\<forall>j<i. \<not> p (xs ! j))"
proof (induction xs arbitrary: i)
  case Nil
  then show ?case by simp
next
  case (Cons x xs)
  show ?case
  proof (cases "p x")
    case True
    with Cons.prems show ?thesis by simp
  next
    case False
    with Cons.prems obtain k where k: "findIdx p xs = Some k" "i = Suc k" by auto
    from Cons.IH [OF k(1)] False show ?thesis
      by (auto simp: k(2) nth_Cons split: nat.split)
  qed
qed

lemma findIdx_less: "findIdx p xs = Some i \<Longrightarrow> i < length xs"
  by (simp add: findIdx_SomeD)

lemma findIdx_find: "find p xs = map_option (nth xs) (findIdx p xs)"
proof (induction xs)
  case Nil
  show ?case by simp
next
  case (Cons x xs)
  show ?case by (cases "findIdx p xs") (simp_all add: Cons.IH)
qed

lemma find_SomeD: "find p xs = Some x \<Longrightarrow> x \<in> set xs \<and> p x"
  by (auto simp: find_Some_iff)

lemma find_append [js_list]:
  "find p (xs @ ys) = (case find p xs of None \<Rightarrow> find p ys | Some x \<Rightarrow> Some x)"
  by (induction xs) auto

lemma find_map_same:
  "(\<And>x. p (f x) \<longleftrightarrow> p x) \<Longrightarrow> find p (map f xs) = map_option f (find p xs)"
  by (induction xs) auto

lemma find_by_key:
  "distinct (map k xs) \<Longrightarrow> x \<in> set xs \<Longrightarrow> find (\<lambda>y. k y = k x) xs = Some x"
  by (induction xs) (auto simp: rev_image_eqI)

lemma find_filter_None: "find p (filter (\<lambda>x. \<not> p x) xs) = None"
  by (auto simp: find_None_iff)

section \<open>Reading the ends\<close>

definition last_opt :: "'a list \<Rightarrow> 'a option" where
  "last_opt xs = (if xs = [] then None else Some (last xs))"

definition hd_opt :: "'a list \<Rightarrow> 'a option" where
  "hd_opt xs = (case xs of [] \<Rightarrow> None | x # _ \<Rightarrow> Some x)"

definition nth_opt :: "'a list \<Rightarrow> nat \<Rightarrow> 'a option" where
  "nth_opt xs i = (if i < length xs then Some (xs ! i) else None)"

lemma last_opt_snoc [simp]: "last_opt (xs @ [x]) = Some x"
  by (simp add: last_opt_def)

lemma last_opt_Nil [simp]: "last_opt [] = None"
  by (simp add: last_opt_def)

lemma hd_opt_simps [simp]: "hd_opt [] = None" "hd_opt (x # xs) = Some x"
  by (simp_all add: hd_opt_def)

section \<open>Pushing what is not there yet\<close>

text \<open>
  The loop \<open>ids.forEach(x => if (pre.every(y => y !== x)) pre.push(x))\<close> and the spread
  \<open>[...new Set(xs)]\<close>: both keep the first occurrence and the order.
\<close>

definition push_new :: "'a list \<Rightarrow> 'a \<Rightarrow> 'a list" where
  "push_new pre x = (if x \<in> set pre then pre else pre @ [x])"

definition push_all_new :: "'a list \<Rightarrow> 'a list \<Rightarrow> 'a list" where
  "push_all_new pre xs = foldl push_new pre xs"

definition nub :: "'a list \<Rightarrow> 'a list" where
  "nub xs = push_all_new [] xs"

lemma set_push_new [simp]: "set (push_new pre x) = insert x (set pre)"
  by (auto simp: push_new_def)

lemma distinct_push_new [simp]: "distinct pre \<Longrightarrow> distinct (push_new pre x)"
  by (simp add: push_new_def)

lemma push_all_new_simps [simp]:
  "push_all_new pre [] = pre"
  "push_all_new pre (x # xs) = push_all_new (push_new pre x) xs"
  by (simp_all add: push_all_new_def)

lemma set_push_all_new [simp]: "set (push_all_new pre xs) = set pre \<union> set xs"
  by (induction xs arbitrary: pre) auto

lemma distinct_push_all_new [simp]: "distinct pre \<Longrightarrow> distinct (push_all_new pre xs)"
  by (induction xs arbitrary: pre) auto

lemma push_all_new_absorb: "set xs \<subseteq> set pre \<Longrightarrow> push_all_new pre xs = pre"
  by (induction xs arbitrary: pre) (auto simp: push_new_def)

lemma push_all_new_distinct:
  "distinct (pre @ xs) \<Longrightarrow> push_all_new pre xs = pre @ xs"
  by (induction xs arbitrary: pre) (auto simp: push_new_def)

lemma set_nub [simp]: "set (nub xs) = set xs"
  by (simp add: nub_def)

lemma distinct_nub [simp]: "distinct (nub xs)"
  by (simp add: nub_def)

lemma nub_distinct: "distinct xs \<Longrightarrow> nub xs = xs"
  by (simp add: nub_def push_all_new_distinct)

section \<open>Arrays by index\<close>

text \<open>\<open>xs.splice(i, 1)\<close> for an index that is not negative.\<close>

definition remove_at :: "nat \<Rightarrow> 'a list \<Rightarrow> 'a list" where
  "remove_at i xs = take i xs @ drop (Suc i) xs"

lemma length_remove_at: "i < length xs \<Longrightarrow> length (remove_at i xs) = length xs - 1"
  by (simp add: remove_at_def)

lemma remove_at_beyond: "length xs \<le> i \<Longrightarrow> remove_at i xs = xs"
  by (simp add: remove_at_def)

lemma set_remove_at: "set (remove_at i xs) \<subseteq> set xs"
  using set_take_subset set_drop_subset by (fastforce simp: remove_at_def)

section \<open>Sorted lists of numbers\<close>

lemma sorted_wrt_less_nth_gap:
  fixes xs :: "int list"
  assumes "sorted_wrt (<) xs" "Suc i < length xs" "xs ! i + 1 \<noteq> xs ! Suc i"
  shows "xs ! i + 1 \<notin> set xs"
proof
  assume "xs ! i + 1 \<in> set xs"
  then obtain j where j: "j < length xs" "xs ! j = xs ! i + 1"
    by (auto simp: in_set_conv_nth)
  have "i < j"
  proof (rule ccontr)
    assume "\<not> i < j"
    then have "j < i \<or> j = i" by arith
    then have "xs ! j \<le> xs ! i"
      using assms(1,2) by (auto simp: sorted_wrt_iff_nth_less less_imp_le)
    with j(2) show False by simp
  qed
  moreover have "j \<noteq> Suc i" using j(2) assms(3) by auto
  ultimately have "Suc i < j" by arith
  then have "xs ! Suc i < xs ! j" using assms(1) j(1) by (simp add: sorted_wrt_iff_nth_less)
  moreover have "xs ! i < xs ! Suc i" using assms(1,2) by (simp add: sorted_wrt_iff_nth_less)
  ultimately show False using j(2) by simp
qed

lemma sorted_wrt_less_last_Suc:
  fixes xs :: "int list"
  assumes "sorted_wrt (<) xs" "Suc i = length xs"
  shows "xs ! i + 1 \<notin> set xs"
proof
  assume "xs ! i + 1 \<in> set xs"
  then obtain j where j: "j < length xs" "xs ! j = xs ! i + 1"
    by (auto simp: in_set_conv_nth)
  with assms have "j < i \<or> j = i" by arith
  then have "xs ! j \<le> xs ! i"
    using assms by (auto simp: sorted_wrt_iff_nth_less less_imp_le)
  with j(2) show False by simp
qed

end
