(* ===== verification/Js_Value.thy ===== *)
theory Js_Value
  imports Prelude Complex_Main "HOL-Library.Char_ord"
begin

text \<open>
  The part of JavaScript the sources use, as HOL data and functions: dynamic values, property
  access that throws on \<open>undefined\<close> and \<open>null\<close>, objects with the key order of the
  language, strings, and numbers.

  Numbers are exact: a finite number is a rational, so the rounding of IEEE doubles is not
  modelled (nor is the sign of zero). Strings are lists of characters below 256, the Latin-1
  part of JavaScript's code units. Objects have own properties only; the prototype chain is not
  modelled.
\<close>

section \<open>Values\<close>

datatype jsnum = Fin rat | PInf | NInf | NaN

datatype jsv =
    JUndef
  | JNull
  | JBool bool
  | JNum jsnum
  | JStr string
  | JArr "jsv list"
  | JObj "(string \<times> jsv) list"

text \<open>
  The order of the numbers; \<open>NaN\<close>, which JavaScript leaves unordered, is put last. The sources
  sort numbers only after they have filtered \<open>NaN\<close> out, except where a comment says otherwise.
\<close>

fun num_le :: "jsnum \<Rightarrow> jsnum \<Rightarrow> bool" where
  "num_le NInf _ = True"
| "num_le (Fin _) NInf = False"
| "num_le (Fin a) (Fin b) = (a \<le> b)"
| "num_le (Fin _) _ = True"
| "num_le PInf NaN = True"
| "num_le PInf PInf = True"
| "num_le PInf _ = False"
| "num_le NaN NaN = True"
| "num_le NaN _ = False"

instantiation jsnum :: linorder
begin

definition less_eq_jsnum :: "jsnum \<Rightarrow> jsnum \<Rightarrow> bool" where
  "less_eq_jsnum a b = num_le a b"

definition less_jsnum :: "jsnum \<Rightarrow> jsnum \<Rightarrow> bool" where
  "less_jsnum a b = (num_le a b \<and> a \<noteq> b)"

instance
proof
  fix a b c :: jsnum
  show "(a < b) = (a \<le> b \<and> \<not> b \<le> a)"
    by (cases a; cases b) (auto simp: less_eq_jsnum_def less_jsnum_def)
  show "a \<le> a" by (cases a) (auto simp: less_eq_jsnum_def)
  show "a \<le> b \<Longrightarrow> b \<le> c \<Longrightarrow> a \<le> c"
    by (cases a; cases b; cases c) (auto simp: less_eq_jsnum_def)
  show "a \<le> b \<Longrightarrow> b \<le> a \<Longrightarrow> a = b"
    by (cases a; cases b) (auto simp: less_eq_jsnum_def)
  show "a \<le> b \<or> b \<le> a"
    by (cases a; cases b) (auto simp: less_eq_jsnum_def)
qed

end

lemma less_eq_Fin [simp]: "(Fin a \<le> Fin b) = (a \<le> b)" "(Fin a < Fin b) = (a < b)"
  by (auto simp: less_eq_jsnum_def less_jsnum_def)

text \<open>\<open>a + b\<close> on numbers.\<close>

fun num_add :: "jsnum \<Rightarrow> jsnum \<Rightarrow> jsnum" where
  "num_add (Fin a) (Fin b) = Fin (a + b)"
| "num_add NaN _ = NaN"
| "num_add _ NaN = NaN"
| "num_add PInf NInf = NaN"
| "num_add NInf PInf = NaN"
| "num_add PInf _ = PInf"
| "num_add NInf _ = NInf"
| "num_add (Fin _) x = x"

datatype js_error = TypeError string | RangeError string | JsError string

type_synonym 'a js = "js_error + 'a"

type_synonym props = "(string \<times> jsv) list"

abbreviation JInt :: "int \<Rightarrow> jsv" where
  "JInt n \<equiv> JNum (Fin (of_int n))"

fun truthy :: "jsv \<Rightarrow> bool" where
  "truthy JUndef = False"
| "truthy JNull = False"
| "truthy (JBool b) = b"
| "truthy (JNum (Fin q)) = (q \<noteq> 0)"
| "truthy (JNum NaN) = False"
| "truthy (JNum _) = True"
| "truthy (JStr s) = (s \<noteq> [])"
| "truthy (JArr _) = True"
| "truthy (JObj _) = True"

definition nullish :: "jsv \<Rightarrow> bool" where
  "nullish v = (v = JUndef \<or> v = JNull)"

text \<open>The operators \<open>a || b\<close> and \<open>a ?? b\<close>.\<close>

definition js_or :: "jsv \<Rightarrow> jsv \<Rightarrow> jsv" where
  "js_or a b = (if truthy a then a else b)"

definition js_coalesce :: "jsv \<Rightarrow> jsv \<Rightarrow> jsv" where
  "js_coalesce a b = (if nullish a then b else a)"

fun js_typeof :: "jsv \<Rightarrow> string" where
  "js_typeof JUndef = ''undefined''"
| "js_typeof JNull = ''object''"
| "js_typeof (JBool _) = ''boolean''"
| "js_typeof (JNum _) = ''number''"
| "js_typeof (JStr _) = ''string''"
| "js_typeof (JArr _) = ''object''"
| "js_typeof (JObj _) = ''object''"

fun is_array :: "jsv \<Rightarrow> bool" where
  "is_array (JArr _) = True"
| "is_array _ = False"

fun is_string :: "jsv \<Rightarrow> bool" where
  "is_string (JStr _) = True"
| "is_string _ = False"

text \<open>
  Strict equality of primitives. Objects and arrays are equal only when they are the same
  reference; two values read from two places of the model are taken to be different references.
\<close>

fun js_seq :: "jsv \<Rightarrow> jsv \<Rightarrow> bool" where
  "js_seq JUndef JUndef = True"
| "js_seq JNull JNull = True"
| "js_seq (JBool a) (JBool b) = (a = b)"
| "js_seq (JNum a) (JNum b) = (a = b \<and> a \<noteq> NaN)"
| "js_seq (JStr a) (JStr b) = (a = b)"
| "js_seq _ _ = False"

lemma js_seq_str [simp]: "js_seq v (JStr s) \<longleftrightarrow> v = JStr s"
  by (cases v) auto

lemma js_seq_str' [simp]: "js_seq (JStr s) v \<longleftrightarrow> v = JStr s"
  by (cases v) auto

section \<open>Objects\<close>

text \<open>
  The own properties of an object in the order \<open>Object.keys\<close> lists them: the keys that are
  array indices first, in ascending order, then the others in the order of their creation.
\<close>

definition digit :: "char \<Rightarrow> bool" where
  "digit c = (of_char c \<ge> (48::nat) \<and> of_char c \<le> (57::nat))"

definition digit_val :: "char \<Rightarrow> nat" where
  "digit_val c = of_char c - 48"

definition nat_of_digits :: "string \<Rightarrow> nat" where
  "nat_of_digits s = foldl (\<lambda>n c. 10 * n + digit_val c) 0 s"

definition is_index_key :: "string \<Rightarrow> bool" where
  "is_index_key s =
     (s \<noteq> [] \<and> list_all digit s \<and> (hd s \<noteq> CHR ''0'' \<or> length s = 1)
      \<and> nat_of_digits s < 2 ^ 32 - 1)"

definition key_before :: "string \<Rightarrow> string \<Rightarrow> bool" where
  "key_before k k' =
     (is_index_key k \<and> (\<not> is_index_key k' \<or> nat_of_digits k < nat_of_digits k'))"

fun insert_key :: "string \<Rightarrow> 'v \<Rightarrow> (string \<times> 'v) list \<Rightarrow> (string \<times> 'v) list" where
  "insert_key k v [] = [(k, v)]"
| "insert_key k v ((k', v') # ps) =
     (if key_before k k' then (k, v) # (k', v') # ps else (k', v') # insert_key k v ps)"

fun replace_key :: "string \<Rightarrow> 'v \<Rightarrow> (string \<times> 'v) list \<Rightarrow> (string \<times> 'v) list" where
  "replace_key k v [] = []"
| "replace_key k v ((k', v') # ps) =
     (if k' = k then (k, v) # ps else (k', v') # replace_key k v ps)"

definition obj_keys :: "(string \<times> 'v) list \<Rightarrow> string list" where
  "obj_keys ps = map fst ps"

text \<open>\<open>o[k] = v\<close>.\<close>

definition obj_put :: "string \<Rightarrow> 'v \<Rightarrow> (string \<times> 'v) list \<Rightarrow> (string \<times> 'v) list" where
  "obj_put k v ps = (if k \<in> fst ` set ps then replace_key k v ps else insert_key k v ps)"

text \<open>\<open>delete o[k]\<close>, and what \<open>const {[k]: _, ...rest} = o\<close> leaves in \<open>rest\<close>.\<close>

definition obj_del :: "string \<Rightarrow> (string \<times> 'v) list \<Rightarrow> (string \<times> 'v) list" where
  "obj_del k ps = filter (\<lambda>(k', _). k' \<noteq> k) ps"

text \<open>\<open>{...a, ...b}\<close> and an object literal.\<close>

definition obj_assign :: "(string \<times> 'v) list \<Rightarrow> (string \<times> 'v) list \<Rightarrow> (string \<times> 'v) list" where
  "obj_assign a b = foldl (\<lambda>ps (k, v). obj_put k v ps) a b"

definition obj_of :: "(string \<times> 'v) list \<Rightarrow> (string \<times> 'v) list" where
  "obj_of ps = obj_assign [] ps"

definition wf_obj :: "(string \<times> 'v) list \<Rightarrow> bool" where
  "wf_obj ps = distinct (map fst ps)"

subsection \<open>Objects as finite maps with an order\<close>

lemma map_of_insert_key:
  "k \<notin> fst ` set ps \<Longrightarrow> map_of (insert_key k v ps) = (map_of ps)(k \<mapsto> v)"
  by (induction ps) (auto simp: fun_eq_iff)

lemma map_of_replace_key:
  "map_of (replace_key k v ps) x =
     (if x = k then map_option (\<lambda>_. v) (map_of ps k) else map_of ps x)"
  by (induction ps) auto

lemma map_of_obj_put [simp]: "map_of (obj_put k v ps) = (map_of ps)(k \<mapsto> v)"
proof (cases "k \<in> fst ` set ps")
  case True
  then obtain w where "map_of ps k = Some w" by (metis map_of_eq_None_iff not_None_eq)
  with True show ?thesis by (simp add: obj_put_def fun_eq_iff map_of_replace_key)
next
  case False
  then show ?thesis by (simp add: obj_put_def map_of_insert_key)
qed

lemma map_of_obj_del [simp]: "map_of (obj_del k ps) = (map_of ps)(k := None)"
  by (induction ps) (auto simp: obj_del_def fun_eq_iff)

lemma keys_replace_key: "map fst (replace_key k v ps) = map fst ps"
  by (induction ps) auto

lemma set_keys_insert_key: "fst ` set (insert_key k v ps) = insert k (fst ` set ps)"
  by (induction k v ps rule: insert_key.induct) (simp_all add: insert_commute)

lemma set_keys_obj_put [simp]: "fst ` set (obj_put k v ps) = insert k (fst ` set ps)"
proof (cases "k \<in> fst ` set ps")
  case True
  have "fst ` set (replace_key k v ps) = set (map fst (replace_key k v ps))" by simp
  also have "\<dots> = fst ` set ps" by (simp only: keys_replace_key) simp
  finally show ?thesis using True by (simp add: obj_put_def insert_absorb)
next
  case False
  then show ?thesis by (simp add: obj_put_def set_keys_insert_key)
qed

lemma wf_obj_insert_key: "wf_obj ps \<Longrightarrow> k \<notin> fst ` set ps \<Longrightarrow> wf_obj (insert_key k v ps)"
proof (induction ps)
  case Nil
  then show ?case by (simp add: wf_obj_def)
next
  case (Cons p ps)
  obtain k' v' where p: "p = (k', v')" by (cases p)
  have "fst ` set (insert_key k v ps) = insert k (fst ` set ps)"
    by (rule set_keys_insert_key)
  with Cons p show ?case by (auto simp: wf_obj_def)
qed

lemma wf_obj_put [simp]: "wf_obj ps \<Longrightarrow> wf_obj (obj_put k v ps)"
  by (simp add: obj_put_def wf_obj_insert_key) (simp add: wf_obj_def keys_replace_key)

lemma wf_obj_del [simp]: "wf_obj ps \<Longrightarrow> wf_obj (obj_del k ps)"
  by (induction ps) (auto simp: wf_obj_def obj_del_def)

lemma wf_obj_Nil [simp]: "wf_obj []"
  by (simp add: wf_obj_def)

lemma obj_assign_simps [simp]:
  "obj_assign a [] = a"
  "obj_assign a ((k, v) # b) = obj_assign (obj_put k v a) b"
  by (simp_all add: obj_assign_def)

lemma wf_obj_assign [simp]: "wf_obj a \<Longrightarrow> wf_obj (obj_assign a b)"
  by (induction b arbitrary: a) auto

lemma set_keys_obj_assign [simp]: "fst ` set (obj_assign a b) = fst ` set a \<union> fst ` set b"
proof (induction b arbitrary: a)
  case Nil
  show ?case by simp
next
  case (Cons p b)
  obtain k v where "p = (k, v)" by (cases p)
  then show ?case by (simp add: Cons.IH)
qed

lemma map_of_obj_assign:
  "wf_obj b \<Longrightarrow> map_of (obj_assign a b) = map_of a ++ map_of b"
proof (induction b arbitrary: a)
  case Nil
  then show ?case by simp
next
  case (Cons p b)
  obtain k v where p: "p = (k, v)" by (cases p)
  from Cons.prems p have "wf_obj b" and k: "map_of b k = None"
    by (auto simp: wf_obj_def map_of_eq_None_iff)
  with Cons.IH [of "obj_put k v a"] p show ?case
    by (auto simp: fun_eq_iff map_add_def split: option.splits)
qed

lemma wf_obj_of [simp]: "wf_obj (obj_of ps)"
  by (simp add: obj_of_def)

section \<open>Property access\<close>

definition arr_props :: "'v list \<Rightarrow> (nat \<Rightarrow> string) \<Rightarrow> (string \<times> 'v) list" where
  "arr_props xs f = map (\<lambda>i. (f i, xs ! i)) [0..<length xs]"

text \<open>
  \<open>v?.k\<close>: the value of an own property, \<open>undefined\<close> where there is none. \<open>v.k\<close> is the same
  on every value but \<open>undefined\<close> and \<open>null\<close>, where it throws.
\<close>

fun jget :: "jsv \<Rightarrow> string \<Rightarrow> jsv" where
  "jget (JObj ps) k = (case map_of ps k of None \<Rightarrow> JUndef | Some v \<Rightarrow> v)"
| "jget (JArr xs) k =
     (if k = ''length'' then JInt (int (length xs))
      else if is_index_key k \<and> nat_of_digits k < length xs then xs ! nat_of_digits k
      else JUndef)"
| "jget (JStr s) k =
     (if k = ''length'' then JInt (int (length s))
      else if is_index_key k \<and> nat_of_digits k < length s then JStr [s ! nat_of_digits k]
      else JUndef)"
| "jget _ _ = JUndef"

definition jprop :: "jsv \<Rightarrow> string \<Rightarrow> jsv js" where
  "jprop v k =
     (if nullish v then Inl (TypeError (''Cannot read properties, reading '' @ k))
      else Inr (jget v k))"

definition js_bind :: "'a js \<Rightarrow> ('a \<Rightarrow> 'b js) \<Rightarrow> 'b js" where
  "js_bind m f = (case m of Inl e \<Rightarrow> Inl e | Inr x \<Rightarrow> f x)"

lemma js_bind_simps [simp]:
  "js_bind (Inl e) f = Inl e"
  "js_bind (Inr x) f = f x"
  by (simp_all add: js_bind_def)

lemma js_bind_Inr: "js_bind m f = Inr y \<longleftrightarrow> (\<exists>x. m = Inr x \<and> f x = Inr y)"
  by (cases m) auto

text \<open>A callback that may throw, applied along an array.\<close>

fun js_mapM :: "('a \<Rightarrow> 'b js) \<Rightarrow> 'a list \<Rightarrow> 'b list js" where
  "js_mapM f [] = Inr []"
| "js_mapM f (x # xs) = js_bind (f x) (\<lambda>y. js_bind (js_mapM f xs) (\<lambda>ys. Inr (y # ys)))"

lemma js_mapM_Inr: "(\<And>x. x \<in> set xs \<Longrightarrow> f x = Inr (g x)) \<Longrightarrow> js_mapM f xs = Inr (map g xs)"
  by (induction xs) auto

lemma js_mapM_returns: "(\<exists>ys. js_mapM f xs = Inr ys) \<longleftrightarrow> (\<forall>x\<in>set xs. \<exists>y. f x = Inr y)"
proof (induction xs)
  case (Cons x xs)
  show ?case
  proof (cases "f x")
    case (Inr y)
    with Cons show ?thesis by (auto simp: js_bind_Inr)
  qed simp
qed simp

text \<open>Searching and filtering with a predicate that may throw.\<close>

fun js_findIdx :: "('a \<Rightarrow> bool js) \<Rightarrow> 'a list \<Rightarrow> nat option js" where
  "js_findIdx p [] = Inr None"
| "js_findIdx p (x # xs) =
     js_bind (p x) (\<lambda>b. if b then Inr (Some 0)
                         else js_bind (js_findIdx p xs) (\<lambda>r. Inr (map_option Suc r)))"

fun js_find :: "('a \<Rightarrow> bool js) \<Rightarrow> 'a list \<Rightarrow> 'a option js" where
  "js_find p [] = Inr None"
| "js_find p (x # xs) = js_bind (p x) (\<lambda>b. if b then Inr (Some x) else js_find p xs)"

fun js_filter :: "('a \<Rightarrow> bool js) \<Rightarrow> 'a list \<Rightarrow> 'a list js" where
  "js_filter p [] = Inr []"
| "js_filter p (x # xs) =
     js_bind (p x) (\<lambda>b. js_bind (js_filter p xs) (\<lambda>ys. Inr (if b then x # ys else ys)))"

lemma js_find_none: "(\<And>x. x \<in> set xs \<Longrightarrow> p x = Inr False) \<Longrightarrow> js_find p xs = Inr None"
  by (induction xs) auto

lemma js_findIdx_total:
  "(\<And>x. x \<in> set xs \<Longrightarrow> p x = Inr (q x)) \<Longrightarrow> js_findIdx p xs = Inr (findIdx q xs)"
  by (induction xs) auto

text \<open>\<open>o.k = v\<close> on an object.\<close>

fun jset :: "jsv \<Rightarrow> string \<Rightarrow> jsv \<Rightarrow> jsv" where
  "jset (JObj ps) k v = JObj (obj_put k v ps)"
| "jset w k v = w"

lemma jget_JObj_put [simp]:
  "jget (JObj (obj_put k v ps)) k' = (if k' = k then v else jget (JObj ps) k')"
  by simp

section \<open>Object literals with spreads\<close>

definition props_of :: "jsv \<Rightarrow> props" where
  "props_of v = (case v of JObj ps \<Rightarrow> ps | _ \<Rightarrow> [])"

datatype obj_part = Prop string jsv | Spread jsv

fun part_props :: "obj_part \<Rightarrow> props" where
  "part_props (Prop k v) = [(k, v)]"
| "part_props (Spread v) = props_of v"

text \<open>\<open>{ k: v, ...w }\<close>: the parts are written from left to right, a later key overwrites.\<close>

definition js_object :: "obj_part list \<Rightarrow> jsv" where
  "js_object parts = JObj (obj_of (concat (map part_props parts)))"

lemma props_of_JObj [simp]: "props_of (JObj ps) = ps"
  by (simp add: props_of_def)

lemma js_object_wf: "\<exists>ps. js_object parts = JObj ps \<and> wf_obj ps"
  by (simp add: js_object_def)

section \<open>Values inside values\<close>

lemma size_prop: "(k, s) \<in> set ps \<Longrightarrow> size s < size (JObj ps)"
  by (induction ps) auto

lemma size_jget: "jget (JObj ps) k \<noteq> JUndef \<Longrightarrow> size (jget (JObj ps) k) < size (JObj ps)"
  using map_of_SomeD [of ps k] size_prop by (fastforce split: option.splits)

lemma size_elem: "s \<in> set xs \<Longrightarrow> size s < size (JArr xs)"
  by (induction xs) auto

lemma size_jget_prop: "jget (JObj ps) k = JObj qs \<Longrightarrow> (c, s) \<in> set qs \<Longrightarrow> size s < size (JObj ps)"
  using size_jget [of ps k] size_prop [of c s qs] by simp

lemma size_jget_elem: "jget (JObj ps) k = JArr xs \<Longrightarrow> s \<in> set xs \<Longrightarrow> size s < size (JObj ps)"
  using size_jget [of ps k] size_elem [of s xs] by simp

lemma size_jget_Suc:
  "jget (JObj ps) k \<noteq> JUndef \<Longrightarrow> size (jget (JObj ps) k) < Suc (size_list (size_prod (\<lambda>x. 0) size) ps)"
  using size_jget [of ps k] by (simp del: jget.simps)

end
