(* ===== verification/Js_String.thy ===== *)
theory Js_String
  imports Js_Value
begin

text \<open>
  Strings and numbers of the language: decimal printing, \<open>Number(s)\<close>, \<open>parseInt\<close>,
  \<open>trim\<close>, \<open>split\<close>, \<open>includes\<close>, \<open>indexOf\<close>, \<open>slice\<close>, \<open>toLowerCase\<close>; and the round
  trip between printing a natural number and reading it back.
\<close>

section \<open>Printing numbers\<close>

definition digit_char :: "nat \<Rightarrow> char" where
  "digit_char d = char_of (48 + d)"

fun nat_str :: "nat \<Rightarrow> string" where
  "nat_str n = (if n < 10 then [digit_char n] else nat_str (n div 10) @ [digit_char (n mod 10)])"

declare nat_str.simps [simp del]

definition int_str :: "int \<Rightarrow> string" where
  "int_str n = (if n < 0 then CHR ''-'' # nat_str (nat (- n)) else nat_str (nat n))"

text \<open>
  \<open>String(x)\<close> for numbers whose shortest decimal form needs no exponent: at most twenty digits
  after the point are printed.
\<close>

fun frac_digits :: "nat \<Rightarrow> rat \<Rightarrow> string" where
  "frac_digits 0 f = []"
| "frac_digits (Suc n) f =
     (if f = 0 then [] else digit_char (nat \<lfloor>10 * f\<rfloor>) # frac_digits n (10 * f - of_int \<lfloor>10 * f\<rfloor>))"

definition is_int :: "rat \<Rightarrow> bool" where
  "is_int q = (of_int \<lfloor>q\<rfloor> = q)"

fun num_str :: "jsnum \<Rightarrow> string" where
  "num_str NaN = ''NaN''"
| "num_str PInf = ''Infinity''"
| "num_str NInf = ''-Infinity''"
| "num_str (Fin q) =
     (if is_int q then int_str \<lfloor>q\<rfloor>
      else (if q < 0 then ''-'' else []) @ nat_str (nat \<lfloor>\<bar>q\<bar>\<rfloor>) @ ''.''
           @ frac_digits 20 (\<bar>q\<bar> - of_int \<lfloor>\<bar>q\<bar>\<rfloor>))"

lemma is_int_of_int [simp]: "is_int (of_int n)"
  by (simp add: is_int_def)

lemma num_str_of_int [simp]: "num_str (Fin (of_int n)) = int_str n"
  by simp

lemma int_str_of_nat [simp]: "int_str (int n) = nat_str n"
  by (simp add: int_str_def)

lemma digit_char_0 [simp]: "digit_char 0 = CHR ''0''"
  by code_simp

lemma is_int_nums [simp]: "is_int 0" "is_int 1" "is_int (numeral w)"
  using is_int_of_int [of 0] is_int_of_int [of 1] is_int_of_int [of "numeral w"] by simp_all

lemma num_str_0 [simp]: "num_str (Fin 0) = ''0''"
  by (simp add: int_str_def nat_str.simps digit_char_0)

lemma int_str_0 [simp]: "int_str 0 = ''0''"
  by (simp add: int_str_def nat_str.simps digit_char_0)

lemma digit_char_simps:
  assumes "d < 10"
  shows "digit (digit_char d)" "digit_val (digit_char d) = d"
  using assms by (auto simp: digit_def digit_val_def digit_char_def of_char_of)

lemma nat_of_digits_snoc [simp]: "nat_of_digits (s @ [c]) = 10 * nat_of_digits s + digit_val c"
  by (simp add: nat_of_digits_def)

lemma nat_of_digits_nat_str [simp]: "nat_of_digits (nat_str n) = n"
proof (induction n rule: nat_str.induct)
  case (1 n)
  show ?case
  proof (cases "n < 10")
    case True
    then show ?thesis
      by (subst nat_str.simps) (simp add: nat_of_digits_def digit_char_simps)
  next
    case False
    with "1.IH" show ?thesis by (subst nat_str.simps) (simp add: digit_char_simps)
  qed
qed

lemma digits_nat_str [simp]: "list_all digit (nat_str n)"
proof (induction n rule: nat_str.induct)
  case (1 n)
  then show ?case by (subst nat_str.simps) (simp add: digit_char_simps)
qed

lemma nat_str_nonempty [simp]: "nat_str n \<noteq> []"
  by (subst nat_str.simps) simp

lemma nat_str_inj [simp]: "nat_str m = nat_str n \<longleftrightarrow> m = n"
  using nat_of_digits_nat_str by metis

text \<open>A value in a template string or in \<open>String(v)\<close>; arrays and objects are not told apart.\<close>

definition str_of :: "jsv \<Rightarrow> string" where
  "str_of v = (case v of JStr s \<Rightarrow> s | JUndef \<Rightarrow> ''undefined'' | JNull \<Rightarrow> ''null'' | JNum n \<Rightarrow> num_str n
     | JBool b \<Rightarrow> (if b then ''true'' else ''false'') | _ \<Rightarrow> ''[object Object]'')"

section \<open>White space and case\<close>

definition is_space :: "char \<Rightarrow> bool" where
  "is_space c = ((of_char c :: nat) \<in> {9, 10, 11, 12, 13, 32, 160})"

definition js_trim :: "string \<Rightarrow> string" where
  "js_trim s = rev (dropWhile is_space (rev (dropWhile is_space s)))"

text \<open>\<open>toLowerCase\<close> on Latin-1: A to Z and the accented capitals, the multiplication sign left out.\<close>

definition lower_char :: "char \<Rightarrow> char" where
  "lower_char c =
     (let n = (of_char c :: nat) in
      if (65 \<le> n \<and> n \<le> 90) \<or> (192 \<le> n \<and> n \<le> 222 \<and> n \<noteq> 215) then char_of (n + 32) else c)"

definition to_lower :: "string \<Rightarrow> string" where
  "to_lower s = map lower_char s"

lemma digit_not_space: "digit c \<Longrightarrow> \<not> is_space c"
  by (auto simp: digit_def is_space_def)

lemma dropWhile_none: "list_all (\<lambda>c. \<not> p c) s \<Longrightarrow> dropWhile p s = s"
  by (cases s) auto

lemma js_trim_digits: "list_all digit s \<Longrightarrow> js_trim s = s"
proof -
  assume s: "list_all digit s"
  then have "list_all (\<lambda>c. \<not> is_space c) s" "list_all (\<lambda>c. \<not> is_space c) (rev s)"
    by (auto simp: list_all_iff digit_not_space)
  then show ?thesis by (simp add: js_trim_def dropWhile_none)
qed

lemma dropWhile_idem: "dropWhile p (dropWhile p s) = dropWhile p s"
  by (induction s) auto

section \<open>Reading numbers\<close>

definition strip_sign :: "string \<Rightarrow> bool \<times> string" where
  "strip_sign s =
     (case s of [] \<Rightarrow> (False, [])
      | c # r \<Rightarrow> if c = CHR ''-'' then (True, r) else if c = CHR ''+'' then (False, r) else (False, s))"

definition decimal_value :: "string \<Rightarrow> rat option" where
  "decimal_value s =
     (let ip = takeWhile digit s; r1 = dropWhile digit s;
          fp = (case r1 of c # r \<Rightarrow> if c = CHR ''.'' then takeWhile digit r else [] | [] \<Rightarrow> []);
          r2 = (case r1 of c # r \<Rightarrow> if c = CHR ''.'' then dropWhile digit r else r1 | [] \<Rightarrow> []);
          m = of_nat (nat_of_digits (ip @ fp)) / 10 ^ length fp
      in if ip = [] \<and> fp = [] then None
         else (case r2 of [] \<Rightarrow> Some m
               | e # r3 \<Rightarrow>
                   if e = CHR ''e'' \<or> e = CHR ''E'' then
                     (case strip_sign r3 of (neg, ds) \<Rightarrow>
                        if ds \<noteq> [] \<and> list_all digit ds
                        then Some (if neg then m / 10 ^ nat_of_digits ds else m * 10 ^ nat_of_digits ds)
                        else None)
                   else None))"

definition radix_digit :: "nat \<Rightarrow> char \<Rightarrow> nat option" where
  "radix_digit b c =
     (let n = (of_char c :: nat);
          v = (if digit c then Some (digit_val c)
               else if 97 \<le> n \<and> n \<le> 122 then Some (n - 87)
               else if 65 \<le> n \<and> n \<le> 90 then Some (n - 55) else None)
      in case v of Some d \<Rightarrow> if d < b then Some d else None | None \<Rightarrow> None)"

definition radix_value :: "nat \<Rightarrow> string \<Rightarrow> nat" where
  "radix_value b s = foldl (\<lambda>n c. b * n + (case radix_digit b c of Some d \<Rightarrow> d | None \<Rightarrow> 0)) 0 s"

definition radix_literal :: "nat \<Rightarrow> string \<Rightarrow> jsnum" where
  "radix_literal b s =
     (if s \<noteq> [] \<and> list_all (\<lambda>c. radix_digit b c \<noteq> None) s then Fin (of_nat (radix_value b s)) else NaN)"

text \<open>\<open>Number(s)\<close>.\<close>

definition js_Number :: "string \<Rightarrow> jsnum" where
  "js_Number s =
     (let t = js_trim s in
      if t = [] then Fin 0
      else if take 2 t = ''0x'' \<or> take 2 t = ''0X'' then radix_literal 16 (drop 2 t)
      else if take 2 t = ''0o'' \<or> take 2 t = ''0O'' then radix_literal 8 (drop 2 t)
      else if take 2 t = ''0b'' \<or> take 2 t = ''0B'' then radix_literal 2 (drop 2 t)
      else (case strip_sign t of (neg, u) \<Rightarrow>
              if u = ''Infinity'' then (if neg then NInf else PInf)
              else (case decimal_value u of None \<Rightarrow> NaN | Some q \<Rightarrow> Fin (if neg then - q else q))))"

text \<open>\<open>parseInt(s, b)\<close> without the hexadecimal prefix: the longest run of digits of the base.\<close>

definition js_parseInt :: "nat \<Rightarrow> string \<Rightarrow> jsnum" where
  "js_parseInt b s =
     (case strip_sign (dropWhile is_space s) of (neg, u) \<Rightarrow>
        let ds = takeWhile (\<lambda>c. radix_digit b c \<noteq> None) u in
        if ds = [] then NaN
        else Fin (if neg then - of_nat (radix_value b ds) else of_nat (radix_value b ds)))"

lemma takeWhile_digits: "list_all p s \<Longrightarrow> takeWhile p s = s \<and> dropWhile p s = []"
  by (induction s) auto

lemma strip_sign_digits: "list_all digit s \<Longrightarrow> strip_sign s = (False, s)"
  by (cases s) (auto simp: strip_sign_def digit_def)

lemma decimal_value_digits:
  "list_all digit s \<Longrightarrow> s \<noteq> [] \<Longrightarrow> decimal_value s = Some (of_nat (nat_of_digits s))"
  by (simp add: decimal_value_def takeWhile_digits)

lemma digits_no_prefix:
  assumes "list_all digit s" "\<not> digit c"
  shows "take 2 s \<noteq> [d, c]"
proof
  assume *: "take 2 s = [d, c]"
  then have "c \<in> set (take 2 s)" by simp
  then have "c \<in> set s" by (meson in_set_takeD)
  with assms show False by (auto simp: list_all_iff)
qed

lemma js_Number_digits:
  assumes "list_all digit s" "s \<noteq> []"
  shows "js_Number s = Fin (of_nat (nat_of_digits s))"
proof -
  have nd: "\<not> digit CHR ''x''" "\<not> digit CHR ''X''" "\<not> digit CHR ''o''" "\<not> digit CHR ''O''"
    "\<not> digit CHR ''b''" "\<not> digit CHR ''B''" by (simp_all add: digit_def)
  have "s \<noteq> ''Infinity''"
    using assms(1) by (auto simp: digit_def)
  then show ?thesis
    using assms by (simp add: js_Number_def js_trim_digits Let_def digits_no_prefix nd
        strip_sign_digits decimal_value_digits)
qed

lemma js_Number_nat_str [simp]: "js_Number (nat_str n) = Fin (of_nat n)"
  by (simp add: js_Number_digits)

section \<open>Searching and cutting\<close>

definition starts_with :: "string \<Rightarrow> string \<Rightarrow> bool" where
  "starts_with s p = (take (length p) s = p)"

definition ends_with :: "string \<Rightarrow> string \<Rightarrow> bool" where
  "ends_with s p = (length p \<le> length s \<and> drop (length s - length p) s = p)"

text \<open>\<open>s.indexOf(p)\<close>, with \<open>None\<close> for \<open>-1\<close>, and \<open>s.includes(p)\<close>.\<close>

fun index_of :: "string \<Rightarrow> string \<Rightarrow> nat option" where
  "index_of [] p = (if p = [] then Some 0 else None)"
| "index_of (c # s) p = (if starts_with (c # s) p then Some 0 else map_option Suc (index_of s p))"

definition str_includes :: "string \<Rightarrow> string \<Rightarrow> bool" where
  "str_includes s p = (index_of s p \<noteq> None)"

text \<open>\<open>s.split(c)\<close> for a separator of one character.\<close>

fun split_on :: "char \<Rightarrow> string \<Rightarrow> string list" where
  "split_on c [] = [[]]"
| "split_on c (x # s) =
     (if x = c then [] # split_on c s
      else (case split_on c s of [] \<Rightarrow> [[x]] | p # ps \<Rightarrow> (x # p) # ps))"

text \<open>\<open>ss.join(c)\<close>.\<close>

fun join_with :: "string \<Rightarrow> string list \<Rightarrow> string" where
  "join_with c [] = []"
| "join_with c [s] = s"
| "join_with c (s # ss) = s @ c @ join_with c ss"

lemma split_on_nonempty [simp]: "split_on c s \<noteq> []"
  by (cases s) (auto split: list.splits)

lemma length_split_on: "length (split_on c s) = Suc (count_list s c)"
proof (induction s)
  case Nil
  show ?case by simp
next
  case (Cons x s)
  then show ?case by (cases "split_on c s") auto
qed

lemma split_on_none: "c \<notin> set s \<Longrightarrow> split_on c s = [s]"
  by (induction s) auto

lemma split_on_append: "c \<notin> set s \<Longrightarrow> split_on c (s @ c # r) = s # split_on c r"
  by (induction s) auto

lemma join_split: "join_with [c] (split_on c s) = s"
proof (induction s)
  case Nil
  show ?case by simp
next
  case (Cons x s)
  obtain p ps where p: "split_on c s = p # ps" by (cases "split_on c s") auto
  with Cons.IH show ?case by (cases ps) auto
qed

lemma split_on_pieces: "p \<in> set (split_on c s) \<Longrightarrow> c \<notin> set p"
proof (induction s arbitrary: p)
  case Nil
  then show ?case by simp
next
  case (Cons x s)
  obtain q qs where q: "split_on c s = q # qs" by (cases "split_on c s") auto
  with Cons show ?case by (auto split: if_splits)
qed

lemma starts_with_append [simp]: "starts_with (p @ s) p"
  by (simp add: starts_with_def)

lemma starts_with_iff: "starts_with s p \<longleftrightarrow> (\<exists>r. s = p @ r)"
  by (metis append_take_drop_id starts_with_append starts_with_def)

lemma index_of_SomeD:
  "index_of s p = Some i \<Longrightarrow> i \<le> length s \<and> starts_with (drop i s) p"
proof (induction s arbitrary: i)
  case Nil
  then show ?case by (auto simp: starts_with_def split: if_splits)
next
  case (Cons c s)
  then show ?case by (auto split: if_splits)
qed

lemma index_of_None: "index_of s p = None \<longleftrightarrow> (\<forall>i\<le>length s. \<not> starts_with (drop i s) p)"
proof (induction s)
  case Nil
  then show ?case by (auto simp: starts_with_def)
next
  case (Cons c s)
  have "(\<forall>i\<le>Suc (length s). \<not> starts_with (drop i (c # s)) p) \<longleftrightarrow>
      \<not> starts_with (c # s) p \<and> (\<forall>i\<le>length s. \<not> starts_with (drop i s) p)"
    by (metis Suc_le_mono drop0 drop_Suc_Cons less_eq_nat.simps(1) not0_implies_Suc)
  with Cons.IH show ?case by simp
qed

end
