(* ===== verification/Js_Json.thy ===== *)
theory Js_Json
  imports Js_Value
begin

text \<open>
  A value after \<open>JSON.parse(JSON.stringify(x))\<close>, and equality of the JSON texts of two values, which
  is equality of what comes back: both keep the order of the keys.
\<close>

section \<open>A value after a trip through JSON\<close>

fun json_norm :: "jsv \<Rightarrow> jsv" where
  "json_norm JUndef = JNull"
| "json_norm JNull = JNull"
| "json_norm (JBool b) = JBool b"
| "json_norm (JNum (Fin q)) = JNum (Fin q)"
| "json_norm (JNum _) = JNull"
| "json_norm (JStr s) = JStr s"
| "json_norm (JArr xs) = JArr (map json_norm xs)"
| "json_norm (JObj ps) =
     JObj (map (\<lambda>(k, v). (k, json_norm v)) (filter (\<lambda>(k, v). v \<noteq> JUndef) ps))"

lemma json_norm_defined: "json_norm v \<noteq> JUndef"
  by (cases v rule: json_norm.cases) auto

lemma json_norm_props_idem:
  assumes "\<And>k v. (k, v) \<in> set ps \<Longrightarrow> json_norm (json_norm v) = json_norm v"
  shows "json_norm (json_norm (JObj ps)) = json_norm (JObj ps)"
  using assms by (induction ps) (auto simp: json_norm_defined split: prod.splits)

lemma json_norm_idem [simp]: "json_norm (json_norm v) = json_norm v"
proof (induction v)
  case (JNum n)
  then show ?case by (cases n) simp_all
next
  case (JObj ps)
  show ?case
  proof (rule json_norm_props_idem)
    fix k v
    assume "(k, v) \<in> set ps"
    with JObj [of "(k, v)" v] show "json_norm (json_norm v) = json_norm v" by simp
  qed
qed auto

text \<open>\<open>JSON.stringify(a) === JSON.stringify(b)\<close>.\<close>

definition json_same :: "jsv \<Rightarrow> jsv \<Rightarrow> bool" where
  "json_same a b = (json_norm a = json_norm b)"

lemma json_same_refl [simp]: "json_same a a"
  by (simp add: json_same_def)

text \<open>\<open>[...new Map(xs.map(s => [JSON.stringify(s), s])).values()]\<close>: the first place, the last value.\<close>

fun json_put :: "jsv \<Rightarrow> jsv list \<Rightarrow> jsv list" where
  "json_put s [] = [s]"
| "json_put s (x # xs) = (if json_same x s then s # xs else x # json_put s xs)"

definition json_unique :: "jsv list \<Rightarrow> jsv list" where
  "json_unique xs = foldl (\<lambda>acc s. json_put s acc) [] xs"

end
