(* ===== verification/Js_Regex.thy ===== *)
theory Js_Regex
  imports Js_String
begin

text \<open>
  Regular expressions of the sources: character classes, sequences, alternatives and repetitions. A
  match is decided by derivatives, and the language of an expression says what that decides.
\<close>

section \<open>Expressions and their languages\<close>

datatype rx =
    Never
  | Eps
  | Cls "char \<Rightarrow> bool"
  | Seq rx rx
  | Alt rx rx
  | Star rx

inductive_set star_lang :: "string set \<Rightarrow> string set" for L where
  star_Nil: "[] \<in> star_lang L"
| star_append: "s \<in> L \<Longrightarrow> t \<in> star_lang L \<Longrightarrow> s @ t \<in> star_lang L"

fun lang :: "rx \<Rightarrow> string set" where
  "lang Never = {}"
| "lang Eps = {[]}"
| "lang (Cls p) = {[c] |c. p c}"
| "lang (Seq r q) = {s @ t |s t. s \<in> lang r \<and> t \<in> lang q}"
| "lang (Alt r q) = lang r \<union> lang q"
| "lang (Star r) = star_lang (lang r)"

section \<open>Matching by derivatives\<close>

fun nullable :: "rx \<Rightarrow> bool" where
  "nullable Never = False"
| "nullable Eps = True"
| "nullable (Cls p) = False"
| "nullable (Seq r q) = (nullable r \<and> nullable q)"
| "nullable (Alt r q) = (nullable r \<or> nullable q)"
| "nullable (Star r) = True"

fun deriv :: "char \<Rightarrow> rx \<Rightarrow> rx" where
  "deriv c Never = Never"
| "deriv c Eps = Never"
| "deriv c (Cls p) = (if p c then Eps else Never)"
| "deriv c (Seq r q) =
     (if nullable r then Alt (Seq (deriv c r) q) (deriv c q) else Seq (deriv c r) q)"
| "deriv c (Alt r q) = Alt (deriv c r) (deriv c q)"
| "deriv c (Star r) = Seq (deriv c r) (Star r)"

text \<open>\<open>/^r$/.test(s)\<close>.\<close>

fun rx_match :: "rx \<Rightarrow> string \<Rightarrow> bool" where
  "rx_match r [] = nullable r"
| "rx_match r (c # s) = rx_match (deriv c r) s"

text \<open>\<open>/r/.test(s)\<close>: a match anywhere.\<close>

definition rx_search :: "rx \<Rightarrow> string \<Rightarrow> bool" where
  "rx_search r s = rx_match (Seq (Star (Cls (\<lambda>_. True))) (Seq r (Star (Cls (\<lambda>_. True))))) s"

lemma nullable_lang: "nullable r \<longleftrightarrow> [] \<in> lang r"
  by (induction r) (auto intro: star_Nil)

lemma star_lang_Cons: "c # s \<in> star_lang L \<longleftrightarrow> (\<exists>t u. s = t @ u \<and> c # t \<in> L \<and> u \<in> star_lang L)"
proof
  have "v \<in> star_lang L \<Longrightarrow> v = c # s \<Longrightarrow> \<exists>t u. s = t @ u \<and> c # t \<in> L \<and> u \<in> star_lang L" for v
  proof (induction arbitrary: s rule: star_lang.induct)
    case (star_append w t)
    then show ?case by (cases w) auto
  qed simp
  then show "c # s \<in> star_lang L \<Longrightarrow> \<exists>t u. s = t @ u \<and> c # t \<in> L \<and> u \<in> star_lang L" by blast
next
  assume "\<exists>t u. s = t @ u \<and> c # t \<in> L \<and> u \<in> star_lang L"
  then obtain t u where "s = t @ u" "c # t \<in> L" "u \<in> star_lang L" by blast
  with star_append [of "c # t" L u] show "c # s \<in> star_lang L" by simp
qed

lemma deriv_lang: "s \<in> lang (deriv c r) \<longleftrightarrow> c # s \<in> lang r"
proof (induction r arbitrary: s)
  case (Seq r q)
  have "c # s \<in> lang (Seq r q) \<longleftrightarrow>
      ([] \<in> lang r \<and> c # s \<in> lang q) \<or> (\<exists>t u. s = t @ u \<and> c # t \<in> lang r \<and> u \<in> lang q)"
    by (auto simp: Cons_eq_append_conv)
  then show ?case by (auto simp: Seq.IH nullable_lang)
next
  case (Star r)
  have "c # s \<in> lang (Star r) \<longleftrightarrow> (\<exists>t u. s = t @ u \<and> c # t \<in> lang r \<and> u \<in> star_lang (lang r))"
    by (simp add: star_lang_Cons)
  then show ?case by (auto simp: Star.IH)
qed auto

lemma rx_match_lang: "rx_match r s \<longleftrightarrow> s \<in> lang r"
  by (induction s arbitrary: r) (simp_all add: nullable_lang deriv_lang)

lemma star_any: "star_lang {[c] |c. True} = UNIV"
proof -
  have "s \<in> star_lang {[c] |c. True}" for s
  proof (induction s)
    case Nil
    show ?case by (rule star_Nil)
  next
    case (Cons c s)
    with star_append [of "[c]" "{[c] |c. True}" s] show ?case by simp
  qed
  then show ?thesis by blast
qed

lemma rx_search_lang: "rx_search r s \<longleftrightarrow> (\<exists>a m b. s = a @ m @ b \<and> m \<in> lang r)"
proof -
  have any: "lang (Star (Cls (\<lambda>_. True))) = UNIV" using star_any by simp
  show ?thesis unfolding rx_search_def rx_match_lang lang.simps(4) any by blast
qed

section \<open>Building expressions\<close>

definition lit :: "string \<Rightarrow> rx" where
  "lit s = foldr (\<lambda>c r. Seq (Cls (\<lambda>d. d = c)) r) s Eps"

text \<open>A word under the flag \<open>i\<close>; the word is in lower case.\<close>

definition lit_ci :: "string \<Rightarrow> rx" where
  "lit_ci s = foldr (\<lambda>c r. Seq (Cls (\<lambda>d. lower_char d = c)) r) s Eps"

definition opt :: "rx \<Rightarrow> rx" where
  "opt r = Alt r Eps"

definition plus :: "rx \<Rightarrow> rx" where
  "plus r = Seq r (Star r)"

definition times :: "nat \<Rightarrow> rx \<Rightarrow> rx" where
  "times n r = ((\<lambda>q. Seq r q) ^^ n) Eps"

definition seqs :: "rx list \<Rightarrow> rx" where
  "seqs rs = foldr Seq rs Eps"

definition alts :: "rx list \<Rightarrow> rx" where
  "alts rs = foldr Alt rs Never"

end
