(* ===== verification/Code_Output.thy ===== *)
theory Code_Output
  imports Js_String
begin

text \<open>
  The output contract of the code operator, from \<open>pages/agent/form/code-form/utils.ts\<close>: the
  form stores an object of outputs, of which some keys are reserved by the system; the panel shows
  one business output as a contract with a name and a type. Forms with several business outputs are
  the legacy format.
\<close>

record CodeOutputContract =
  co_name :: string
  co_type :: string

record DeserializeCodeOutputResult =
  dr_contract :: "CodeOutputContract option"
  dr_legacyOutputs :: "string list"

definition CodeExecReservedOutputKeys :: "string list" where
  "CodeExecReservedOutputKeys =
     [''content'', ''actual_type'', ''raw_result'', ''_ERROR'', ''_ARTIFACTS'', ''_ATTACHMENT_CONTENT'',
      ''_created_time'', ''_elapsed_time'']"

definition CodeExecPanelSystemOutputs :: jsv where
  "CodeExecPanelSystemOutputs =
     JObj [(''content'', JObj [(''type'', JStr ''String''), (''value'', JStr '''')]),
           (''actual_type'', JObj [(''type'', JStr ''String''), (''value'', JStr '''')])]"

definition buildDefaultCodeOutput :: CodeOutputContract where
  "buildDefaultCodeOutput = \<lparr>co_name = ''result'', co_type = ''String''\<rparr>"

definition isValidCodeOutputName :: "string \<Rightarrow> bool" where
  "isValidCodeOutputName name =
     (let v = js_trim name in
      v \<noteq> [] \<and> v \<notin> set CodeExecReservedOutputKeys \<and> \<not> str_includes v ''.'')"

definition getBusinessOutputs :: "props \<Rightarrow> props" where
  "getBusinessOutputs outputs =
     foldl (\<lambda>next (name, v). if name \<in> set CodeExecReservedOutputKeys then next else obj_put name v next)
       [] outputs"

text \<open>
  The form argument is \<open>form?.outputs ?? {}\<close>, so a missing form is an empty object. The type of
  an output is read as a string: the interface declares it so.
\<close>

definition output_type :: "jsv \<Rightarrow> string" where
  "output_type v = (case jget v ''type'' of JStr s \<Rightarrow> s | _ \<Rightarrow> [])"

definition deserializeCodeOutputContract :: "jsv \<Rightarrow> DeserializeCodeOutputResult" where
  "deserializeCodeOutputContract form =
     (let outputs = props_of (jget form ''outputs''); business = getBusinessOutputs outputs in
      case business of
        [] \<Rightarrow> \<lparr>dr_contract = Some buildDefaultCodeOutput, dr_legacyOutputs = []\<rparr>
      | [(name, v)] \<Rightarrow>
          \<lparr>dr_contract = Some \<lparr>co_name = name, co_type = output_type v\<rparr>, dr_legacyOutputs = []\<rparr>
      | _ \<Rightarrow> \<lparr>dr_contract = None, dr_legacyOutputs = map fst business\<rparr>)"

definition hasLegacyMultiOutputs :: "props \<Rightarrow> bool" where
  "hasLegacyMultiOutputs outputs = (1 < length (getBusinessOutputs outputs))"

definition serializeCodeOutputContract :: "CodeOutputContract option \<Rightarrow> jsv" where
  "serializeCodeOutputContract contract =
     (case contract of None \<Rightarrow> JObj []
      | Some c \<Rightarrow>
          let name = js_trim (co_name c); ty = js_trim (co_type c) in
          if name = [] \<or> ty = [] \<or> \<not> isValidCodeOutputName name then JObj []
          else JObj [(name, JObj [(''type'', JStr ty), (''value'', JNull)])])"

section \<open>Lemmas\<close>

lemma foldl_business_wf:
  "wf_obj acc \<Longrightarrow> wf_obj (foldl (\<lambda>next (name, v). if name \<in> set R then next else obj_put name v next) acc ps)"
  by (induction ps arbitrary: acc) auto

lemma foldl_business_keys:
  "fst ` set (foldl (\<lambda>next (name, v). if name \<in> set R then next else obj_put name v next) acc ps) =
     fst ` set acc \<union> (fst ` set ps - set R)"
proof (induction ps arbitrary: acc)
  case Nil
  show ?case by simp
next
  case (Cons p ps)
  obtain n v where "p = (n, v)" by (cases p)
  then show ?case by (auto simp: Cons.IH)
qed

lemma getBusinessOutputs_keys:
  "fst ` set (getBusinessOutputs ps) = fst ` set ps - set CodeExecReservedOutputKeys"
  by (simp add: getBusinessOutputs_def foldl_business_keys)

lemma getBusinessOutputs_single:
  "name \<notin> set CodeExecReservedOutputKeys \<Longrightarrow> getBusinessOutputs [(name, v)] = [(name, v)]"
  by (simp add: getBusinessOutputs_def obj_put_def)

lemma js_trim_idem [simp]: "js_trim (js_trim s) = js_trim s"
proof -
  define d where "d = dropWhile is_space s"
  define t where "t = js_trim s"
  have t: "rev t = dropWhile is_space (rev d)" by (simp add: t_def js_trim_def d_def)
  have "dropWhile is_space t = t"
  proof (cases t)
    case Nil
    then show ?thesis by simp
  next
    case (Cons c r)
    have "suffix (rev t) (rev d)" unfolding t by (rule suffix_dropWhile)
    then have "prefix t d" by (simp add: suffix_to_prefix)
    then obtain z where "d = t @ z" by (auto simp: prefix_def)
    with Cons have "\<not> is_space c"
      using hd_dropWhile [of is_space s] by (auto simp: d_def [symmetric])
    with Cons show ?thesis by simp
  qed
  then have "js_trim t = rev (dropWhile is_space (rev t))" by (simp add: js_trim_def)
  also have "\<dots> = t" by (simp add: t dropWhile_idem) (simp add: t [symmetric])
  finally show ?thesis by (simp add: t_def)
qed

end
