(* ===== verification/Agent_Constants.thy ===== *)
theory Agent_Constants
  imports Js_String Code_Output
begin

text \<open>
  The tables of the agent canvas, from \<open>constants/agent.tsx\<close>,
  \<open>pages/agent/constant/index.tsx\<close> and \<open>pages/agent/constant/pipeline.tsx\<close>: the operator
  kinds, the handle names, which operators may not be connected, the React Flow node type of an
  operator, and the form a new node of each operator starts with. The translation function
  \<open>t\<close> of i18next is an argument of the tables that use it.
\<close>

section \<open>Operators and handles\<close>

datatype operator =
    OpBegin | OpRetrieval | OpCategorize | OpMessage | OpRewriteQuestion
  | OpDuckDuckGo | OpWikipedia | OpPubMed | OpArXiv | OpGoogle
  | OpBing | OpGoogleScholar | OpGitHub | OpExeSQL | OpSwitch
  | OpWenCai | OpYahooFinance | OpNote | OpCrawler | OpInvoke
  | OpEmail | OpIteration | OpIterationStart | OpCode | OpWaitingDialogue
  | OpAgent | OpTool | OpTavilySearch | OpTavilyExtract | OpUserFillUp
  | OpStringTransform | OpSearXNG | OpDocGenerator | OpPlaceholder | OpDataOperations
  | OpListOperations | OpVariableAssigner | OpVariableAggregator | OpFile | OpParser
  | OpTokenizer | OpTokenChunker | OpTitleChunker | OpExtractor | OpLoop
  | OpLoopStart | OpExitLoop | OpExcelProcessor

fun op_str :: "operator \<Rightarrow> string" where
  "op_str OpBegin = ''Begin''"
| "op_str OpRetrieval = ''Retrieval''"
| "op_str OpCategorize = ''Categorize''"
| "op_str OpMessage = ''Message''"
| "op_str OpRewriteQuestion = ''RewriteQuestion''"
| "op_str OpDuckDuckGo = ''DuckDuckGo''"
| "op_str OpWikipedia = ''Wikipedia''"
| "op_str OpPubMed = ''PubMed''"
| "op_str OpArXiv = ''ArXiv''"
| "op_str OpGoogle = ''Google''"
| "op_str OpBing = ''Bing''"
| "op_str OpGoogleScholar = ''GoogleScholar''"
| "op_str OpGitHub = ''GitHub''"
| "op_str OpExeSQL = ''ExeSQL''"
| "op_str OpSwitch = ''Switch''"
| "op_str OpWenCai = ''WenCai''"
| "op_str OpYahooFinance = ''YahooFinance''"
| "op_str OpNote = ''Note''"
| "op_str OpCrawler = ''Crawler''"
| "op_str OpInvoke = ''Invoke''"
| "op_str OpEmail = ''Email''"
| "op_str OpIteration = ''Iteration''"
| "op_str OpIterationStart = ''IterationItem''"
| "op_str OpCode = ''CodeExec''"
| "op_str OpWaitingDialogue = ''WaitingDialogue''"
| "op_str OpAgent = ''Agent''"
| "op_str OpTool = ''Tool''"
| "op_str OpTavilySearch = ''TavilySearch''"
| "op_str OpTavilyExtract = ''TavilyExtract''"
| "op_str OpUserFillUp = ''UserFillUp''"
| "op_str OpStringTransform = ''StringTransform''"
| "op_str OpSearXNG = ''SearXNG''"
| "op_str OpDocGenerator = ''DocGenerator''"
| "op_str OpPlaceholder = ''Placeholder''"
| "op_str OpDataOperations = ''DataOperations''"
| "op_str OpListOperations = ''ListOperations''"
| "op_str OpVariableAssigner = ''VariableAssigner''"
| "op_str OpVariableAggregator = ''VariableAggregator''"
| "op_str OpFile = ''File''"
| "op_str OpParser = ''Parser''"
| "op_str OpTokenizer = ''Tokenizer''"
| "op_str OpTokenChunker = ''TokenChunker''"
| "op_str OpTitleChunker = ''TitleChunker''"
| "op_str OpExtractor = ''Extractor''"
| "op_str OpLoop = ''Loop''"
| "op_str OpLoopStart = ''LoopItem''"
| "op_str OpExitLoop = ''ExitLoop''"
| "op_str OpExcelProcessor = ''ExcelProcessor''"

definition all_operators :: "operator list" where
  "all_operators = [OpBegin, OpRetrieval, OpCategorize, OpMessage, OpRewriteQuestion, OpDuckDuckGo, OpWikipedia, OpPubMed, OpArXiv, OpGoogle, OpBing, OpGoogleScholar, OpGitHub, OpExeSQL, OpSwitch, OpWenCai, OpYahooFinance, OpNote, OpCrawler, OpInvoke, OpEmail, OpIteration, OpIterationStart, OpCode, OpWaitingDialogue, OpAgent, OpTool, OpTavilySearch, OpTavilyExtract, OpUserFillUp, OpStringTransform, OpSearXNG, OpDocGenerator, OpPlaceholder, OpDataOperations, OpListOperations, OpVariableAssigner, OpVariableAggregator, OpFile, OpParser, OpTokenizer, OpTokenChunker, OpTitleChunker, OpExtractor, OpLoop, OpLoopStart, OpExitLoop, OpExcelProcessor]"

text \<open>The operator a node label names, if it names one.\<close>

definition op_of :: "string \<Rightarrow> operator option" where
  "op_of s = find (\<lambda>q. op_str q = s) all_operators"

abbreviation Handle_Start :: string where
  "Handle_Start \<equiv> ''start''"

abbreviation Handle_End :: string where
  "Handle_End \<equiv> ''end''"

abbreviation Handle_Tool :: string where
  "Handle_Tool \<equiv> ''tool''"

abbreviation Handle_AgentTop :: string where
  "Handle_AgentTop \<equiv> ''agentTop''"

abbreviation Handle_AgentBottom :: string where
  "Handle_AgentBottom \<equiv> ''agentBottom''"

abbreviation Handle_AgentException :: string where
  "Handle_AgentException \<equiv> ''agentException''"

abbreviation SwitchElseTo :: string where
  "SwitchElseTo \<equiv> ''end_cpn_ids''"

section \<open>Connection rules and node types\<close>

fun RestrictedUpstreamMap :: "operator \<Rightarrow> operator list option" where
  "RestrictedUpstreamMap OpBegin = Some [OpBegin]"
| "RestrictedUpstreamMap OpCategorize = Some [OpBegin]"
| "RestrictedUpstreamMap OpRetrieval = Some [OpBegin, OpRetrieval]"
| "RestrictedUpstreamMap OpMessage = Some [OpBegin, OpMessage, OpRetrieval, OpRewriteQuestion, OpCategorize]"
| "RestrictedUpstreamMap OpRewriteQuestion = Some [OpBegin, OpMessage, OpRewriteQuestion]"
| "RestrictedUpstreamMap OpDuckDuckGo = Some [OpBegin, OpRetrieval]"
| "RestrictedUpstreamMap OpWikipedia = Some [OpBegin, OpRetrieval]"
| "RestrictedUpstreamMap OpPubMed = Some [OpBegin, OpRetrieval]"
| "RestrictedUpstreamMap OpArXiv = Some [OpBegin, OpRetrieval]"
| "RestrictedUpstreamMap OpGoogle = Some [OpBegin, OpRetrieval]"
| "RestrictedUpstreamMap OpBing = Some [OpBegin, OpRetrieval]"
| "RestrictedUpstreamMap OpGoogleScholar = Some [OpBegin, OpRetrieval]"
| "RestrictedUpstreamMap OpGitHub = Some [OpBegin, OpRetrieval]"
| "RestrictedUpstreamMap OpSearXNG = Some [OpBegin, OpRetrieval]"
| "RestrictedUpstreamMap OpExeSQL = Some [OpBegin]"
| "RestrictedUpstreamMap OpSwitch = Some [OpBegin]"
| "RestrictedUpstreamMap OpWenCai = Some [OpBegin]"
| "RestrictedUpstreamMap OpYahooFinance = Some [OpBegin]"
| "RestrictedUpstreamMap OpCrawler = Some [OpBegin]"
| "RestrictedUpstreamMap OpNote = Some []"
| "RestrictedUpstreamMap OpInvoke = Some [OpBegin]"
| "RestrictedUpstreamMap OpEmail = Some [OpBegin]"
| "RestrictedUpstreamMap OpIteration = Some [OpBegin]"
| "RestrictedUpstreamMap OpIterationStart = Some [OpBegin]"
| "RestrictedUpstreamMap OpCode = Some [OpBegin]"
| "RestrictedUpstreamMap OpWaitingDialogue = Some [OpBegin]"
| "RestrictedUpstreamMap OpAgent = Some [OpBegin]"
| "RestrictedUpstreamMap OpTavilySearch = Some [OpBegin]"
| "RestrictedUpstreamMap OpTavilyExtract = Some [OpBegin]"
| "RestrictedUpstreamMap OpStringTransform = Some [OpBegin]"
| "RestrictedUpstreamMap OpUserFillUp = Some [OpBegin]"
| "RestrictedUpstreamMap OpTool = Some [OpBegin]"
| "RestrictedUpstreamMap OpPlaceholder = Some [OpBegin]"
| "RestrictedUpstreamMap OpDataOperations = Some [OpBegin]"
| "RestrictedUpstreamMap OpListOperations = Some [OpBegin]"
| "RestrictedUpstreamMap OpVariableAssigner = Some [OpBegin]"
| "RestrictedUpstreamMap OpVariableAggregator = Some [OpBegin]"
| "RestrictedUpstreamMap OpParser = Some [OpBegin]"
| "RestrictedUpstreamMap OpTokenChunker = Some [OpBegin]"
| "RestrictedUpstreamMap OpTitleChunker = Some [OpBegin]"
| "RestrictedUpstreamMap OpTokenizer = Some [OpBegin]"
| "RestrictedUpstreamMap OpExtractor = Some [OpBegin]"
| "RestrictedUpstreamMap OpFile = Some [OpBegin]"
| "RestrictedUpstreamMap OpLoop = Some [OpBegin]"
| "RestrictedUpstreamMap OpLoopStart = Some [OpBegin]"
| "RestrictedUpstreamMap OpExitLoop = Some [OpBegin]"
| "RestrictedUpstreamMap OpDocGenerator = Some [OpBegin]"
| "RestrictedUpstreamMap _ = None"

fun NodeMap :: "operator \<Rightarrow> string option" where
  "NodeMap OpBegin = Some ''beginNode''"
| "NodeMap OpCategorize = Some ''categorizeNode''"
| "NodeMap OpRetrieval = Some ''retrievalNode''"
| "NodeMap OpMessage = Some ''messageNode''"
| "NodeMap OpRewriteQuestion = Some ''rewriteNode''"
| "NodeMap OpDuckDuckGo = Some ''ragNode''"
| "NodeMap OpWikipedia = Some ''ragNode''"
| "NodeMap OpPubMed = Some ''ragNode''"
| "NodeMap OpArXiv = Some ''ragNode''"
| "NodeMap OpGoogle = Some ''ragNode''"
| "NodeMap OpBing = Some ''ragNode''"
| "NodeMap OpGoogleScholar = Some ''ragNode''"
| "NodeMap OpGitHub = Some ''ragNode''"
| "NodeMap OpSearXNG = Some ''ragNode''"
| "NodeMap OpExeSQL = Some ''ragNode''"
| "NodeMap OpSwitch = Some ''switchNode''"
| "NodeMap OpWenCai = Some ''ragNode''"
| "NodeMap OpYahooFinance = Some ''ragNode''"
| "NodeMap OpNote = Some ''noteNode''"
| "NodeMap OpCrawler = Some ''ragNode''"
| "NodeMap OpInvoke = Some ''ragNode''"
| "NodeMap OpEmail = Some ''ragNode''"
| "NodeMap OpIteration = Some ''group''"
| "NodeMap OpIterationStart = Some ''iterationStartNode''"
| "NodeMap OpCode = Some ''ragNode''"
| "NodeMap OpWaitingDialogue = Some ''ragNode''"
| "NodeMap OpAgent = Some ''agentNode''"
| "NodeMap OpTool = Some ''toolNode''"
| "NodeMap OpTavilySearch = Some ''ragNode''"
| "NodeMap OpUserFillUp = Some ''ragNode''"
| "NodeMap OpStringTransform = Some ''ragNode''"
| "NodeMap OpTavilyExtract = Some ''ragNode''"
| "NodeMap OpPlaceholder = Some ''placeholderNode''"
| "NodeMap OpFile = Some ''fileNode''"
| "NodeMap OpParser = Some ''parserNode''"
| "NodeMap OpTokenizer = Some ''tokenizerNode''"
| "NodeMap OpTokenChunker = Some ''chunkerNode''"
| "NodeMap OpTitleChunker = Some ''chunkerNode''"
| "NodeMap OpExtractor = Some ''contextNode''"
| "NodeMap OpDataOperations = Some ''dataOperationsNode''"
| "NodeMap OpListOperations = Some ''listOperationsNode''"
| "NodeMap OpVariableAssigner = Some ''variableAssignerNode''"
| "NodeMap OpVariableAggregator = Some ''variableAggregatorNode''"
| "NodeMap OpLoop = Some ''loopNode''"
| "NodeMap OpLoopStart = Some ''loopStartNode''"
| "NodeMap OpExitLoop = Some ''exitLoopNode''"
| "NodeMap OpExcelProcessor = Some ''ragNode''"
| "NodeMap OpDocGenerator = Some ''ragNode''"

definition NoDebugOperatorsList :: "operator list" where
  "NoDebugOperatorsList = [OpBegin, OpMessage, OpRewriteQuestion, OpSwitch, OpIteration, OpUserFillUp, OpIterationStart, OpFile, OpParser, OpTokenizer, OpTokenChunker, OpTitleChunker, OpExtractor, OpTool]"

definition NoCopyOperatorsList :: "operator list" where
  "NoCopyOperatorsList = [OpFile, OpParser, OpTokenizer, OpTokenChunker, OpTitleChunker, OpExtractor]"

definition AgentOperatorList :: "operator list" where
  "AgentOperatorList = [OpRetrieval, OpCategorize, OpMessage, OpRewriteQuestion, OpSwitch, OpIteration, OpWaitingDialogue, OpNote, OpAgent]"

definition CategorizeAnchorPointPositions :: "(int \<times> int) list" where
  "CategorizeAnchorPointPositions = [(1, 34), (8, 18), (15, 10), (24, 4), (31, 1), (38, - 2), (62, - 2), (71, 1), (79, 6), (86, 12), (91, 20), (98, 34)]"

definition TypesWithArray :: "string list" where
  "TypesWithArray = [''string'', ''number'', ''boolean'', ''object'', ''array<string>'', ''array<number>'', ''array<boolean>'', ''array<object>'']"

definition InputMode :: "string list" where
  "InputMode = [''constant'', ''variable'']"

definition FileTypeSuffixMap :: props where
  "FileTypeSuffixMap = [(''pdf'', JArr [JStr ''pdf'']),
    (''spreadsheet'', JArr [JStr ''xls'', JStr ''xlsx'', JStr ''csv'']),
    (''image'', JArr [JStr ''jpg'', JStr ''jpeg'', JStr ''png'', JStr ''gif'']),
    (''email'', JArr [JStr ''eml'', JStr ''msg'']),
    (''markdown'', JArr [JStr ''md'', JStr ''markdown'', JStr ''mdx'']),
    (''text&code'', JArr [JStr ''txt'', JStr ''py'', JStr ''js'', JStr ''java'', JStr ''c'', JStr ''cpp'', JStr ''h'', JStr ''php'', JStr ''go'', JStr ''ts'', JStr ''sh'', JStr ''cs'', JStr ''kt'', JStr ''sql'']),
    (''html'', JArr [JStr ''htm'', JStr ''html'']),
    (''doc'', JArr [JStr ''doc'']),
    (''docx'', JArr [JStr ''docx'']),
    (''slides'', JArr [JStr ''pptx'', JStr ''ppt'']),
    (''video'', JArr [JStr ''mp4'', JStr ''avi'', JStr ''mkv'']),
    (''audio'', JArr [JStr ''da'', JStr ''wave'', JStr ''wav'', JStr ''mp3'', JStr ''aac'', JStr ''flac'', JStr ''ogg'', JStr ''aiff'', JStr ''au'', JStr ''midi'', JStr ''wma'', JStr ''realaudio'', JStr ''vqf'', JStr ''oggvorbis'', JStr ''ape''])]"

section \<open>Initial forms\<close>

definition variableEnabledFieldMap :: "(string \<times> string) list" where
  "variableEnabledFieldMap = [(''temperatureEnabled'', ''temperature''), (''topPEnabled'', ''top_p''), (''presencePenaltyEnabled'', ''presence_penalty''), (''frequencyPenaltyEnabled'', ''frequency_penalty''), (''maxTokensEnabled'', ''max_tokens'')]"

definition setInitialChatVariableEnabledFieldValue :: "string \<Rightarrow> bool" where
  "setInitialChatVariableEnabledFieldValue field = (field \<noteq> ''maxTokensEnabled'')"

definition variableCheckBoxFieldMap :: jsv where
  "variableCheckBoxFieldMap =
     JObj (foldl (\<lambda>pre cur. obj_put cur (JBool (setInitialChatVariableEnabledFieldValue cur)) pre) []
             (map fst variableEnabledFieldMap))"

definition initialSimilarityThresholdValue :: jsv where
  "initialSimilarityThresholdValue = JObj [(''similarity_threshold'', JNum (Fin (2 / 10)))]"

definition initialKeywordsSimilarityWeightValue :: jsv where
  "initialKeywordsSimilarityWeightValue = JObj [(''keywords_similarity_weight'', JNum (Fin (7 / 10)))]"

definition initialLlmBaseValues :: "jsv" where
  "initialLlmBaseValues = js_object [Spread variableCheckBoxFieldMap,
    Prop ''temperature'' (JNum (Fin (1 / 10))),
    Prop ''top_p'' (JNum (Fin (3 / 10))),
    Prop ''frequency_penalty'' (JNum (Fin (7 / 10))),
    Prop ''presence_penalty'' (JNum (Fin (4 / 10))),
    Prop ''max_tokens'' (JInt 256)]"

definition initialBeginValues :: "jsv" where
  "initialBeginValues = JObj [(''mode'', JStr ''conversational''),
    (''prologue'', JStr (''Hi! I'' @ [CHR 0x27] @ ''m your assistant. What can I do for you?''))]"

definition CodeTemplateStrMap_python :: string where
  "CodeTemplateStrMap_python = (''def main(arg1: str, arg2: str) -> str:'' @ [CHR 0x0A] @ ''    return f'' @ [CHR 0x22] @ ''result: {arg1 + arg2}'' @ [CHR 0x22] @ [CHR 0x0A])"

definition initialRetrievalValues :: "jsv" where
  "initialRetrievalValues = js_object [Prop ''query'' (JStr ''{sys.query}''),
    Prop ''top_n'' (JInt 8),
    Prop ''top_k'' (JInt 1024),
    Prop ''kb_ids'' (JArr []),
    Prop ''rerank_id'' (JStr ''''),
    Prop ''empty_response'' (JStr ''''),
    Spread initialSimilarityThresholdValue,
    Spread initialKeywordsSimilarityWeightValue,
    Prop ''use_kg'' (JBool False),
    Prop ''toc_enhance'' (JBool False),
    Prop ''cross_languages'' (JArr []),
    Prop ''retrieval_from'' (JStr ''dataset''),
    Prop ''outputs'' (JObj [(''formalized_content'', JObj [(''type'', JStr ''string''), (''value'', JStr '''')]),
      (''json'', JObj [(''type'', JStr ''Array<Object>''), (''value'', JArr [])])])]"

definition initialRewriteQuestionValues :: "jsv" where
  "initialRewriteQuestionValues = js_object [Spread initialLlmBaseValues,
    Prop ''language'' (JStr ''''),
    Prop ''message_history_window_size'' (JInt 6)]"

definition initialRelevantValues :: "jsv" where
  "initialRelevantValues = js_object [Spread initialLlmBaseValues]"

definition initialCategorizeValues :: "jsv" where
  "initialCategorizeValues = js_object [Spread initialLlmBaseValues,
    Prop ''query'' (JStr ''sys.query''),
    Prop ''parameter'' (JStr ''Precise''),
    Prop ''message_history_window_size'' (JInt 1),
    Prop ''items'' (JArr []),
    Prop ''outputs'' (JObj [(''category_name'', JObj [(''type'', JStr ''string'')])])]"

definition initialMessageValues :: "jsv" where
  "initialMessageValues = JObj [(''content'', JArr [JStr ''''])]"

definition initialExcelProcessorValues :: "jsv" where
  "initialExcelProcessorValues = JObj [(''input_files'', JArr []),
    (''operation'', JStr ''read''),
    (''sheet_selection'', JStr ''all''),
    (''merge_strategy'', JStr ''concat''),
    (''join_on'', JStr ''''),
    (''transform_data'', JStr ''''),
    (''output_format'', JStr ''xlsx''),
    (''output_filename'', JStr ''output''),
    (''outputs'', JObj [(''data'', JObj [(''type'', JStr ''object''), (''value'', JObj [])]),
      (''summary'', JObj [(''type'', JStr ''string''), (''value'', JStr '''')]),
      (''markdown'', JObj [(''type'', JStr ''string''), (''value'', JStr '''')])])]"

definition initialDuckValues :: "jsv" where
  "initialDuckValues = JObj [(''top_n'', JInt 10),
    (''channel'', JStr ''text''),
    (''query'', JStr ''sys.query''),
    (''outputs'', JObj [(''formalized_content'', JObj [(''value'', JStr ''''), (''type'', JStr ''string'')]),
      (''json'', JObj [(''value'', JArr []), (''type'', JStr ''Array<Object>'')])])]"

definition initialSearXNGValues :: "jsv" where
  "initialSearXNGValues = JObj [(''top_n'', JStr ''10''),
    (''searxng_url'', JStr ''''),
    (''query'', JStr ''sys.query''),
    (''outputs'', JObj [(''formalized_content'', JObj [(''value'', JStr ''''), (''type'', JStr ''string'')]),
      (''json'', JObj [(''value'', JArr []), (''type'', JStr ''Array<Object>'')])])]"

definition initialWikipediaValues :: "jsv" where
  "initialWikipediaValues = JObj [(''top_n'', JInt 10),
    (''language'', JStr ''en''),
    (''query'', JStr ''sys.query''),
    (''outputs'', JObj [(''formalized_content'', JObj [(''value'', JStr ''''), (''type'', JStr ''string'')])])]"

definition initialPubMedValues :: "jsv" where
  "initialPubMedValues = JObj [(''top_n'', JInt 12),
    (''email'', JStr ''''),
    (''query'', JStr ''sys.query''),
    (''outputs'', JObj [(''formalized_content'', JObj [(''value'', JStr ''''), (''type'', JStr ''string'')])])]"

definition initialArXivValues :: "jsv" where
  "initialArXivValues = JObj [(''top_n'', JInt 12),
    (''sort_by'', JStr ''relevance''),
    (''query'', JStr ''sys.query''),
    (''outputs'', JObj [(''formalized_content'', JObj [(''value'', JStr ''''), (''type'', JStr ''string'')])])]"

definition initialGoogleValues :: "jsv" where
  "initialGoogleValues = JObj [(''q'', JStr ''sys.query''),
    (''start'', JInt 0),
    (''num'', JInt 12),
    (''api_key'', JStr ''''),
    (''country'', JStr ''us''),
    (''language'', JStr ''en''),
    (''outputs'', JObj [(''formalized_content'', JObj [(''value'', JStr ''''), (''type'', JStr ''string'')]),
      (''json'', JObj [(''value'', JArr []), (''type'', JStr ''Array<Object>'')])])]"

definition initialBingValues :: "jsv" where
  "initialBingValues = JObj [(''top_n'', JInt 10),
    (''channel'', JStr ''Webpages''),
    (''api_key'', JStr ''YOUR_API_KEY (obtained from https://www.microsoft.com/en-us/bing/apis/bing-web-search-api)''),
    (''country'', JStr ''CH''),
    (''language'', JStr ''en''),
    (''query'', JStr '''')]"

definition initialGoogleScholarValues :: "jsv" where
  "initialGoogleScholarValues = JObj [(''top_n'', JInt 12),
    (''sort_by'', JStr ''relevance''),
    (''patents'', JBool True),
    (''query'', JStr ''sys.query''),
    (''year_low'', JUndef),
    (''year_high'', JUndef),
    (''outputs'', JObj [(''formalized_content'', JObj [(''value'', JStr ''''), (''type'', JStr ''string'')]),
      (''json'', JObj [(''value'', JArr []), (''type'', JStr ''Array<Object>'')])])]"

definition initialGithubValues :: "jsv" where
  "initialGithubValues = JObj [(''top_n'', JInt 5),
    (''query'', JStr ''sys.query''),
    (''outputs'', JObj [(''formalized_content'', JObj [(''value'', JStr ''''), (''type'', JStr ''string'')]),
      (''json'', JObj [(''value'', JArr []), (''type'', JStr ''Array<Object>'')])])]"

definition initialExeSqlValues :: "jsv" where
  "initialExeSqlValues = JObj [(''sql'', JStr ''''),
    (''db_type'', JStr ''mysql''),
    (''database'', JStr ''''),
    (''username'', JStr ''''),
    (''host'', JStr ''''),
    (''port'', JInt 3306),
    (''password'', JStr ''''),
    (''max_records'', JInt 1024),
    (''outputs'', JObj [(''formalized_content'', JObj [(''value'', JStr ''''), (''type'', JStr ''string'')]),
      (''json'', JObj [(''value'', JArr []), (''type'', JStr ''Array<Object>'')])])]"

definition initialSwitchValues :: "jsv" where
  "initialSwitchValues = JObj [(''conditions'', JArr [JObj [(''logical_operator'', JStr ''and''),
        (''items'', JArr [JObj [(''operator'', JStr ''='')]]),
        (''to'', JArr [])]]),
    (''end_cpn_ids'', JArr [])]"

definition initialWenCaiValues :: "jsv" where
  "initialWenCaiValues = JObj [(''top_n'', JInt 20),
    (''query_type'', JStr ''stock''),
    (''query'', JStr ''sys.query''),
    (''outputs'', JObj [(''report'', JObj [(''value'', JStr ''''), (''type'', JStr ''string'')])])]"

definition initialYahooFinanceValues :: "jsv" where
  "initialYahooFinanceValues = JObj [(''stock_code'', JStr ''''),
    (''info'', JBool True),
    (''history'', JBool False),
    (''financials'', JBool False),
    (''balance_sheet'', JBool False),
    (''cash_flow_statement'', JBool False),
    (''news'', JBool True),
    (''outputs'', JObj [(''report'', JObj [(''value'', JStr ''''), (''type'', JStr ''string'')])])]"

definition initialNoteValues :: "jsv" where
  "initialNoteValues = JObj [(''text'', JStr '''')]"

definition initialCrawlerValues :: "jsv" where
  "initialCrawlerValues = JObj [(''extract_type'', JStr ''markdown''), (''query'', JStr '''')]"

definition initialInvokeValues :: "jsv" where
  "initialInvokeValues = JObj [(''url'', JStr ''''),
    (''method'', JStr ''GET''),
    (''timeout'', JInt 60),
    (''headers'', JStr (''{'' @ [CHR 0x0A] @ ''  '' @ [CHR 0x22] @ ''Accept'' @ [CHR 0x22] @ '': '' @ [CHR 0x22] @ ''*/*'' @ [CHR 0x22] @ '','' @ [CHR 0x0A] @ ''  '' @ [CHR 0x22] @ ''Cache-Control'' @ [CHR 0x22] @ '': '' @ [CHR 0x22] @ ''no-cache'' @ [CHR 0x22] @ '','' @ [CHR 0x0A] @ ''  '' @ [CHR 0x22] @ ''Connection'' @ [CHR 0x22] @ '': '' @ [CHR 0x22] @ ''keep-alive'' @ [CHR 0x22] @ [CHR 0x0A] @ ''}'')),
    (''proxy'', JStr ''''),
    (''clean_html'', JBool False),
    (''variables'', JArr []),
    (''outputs'', JObj [(''result'', JObj [(''value'', JStr ''''), (''type'', JStr ''string'')])])]"

definition initialTemplateValues :: "jsv" where
  "initialTemplateValues = JObj [(''content'', JStr ''''), (''parameters'', JArr [])]"

definition initialEmailValues :: "jsv" where
  "initialEmailValues = JObj [(''smtp_server'', JStr ''''),
    (''smtp_port'', JInt 465),
    (''email'', JStr ''''),
    (''smtp_username'', JStr ''''),
    (''password'', JStr ''''),
    (''sender_name'', JStr ''''),
    (''to_email'', JStr ''''),
    (''cc_email'', JStr ''''),
    (''subject'', JStr ''''),
    (''content'', JStr ''''),
    (''outputs'', JObj [(''success'', JObj [(''value'', JBool True), (''type'', JStr ''boolean'')])])]"

definition initialIterationValues :: "jsv" where
  "initialIterationValues = JObj [(''items_ref'', JStr ''''), (''outputs'', JObj [])]"

definition initialIterationStartValues :: "jsv" where
  "initialIterationStartValues = JObj [(''outputs'', JObj [(''item'', JObj [(''type'', JStr ''unknown'')]),
      (''index'', JObj [(''type'', JStr ''integer'')])])]"

definition initialCodeValues :: jsv where
  "initialCodeValues = JObj [(''lang'', JStr ''python''),
    (''script'', JStr CodeTemplateStrMap_python),
    (''arguments'', JObj [(''arg1'', JStr ''''), (''arg2'', JStr '''')]),
    (''outputs'', serializeCodeOutputContract (Some buildDefaultCodeOutput))]"

definition initialWaitingDialogueValues :: "jsv" where
  "initialWaitingDialogueValues = JObj []"

definition initialAgentValues :: "(string \<Rightarrow> string) \<Rightarrow> jsv" where
  "initialAgentValues t = js_object [Spread initialLlmBaseValues,
    Prop ''description'' (JStr ''''),
    Prop ''user_prompt'' (JStr ''''),
    Prop ''sys_prompt'' (JStr (t ''flow.sysPromptDefaultValue'')),
    Prop ''prompts'' (JArr [JObj [(''role'', JStr ''user''), (''content'', JStr ''{sys.query}'')]]),
    Prop ''message_history_window_size'' (JInt 12),
    Prop ''max_retries'' (JInt 3),
    Prop ''delay_after_error'' (JInt 1),
    Prop ''visual_files_var'' (JStr ''''),
    Prop ''max_rounds'' (JInt 1),
    Prop ''exception_method'' (JStr ''''),
    Prop ''exception_goto'' (JArr []),
    Prop ''exception_default_value'' (JStr ''''),
    Prop ''tools'' (JArr []),
    Prop ''mcp'' (JArr []),
    Prop ''cite'' (JBool True),
    Prop ''showStructuredOutput'' (JBool False),
    Prop ''outputs'' (JObj [(''content'', JObj [(''type'', JStr ''string''), (''value'', JStr '''')])])]"

definition initialUserFillUpValues :: "jsv" where
  "initialUserFillUpValues = JObj [(''enable_tips'', JBool True),
    (''tips'', JStr ''''),
    (''inputs'', JArr []),
    (''outputs'', JObj [])]"

definition initialStringTransformValues :: "jsv" where
  "initialStringTransformValues = JObj [(''method'', JStr ''merge''),
    (''split_ref'', JStr ''''),
    (''script'', JStr ''''),
    (''delimiters'', JArr [JStr '','']),
    (''outputs'', JObj [(''result'', JObj [(''type'', JStr ''string'')])])]"

definition initialTavilyValues :: "jsv" where
  "initialTavilyValues = JObj [(''api_key'', JStr ''''),
    (''query'', JStr ''sys.query''),
    (''search_depth'', JStr ''basic''),
    (''topic'', JStr ''general''),
    (''max_results'', JInt 5),
    (''days'', JInt 7),
    (''include_answer'', JBool False),
    (''include_raw_content'', JBool True),
    (''include_images'', JBool False),
    (''include_image_descriptions'', JBool False),
    (''include_domains'', JArr []),
    (''exclude_domains'', JArr []),
    (''outputs'', JObj [(''formalized_content'', JObj [(''value'', JStr ''''), (''type'', JStr ''string'')]),
      (''json'', JObj [(''value'', JArr []), (''type'', JStr ''Array<Object>'')])])]"

definition initialTavilyExtractValues :: "jsv" where
  "initialTavilyExtractValues = JObj [(''urls'', JStr ''''),
    (''extract_depth'', JStr ''basic''),
    (''format'', JStr ''markdown''),
    (''outputs'', JObj [(''formalized_content'', JObj [(''value'', JStr ''''), (''type'', JStr ''string'')]),
      (''json'', JObj [(''value'', JArr []), (''type'', JStr ''Array<Object>'')])])]"

definition initialPlaceholderValues :: "jsv" where
  "initialPlaceholderValues = JObj []"

definition initialDataOperationsValues :: "jsv" where
  "initialDataOperationsValues = JObj [(''query'', JArr []),
    (''operations'', JStr ''select_keys''),
    (''outputs'', JObj [(''result'', JObj [(''type'', JStr ''Array<Object>'')])])]"

definition initialListOperationsValues :: "jsv" where
  "initialListOperationsValues = JObj [(''query'', JStr ''''),
    (''operations'', JStr ''nth''),
    (''strict'', JBool False),
    (''outputs'', JObj [])]"

definition initialVariableAssignerValues :: "jsv" where
  "initialVariableAssignerValues = JObj []"

definition initialVariableAggregatorValues :: "jsv" where
  "initialVariableAggregatorValues = JObj [(''outputs'', JObj []), (''groups'', JArr [])]"

definition initialLoopValues :: "jsv" where
  "initialLoopValues = JObj [(''loop_variables'', JArr []),
    (''loop_termination_condition'', JArr []),
    (''maximum_loop_count'', JInt 10),
    (''outputs'', JObj [])]"

definition initialDocGeneratorValues :: "jsv" where
  "initialDocGeneratorValues = JObj [(''output_format'', JStr ''pdf''),
    (''content'', JStr ''''),
    (''filename'', JStr ''''),
    (''header_text'', JStr ''''),
    (''footer_text'', JStr ''''),
    (''watermark_text'', JStr ''''),
    (''add_page_numbers'', JBool True),
    (''add_timestamp'', JBool True),
    (''font_size'', JInt 12),
    (''outputs'', JObj [(''download'', JObj [(''type'', JStr ''string'')])])]"

definition initialTokenizerValues :: "jsv" where
  "initialTokenizerValues = JObj [(''search_method'', JArr [JStr ''embedding'', JStr ''full_text'']),
    (''filename_embd_weight'', JNum (Fin (1 / 10))),
    (''fields'', JStr ''text''),
    (''outputs'', JObj [])]"

definition initialParserValues :: "jsv" where
  "initialParserValues = JObj [(''outputs'', JObj [(''markdown'', JObj [(''type'', JStr ''string''), (''value'', JStr '''')]),
      (''text'', JObj [(''type'', JStr ''string''), (''value'', JStr '''')]),
      (''html'', JObj [(''type'', JStr ''string''), (''value'', JStr '''')]),
      (''json'', JObj [(''type'', JStr ''Array<object>''), (''value'', JArr [])])]),
    (''setups'', JArr [JObj [(''fileFormat'', JStr ''pdf''),
        (''output_format'', JStr ''json''),
        (''parse_method'', JStr ''DeepDOC''),
        (''preprocess'', JStr ''main_content''),
        (''flatten_media_to_text'', JBool False)], JObj [(''fileFormat'', JStr ''spreadsheet''),
        (''output_format'', JStr ''html''),
        (''parse_method'', JStr ''DeepDOC''),
        (''preprocess'', JStr ''main_content''),
        (''flatten_media_to_text'', JBool False)], JObj [(''fileFormat'', JStr ''image''),
        (''output_format'', JStr ''text''),
        (''parse_method'', JStr ''ocr''),
        (''preprocess'', JStr ''main_content''),
        (''system_prompt'', JStr '''')], JObj [(''fileFormat'', JStr ''email''),
        (''fields'', JArr [JStr ''from'', JStr ''to'', JStr ''cc'', JStr ''bcc'', JStr ''date'', JStr ''subject'', JStr ''body'', JStr ''attachments'']),
        (''output_format'', JStr ''text''),
        (''preprocess'', JStr ''main_content'')], JObj [(''fileFormat'', JStr ''markdown''),
        (''output_format'', JStr ''json''),
        (''preprocess'', JStr ''main_content''),
        (''flatten_media_to_text'', JBool False)], JObj [(''fileFormat'', JStr ''text&code''),
        (''output_format'', JStr ''json''),
        (''preprocess'', JStr ''main_content'')], JObj [(''fileFormat'', JStr ''html''),
        (''output_format'', JStr ''json''),
        (''preprocess'', JStr ''main_content'')], JObj [(''fileFormat'', JStr ''doc''),
        (''output_format'', JStr ''json''),
        (''preprocess'', JStr ''main_content'')], JObj [(''fileFormat'', JStr ''docx''),
        (''output_format'', JStr ''json''),
        (''preprocess'', JStr ''main_content''),
        (''flatten_media_to_text'', JBool False)], JObj [(''fileFormat'', JStr ''slides''),
        (''output_format'', JStr ''json''),
        (''parse_method'', JStr ''DeepDOC''),
        (''preprocess'', JStr ''main_content'')]])]"

definition initialTokenChunkerValues :: "jsv" where
  "initialTokenChunkerValues = JObj [(''outputs'', JObj [(''chunks'', JObj [(''type'', JStr ''Array<Object>''), (''value'', JArr [])])]),
    (''delimiter_mode'', JStr ''token_size''),
    (''chunk_token_size'', JInt 512),
    (''overlapped_percent'', JInt 0),
    (''delimiters'', JArr [JObj [(''value'', JStr ([CHR 0x0A]))]]),
    (''image_table_context_window'', JInt 0)]"

definition initialTitleChunkerValues :: "jsv \<Rightarrow> jsv" where
  "initialTitleChunkerValues rules = JObj [(''outputs'', JObj [(''chunks'', JObj [(''type'', JStr ''Array<Object>''), (''value'', JArr [])])]),
    (''method'', JStr ''hierarchy''),
    (''hierarchy'', JStr ''3''),
    (''include_heading_content'', JBool False),
    (''root_chunk_as_heading'', JBool False),
    (''rules'', rules)]"

definition initialExtractorValues :: "jsv" where
  "initialExtractorValues = js_object [Spread initialLlmBaseValues,
    Prop ''field_name'' (JStr ''summary''),
    Prop ''outputs'' (JObj [(''chunks'', JObj [(''type'', JStr ''Array<Object>''), (''value'', JArr [])])])]"

end
