(* ===== verification/Graph_Model.thy ===== *)
theory Graph_Model
  imports Js_String Agent_Constants
begin

text \<open>
  The data of the agent canvas: nodes (\<open>RAGFlowNodeType\<close> of
  \<open>interfaces/database/agent.ts\<close>), the edges and connections of the canvas library, and the
  predicates on them that the modules under \<open>pages/agent\<close> share.

  A field that may be missing is an option. A handle keeps the source's three cases (a string,
  \<open>null\<close>, \<open>undefined\<close>) as a dynamic value, because the sources compare handles with
  \<open>===\<close>. The form of an operator is a dynamic value: its shape depends on the operator.
\<close>

section \<open>Nodes and edges\<close>

record pos =
  px :: rat
  py :: rat

record node_data =
  label :: string
  name :: string
  form :: jsv

record agent_node =
  nid :: string
  ntype :: "string option"
  npos :: pos
  width :: "rat option"
  height :: "rat option"
  parentId :: "string option"
  extent :: "string option"
  draggable :: "bool option"
  dragHandle :: "string option"
  selected :: "bool option"
  dragging :: "bool option"
  ndata :: node_data

record edge =
  eid :: string
  source :: string
  target :: string
  sourceHandle :: jsv
  targetHandle :: jsv
  edata :: jsv

record connection =
  c_source :: string
  c_target :: string
  c_sourceHandle :: jsv
  c_targetHandle :: jsv

abbreviation node_label :: "agent_node \<Rightarrow> string" where
  "node_label n \<equiv> label (ndata n)"

abbreviation node_name :: "agent_node \<Rightarrow> string" where
  "node_name n \<equiv> name (ndata n)"

abbreviation node_form :: "agent_node \<Rightarrow> jsv" where
  "node_form n \<equiv> form (ndata n)"

text \<open>\<open>x.data.label === Operator.Y\<close>.\<close>

definition is_op :: "operator \<Rightarrow> string \<Rightarrow> bool" where
  "is_op p s = (s = op_str p)"

text \<open>\<open>nodes.find(x => x.id === id)\<close>.\<close>

definition find_node :: "agent_node list \<Rightarrow> string \<Rightarrow> agent_node option" where
  "find_node nodes i = find (\<lambda>x. nid x = i) nodes"

section \<open>Well-formed graphs\<close>

text \<open>
  What the canvas keeps of its state: the ids of the nodes are distinct, the ids of the edges are
  distinct, and every edge joins two nodes that are there.
\<close>

definition node_ids :: "agent_node list \<Rightarrow> string list" where
  "node_ids nodes = map nid nodes"

definition edges_between :: "agent_node list \<Rightarrow> edge list \<Rightarrow> bool" where
  "edges_between nodes edges =
     list_all (\<lambda>e. source e \<in> set (node_ids nodes) \<and> target e \<in> set (node_ids nodes)) edges"

definition wf_graph :: "agent_node list \<Rightarrow> edge list \<Rightarrow> bool" where
  "wf_graph nodes edges =
     (distinct (node_ids nodes) \<and> distinct (map eid edges) \<and> edges_between nodes edges)"

lemma wf_graphD:
  assumes "wf_graph nodes edges"
  shows "distinct (node_ids nodes)" "distinct (map eid edges)"
    "e \<in> set edges \<Longrightarrow> source e \<in> set (node_ids nodes)"
    "e \<in> set edges \<Longrightarrow> target e \<in> set (node_ids nodes)"
  using assms by (auto simp: wf_graph_def edges_between_def list_all_iff)

lemma distinct_map_filter: "distinct (map f xs) \<Longrightarrow> distinct (map f (filter p xs))"
  by (induction xs) auto

lemma wf_graph_filter:
  assumes "wf_graph nodes edges"
    and "\<And>e. e \<in> set edges \<Longrightarrow> q e \<Longrightarrow>
           (\<forall>n\<in>set nodes. nid n = source e \<longrightarrow> p n) \<and> (\<forall>n\<in>set nodes. nid n = target e \<longrightarrow> p n)"
  shows "wf_graph (filter p nodes) (filter q edges)"
proof -
  have "source e \<in> set (node_ids (filter p nodes)) \<and> target e \<in> set (node_ids (filter p nodes))"
    if e: "e \<in> set edges" "q e" for e
    using wf_graphD(3,4) [OF assms(1) e(1)] assms(2) [OF e] by (auto simp: node_ids_def)
  with wf_graphD(1,2) [OF assms(1)] show ?thesis
    by (auto simp: wf_graph_def edges_between_def list_all_iff node_ids_def distinct_map_filter)
qed

lemma find_node_SomeD: "find_node nodes i = Some n \<Longrightarrow> nid n = i \<and> n \<in> set nodes"
  unfolding find_node_def by (drule find_SomeD) simp

lemma find_node_None [js_list]: "find_node nodes i = None \<longleftrightarrow> i \<notin> set (node_ids nodes)"
  by (induction nodes) (auto simp: find_node_def node_ids_def)

lemma find_node_unique:
  "distinct (node_ids nodes) \<Longrightarrow> n \<in> set nodes \<Longrightarrow> find_node nodes (nid n) = Some n"
  by (induction nodes) (auto simp: find_node_def node_ids_def rev_image_eqI)

section \<open>Predicates on edges\<close>

definition isEdgeEqual :: "edge \<Rightarrow> edge \<Rightarrow> bool" where
  "isEdgeEqual previous current =
     (source previous = source current \<and> target previous = target current
      \<and> sourceHandle previous = sourceHandle current)"

definition isBottomSubAgent :: "edge list \<Rightarrow> string option \<Rightarrow> bool" where
  "isBottomSubAgent edges nodeId =
     (find (\<lambda>x. Some (target x) = nodeId \<and> targetHandle x = JStr Handle_AgentTop) edges \<noteq> None)"

definition hasSubAgentOrTool :: "edge list \<Rightarrow> string option \<Rightarrow> bool" where
  "hasSubAgentOrTool edges nodeId =
     (find (\<lambda>x. Some (source x) = nodeId
                \<and> (sourceHandle x = JStr Handle_Tool \<or> sourceHandle x = JStr Handle_AgentBottom))
        edges \<noteq> None)"

definition hasSubAgent :: "edge list \<Rightarrow> string option \<Rightarrow> bool" where
  "hasSubAgent edges nodeId =
     (find (\<lambda>x. Some (source x) = nodeId \<and> sourceHandle x = JStr Handle_AgentBottom) edges \<noteq> None)"

definition mapEdgeMouseEvent :: "edge list \<Rightarrow> string \<Rightarrow> bool \<Rightarrow> edge list" where
  "mapEdgeMouseEvent edges edgeId isHovered =
     map (\<lambda>element.
       if eid element = edgeId
       then element\<lparr>edata := js_object [Spread (edata element), Prop ''isHovered'' (JBool isHovered)]\<rparr>
       else element) edges"

lemma isEdgeEqual_equiv:
  "isEdgeEqual x x"
  "isEdgeEqual x y \<Longrightarrow> isEdgeEqual y x"
  "isEdgeEqual x y \<Longrightarrow> isEdgeEqual y z \<Longrightarrow> isEdgeEqual x z"
  by (auto simp: isEdgeEqual_def)

lemma hasSubAgent_imp: "hasSubAgent edges i \<Longrightarrow> hasSubAgentOrTool edges i"
  by (auto simp: hasSubAgent_def hasSubAgentOrTool_def find_None_iff)

lemma mapEdgeMouseEvent_keeps:
  "map eid (mapEdgeMouseEvent edges i b) = map eid edges"
  "map source (mapEdgeMouseEvent edges i b) = map source edges"
  "map target (mapEdgeMouseEvent edges i b) = map target edges"
  by (simp_all add: mapEdgeMouseEvent_def)

end
