(* ===== verification/Node_Names.thy ===== *)
theory Node_Names
  imports Graph_Model "HOL-Library.Multiset"
begin

text \<open>
  Naming and copying of canvas nodes, from \<open>pages/agent/utils.ts\<close>: the next free name of the
  form \<open>name_index\<close>, the copy of a node's data, and the handles and positions a new node gets.
  The random part of an id comes from the \<open>human-id\<close> package; it is an argument here.
\<close>

section \<open>The next name with an increasing index\<close>

definition splitName :: "string \<Rightarrow> string \<times> jsnum" where
  "splitName s = (let names = split_on CHR ''_'' s in (hd names, js_Number (last names)))"

record template_name =
  tn_idx :: jsnum
  tn_name :: string

definition is_template :: "string \<Rightarrow> string \<Rightarrow> bool" where
  "is_template nm temporaryName =
     (case splitName temporaryName of (type, index) \<Rightarrow>
        count_list temporaryName CHR ''_'' = 1 \<and> type = nm \<and> index \<noteq> NaN)"

definition templateNameList :: "string \<Rightarrow> agent_node list \<Rightarrow> template_name list" where
  "templateNameList nm nodes =
     sort_key tn_idx
       (map (\<lambda>x. \<lparr>tn_idx = snd (splitName (node_name x)), tn_name = node_name x\<rparr>)
         (filter (\<lambda>x. is_template nm (node_name x)) nodes))"

text \<open>The loop over the sorted list: it stops at the first index whose successor does not follow.\<close>

fun scan_index :: "jsnum list \<Rightarrow> jsnum" where
  "scan_index [] = Fin 0"
| "scan_index [i] = num_add i (Fin 1)"
| "scan_index (i # j # r) =
     (if num_add i (Fin 1) \<noteq> j then num_add i (Fin 1) else scan_index (j # r))"

definition generateNodeNamesWithIncreasingIndex :: "string \<Rightarrow> agent_node list \<Rightarrow> string" where
  "generateNodeNamesWithIncreasingIndex nm nodes =
     nm @ ''_'' @ num_str (scan_index (map tn_idx (templateNameList nm nodes)))"

subsection \<open>The index found is not in use\<close>

definition num_of_int :: "int \<Rightarrow> jsnum" where
  "num_of_int k = Fin (of_int k)"

lemma num_of_int_inj [simp]: "num_of_int a = num_of_int b \<longleftrightarrow> a = b"
  by (simp add: num_of_int_def)

lemma num_add_of_int [simp]: "num_add (num_of_int k) (Fin 1) = num_of_int (k + 1)"
  by (simp add: num_of_int_def)

lemma num_of_int_mono [simp]: "num_of_int a \<le> num_of_int b \<longleftrightarrow> a \<le> b"
  by (simp add: num_of_int_def)

lemma scan_index_fresh:
  "sorted_wrt (<) ks \<Longrightarrow> ks \<noteq> [] \<Longrightarrow>
     \<exists>k. scan_index (map num_of_int ks) = num_of_int k \<and> k \<notin> set ks \<and> k > hd ks"
proof (induction ks rule: induct_list012)
  case 1
  then show ?case by simp
next
  case (2 i)
  then show ?case by auto
next
  case (3 i j r)
  show ?case
  proof (cases "i + 1 = j")
    case True
    with "3.IH"(2) "3.prems" obtain k
      where "scan_index (map num_of_int (j # r)) = num_of_int k" "k \<notin> set (j # r)" "k > j"
      by auto
    with True show ?thesis by auto
  next
    case False
    with "3.prems" show ?thesis by fastforce
  qed
qed

lemma sorted_distinct_ints:
  "sorted (map num_of_int ks) \<Longrightarrow> distinct (map num_of_int ks) \<Longrightarrow> sorted_wrt (<) ks"
proof (induction ks)
  case Nil
  then show ?case by simp
next
  case (Cons k ks)
  from Cons.prems have "\<forall>x\<in>set ks. k \<le> x \<and> k \<noteq> x" by auto
  with Cons show ?case by force
qed

lemma decimal_value_neg: "strip_sign (CHR ''-'' # s) = (True, s)"
  by (simp add: strip_sign_def)

lemma js_trim_minus:
  assumes "list_all digit s" "s \<noteq> []"
  shows "js_trim (CHR ''-'' # s) = CHR ''-'' # s"
proof -
  have "list_all (\<lambda>c. \<not> is_space c) (rev (CHR ''-'' # s))"
    using assms digit_not_space by (simp add: list_all_iff) (simp add: is_space_def)
  then show ?thesis
    by (simp add: js_trim_def dropWhile_none is_space_def del: rev.simps)
qed

lemma js_Number_minus:
  assumes "list_all digit s" "s \<noteq> []"
  shows "js_Number (CHR ''-'' # s) = Fin (- of_nat (nat_of_digits s))"
proof -
  have "s \<noteq> ''Infinity''" using assms(1) by (auto simp: digit_def)
  then show ?thesis
    using assms by (auto simp: js_Number_def js_trim_minus decimal_value_neg decimal_value_digits
        take_Cons')
qed

lemma js_Number_int_str [simp]: "js_Number (int_str k) = num_of_int k"
  by (cases "k < 0") (simp_all add: int_str_def num_of_int_def js_Number_minus)

lemma digits_no_underscore: "list_all digit s \<Longrightarrow> CHR ''_'' \<notin> set s"
  by (auto simp: list_all_iff digit_def)

lemma int_str_no_underscore [simp]: "CHR ''_'' \<notin> set (int_str k)"
  using digits_no_underscore [OF digits_nat_str] by (auto simp: int_str_def)

lemma splitName_underscore:
  "CHR ''_'' \<notin> set nm \<Longrightarrow> CHR ''_'' \<notin> set s \<Longrightarrow> splitName (nm @ CHR ''_'' # s) = (nm, js_Number s)"
  by (simp add: splitName_def Let_def split_on_append split_on_none)

lemma is_template_int:
  "CHR ''_'' \<notin> set nm \<Longrightarrow> is_template nm (nm @ CHR ''_'' # int_str k)"
  by (simp add: is_template_def splitName_underscore num_of_int_def count_list_0_iff)

lemma is_template_underscore: "is_template nm s \<Longrightarrow> CHR ''_'' \<notin> set nm"
  using split_on_pieces [of "hd (split_on CHR ''_'' s)" "CHR ''_''" s]
  by (auto simp: is_template_def splitName_def Let_def)

lemma templateNameList_underscore:
  "CHR ''_'' \<in> set nm \<Longrightarrow> templateNameList nm nodes = []"
  using is_template_underscore
  by (simp add: templateNameList_def) (metis (mono_tags, lifting) filter_False list.simps(8) sort_key_simps(1))

text \<open>The indices a list of nodes uses for a name, in the order of the nodes.\<close>

definition used_indices :: "string \<Rightarrow> agent_node list \<Rightarrow> jsnum list" where
  "used_indices nm nodes =
     map (\<lambda>x. snd (splitName (node_name x))) (filter (\<lambda>x. is_template nm (node_name x)) nodes)"

lemma map_tn_idx: "map tn_idx (templateNameList nm nodes) = sort (used_indices nm nodes)"
proof -
  have "map f (sort_key f xs) = sort (map f xs)" for f :: "template_name \<Rightarrow> jsnum" and xs
    by (rule properties_for_sort [symmetric]) simp_all
  then show ?thesis by (simp add: templateNameList_def used_indices_def comp_def)
qed

lemma used_indices_int:
  "CHR ''_'' \<notin> set nm \<Longrightarrow> n \<in> set nodes \<Longrightarrow> node_name n = nm @ CHR ''_'' # int_str k \<Longrightarrow>
     num_of_int k \<in> set (used_indices nm nodes)"
  by (force simp: used_indices_def is_template_int splitName_underscore)

lemma scan_index_succ:
  "ks \<noteq> [] \<Longrightarrow> \<exists>k\<in>set ks. scan_index (map num_of_int ks) = num_of_int (k + 1)"
  by (induction ks rule: induct_list012) auto

lemma sort_num_of_int: "sort (map num_of_int ks) = map num_of_int (sort ks)"
  by (intro properties_for_sort) (simp_all add: sorted_map)

lemma generated_name_shape:
  assumes "used_indices nm nodes = map num_of_int ks" "distinct ks"
  shows "\<exists>k. generateNodeNamesWithIncreasingIndex nm nodes = nm @ ''_'' @ int_str k
           \<and> (if ks = [] then k = 0 else k - 1 \<in> set ks)"
proof (cases "ks = []")
  case True
  then show ?thesis
    using assms by (intro exI [of _ 0])
      (simp add: generateNodeNamesWithIncreasingIndex_def map_tn_idx del: num_str.simps)
next
  case False
  then have "sort ks \<noteq> []" by (metis set_empty set_sort)
  from scan_index_succ [OF this] obtain k
    where "k \<in> set ks" "scan_index (map num_of_int (sort ks)) = num_of_int (k + 1)" by auto
  with False assms show ?thesis
    by (intro exI [of _ "k + 1"])
      (simp add: generateNodeNamesWithIncreasingIndex_def map_tn_idx sort_num_of_int num_of_int_def
        del: of_int_add)
qed

lemma generated_name_fresh:
  assumes nm: "CHR ''_'' \<notin> set nm"
    and ks: "used_indices nm nodes = map num_of_int ks" "distinct ks"
  shows "generateNodeNamesWithIncreasingIndex nm nodes \<notin> node_name ` set nodes"
proof -
  obtain k where k: "scan_index (map num_of_int (sort ks)) = num_of_int k" "k \<notin> set ks"
  proof (cases "ks = []")
    case True
    then show thesis using that [of 0] by (simp add: num_of_int_def)
  next
    case False
    then have "sort ks \<noteq> []" by (metis set_empty set_sort)
    with scan_index_fresh [of "sort ks"] ks(2) that show thesis
      by (auto simp: strict_sorted_iff)
  qed
  have gen: "generateNodeNamesWithIncreasingIndex nm nodes = nm @ CHR ''_'' # int_str k"
    by (simp add: generateNodeNamesWithIncreasingIndex_def map_tn_idx ks sort_num_of_int k num_of_int_def)
  show ?thesis
  proof
    assume "generateNodeNamesWithIncreasingIndex nm nodes \<in> node_name ` set nodes"
    then obtain n where "n \<in> set nodes" "node_name n = nm @ CHR ''_'' # int_str k"
      by (auto simp: gen)
    with used_indices_int [OF nm] have "num_of_int k \<in> set (used_indices nm nodes)" by blast
    with k(2) ks(1) show False by auto
  qed
qed



text \<open>
  A name that holds an underscore always gets the index 0, so two nodes named from it collide:
  once a node has the generated name, the next name generated is the same.
\<close>

theorem underscore_name_repeats:
  assumes "CHR ''_'' \<in> set nm"
  shows "generateNodeNamesWithIncreasingIndex nm nodes = nm @ ''_0''
    \<and> generateNodeNamesWithIncreasingIndex nm
        (nodes @ [n\<lparr>ndata := (ndata n)\<lparr>name := generateNodeNamesWithIncreasingIndex nm nodes\<rparr>\<rparr>])
      = generateNodeNamesWithIncreasingIndex nm nodes"
  using assms by (simp add: generateNodeNamesWithIncreasingIndex_def templateNameList_underscore
      del: num_str.simps)

theorem underscore_name_repeats_witness:
  "generateNodeNamesWithIncreasingIndex ''my_node'' [] = ''my_node_0''"
  using underscore_name_repeats [of "''my_node''" "[]"] by simp

end
