(* ===== verification/Node_Copy.thy ===== *)
theory Node_Copy
  imports Node_Names
begin

text \<open>
  Copies of canvas nodes and the small conversions around forms, from \<open>pages/agent/utils.ts\<close>.
  \<open>omit\<close> of lodash is an argument, with what the sources rely on in \<open>omit_laws\<close>; the random
  word of \<open>human-id\<close> is an argument as well.
\<close>

section \<open>Keys left out of an object\<close>

type_synonym omit_fn = "props \<Rightarrow> string list \<Rightarrow> props"

definition omit_laws :: "omit_fn \<Rightarrow> bool" where
  "omit_laws om \<longleftrightarrow>
     (\<forall>ps ks. wf_obj ps \<longrightarrow> wf_obj (om ps ks)
        \<and> (\<forall>k. map_of (om ps ks) k = (if k \<in> set ks then None else map_of ps k)))"

definition omit_ref :: omit_fn where
  "omit_ref ps ks = filter (\<lambda>(k, _). k \<notin> set ks) ps"

lemma map_of_omit_ref: "map_of (omit_ref ps ks) k = (if k \<in> set ks then None else map_of ps k)"
  by (induction ps) (auto simp: omit_ref_def)

lemma omit_ref_laws [simp]: "omit_laws omit_ref"
  by (auto simp: omit_laws_def map_of_omit_ref) (auto simp: wf_obj_def omit_ref_def distinct_map_filter)

section \<open>The copy of a node\<close>

definition getNodeDragHandle :: "string option \<Rightarrow> string option" where
  "getNodeDragHandle nodeType =
     (if nodeType = Some (op_str OpNote) then Some ''.note-drag-handle'' else None)"

text \<open>
  The fields \<open>generateDuplicateNode\<close> returns, to be spread over a node. The template literal
  prints a missing label as \<open>undefined\<close>.
\<close>

record duplicate_fields =
  du_selected :: bool
  du_dragging :: bool
  du_id :: string
  du_position :: pos
  du_dragHandle :: "string option"

definition generateDuplicateNode :: "string \<Rightarrow> pos option \<Rightarrow> string option \<Rightarrow> duplicate_fields" where
  "generateDuplicateNode hid position lbl =
     \<lparr>du_selected = False, du_dragging = False,
      du_id = (case lbl of None \<Rightarrow> ''undefined'' | Some l \<Rightarrow> l) @ '':'' @ hid,
      du_position = \<lparr>px = (case position of None \<Rightarrow> 0 | Some p \<Rightarrow> px p) + 50,
                     py = (case position of None \<Rightarrow> 0 | Some p \<Rightarrow> py p) + 50\<rparr>,
      du_dragHandle = getNodeDragHandle lbl\<rparr>"

text \<open>
  The data of a missing node is \<open>{label: ''}\<close>; its name, which the callers overwrite, is empty.
\<close>

definition no_data :: node_data where
  "no_data = \<lparr>label = '''', name = '''', form = JUndef\<rparr>"

definition clear_to :: "props \<Rightarrow> props" where
  "clear_to descr =
     foldl (\<lambda>pre (cur, v). obj_put cur (js_object [Spread v, Prop ''to'' JUndef]) pre) [] descr"

definition duplicateNodeForm :: "node_data option \<Rightarrow> node_data" where
  "duplicateNodeForm nodeData =
     (let d = (case nodeData of None \<Rightarrow> no_data | Some d \<Rightarrow> d);
          f = props_of (form d);
          f' = (if is_op OpCategorize (label d)
                then obj_put ''category_description''
                       (JObj (clear_to (props_of (jget (JObj f) ''category_description'')))) f
                else f)
      in d\<lparr>form := JObj f'\<rparr>)"

definition needsSingleStepDebugging :: "string \<Rightarrow> bool" where
  "needsSingleStepDebugging l = (\<not> list_ex (\<lambda>x. is_op x l) NoDebugOperatorsList)"

definition showCopyIcon :: "string \<Rightarrow> bool" where
  "showCopyIcon l = (\<not> list_ex (\<lambda>x. is_op x l) NoCopyOperatorsList)"

section \<open>Switch handles\<close>

definition getOperatorIndex :: "string \<Rightarrow> string" where
  "getOperatorIndex handleTitle = last (split_on CHR '' '' handleTitle)"

definition generateSwitchHandleText :: "nat \<Rightarrow> string" where
  "generateSwitchHandleText idx = ''Case '' @ nat_str (idx + 1)"

lemma getOperatorIndex_generate [simp]:
  "getOperatorIndex (generateSwitchHandleText idx) = nat_str (Suc idx)"
proof -
  have "CHR '' '' \<notin> set (nat_str (Suc idx))"
    using digits_nat_str [of "Suc idx"] by (auto simp: list_all_iff digit_def)
  moreover have "generateSwitchHandleText idx = ''Case'' @ CHR '' '' # nat_str (Suc idx)"
    by (simp add: generateSwitchHandleText_def)
  moreover have "CHR '' '' \<notin> set ''Case''" by simp
  ultimately show ?thesis by (simp add: getOperatorIndex_def split_on_none)
qed

section \<open>The iteration node a position falls into\<close>

record relative_position =
  rp_parentId :: string
  rp_position :: pos

definition in_iteration :: "pos \<Rightarrow> agent_node \<Rightarrow> bool" where
  "in_iteration p n =
     (let halfWidth = (case width n of None \<Rightarrow> 0 | Some w \<Rightarrow> w) / 2;
          h = (case height n of None \<Rightarrow> 0 | Some h \<Rightarrow> h)
      in px p \<ge> px (npos n) - halfWidth \<and> px p \<le> px (npos n) + halfWidth
         \<and> py p \<ge> py (npos n) \<and> py p \<le> py (npos n) + h)"

definition getRelativePositionToIterationNode ::
    "agent_node list \<Rightarrow> pos option \<Rightarrow> relative_position option" where
  "getRelativePositionToIterationNode nodes position =
     (case position of None \<Rightarrow> None
      | Some p \<Rightarrow>
          (case find (in_iteration p) (filter (\<lambda>n. is_op OpIteration (node_label n)) nodes) of
             None \<Rightarrow> None
           | Some n \<Rightarrow>
               Some \<lparr>rp_parentId = nid n,
                     rp_position = \<lparr>px = px p - px (npos n)
                                        + (case width n of None \<Rightarrow> 0 | Some w \<Rightarrow> w) / 2,
                                    py = py p - py (npos n)\<rparr>\<rparr>))"

section \<open>Arrays of fields\<close>

definition convertToStringArray :: "jsv \<Rightarrow> jsv js" where
  "convertToStringArray list =
     (case list of JArr xs \<Rightarrow> js_bind (js_mapM (\<lambda>x. jprop x ''value'') xs) (\<lambda>ys. Inr (JArr ys))
      | _ \<Rightarrow> Inr (JArr []))"

definition convertToObjectArray :: "jsv \<Rightarrow> jsv" where
  "convertToObjectArray list =
     (case list of JArr xs \<Rightarrow> JArr (map (\<lambda>x. JObj [(''value'', x)]) xs) | _ \<Rightarrow> JArr [])"

lemma convert_roundtrip: "convertToStringArray (convertToObjectArray (JArr xs)) = Inr (JArr xs)"
proof -
  have "js_mapM (\<lambda>x. jprop x ''value'') (map (\<lambda>x. JObj [(''value'', x)]) xs) = Inr xs"
    by (induction xs) (auto simp: jprop_def nullish_def)
  then show ?thesis by (simp add: convertToStringArray_def convertToObjectArray_def)
qed

text \<open>
  The categories of a categorize operator, as an object and as a list. The comparison function of
  the sort subtracts the indices; a missing index is \<open>NaN\<close>.
\<close>

definition to_num :: "jsv \<Rightarrow> jsnum" where
  "to_num v = (case v of JNum n \<Rightarrow> n | _ \<Rightarrow> NaN)"

definition category_item :: "string \<times> jsv \<Rightarrow> jsv" where
  "category_item kv =
     js_object [Prop ''name'' (JStr (fst kv)), Spread (snd kv),
                Prop ''examples'' (convertToObjectArray (jget (snd kv) ''examples''))]"

definition buildCategorizeListFromObject :: "props \<Rightarrow> jsv list" where
  "buildCategorizeListFromObject categorizeItem =
     sort_key (\<lambda>x. to_num (jget x ''index'')) (map category_item categorizeItem)"

fun buildCategorizeObject :: "omit_fn \<Rightarrow> props \<Rightarrow> jsv list \<Rightarrow> props js" where
  "buildCategorizeObject om pre [] = Inr pre"
| "buildCategorizeObject om pre (cur # list) =
     (case jget cur ''name'' of
        JStr nm \<Rightarrow>
          if nm = '''' then buildCategorizeObject om pre list
          else js_bind (convertToStringArray (jget cur ''examples'')) (\<lambda>ex.
                 buildCategorizeObject om
                   (obj_put nm (js_object [Spread (JObj (om (props_of cur) [''name'', ''examples''])),
                                           Prop ''examples'' ex]) pre) list)
      | _ \<Rightarrow> buildCategorizeObject om pre list)"

definition buildCategorizeObjectFromList :: "omit_fn \<Rightarrow> jsv list \<Rightarrow> props js" where
  "buildCategorizeObjectFromList om list = buildCategorizeObject om [] list"

end
