(* ===== verification/Graph_Walk.thy ===== *)
theory Graph_Walk
  imports Graph_Model
begin

text \<open>
  The recursive walks over the edges of the canvas: \<open>filterAllDownstreamNodeIds\<close>
  (\<open>pages/agent/utils/filter-downstream-nodes.ts\<close>), \<open>filterAllUpstreamNodeIds\<close>
  (\<open>utils/canvas-util.tsx\<close>) and \<open>deleteAllDownstreamAgentsAndTool\<close>
  (\<open>pages/agent/utils/delete-node.ts\<close>).

  The source recurses without a visited set. \<open>walk d\<close> is that recursion with at most \<open>d\<close>
  nested calls; \<open>None\<close> is the call that runs out of stack. The definitions use two calls more
  than there are edges: the lemmas show that more never helps, because then the walk runs along a
  cycle and no depth is enough.
\<close>

section \<open>The recursion\<close>

fun collect_new :: "('a \<Rightarrow> 'b list option) \<Rightarrow> 'b list \<Rightarrow> 'a list \<Rightarrow> 'b list option" where
  "collect_new f pre [] = Some pre"
| "collect_new f pre (x # xs) =
     (case f x of None \<Rightarrow> None | Some ys \<Rightarrow> collect_new f (push_all_new pre ys) xs)"

fun walk :: "nat \<Rightarrow> ('v \<Rightarrow> 'v list) \<Rightarrow> 'v list \<Rightarrow> 'v list option" where
  "walk 0 succs nodeIds = None"
| "walk (Suc d) succs nodeIds =
     collect_new (\<lambda>n. map_option (\<lambda>rest. succs n @ rest) (walk d succs (succs n))) [] nodeIds"

definition step_rel :: "('v \<Rightarrow> 'v list) \<Rightarrow> ('v \<times> 'v) set" where
  "step_rel succs = {(n, m). m \<in> set (succs n)}"

lemma collect_new_Some:
  "collect_new f pre xs = Some r \<Longrightarrow>
     (\<forall>x\<in>set xs. f x \<noteq> None) \<and> set r = set pre \<union> (\<Union>x\<in>set xs. set (the (f x)))"
  by (induction f pre xs rule: collect_new.induct) (auto split: option.splits)

lemma collect_new_distinct: "collect_new f pre xs = Some r \<Longrightarrow> distinct pre \<Longrightarrow> distinct r"
  by (induction f pre xs rule: collect_new.induct) (auto split: option.splits)

lemma collect_new_None: "collect_new f pre xs = None \<longleftrightarrow> (\<exists>x\<in>set xs. f x = None)"
  by (induction f pre xs rule: collect_new.induct) (auto split: option.splits)

text \<open>What a walk returns: every node reached in one step or more, each once.\<close>

lemma walk_sound:
  "walk d succs ids = Some r \<Longrightarrow> set r = {y. \<exists>x\<in>set ids. (x, y) \<in> (step_rel succs)\<^sup>+}"
proof (induction d arbitrary: ids r)
  case 0
  then show ?case by simp
next
  case (Suc d)
  let ?f = "\<lambda>n. map_option (\<lambda>rest. succs n @ rest) (walk d succs (succs n))"
  from collect_new_Some Suc.prems
  have f: "\<forall>x\<in>set ids. ?f x \<noteq> None" "set r = (\<Union>x\<in>set ids. set (the (?f x)))" by fastforce+
  have "set (the (?f x)) = {y. (x, y) \<in> (step_rel succs)\<^sup>+}" if "x \<in> set ids" for x
  proof -
    from f(1) that obtain q where q: "walk d succs (succs x) = Some q" by auto
    have "(x, y) \<in> (step_rel succs)\<^sup>+ \<longleftrightarrow>
        y \<in> set (succs x) \<or> (\<exists>m\<in>set (succs x). (m, y) \<in> (step_rel succs)\<^sup>+)" for y
      using tranclD2 by (subst trancl_unfold_left) (auto simp: step_rel_def rtrancl_eq_or_trancl)
    with Suc.IH [OF q] q show ?thesis by auto
  qed
  with f(2) show ?case by auto
qed

lemma walk_distinct: "walk d succs ids = Some r \<Longrightarrow> distinct r"
  by (cases d) (auto dest: collect_new_distinct)

text \<open>The walk runs out of depth exactly when there is a path of that length.\<close>

lemma walk_None_iff:
  "walk (Suc d) succs ids = None \<longleftrightarrow> (\<exists>x\<in>set ids. \<exists>y. (x, y) \<in> step_rel succs ^^ d)"
proof (induction d arbitrary: ids)
  case 0
  show ?case by (cases ids) (auto simp: collect_new_None)
next
  case (Suc d)
  have "(\<exists>y. (x, y) \<in> step_rel succs ^^ Suc d) \<longleftrightarrow>
      (\<exists>m\<in>set (succs x). \<exists>y. (m, y) \<in> step_rel succs ^^ d)" for x
    unfolding relpow.simps relpow_commute [symmetric] by (auto simp: relcomp_unfold step_rel_def)
  with Suc.IH show ?case by (simp add: collect_new_None)
qed

section \<open>Graphs with finitely many sources\<close>

locale finite_succs =
  fixes succs :: "'v \<Rightarrow> 'v list" and srcs :: "'v list"
  assumes source_listed: "succs n \<noteq> [] \<Longrightarrow> n \<in> set srcs"
begin

lemma long_path_cycles:
  assumes "(x, y) \<in> step_rel succs ^^ d" "length srcs < d"
  shows "\<exists>z. (x, z) \<in> (step_rel succs)\<^sup>* \<and> (z, z) \<in> (step_rel succs)\<^sup>+"
proof -
  from assms(1) obtain f where f: "f 0 = x" "\<forall>i<d. (f i, f (Suc i)) \<in> step_rel succs"
    by (auto simp: relpow_fun_conv)
  have path: "(f i, f j) \<in> (step_rel succs)\<^sup>*" if "i \<le> j" "j \<le> d" for i j
    using that
  proof (induction rule: dec_induct)
    case base
    show ?case by simp
  next
    case (step n)
    then show ?case using f(2) by (meson Suc_leD Suc_le_lessD rtrancl.rtrancl_into_rtrancl)
  qed
  have "f ` {..<d} \<subseteq> set srcs"
  proof clarify
    fix i
    assume "i < d"
    with f(2) have "succs (f i) \<noteq> []" by (auto simp: step_rel_def)
    then show "f i \<in> set srcs" by (rule source_listed)
  qed
  then have "card (f ` {..<d}) \<le> length srcs"
    by (meson card_length card_mono finite_set order_trans)
  with assms(2) have "\<not> inj_on f {..<d}"
    using card_image by fastforce
  then obtain i j where ij: "i < j" "j < d" "f i = f j"
    by (auto simp: inj_on_def) (metis linorder_neqE_nat)
  have "(f i, f (Suc i)) \<in> step_rel succs" using f(2) ij(1,2) by simp
  moreover have "(f (Suc i), f j) \<in> (step_rel succs)\<^sup>*" using path ij by simp
  ultimately have "(f i, f i) \<in> (step_rel succs)\<^sup>+" using ij(3) by (metis rtrancl_into_trancl2)
  moreover have "(x, f i) \<in> (step_rel succs)\<^sup>*" using path [of 0 i] f(1) ij by simp
  ultimately show ?thesis by blast
qed

lemma cycle_long_paths:
  assumes "(x, z) \<in> (step_rel succs)\<^sup>*" "(z, z) \<in> (step_rel succs)\<^sup>+"
  shows "\<exists>y. (x, y) \<in> step_rel succs ^^ d \<and> (y, z) \<in> (step_rel succs)\<^sup>*"
proof (induction d)
  case 0
  show ?case using assms(1) by auto
next
  case (Suc d)
  then obtain y where y: "(x, y) \<in> step_rel succs ^^ d" "(y, z) \<in> (step_rel succs)\<^sup>*" by blast
  with assms(2) have "(y, z) \<in> (step_rel succs)\<^sup>+" by (meson rtrancl_trancl_trancl)
  then obtain w where "(y, w) \<in> step_rel succs" "(w, z) \<in> (step_rel succs)\<^sup>*"
    by (blast dest: tranclD)
  with y(1) show ?case by auto
qed

lemma walk_returns_iff:
  assumes "length srcs < d"
  shows "walk (Suc d) succs ids = None \<longleftrightarrow>
    (\<exists>x\<in>set ids. \<exists>z. (x, z) \<in> (step_rel succs)\<^sup>* \<and> (z, z) \<in> (step_rel succs)\<^sup>+)"
  using walk_None_iff long_path_cycles [OF _ assms] cycle_long_paths by meson

lemma walk_cycle_diverges:
  assumes "x \<in> set ids" "(x, z) \<in> (step_rel succs)\<^sup>*" "(z, z) \<in> (step_rel succs)\<^sup>+"
  shows "walk d succs ids = None"
proof (cases d)
  case 0
  then show ?thesis by simp
next
  case (Suc k)
  with cycle_long_paths [OF assms(2,3), of k] assms(1) show ?thesis
    by (auto simp only: walk_None_iff)
qed

end

section \<open>The walks of the sources\<close>

definition down_succs :: "edge list \<Rightarrow> (edge \<Rightarrow> bool) \<Rightarrow> string \<Rightarrow> string list" where
  "down_succs edges predicate nodeId =
     map target (filter (\<lambda>x. source x = nodeId \<and> predicate x) edges)"

definition up_succs :: "edge list \<Rightarrow> string \<Rightarrow> string list" where
  "up_succs edges nodeId = map source (filter (\<lambda>x. target x = nodeId) edges)"

interpretation down: finite_succs "down_succs edges predicate" "map source edges"
  for edges predicate
  by unfold_locales (auto simp: down_succs_def filter_empty_conv)

interpretation up: finite_succs "up_succs edges" "map target edges"
  for edges
  by unfold_locales (auto simp: up_succs_def filter_empty_conv)

definition filterAllDownstreamNodeIds ::
    "edge list \<Rightarrow> string list \<Rightarrow> (edge \<Rightarrow> bool) \<Rightarrow> string list option" where
  "filterAllDownstreamNodeIds edges nodeIds predicate =
     walk (length edges + 2) (down_succs edges predicate) nodeIds"

definition filterAllUpstreamNodeIds :: "edge list \<Rightarrow> string list \<Rightarrow> string list option" where
  "filterAllUpstreamNodeIds edges nodeIds = walk (length edges + 2) (up_succs edges) nodeIds"

definition is_agent_or_tool_edge :: "edge \<Rightarrow> bool" where
  "is_agent_or_tool_edge e =
     (sourceHandle e = JStr Handle_AgentBottom \<or> sourceHandle e = JStr Handle_Tool)"

definition is_agent_edge :: "edge \<Rightarrow> bool" where
  "is_agent_edge e = (sourceHandle e = JStr Handle_AgentBottom)"

definition filterAllDownstreamAgentAndToolNodeIds ::
    "edge list \<Rightarrow> string list \<Rightarrow> string list option" where
  "filterAllDownstreamAgentAndToolNodeIds edges nodeIds =
     filterAllDownstreamNodeIds edges nodeIds is_agent_or_tool_edge"

definition filterAllDownstreamAgentNodeIds ::
    "edge list \<Rightarrow> string list \<Rightarrow> string list option" where
  "filterAllDownstreamAgentNodeIds edges nodeIds =
     filterAllDownstreamNodeIds edges nodeIds is_agent_edge"

definition filterDownstreamAgentNodeIds :: "edge list \<Rightarrow> string option \<Rightarrow> string list" where
  "filterDownstreamAgentNodeIds edges nodeId =
     map target (filter (\<lambda>x. Some (source x) = nodeId \<and> is_agent_edge x) edges)"

text \<open>
  The edges to delete with an agent. The condition that guards the push compares with
  \<open>!==\<close>: an edge is pushed unless the list already holds an edge with another id.
\<close>

definition push_related :: "edge list \<Rightarrow> edge \<Rightarrow> edge list" where
  "push_related pre x = (if \<not> list_ex (\<lambda>y. eid y \<noteq> eid x) pre then pre @ [x] else pre)"

definition related_edges :: "edge list \<Rightarrow> string list \<Rightarrow> edge list" where
  "related_edges edges nodeIds =
     foldl (\<lambda>pre cur. foldl push_related pre
                        (filter (\<lambda>x. source x = cur \<or> target x = cur) edges)) [] nodeIds"

definition deleteAllDownstreamAgentsAndTool ::
    "string \<Rightarrow> edge list \<Rightarrow> (string list \<times> edge list) option" where
  "deleteAllDownstreamAgentsAndTool nodeId edges =
     map_option (\<lambda>ids. (ids, related_edges edges ids))
       (filterAllDownstreamAgentAndToolNodeIds edges [nodeId])"

section \<open>What the walks return\<close>

definition edge_rel :: "edge list \<Rightarrow> (edge \<Rightarrow> bool) \<Rightarrow> (string \<times> string) set" where
  "edge_rel edges predicate = {(source e, target e) |e. e \<in> set edges \<and> predicate e}"

lemma step_rel_down [simp]: "step_rel (down_succs edges predicate) = edge_rel edges predicate"
  by (auto simp: step_rel_def down_succs_def edge_rel_def)

lemma step_rel_up [simp]: "step_rel (up_succs edges) = (edge_rel edges (\<lambda>_. True))\<inverse>"
  by (auto simp: step_rel_def up_succs_def edge_rel_def)

lemmas down_walk = walk_sound [where succs = "down_succs edges predicate" for edges predicate, simplified]
lemmas up_walk = walk_sound [where succs = "up_succs edges" for edges, simplified]

lemma filterAllDownstream_Some:
  "filterAllDownstreamNodeIds edges ids predicate = Some r \<Longrightarrow>
     distinct r \<and> set r = {y. \<exists>x\<in>set ids. (x, y) \<in> (edge_rel edges predicate)\<^sup>+}"
  unfolding filterAllDownstreamNodeIds_def by (blast dest: walk_distinct down_walk)

lemma filterAllUpstream_Some:
  "filterAllUpstreamNodeIds edges ids = Some r \<Longrightarrow>
     distinct r \<and> set r = {y. \<exists>x\<in>set ids. (y, x) \<in> (edge_rel edges (\<lambda>_. True))\<^sup>+}"
  unfolding filterAllUpstreamNodeIds_def
  by (frule walk_distinct, drule up_walk) (simp add: trancl_converse)

lemma filterAllDownstream_None:
  "filterAllDownstreamNodeIds edges ids predicate = None \<longleftrightarrow>
     (\<exists>x\<in>set ids. \<exists>z. (x, z) \<in> (edge_rel edges predicate)\<^sup>* \<and> (z, z) \<in> (edge_rel edges predicate)\<^sup>+)"
  using down.walk_returns_iff [of edges "Suc (length edges)" predicate ids]
  by (simp add: filterAllDownstreamNodeIds_def)

lemma filterAllUpstream_None:
  "filterAllUpstreamNodeIds edges ids = None \<longleftrightarrow>
     (\<exists>x\<in>set ids. \<exists>z. (z, x) \<in> (edge_rel edges (\<lambda>_. True))\<^sup>* \<and> (z, z) \<in> (edge_rel edges (\<lambda>_. True))\<^sup>+)"
  using up.walk_returns_iff [of edges "Suc (length edges)" ids]
  by (simp add: filterAllUpstreamNodeIds_def trancl_converse rtrancl_converse)

text \<open>Every node the downstream walk returns is the target of an edge of the graph.\<close>

lemma trancl_edge_target: "(x, y) \<in> (edge_rel edges p)\<^sup>+ \<Longrightarrow> \<exists>e\<in>set edges. p e \<and> target e = y"
  by (induction rule: trancl_induct) (auto simp: edge_rel_def)

text \<open>
  C4. The downstream walk of the agent canvas returns exactly when no cycle can be reached from the
  given nodes; then it returns every node reachable in one step or more over edges that satisfy the
  predicate, each once. On a graph with a reachable cycle no depth of the stack is enough.
\<close>

theorem downstream_walk_exact:
  "(filterAllDownstreamNodeIds edges ids predicate \<noteq> None) =
     (\<nexists>x z. x \<in> set ids \<and> (x, z) \<in> (edge_rel edges predicate)\<^sup>* \<and> (z, z) \<in> (edge_rel edges predicate)\<^sup>+)
   \<and> (\<forall>r. filterAllDownstreamNodeIds edges ids predicate = Some r \<longrightarrow>
        distinct r \<and> set r = {y. \<exists>x\<in>set ids. (x, y) \<in> (edge_rel edges predicate)\<^sup>+})
   \<and> (filterAllDownstreamNodeIds edges ids predicate = None \<longrightarrow>
        (\<forall>d. walk d (down_succs edges predicate) ids = None))"
proof (intro conjI allI impI)
  show "(filterAllDownstreamNodeIds edges ids predicate \<noteq> None) =
     (\<nexists>x z. x \<in> set ids \<and> (x, z) \<in> (edge_rel edges predicate)\<^sup>* \<and> (z, z) \<in> (edge_rel edges predicate)\<^sup>+)"
    by (simp only: not_None_eq [symmetric] filterAllDownstream_None) blast
next
  fix r
  assume "filterAllDownstreamNodeIds edges ids predicate = Some r"
  then show "distinct r" "set r = {y. \<exists>x\<in>set ids. (x, y) \<in> (edge_rel edges predicate)\<^sup>+}"
    by (simp_all add: filterAllDownstream_Some)
next
  fix d
  assume "filterAllDownstreamNodeIds edges ids predicate = None"
  then show "walk d (down_succs edges predicate) ids = None"
    unfolding filterAllDownstream_None using down.walk_cycle_diverges by fastforce
qed

theorem downstream_walk_exact_witness:
  "let e = \<lparr>eid = ''e'', source = ''a'', target = ''b'', sourceHandle = JStr ''start'',
            targetHandle = JStr ''end'', edata = JUndef\<rparr>
   in set (the (filterAllDownstreamNodeIds [e] [''a''] (\<lambda>_. True))) =
        {y. (''a'', y) \<in> (edge_rel [e] (\<lambda>_. True))\<^sup>+}"
proof -
  define e where "e = \<lparr>eid = ''e'', source = ''a'', target = ''b'', sourceHandle = JStr ''start'',
            targetHandle = JStr ''end'', edata = JUndef\<rparr>"
  have "filterAllDownstreamNodeIds [e] [''a''] (\<lambda>_. True) = Some [''b'']"
    by (simp add: filterAllDownstreamNodeIds_def down_succs_def e_def push_new_def)
  with downstream_walk_exact [of "[e]" "[''a'']" "\<lambda>_. True"]
  have "set [''b''] = {y. (''a'', y) \<in> (edge_rel [e] (\<lambda>_. True))\<^sup>+}" by simp
  then show ?thesis
    using \<open>filterAllDownstreamNodeIds [e] [''a''] (\<lambda>_. True) = Some [''b'']\<close> by (simp add: e_def)
qed

end
