(* ===== verification/Packages.thy ===== *)
theory Packages
  imports Graph_Model
begin

text \<open>
  What the sources rely on of the packages they call: paths into nested values (lodash \<open>get\<close> and
  \<open>set\<close>) and lists of edges compared by a function (\<open>intersectionWith\<close>, \<open>differenceWith\<close>). The
  packages are arguments of the definitions that use them; a predicate names the documented
  behaviour the theorems assume, and a reference function shows that the assumption can hold.
\<close>

section \<open>Paths and comparisons\<close>

type_synonym lset_fn = "jsv \<Rightarrow> string list \<Rightarrow> jsv \<Rightarrow> jsv"
type_synonym lget_fn = "jsv \<Rightarrow> string list \<Rightarrow> jsv \<Rightarrow> jsv"
type_synonym edges_with_fn = "edge list \<Rightarrow> edge list \<Rightarrow> (edge \<Rightarrow> edge \<Rightarrow> bool) \<Rightarrow> edge list"
type_synonym add_edge_fn = "connection \<Rightarrow> edge list \<Rightarrow> edge list"

text \<open>\<open>get\<close> follows a path of keys and falls back to the default on \<open>undefined\<close>.\<close>

definition get_path :: "jsv \<Rightarrow> string list \<Rightarrow> jsv" where
  "get_path v path = foldl jget v path"

definition lget_laws :: "lget_fn \<Rightarrow> bool" where
  "lget_laws g \<longleftrightarrow>
     (\<forall>v path d. g v path d = (if get_path v path = JUndef then d else get_path v path))"

definition lget_ref :: lget_fn where
  "lget_ref v path d = (if get_path v path = JUndef then d else get_path v path)"

lemma lget_ref_laws [simp]: "lget_laws lget_ref"
  by (simp add: lget_laws_def lget_ref_def)

text \<open>
  \<open>set\<close> on an object: the value is found under its path afterwards, and the other keys of the
  object keep their values. The first holds for paths without the keys lodash guards against
  prototype pollution, whose keys into an existing array are indices.
\<close>

definition safe_path :: "string list \<Rightarrow> bool" where
  "safe_path path = (set path \<inter> {''__proto__'', ''constructor'', ''prototype''} = {})"

fun path_fits :: "jsv \<Rightarrow> string list \<Rightarrow> bool" where
  "path_fits v [] = True"
| "path_fits (JObj ps) (k # path) = path_fits (jget (JObj ps) k) path"
| "path_fits (JArr xs) (k # path) = (is_index_key k \<and> path_fits (jget (JArr xs) k) path)"
| "path_fits v (k # path) = True"

definition lset_laws :: "lset_fn \<Rightarrow> bool" where
  "lset_laws st \<longleftrightarrow>
     (\<forall>ps k path v. \<exists>ps'. st (JObj ps) (k # path) v = JObj ps'
        \<and> (\<forall>k'. k' \<noteq> k \<longrightarrow> jget (JObj ps') k' = jget (JObj ps) k'))
   \<and> (\<forall>ps path v. path \<noteq> [] \<longrightarrow> safe_path path \<longrightarrow> path_fits (JObj ps) path \<longrightarrow>
        get_path (st (JObj ps) path v) path = v)"

text \<open>The container a step of \<open>set\<close> descends into: the one there, or a fresh one.\<close>

definition container :: "jsv \<Rightarrow> string \<Rightarrow> jsv" where
  "container w k =
     (case w of JObj ps \<Rightarrow> w | JArr xs \<Rightarrow> w | _ \<Rightarrow> if is_index_key k then JArr [] else JObj [])"

definition put_key :: "jsv \<Rightarrow> string \<Rightarrow> jsv \<Rightarrow> jsv" where
  "put_key w k v =
     (case w of
        JObj ps \<Rightarrow> JObj (obj_put k v ps)
      | JArr xs \<Rightarrow>
          if is_index_key k then
            (let i = nat_of_digits k in
             JArr (if i < length xs then xs[i := v] else xs @ replicate (i - length xs) JUndef @ [v]))
          else w
      | _ \<Rightarrow> w)"

fun lset_ref :: lset_fn where
  "lset_ref w [] v = w"
| "lset_ref w [k] v = put_key w k v"
| "lset_ref w (k # k' # path) v =
     put_key w k (lset_ref (container (jget w k) k') (k' # path) v)"

lemma jget_put_obj: "jget (put_key (JObj ps) k v) k' = (if k' = k then v else jget (JObj ps) k')"
  by (simp add: put_key_def)

lemma is_index_not_length: "is_index_key k \<Longrightarrow> k \<noteq> ''length''"
  by (auto simp: is_index_key_def digit_def)

lemma jget_put_arr: "is_index_key k \<Longrightarrow> jget (put_key (JArr xs) k v) k = v"
  by (auto simp: put_key_def Let_def is_index_not_length nth_append)

definition is_container :: "jsv \<Rightarrow> bool" where
  "is_container w = ((\<exists>ps. w = JObj ps) \<or> (\<exists>xs. w = JArr xs))"

lemma container_fits:
  "path_fits w (k # path) \<Longrightarrow> is_container (container w k) \<and> path_fits (container w k) (k # path)"
  by (cases w; cases path) (auto simp: container_def is_container_def)

lemma path_fits_tail: "is_container w \<Longrightarrow> path_fits w (k # path) \<Longrightarrow> path_fits (jget w k) path"
  by (auto simp: is_container_def)

lemma jget_put_key:
  "is_container w \<Longrightarrow> path_fits w (k # path) \<Longrightarrow> jget (put_key w k v) k = v"
  by (auto simp: is_container_def jget_put_arr jget_put_obj)

lemma lset_ref_get:
  "path \<noteq> [] \<Longrightarrow> is_container w \<Longrightarrow> path_fits w path \<Longrightarrow> get_path (lset_ref w path v) path = v"
proof (induction w path v rule: lset_ref.induct)
  case (1 w v)
  then show ?case by simp
next
  case (2 w k v)
  then show ?case by (simp add: get_path_def jget_put_key)
next
  case (3 w k k' path v)
  then have "path_fits (jget w k) (k' # path)" by (blast dest: path_fits_tail)
  from container_fits [OF this] "3.IH"
  have "get_path (lset_ref (container (jget w k) k') (k' # path) v) (k' # path) = v" by simp
  with "3.prems" show ?case by (simp add: get_path_def jget_put_key)
qed

lemma lset_ref_laws [simp]: "lset_laws lset_ref"
  unfolding lset_laws_def
proof (intro conjI allI impI)
  fix ps k path v
  obtain w where "lset_ref (JObj ps) (k # path) v = put_key (JObj ps) k w"
    by (cases path) auto
  then show "\<exists>ps'. lset_ref (JObj ps) (k # path) v = JObj ps'
        \<and> (\<forall>k'. k' \<noteq> k \<longrightarrow> jget (JObj ps') k' = jget (JObj ps) k')"
    by (auto simp: put_key_def)
next
  fix ps path v
  assume "path \<noteq> []" "path_fits (JObj ps) path"
  then show "get_path (lset_ref (JObj ps) path v) path = v"
    by (simp add: lset_ref_get is_container_def)
qed

text \<open>
  \<open>differenceWith\<close> keeps the elements of the first list that equal none of the second;
  \<open>intersectionWith\<close> keeps, of those that equal one of the second, at least one of each class and
  nothing else.
\<close>

definition with_laws :: "edges_with_fn \<Rightarrow> edges_with_fn \<Rightarrow> bool" where
  "with_laws iw dw \<longleftrightarrow>
     (\<forall>xs ys. dw xs ys isEdgeEqual = filter (\<lambda>x. \<not> list_ex (isEdgeEqual x) ys) xs)
   \<and> (\<forall>xs ys. set (iw xs ys isEdgeEqual) \<subseteq> {x \<in> set xs. \<exists>y\<in>set ys. isEdgeEqual x y})
   \<and> (\<forall>xs ys x. x \<in> set xs \<longrightarrow> (\<exists>y\<in>set ys. isEdgeEqual x y) \<longrightarrow>
        (\<exists>z\<in>set (iw xs ys isEdgeEqual). isEdgeEqual z x))"

definition diff_ref :: edges_with_fn where
  "diff_ref xs ys eq = filter (\<lambda>x. \<not> list_ex (eq x) ys) xs"

fun uniq_with :: "(edge \<Rightarrow> edge \<Rightarrow> bool) \<Rightarrow> edge list \<Rightarrow> edge list \<Rightarrow> edge list" where
  "uniq_with eq pre [] = pre"
| "uniq_with eq pre (x # xs) = uniq_with eq (if list_ex (\<lambda>y. eq y x) pre then pre else pre @ [x]) xs"

definition inter_ref :: edges_with_fn where
  "inter_ref xs ys eq = uniq_with eq [] (filter (\<lambda>x. list_ex (eq x) ys) xs)"

lemma uniq_with_subset: "set (uniq_with eq pre xs) \<subseteq> set pre \<union> set xs"
  by (induction eq pre xs rule: uniq_with.induct) (auto split: if_splits)

lemma uniq_with_keeps: "x \<in> set pre \<Longrightarrow> x \<in> set (uniq_with eq pre xs)"
  by (induction eq pre xs rule: uniq_with.induct) auto

lemma uniq_with_covers:
  assumes refl: "\<And>x. eq x x"
  shows "x \<in> set xs \<Longrightarrow> \<exists>z\<in>set (uniq_with eq pre xs). eq z x"
proof (induction xs arbitrary: pre)
  case Nil
  then show ?case by simp
next
  case (Cons y ys)
  let ?pre = "if list_ex (\<lambda>z. eq z y) pre then pre else pre @ [y]"
  show ?case
  proof (cases "x = y")
    case True
    have "\<exists>z\<in>set ?pre. eq z x" using refl True by (auto simp: list_ex_iff)
    then show ?thesis using uniq_with_keeps [of _ ?pre eq ys] by auto
  next
    case False
    with Cons.prems Cons.IH [of ?pre] show ?thesis by simp
  qed
qed

lemma with_ref_laws [simp]: "with_laws inter_ref diff_ref"
  unfolding with_laws_def
proof (intro conjI allI impI)
  fix xs ys :: "edge list" and x
  show "diff_ref xs ys isEdgeEqual = filter (\<lambda>x. \<not> list_ex (isEdgeEqual x) ys) xs"
    by (simp add: diff_ref_def)
  show "set (inter_ref xs ys isEdgeEqual) \<subseteq> {x \<in> set xs. \<exists>y\<in>set ys. isEdgeEqual x y}"
    using uniq_with_subset [of isEdgeEqual "[]"] by (fastforce simp: inter_ref_def list_ex_iff)
  assume "x \<in> set xs" "\<exists>y\<in>set ys. isEdgeEqual x y"
  then show "\<exists>z\<in>set (inter_ref xs ys isEdgeEqual). isEdgeEqual z x"
    unfolding inter_ref_def
    by (intro uniq_with_covers) (auto simp: isEdgeEqual_def list_ex_iff)
qed

end
