(* ===== verification/Agent_Store.thy ===== *)
theory Agent_Store
  imports Node_Copy Graph_Walk Packages
begin

text \<open>
  The graph store of the agent canvas (\<open>pages/agent/store.ts\<close>): its state and every action
  that changes it, as functions from state to state. \<open>get()\<close> is the state an action starts from;
  an action that reads the state again after a change reads the changed one here too.

  Arguments that stand for packages: \<open>add_edge\<close>, \<open>apply_nodes\<close> and \<open>apply_edges\<close> for the canvas
  library; \<open>lset\<close>, \<open>lget\<close>, \<open>iw\<close> and \<open>dw\<close> for lodash; \<open>hid\<close> for the words of \<open>human-id\<close>, the
  \<open>k\<close>-th call of an action returning \<open>hid k\<close>. Values are copied, so the source's \<open>cloneDeep\<close> is
  the identity and the sharing of nested form objects between the old and the new state is not
  modelled.
\<close>

section \<open>The state\<close>

record rf_state =
  st_nodes :: "agent_node list"
  st_edges :: "edge list"
  selectedNodeIds :: "string list"
  selectedEdgeIds :: "string list"
  clickedNodeId :: "string option"
  clickedToolId :: "string option"

definition initial_state :: rf_state where
  "initial_state = \<lparr>st_nodes = [], st_edges = [], selectedNodeIds = [], selectedEdgeIds = [],
     clickedNodeId = Some '''', clickedToolId = Some ''''\<rparr>"

definition wf_state :: "rf_state \<Rightarrow> bool" where
  "wf_state s = wf_graph (st_nodes s) (st_edges s)"

section \<open>Reading the state\<close>

definition getNode :: "rf_state \<Rightarrow> string option \<Rightarrow> agent_node option" where
  "getNode s i = find (\<lambda>x. Some (nid x) = i) (st_nodes s)"

definition getOperatorTypeFromId :: "rf_state \<Rightarrow> string option \<Rightarrow> string option" where
  "getOperatorTypeFromId s i = map_option node_label (getNode s i)"

definition getParentIdById :: "rf_state \<Rightarrow> string option \<Rightarrow> string option" where
  "getParentIdById s i = Option.bind (getNode s i) parentId"

definition getEdge :: "rf_state \<Rightarrow> string \<Rightarrow> edge option" where
  "getEdge s i = find (\<lambda>x. eid x = i) (st_edges s)"

definition findNodeByName :: "rf_state \<Rightarrow> operator \<Rightarrow> agent_node option" where
  "findNodeByName s p = find (\<lambda>x. is_op p (node_label x)) (st_nodes s)"

definition findUpstreamNodeById :: "rf_state \<Rightarrow> string option \<Rightarrow> agent_node option" where
  "findUpstreamNodeById s i =
     getNode s (map_option source (find (\<lambda>x. Some (target x) = i) (st_edges s)))"

definition findAgentToolNodeById :: "rf_state \<Rightarrow> string option \<Rightarrow> string option" where
  "findAgentToolNodeById s i =
     map_option target
       (find (\<lambda>e. Some (source e) = i \<and> sourceHandle e = JStr Handle_Tool) (st_edges s))"

definition hasDownstreamNode :: "rf_state \<Rightarrow> string \<Rightarrow> bool" where
  "hasDownstreamNode s i = list_ex (\<lambda>e. source e = i) (st_edges s)"

definition hasUpstreamNode :: "rf_state \<Rightarrow> string \<Rightarrow> bool" where
  "hasUpstreamNode s i = list_ex (\<lambda>e. target e = i) (st_edges s)"

definition generateNodeName :: "rf_state \<Rightarrow> string \<Rightarrow> string" where
  "generateNodeName s nm = generateNodeNamesWithIncreasingIndex nm (st_nodes s)"

section \<open>Nodes and edges as wholes\<close>

definition setNodes :: "agent_node list \<Rightarrow> rf_state \<Rightarrow> rf_state" where
  "setNodes ns s = s\<lparr>st_nodes := ns\<rparr>"

definition setEdges :: "edge list \<Rightarrow> rf_state \<Rightarrow> rf_state" where
  "setEdges es s = s\<lparr>st_edges := es\<rparr>"

definition onNodesChange ::
    "('c \<Rightarrow> agent_node list \<Rightarrow> agent_node list) \<Rightarrow> 'c \<Rightarrow> rf_state \<Rightarrow> rf_state" where
  "onNodesChange apply_nodes changes s = s\<lparr>st_nodes := apply_nodes changes (st_nodes s)\<rparr>"

definition onEdgesChange :: "('c \<Rightarrow> edge list \<Rightarrow> edge list) \<Rightarrow> 'c \<Rightarrow> rf_state \<Rightarrow> rf_state" where
  "onEdgesChange apply_edges changes s = s\<lparr>st_edges := apply_edges changes (st_edges s)\<rparr>"

definition onEdgeMouseEnter :: "edge \<Rightarrow> rf_state \<Rightarrow> rf_state" where
  "onEdgeMouseEnter e s = setEdges (mapEdgeMouseEvent (st_edges s) (eid e) True) s"

definition onEdgeMouseLeave :: "edge \<Rightarrow> rf_state \<Rightarrow> rf_state" where
  "onEdgeMouseLeave e s = setEdges (mapEdgeMouseEvent (st_edges s) (eid e) False) s"

definition onSelectionChange :: "agent_node list \<Rightarrow> edge list \<Rightarrow> rf_state \<Rightarrow> rf_state" where
  "onSelectionChange ns es s = s\<lparr>selectedEdgeIds := map eid es, selectedNodeIds := map nid ns\<rparr>"

definition setEdgesByNodeId ::
    "edges_with_fn \<Rightarrow> edges_with_fn \<Rightarrow> string \<Rightarrow> edge list \<Rightarrow> rf_state \<Rightarrow> rf_state" where
  "setEdgesByNodeId iw dw nodeId current s =
     (let previous = filter (\<lambda>x. source x = nodeId) (st_edges s);
          same = (\<lambda>x y. source y = source x \<and> target y = target x \<and> sourceHandle y = sourceHandle x);
          isDifferent = (length previous \<noteq> length current
                         \<or> \<not> list_all (\<lambda>x. list_ex (same x) current) previous
                         \<or> \<not> list_all (\<lambda>x. list_ex (same x) previous) current);
          intersection = iw previous current isEdgeEqual
      in if isDifferent
         then setEdges (filter (\<lambda>x. source x \<noteq> nodeId) (st_edges s) @ intersection
                        @ dw current intersection isEdgeEqual) s
         else s)"

definition addNode :: "agent_node \<Rightarrow> rf_state \<Rightarrow> rf_state" where
  "addNode n s = s\<lparr>st_nodes := st_nodes s @ [n]\<rparr>"

definition updateNode :: "agent_node \<Rightarrow> rf_state \<Rightarrow> rf_state" where
  "updateNode n s = s\<lparr>st_nodes := map (\<lambda>x. if nid x = nid n then n else x) (st_nodes s)\<rparr>"

definition selectNodeIds :: "string list \<Rightarrow> rf_state \<Rightarrow> rf_state" where
  "selectNodeIds ids s =
     setNodes (map (\<lambda>x. x\<lparr>selected := Some (nid x \<in> set ids)\<rparr>) (st_nodes s)) s"

definition setClickedNodeId :: "string option \<Rightarrow> rf_state \<Rightarrow> rf_state" where
  "setClickedNodeId i s = s\<lparr>clickedNodeId := i\<rparr>"

definition setClickedToolId :: "string option \<Rightarrow> rf_state \<Rightarrow> rf_state" where
  "setClickedToolId i s = s\<lparr>clickedToolId := i\<rparr>"

section \<open>Forms\<close>

definition set_form :: "lset_fn \<Rightarrow> jsv \<Rightarrow> string list \<Rightarrow> agent_node \<Rightarrow> agent_node" where
  "set_form lset values path x =
     (let nextForm = props_of (node_form x)
      in x\<lparr>ndata := (ndata x)\<lparr>form :=
           (if path = [] then JObj (obj_assign nextForm (props_of values))
            else lset (JObj nextForm) path values)\<rparr>\<rparr>)"

definition updateNodeForm ::
    "lset_fn \<Rightarrow> string \<Rightarrow> jsv \<Rightarrow> string list \<Rightarrow> rf_state \<Rightarrow> rf_state" where
  "updateNodeForm lset nodeId values path s =
     s\<lparr>st_nodes := map (\<lambda>x. if nid x = nodeId then set_form lset values path x else x) (st_nodes s)\<rparr>"

text \<open>A loop with a \<open>break\<close> after the first node it changes.\<close>

fun update_first :: "('a \<Rightarrow> bool) \<Rightarrow> ('a \<Rightarrow> 'a) \<Rightarrow> 'a list \<Rightarrow> 'a list" where
  "update_first p f [] = []"
| "update_first p f (x # xs) = (if p x then f x # xs else x # update_first p f xs)"

definition replaceNodeForm :: "string \<Rightarrow> jsv \<Rightarrow> rf_state \<Rightarrow> rf_state" where
  "replaceNodeForm nodeId values s =
     (if nodeId = '''' then s
      else s\<lparr>st_nodes := update_first (\<lambda>x. nid x = nodeId)
                (\<lambda>x. x\<lparr>ndata := (ndata x)\<lparr>form := values\<rparr>\<rparr>) (st_nodes s)\<rparr>)"

definition updateNodeName :: "string \<Rightarrow> string \<Rightarrow> rf_state \<Rightarrow> rf_state" where
  "updateNodeName i nm s =
     (if i = '''' then s
      else s\<lparr>st_nodes := update_first (\<lambda>x. nid x = i)
                (\<lambda>x. x\<lparr>ndata := (ndata x)\<lparr>name := nm\<rparr>\<rparr>) (st_nodes s)\<rparr>)"

text \<open>
  The guard is \<open>if (idx)\<close> on the result of \<open>findIndex\<close>: it lets \<open>-1\<close> through, where the write
  goes to a property of the array that is not an element, and it stops the index 0.
\<close>

definition updateMutableNodeFormItem ::
    "lset_fn \<Rightarrow> string \<Rightarrow> string \<Rightarrow> jsv \<Rightarrow> rf_state \<Rightarrow> rf_state" where
  "updateMutableNodeFormItem lset i field value s =
     (case findIdx (\<lambda>x. nid x = i) (st_nodes s) of
        None \<Rightarrow> s
      | Some idx \<Rightarrow>
          if idx = 0 then s
          else s\<lparr>st_nodes := (st_nodes s)[idx :=
                 (let x = st_nodes s ! idx
                  in x\<lparr>ndata := (ndata x)\<lparr>form := lset (container (node_form x) field) [field] value\<rparr>\<rparr>)]\<rparr>)"

section \<open>The form of the switch operator follows the edges\<close>

definition handle_targets :: "rf_state \<Rightarrow> string \<Rightarrow> jsv \<Rightarrow> string list" where
  "handle_targets s src handle =
     map target (filter (\<lambda>x. source x = src \<and> sourceHandle x = handle
                  \<and> getOperatorTypeFromId s (Some (target x)) \<noteq> Some (op_str OpPlaceholder)) (st_edges s))"

text \<open>Where the targets of a handle are stored in the form.\<close>

definition switch_path :: "string \<Rightarrow> string list option" where
  "switch_path h =
     (if h = SwitchElseTo then Some [SwitchElseTo]
      else (let operatorIndex = getOperatorIndex h
            in if operatorIndex = [] then None
               else Some [''conditions'', num_str (num_add (js_Number operatorIndex) (Fin (-1))), ''to'']))"

definition updateSwitchFormData ::
    "lset_fn \<Rightarrow> string \<Rightarrow> jsv \<Rightarrow> string \<Rightarrow> bool \<Rightarrow> rf_state \<Rightarrow> rf_state" where
  "updateSwitchFormData lset src handle tgt isConnecting s =
     (case handle of
        JStr h \<Rightarrow>
          if h = [] then s
          else (let current = handle_targets s src handle;
                    targets = (if tgt \<noteq> [] \<and> \<not> isConnecting then filter (\<lambda>x. x \<noteq> tgt) current else current)
                in case switch_path h of
                     None \<Rightarrow> s
                   | Some path \<Rightarrow> updateNodeForm lset src (JArr (map JStr targets)) path s)
      | _ \<Rightarrow> s)"

definition updateFormDataOnConnect :: "lset_fn \<Rightarrow> connection \<Rightarrow> rf_state \<Rightarrow> rf_state" where
  "updateFormDataOnConnect lset c s =
     (if c_source c = [] then s
      else if getOperatorTypeFromId s (Some (c_source c)) = Some (op_str OpSwitch)
           then updateSwitchFormData lset (c_source c) (c_sourceHandle c) (c_target c) True s
           else s)"

definition onConnect :: "add_edge_fn \<Rightarrow> lset_fn \<Rightarrow> connection \<Rightarrow> rf_state \<Rightarrow> rf_state" where
  "onConnect add_edge lset c s =
     updateFormDataOnConnect lset c (s\<lparr>st_edges := add_edge c (st_edges s)\<rparr>)"

definition addEdge :: "add_edge_fn \<Rightarrow> lset_fn \<Rightarrow> connection \<Rightarrow> rf_state \<Rightarrow> rf_state" where
  "addEdge add_edge lset c s =
     updateFormDataOnConnect lset c (s\<lparr>st_edges := add_edge c (st_edges s)\<rparr>)"

section \<open>Copying nodes\<close>

definition no_node :: agent_node where
  "no_node = \<lparr>nid = [], ntype = None, npos = \<lparr>px = 0, py = 0\<rparr>, width = None, height = None,
     parentId = None, extent = None, draggable = None, dragHandle = None, selected = None,
     dragging = None, ndata = no_data\<rparr>"

definition apply_duplicate :: "duplicate_fields \<Rightarrow> agent_node \<Rightarrow> agent_node" where
  "apply_duplicate d x =
     x\<lparr>selected := Some (du_selected d), dragging := Some (du_dragging d), nid := du_id d,
       npos := du_position d, dragHandle := du_dragHandle d\<rparr>"

text \<open>\<open>...omit(generateDuplicateNode(..), ['position'])\<close> leaves the position alone.\<close>

definition apply_duplicate_in_place :: "duplicate_fields \<Rightarrow> agent_node \<Rightarrow> agent_node" where
  "apply_duplicate_in_place d x =
     x\<lparr>selected := Some (du_selected d), dragging := Some (du_dragging d), nid := du_id d,
       dragHandle := du_dragHandle d\<rparr>"

definition duplicateIterationNode ::
    "(nat \<Rightarrow> string) \<Rightarrow> string \<Rightarrow> string \<Rightarrow> rf_state \<Rightarrow> rf_state" where
  "duplicateIterationNode hid i nm s =
     (let node = getNode s (Some i);
          base = (case node of None \<Rightarrow> no_node | Some x \<Rightarrow> x);
          data = (case node of None \<Rightarrow> \<lparr>label = op_str OpIteration, name = [], form = JObj []\<rparr>
                  | Some x \<Rightarrow> ndata x);
          iterationNode =
            apply_duplicate
              (generateDuplicateNode (hid 0) (map_option npos node) (map_option node_label node))
              (base\<lparr>ndata := data\<lparr>name := generateNodeName s nm\<rparr>\<rparr>);
          inner = filter (\<lambda>x. parentId x = map_option nid node) (st_nodes s);
          children = map (\<lambda>(k, x).
            apply_duplicate_in_place
              (generateDuplicateNode (hid (Suc k)) (Some (npos x)) (Some (node_label x)))
              (x\<lparr>ndata := (duplicateNodeForm (Some (ndata x)))\<lparr>name := generateNodeName s (node_name x)\<rparr>\<rparr>)
              \<lparr>parentId := Some (nid iterationNode)\<rparr>) (enumerate 0 inner)
      in s\<lparr>st_nodes := st_nodes s @ iterationNode # children\<rparr>)"

definition duplicateNode ::
    "(nat \<Rightarrow> string) \<Rightarrow> string \<Rightarrow> string \<Rightarrow> rf_state \<Rightarrow> rf_state" where
  "duplicateNode hid i nm s =
     (let node = getNode s (Some i) in
      if map_option node_label node = Some (op_str OpIteration)
      then duplicateIterationNode hid i nm s
      else addNode
             (apply_duplicate
               (generateDuplicateNode (hid 0) (map_option npos node) (map_option node_label node))
               ((case node of None \<Rightarrow> no_node | Some x \<Rightarrow> x)
                 \<lparr>ndata := (duplicateNodeForm (map_option ndata node))\<lparr>name := generateNodeName s nm\<rparr>\<rparr>))
             s)"

section \<open>Deleting\<close>

definition deleteEdge :: "rf_state \<Rightarrow> rf_state" where
  "deleteEdge s =
     s\<lparr>st_edges := filter (\<lambda>e. list_all (\<lambda>x. x \<noteq> eid e) (selectedEdgeIds s)) (st_edges s)\<rparr>"

definition deleteEdgeById :: "lset_fn \<Rightarrow> string \<Rightarrow> rf_state \<Rightarrow> rf_state" where
  "deleteEdgeById lset i s =
     (let s' = (case find (\<lambda>x. eid x = i) (st_edges s) of
                  None \<Rightarrow> s
                | Some e \<Rightarrow>
                    if getOperatorTypeFromId s (Some (source e)) = Some (op_str OpSwitch)
                    then updateSwitchFormData lset (source e) (sourceHandle e) (target e) False s
                    else s)
      in s'\<lparr>st_edges := filter (\<lambda>e. eid e \<noteq> i) (st_edges s)\<rparr>)"

definition deleteEdgesBySourceAndSourceHandle :: "string \<Rightarrow> string \<Rightarrow> rf_state \<Rightarrow> rf_state" where
  "deleteEdgesBySourceAndSourceHandle src handle s =
     setEdges (filter (\<lambda>e. \<not> (source e = src \<and> sourceHandle e = JStr handle)) (st_edges s)) s"

text \<open>
  The actions below that walk the agents downstream are partial: \<open>None\<close> is a walk that does not
  end.
\<close>

definition deleteAgentDownstreamNodesById :: "string \<Rightarrow> rf_state \<Rightarrow> rf_state option" where
  "deleteAgentDownstreamNodesById i s =
     map_option (\<lambda>(downstreamIds, downstreamEdges).
       s\<lparr>st_nodes := filter (\<lambda>n. \<not> list_ex (\<lambda>x. x = nid n) downstreamIds \<and> nid n \<noteq> i) (st_nodes s),
         st_edges := filter (\<lambda>e. source e \<noteq> i \<and> target e \<noteq> i
                              \<and> \<not> list_ex (\<lambda>x. eid x = eid e) downstreamEdges) (st_edges s)\<rparr>)
       (deleteAllDownstreamAgentsAndTool i (st_edges s))"

definition deleteNodeById :: "string \<Rightarrow> rf_state \<Rightarrow> rf_state option" where
  "deleteNodeById i s =
     (if getOperatorTypeFromId s (Some i) = Some (op_str OpAgent)
      then deleteAgentDownstreamNodesById i s
      else Some (s\<lparr>st_nodes := filter (\<lambda>n. nid n \<noteq> i) (st_nodes s),
                   st_edges := filter (\<lambda>e. target e \<noteq> i)
                                 (filter (\<lambda>e. source e \<noteq> i) (st_edges s))\<rparr>))"

definition deleteAgentToolNodeById :: "lset_fn \<Rightarrow> string \<Rightarrow> rf_state \<Rightarrow> rf_state option" where
  "deleteAgentToolNodeById lset i s =
     (case find (\<lambda>x. source x = i \<and> sourceHandle x = JStr Handle_Tool) (st_edges s) of
        None \<Rightarrow> Some s
      | Some e \<Rightarrow> deleteNodeById (target e) (deleteEdgeById lset (eid e) s))"

definition deleteIterationNodeById :: "string \<Rightarrow> rf_state \<Rightarrow> rf_state" where
  "deleteIterationNodeById i s =
     (let children = filter (\<lambda>n. parentId n = Some i) (st_nodes s)
      in s\<lparr>st_nodes := filter (\<lambda>n. nid n \<noteq> i \<and> parentId n \<noteq> Some i) (st_nodes s),
           st_edges := filter (\<lambda>e. source e \<noteq> i \<and> target e \<noteq> i
             \<and> \<not> list_ex (\<lambda>child. source e = nid child \<and> target e = nid child) children) (st_edges s)\<rparr>)"

section \<open>Small canvases\<close>

definition mk_node :: "string \<Rightarrow> operator \<Rightarrow> string option \<Rightarrow> jsv \<Rightarrow> agent_node" where
  "mk_node i p parent f =
     no_node\<lparr>nid := i, parentId := parent, ndata := \<lparr>label = op_str p, name = i, form = f\<rparr>\<rparr>"

definition mk_edge :: "string \<Rightarrow> string \<Rightarrow> string \<Rightarrow> string \<Rightarrow> edge" where
  "mk_edge i a b h =
     \<lparr>eid = i, source = a, target = b, sourceHandle = JStr h, targetHandle = JStr Handle_End, edata = JUndef\<rparr>"

definition mk_state :: "agent_node list \<Rightarrow> edge list \<Rightarrow> rf_state" where
  "mk_state ns es = initial_state\<lparr>st_nodes := ns, st_edges := es\<rparr>"

end
