(* ===== verification/Agent_Tools.thy ===== *)
theory Agent_Tools
  imports Agent_Store
begin

text \<open>
  The tools of agent nodes in the graph store (\<open>pages/agent/store.ts\<close>): reading the tools of one
  agent or of all, naming a new tool, drawing an id for it that no tool has, and updating one. The
  list of tools is a dynamic value of the agent's form, so reading a tool that is \<open>undefined\<close>
  throws.
\<close>

lemma js_filter_total:
  "(\<And>x. x \<in> set xs \<Longrightarrow> p x = Inr (q x)) \<Longrightarrow> js_filter p xs = Inr (filter q xs)"
  by (induction xs) auto

section \<open>Tools\<close>

definition array_elems :: "jsv \<Rightarrow> jsv list" where
  "array_elems v = (case v of JArr xs \<Rightarrow> xs | _ \<Rightarrow> [])"

text \<open>\<open>flatMap\<close> keeps a result that is not an array as one element.\<close>

definition flat_elems :: "jsv \<Rightarrow> jsv list" where
  "flat_elems v = (case v of JArr xs \<Rightarrow> xs | _ \<Rightarrow> [v])"

definition getAgentNodeTools :: "lget_fn \<Rightarrow> agent_node option \<Rightarrow> jsv" where
  "getAgentNodeTools lget agentNode =
     (case agentNode of None \<Rightarrow> JArr [] | Some n \<Rightarrow> lget (node_form n) [''tools''] (JArr []))"

definition getAgentNodeMCP :: "lget_fn \<Rightarrow> agent_node option \<Rightarrow> jsv" where
  "getAgentNodeMCP lget agentNode =
     (case agentNode of None \<Rightarrow> JArr [] | Some n \<Rightarrow> lget (node_form n) [''mcp''] (JArr []))"

definition getAllAgentTools :: "rf_state \<Rightarrow> jsv list" where
  "getAllAgentTools s =
     concat (map (\<lambda>n. flat_elems (jget (node_form n) ''tools''))
       (filter (\<lambda>n. is_op OpAgent (node_label n)) (st_nodes s)))"

text \<open>\<open>t.id || t.component_name\<close>.\<close>

definition tool_key :: "jsv \<Rightarrow> jsv js" where
  "tool_key t =
     js_bind (jprop t ''id'') (\<lambda>i. if truthy i then Inr i else jprop t ''component_name'')"

definition has_tool_key :: "string \<Rightarrow> jsv \<Rightarrow> bool js" where
  "has_tool_key i t = js_bind (tool_key t) (\<lambda>k. Inr (js_seq k (JStr i)))"

text \<open>The second argument of the source is a node, the id of a node, or missing.\<close>

datatype node_ref = NoRef | NodeRef agent_node | NodeId string

definition getAgentToolById :: "lget_fn \<Rightarrow> rf_state \<Rightarrow> string \<Rightarrow> node_ref \<Rightarrow> jsv option js" where
  "getAgentToolById lget s i r =
     js_find (has_tool_key i)
       (case r of
          NoRef \<Rightarrow> getAllAgentTools s
        | NodeRef n \<Rightarrow> array_elems (getAgentNodeTools lget (Some n))
        | NodeId k \<Rightarrow> array_elems (getAgentNodeTools lget (getNode s (Some k))))"

definition updateAgentToolById ::
    "lget_fn \<Rightarrow> lset_fn \<Rightarrow> node_ref \<Rightarrow> string \<Rightarrow> jsv \<Rightarrow> rf_state \<Rightarrow> rf_state js" where
  "updateAgentToolById lget lset r i value s =
     (case (case r of NoRef \<Rightarrow> None | NodeRef n \<Rightarrow> Some n | NodeId k \<Rightarrow> getNode s (Some k)) of
        None \<Rightarrow> Inr s
      | Some agentNode \<Rightarrow>
          js_bind (js_findIdx (has_tool_key i) (array_elems (getAgentNodeTools lget (Some agentNode))))
            (\<lambda>found. let toolIndex = (case found of None \<Rightarrow> ''-1'' | Some k \<Rightarrow> nat_str k)
              in Inr (updateNodeForm lset (nid agentNode)
                   (js_object [Spread (lget (node_form agentNode) [''tools'', toolIndex] (JObj [])),
                               Spread (js_coalesce value (JObj []))])
                   [''tools'', toolIndex] s)))"

section \<open>The name of a new tool\<close>

text \<open>
  \<open>name.match(/(\d+)$/)?.[1]\<close>: the digits the name ends with. With none, \<open>Number(undefined)\<close> is
  \<open>NaN\<close>.
\<close>

definition trailing_digits :: "string \<Rightarrow> string" where
  "trailing_digits s = rev (takeWhile digit (rev s))"

definition tool_index :: "jsv \<Rightarrow> jsnum js" where
  "tool_index t =
     js_bind (jprop t ''name'') (\<lambda>nm. case nm of
       JStr s \<Rightarrow> Inr (if trailing_digits s = [] then NaN else js_Number (trailing_digits s))
     | _ \<Rightarrow> Inl (TypeError ''x.name.match is not a function''))"

text \<open>
  The source sorts the indices by subtraction and takes the last one; with a \<open>NaN\<close> among them the
  comparison is inconsistent and the order is up to the engine (here \<open>NaN\<close> is last).
\<close>

definition generateAgentToolName :: "rf_state \<Rightarrow> string \<Rightarrow> string \<Rightarrow> string js" where
  "generateAgentToolName s i nm =
     (case find (\<lambda>x. nid x = i) (st_nodes s) of
        None \<Rightarrow> Inr []
      | Some n \<Rightarrow>
          js_bind (jprop (node_form n) ''tools'') (\<lambda>ts. case ts of
            JArr xs \<Rightarrow>
              js_bind (js_filter (\<lambda>x. js_bind (jprop x ''component_name'')
                                   (\<lambda>c. Inr (js_seq c (JStr nm)))) xs) (\<lambda>tools.
              js_bind (js_mapM tool_index tools) (\<lambda>idxs.
                let lastIndex = (if tools = [] then Fin (-1) else last (sort idxs))
                in Inr (nm @ ''_'' @ num_str (num_add lastIndex (Fin 1)))))
          | _ \<Rightarrow> Inl (TypeError ''tools.filter is not a function'')))"

section \<open>The id of a new tool\<close>

text \<open>
  The loop draws words until the id is not taken; it may draw for ever, so the value is an option.
\<close>

partial_function (option) draw_id ::
    "string \<Rightarrow> (nat \<Rightarrow> string) \<Rightarrow> jsv list \<Rightarrow> nat \<Rightarrow> string option" where
  "draw_id pfx hid taken k =
     (let i = pfx @ '':'' @ hid k
      in if JStr i \<in> set taken then draw_id pfx hid taken (Suc k) else Some i)"

definition generateAgentToolId ::
    "(nat \<Rightarrow> string) \<Rightarrow> rf_state \<Rightarrow> string \<Rightarrow> string option js" where
  "generateAgentToolId hid s pfx =
     js_bind (js_mapM tool_key (getAllAgentTools s)) (\<lambda>taken. Inr (draw_id pfx hid taken 0))"

lemma draw_id_free:
  "draw_id pfx hid taken k = Some i \<Longrightarrow>
     JStr i \<notin> set taken \<and> (\<exists>j\<ge>k. i = pfx @ '':'' @ hid j)"
proof (erule draw_id.raw_induct [rotated])
  fix draw pfx hid taken k i
  assume IH: "\<And>pfx hid taken k i. draw pfx hid taken k = Some i \<Longrightarrow>
                JStr i \<notin> set taken \<and> (\<exists>j\<ge>k. i = pfx @ '':'' @ hid j)"
    and step: "(let i = pfx @ '':'' @ hid k
                in if JStr i \<in> set taken then draw pfx hid taken (Suc k) else Some i) = Some i"
  show "JStr i \<notin> set taken \<and> (\<exists>j\<ge>k. i = pfx @ '':'' @ hid j)"
  proof (cases "JStr (pfx @ '':'' @ hid k) \<in> set taken")
    case True
    with step have "draw pfx hid taken (Suc k) = Some i" by simp
    from IH [OF this] show ?thesis by (auto intro: Suc_leD)
  next
    case False
    with step show ?thesis by auto
  qed
qed

lemma draw_id_returns:
  assumes "JStr (pfx @ '':'' @ hid j) \<notin> set taken" "k \<le> j"
  shows "draw_id pfx hid taken k \<noteq> None"
  using assms(2)
proof (induction rule: inc_induct)
  case base
  then show ?case using assms(1) by (subst draw_id.simps) simp
next
  case (step n)
  then show ?case by (subst draw_id.simps) (simp add: Let_def)
qed

text \<open>A supply of words that is not exhausted: infinitely many different words give a free id.\<close>

lemma draw_id_total:
  assumes "inj hid"
  shows "draw_id pfx hid taken k \<noteq> None"
proof -
  let ?f = "\<lambda>j. JStr (pfx @ '':'' @ hid j)"
  have "inj_on ?f {k..}" using assms by (auto simp: inj_on_def)
  then have "infinite (?f ` {k..})" using finite_imageD infinite_Ici by blast
  then have "\<not> ?f ` {k..} \<subseteq> set taken" by (meson finite_set finite_subset)
  then obtain j where "j \<ge> k" "?f j \<notin> set taken" by auto
  then show ?thesis by (simp add: draw_id_returns)
qed

end
