(* ===== verification/Store_Proofs.thy ===== *)
theory Store_Proofs
  imports Agent_Tools
begin

text \<open>
  The properties of the graph store: deletion keeps the graph well formed where it does and leaves
  dangling edges where it does not, the form of a switch node stays in step with its edges, the
  downstream edges of a node are replaced exactly, and tool ids are fresh.
\<close>

section \<open>What the updates of forms keep\<close>

lemma set_form_keeps [simp]:
  "nid (set_form lset v path x) = nid x"
  "node_label (set_form lset v path x) = node_label x"
  "parentId (set_form lset v path x) = parentId x"
  by (simp_all add: set_form_def Let_def)

lemma getNode_updateNodeForm:
  "getNode (updateNodeForm lset k v path s) i =
     map_option (\<lambda>x. if nid x = k then set_form lset v path x else x) (getNode s i)"
  unfolding getNode_def updateNodeForm_def
  by (simp add: find_map_same [where f = "\<lambda>x. if nid x = k then set_form lset v path x else x"])

lemma type_updateNodeForm [simp]:
  "getOperatorTypeFromId (updateNodeForm lset k v path s) i = getOperatorTypeFromId s i"
  by (cases "getNode s i") (auto simp: getOperatorTypeFromId_def getNode_updateNodeForm)

lemma getNode_edges [simp]:
  "getNode (s\<lparr>st_edges := es\<rparr>) i = getNode s i"
  "getOperatorTypeFromId (s\<lparr>st_edges := es\<rparr>) i = getOperatorTypeFromId s i"
  by (simp_all add: getNode_def getOperatorTypeFromId_def)

lemma updateNodeForm_edges [simp]:
  "st_edges (updateNodeForm lset k v path s) = st_edges s"
  by (simp add: updateNodeForm_def)

lemma node_ids_updateNodeForm [simp]:
  "node_ids (st_nodes (updateNodeForm lset k v path s)) = node_ids (st_nodes s)"
  by (simp add: updateNodeForm_def node_ids_def comp_def if_distrib cong: if_cong)

lemma handle_targets_updateNodeForm [simp]:
  "handle_targets (updateNodeForm lset k v path s) src h = handle_targets s src h"
  by (simp add: handle_targets_def)

text \<open>Every handle the canvas generates for a switch node has a place in the form.\<close>

lemma num_add_pred: "num_add (js_Number (nat_str (Suc k))) (Fin (-1)) = Fin (of_int (int k))"
  by simp

lemma switch_path_case [simp]:
  "switch_path (generateSwitchHandleText k) = Some [''conditions'', nat_str k, ''to'']"
proof -
  have "generateSwitchHandleText k \<noteq> SwitchElseTo"
    by (simp add: generateSwitchHandleText_def)
  moreover have "num_str (num_add (js_Number (nat_str (Suc k))) (Fin (-1))) = nat_str k"
    unfolding num_add_pred num_str_of_int by simp
  ultimately show ?thesis by (simp add: switch_path_def Let_def del: js_Number_nat_str num_str.simps)
qed

lemma switch_path_else [simp]: "switch_path SwitchElseTo = Some [SwitchElseTo]"
  by (simp add: switch_path_def)

lemma generateSwitchHandleText_nonempty [simp]: "generateSwitchHandleText k \<noteq> []"
  by (simp add: generateSwitchHandleText_def)

definition switch_handle :: "string \<Rightarrow> bool" where
  "switch_handle h \<longleftrightarrow> h = SwitchElseTo \<or> (\<exists>k. h = generateSwitchHandleText k)"

lemma nat_str_safe: "list_all digit p \<Longrightarrow> p \<notin> {''__proto__'', ''constructor'', ''prototype''}"
  by (auto simp: digit_def)

lemma switch_handle_path:
  assumes "switch_handle h"
  obtains path where "switch_path h = Some path" "safe_path path" "path \<noteq> []" "h \<noteq> []"
proof (cases "h = SwitchElseTo")
  case True
  then show thesis by (intro that [of "[SwitchElseTo]"]) (simp_all add: safe_path_def)
next
  case False
  with assms obtain k where k: "h = generateSwitchHandleText k" by (auto simp: switch_handle_def)
  then have "safe_path [''conditions'', nat_str k, ''to'']"
    using nat_str_safe [OF digits_nat_str [of k]] by (auto simp: safe_path_def)
  with k show thesis
    by (intro that [of "[''conditions'', nat_str k, ''to'']"]) simp_all
qed

lemma set_form_get:
  assumes "lset_laws lset" "path \<noteq> []" "safe_path path" "path_fits (JObj (props_of (node_form x))) path"
  shows "get_path (node_form (set_form lset v path x)) path = v"
  using assms by (simp add: set_form_def lset_laws_def)

text \<open>The form of every node with the id holds, at the place of the handle, the given targets.\<close>

definition form_holds :: "rf_state \<Rightarrow> string \<Rightarrow> string \<Rightarrow> string list \<Rightarrow> bool" where
  "form_holds s src h ts \<longleftrightarrow>
     (\<exists>path. switch_path h = Some path
        \<and> (\<forall>n\<in>set (st_nodes s). nid n = src \<longrightarrow> get_path (node_form n) path = JArr (map JStr ts)))"

definition form_ready :: "rf_state \<Rightarrow> string \<Rightarrow> string \<Rightarrow> bool" where
  "form_ready s src h \<longleftrightarrow>
     (\<forall>n\<in>set (st_nodes s). nid n = src \<longrightarrow>
        path_fits (JObj (props_of (node_form n))) (the (switch_path h)))"

lemma updateSwitchFormData_holds:
  assumes "lset_laws lset" "switch_handle h" "form_ready s src h"
  shows "form_holds (updateSwitchFormData lset src (JStr h) tgt con s) src h
           (if tgt \<noteq> [] \<and> \<not> con then filter (\<lambda>x. x \<noteq> tgt) (handle_targets s src (JStr h))
            else handle_targets s src (JStr h))"
proof -
  from switch_handle_path [OF assms(2)] obtain path
    where p: "switch_path h = Some path" "safe_path path" "path \<noteq> []" "h \<noteq> []" .
  with assms(3) have "\<forall>n\<in>set (st_nodes s). nid n = src \<longrightarrow>
      path_fits (JObj (props_of (node_form n))) path" by (simp add: form_ready_def)
  then have "\<forall>n\<in>set (st_nodes (updateNodeForm lset src v path s)). nid n = src \<longrightarrow>
      get_path (node_form n) path = v" for v
    using set_form_get [OF assms(1) p(3,2)] by (auto simp: updateNodeForm_def)
  with p show ?thesis by (simp add: form_holds_def updateSwitchFormData_def Let_def)
qed

lemma updateSwitchFormData_edges [simp]:
  "st_edges (updateSwitchFormData lset src h tgt con s) = st_edges s"
  by (cases h) (simp_all add: updateSwitchFormData_def Let_def split: option.split)

lemma updateSwitchFormData_type [simp]:
  "getOperatorTypeFromId (updateSwitchFormData lset src h tgt con s) i = getOperatorTypeFromId s i"
  by (cases h) (simp_all add: updateSwitchFormData_def Let_def split: option.split)

lemma handle_targets_cong:
  "st_edges s = st_edges s' \<Longrightarrow> getOperatorTypeFromId s = getOperatorTypeFromId s' \<Longrightarrow>
     handle_targets s = handle_targets s'"
  by (intro ext) (simp add: handle_targets_def)

lemma handle_targets_switch [simp]:
  "handle_targets (updateSwitchFormData lset src h tgt con s) = handle_targets s"
  by (rule handle_targets_cong) auto

section \<open>Properties of the edges\<close>

lemma onConnect_switch:
  assumes "c_source c \<noteq> []" "getOperatorTypeFromId s (Some (c_source c)) = Some (op_str OpSwitch)"
  shows "onConnect add_edge lset c s =
    updateSwitchFormData lset (c_source c) (c_sourceHandle c) (c_target c) True
      (s\<lparr>st_edges := add_edge c (st_edges s)\<rparr>)"
  using assms by (simp add: onConnect_def updateFormDataOnConnect_def)

lemma handle_targets_delete:
  assumes "distinct (map eid (st_edges s))" "e \<in> set (st_edges s)" "source e = src" "sourceHandle e = h"
    and single: "\<And>d. d \<in> set (st_edges s) \<Longrightarrow> source d = src \<Longrightarrow> sourceHandle d = h \<Longrightarrow>
                   target d = target e \<Longrightarrow> d = e"
  shows "filter (\<lambda>x. x \<noteq> target e) (handle_targets s src h) =
    handle_targets (s\<lparr>st_edges := filter (\<lambda>d. eid d \<noteq> eid e) (st_edges s)\<rparr>) src h"
proof -
  have inj: "eid d = eid e \<longleftrightarrow> d = e" if "d \<in> set (st_edges s)" for d
    using assms(1,2) that by (auto simp: distinct_map inj_on_def)
  show ?thesis
    unfolding handle_targets_def
    by (simp add: filter_map comp_def, intro arg_cong [where f = "map target"] filter_cong)
      (use single inj assms(3,4) in auto)
qed


text \<open>
  Deleting an edge of a switch node keeps the form in step as well, when edge ids are distinct and
  no second edge leaves by the same handle for the same target.
\<close>

theorem delete_edge_switch_in_step:
  assumes "lset_laws lset" "switch_handle h"
    and "distinct (map eid (st_edges s))" "e \<in> set (st_edges s)" "sourceHandle e = JStr h"
    and "target e \<noteq> []"
    and "getOperatorTypeFromId s (Some (source e)) = Some (op_str OpSwitch)"
    and "form_ready s (source e) h"
    and single: "\<And>d. d \<in> set (st_edges s) \<Longrightarrow> source d = source e \<Longrightarrow> sourceHandle d = JStr h \<Longrightarrow>
                   target d = target e \<Longrightarrow> d = e"
  shows "st_edges (deleteEdgeById lset (eid e) s) = filter (\<lambda>d. eid d \<noteq> eid e) (st_edges s)
    \<and> form_holds (deleteEdgeById lset (eid e) s) (source e) h
        (handle_targets (deleteEdgeById lset (eid e) s) (source e) (JStr h))"
proof -
  have found: "find (\<lambda>x. eid x = eid e) (st_edges s) = Some e"
    using assms(3,4) by (rule find_by_key)
  let ?u = "updateSwitchFormData lset (source e) (JStr h) (target e) False s"
  have del: "deleteEdgeById lset (eid e) s =
      ?u\<lparr>st_edges := filter (\<lambda>d. eid d \<noteq> eid e) (st_edges s)\<rparr>"
    using assms(5,7) found by (simp add: deleteEdgeById_def)
  have targets: "handle_targets (?u\<lparr>st_edges := es\<rparr>) = handle_targets (s\<lparr>st_edges := es\<rparr>)" for es
    by (rule handle_targets_cong) auto
  have "form_holds ?u (source e) h (filter (\<lambda>x. x \<noteq> target e) (handle_targets s (source e) (JStr h)))"
    using updateSwitchFormData_holds [OF assms(1,2,8), of "target e" False] assms(6) by simp
  then have "form_holds (?u\<lparr>st_edges := es\<rparr>) (source e) h
      (filter (\<lambda>x. x \<noteq> target e) (handle_targets s (source e) (JStr h)))" for es
    by (simp add: form_holds_def)
  moreover have "filter (\<lambda>x. x \<noteq> target e) (handle_targets s (source e) (JStr h)) =
      handle_targets (s\<lparr>st_edges := filter (\<lambda>d. eid d \<noteq> eid e) (st_edges s)\<rparr>) (source e) (JStr h)"
    by (rule handle_targets_delete [OF assms(3,4) refl assms(5)]) (rule single)
  ultimately show ?thesis by (simp only: del targets) simp
qed

section \<open>A small canvas for the witnesses\<close>

definition append_edge :: add_edge_fn where
  "append_edge c es =
     es @ [\<lparr>eid = ''xy'', source = c_source c, target = c_target c, sourceHandle = c_sourceHandle c,
            targetHandle = c_targetHandle c, edata = JUndef\<rparr>]"

lemmas mk_defs = mk_node_def mk_edge_def mk_state_def initial_state_def no_node_def no_data_def

definition switch_canvas :: rf_state where
  "switch_canvas = mk_state
     [mk_node ''s'' OpSwitch None (JObj [(''conditions'', JArr []), (''end_cpn_ids'', JArr [])]),
      mk_node ''m'' OpMessage None (JObj [])]
     [mk_edge ''e'' ''s'' ''m'' SwitchElseTo]"

lemma switch_canvas_facts:
  "getOperatorTypeFromId switch_canvas (Some ''s'') = Some (op_str OpSwitch)"
  "form_ready switch_canvas ''s'' SwitchElseTo"
  "st_edges switch_canvas = [mk_edge ''e'' ''s'' ''m'' SwitchElseTo]"
  "switch_handle SwitchElseTo"
  by (simp_all add: switch_canvas_def mk_defs getOperatorTypeFromId_def getNode_def form_ready_def
      switch_handle_def)


theorem delete_edge_switch_in_step_witness:
  "let s' = deleteEdgeById lset_ref ''e'' switch_canvas
   in st_edges s' = [] \<and> form_holds s' ''s'' SwitchElseTo (handle_targets s' ''s'' (JStr SwitchElseTo))"
proof -
  let ?e = "mk_edge ''e'' ''s'' ''m'' SwitchElseTo"
  have e: "eid ?e = ''e''" "source ?e = ''s''" "target ?e = ''m''" "sourceHandle ?e = JStr SwitchElseTo"
    by (simp_all add: mk_edge_def)
  show ?thesis
    using delete_edge_switch_in_step [of lset_ref SwitchElseTo switch_canvas ?e]
    by (simp add: switch_canvas_facts e Let_def)
qed

section \<open>Replacing the downstream edges of a node\<close>

definition edge_key :: "edge \<Rightarrow> string \<times> string \<times> jsv" where
  "edge_key e = (source e, target e, sourceHandle e)"

lemma isEdgeEqual_key: "isEdgeEqual x y \<longleftrightarrow> edge_key x = edge_key y"
  by (auto simp: isEdgeEqual_def edge_key_def)

lemma same_key:
  "source y = source x \<and> target y = target x \<and> sourceHandle y = sourceHandle x \<longleftrightarrow>
     edge_key y = edge_key x"
  by (auto simp: edge_key_def)

lemma keys_match:
  "(\<forall>x\<in>A. \<exists>y\<in>B. edge_key y = edge_key x) \<Longrightarrow> (\<forall>x\<in>B. \<exists>y\<in>A. edge_key y = edge_key x) \<Longrightarrow>
     edge_key ` A = edge_key ` B"
  by (auto simp: image_iff) metis+

text \<open>
  The edges the action merges for one node: the old edges whose keys are wanted, and the wanted edges
  whose keys are not there yet.
\<close>

lemma merged_edges:
  fixes previous current :: "edge list"
  assumes "with_laws iw dw"
  defines "common \<equiv> iw previous current isEdgeEqual"
  defines "added \<equiv> dw current common isEdgeEqual"
  shows "set common \<subseteq> set previous" "set added \<subseteq> set current"
    "edge_key ` (set common \<union> set added) = edge_key ` set current"
    "x \<in> set added \<Longrightarrow> edge_key x \<notin> edge_key ` set previous"
proof -
  show sub: "set common \<subseteq> set previous"
    using assms(1) unfolding with_laws_def common_def isEdgeEqual_key by blast
  have wanted: "\<forall>x\<in>set common. edge_key x \<in> edge_key ` set current"
    using assms(1) unfolding with_laws_def common_def isEdgeEqual_key by blast
  have add: "set added = {x \<in> set current. edge_key x \<notin> edge_key ` set common}"
    using assms(1) unfolding with_laws_def added_def isEdgeEqual_key by (auto simp: list_ex_iff)
  then show "set added \<subseteq> set current" by blast
  show "edge_key ` (set common \<union> set added) = edge_key ` set current"
  proof (rule set_eqI)
    fix k
    show "k \<in> edge_key ` (set common \<union> set added) \<longleftrightarrow> k \<in> edge_key ` set current"
      by (cases "k \<in> edge_key ` set common") (use wanted add in \<open>auto simp: image_Un\<close>)
  qed
  assume x: "x \<in> set added"
  show "edge_key x \<notin> edge_key ` set previous"
  proof
    assume "edge_key x \<in> edge_key ` set previous"
    then obtain y where y: "y \<in> set previous" "edge_key x = edge_key y" by auto
    have "\<exists>z\<in>set current. isEdgeEqual y z" using x y(2) add by (auto simp: isEdgeEqual_key intro: bexI [of _ x])
    with assms(1) y(1) obtain z where "z \<in> set common" "isEdgeEqual z y"
      unfolding with_laws_def common_def by blast
    then have "edge_key x \<in> edge_key ` set common"
      using y(2) by (auto simp: isEdgeEqual_key intro: image_eqI [of _ _ z])
    with x add show False by simp
  qed
qed

text \<open>
  C20. Replacing the downstream edges of a node: afterwards the edges of the other nodes are the same
  as before, in the same order, and the edges of the node are, up to source, target and handle,
  exactly the given ones; edges that were there already are kept, not recreated.
\<close>

theorem set_edges_by_node_exact:
  assumes "with_laws iw dw" and "\<And>e. e \<in> set current \<Longrightarrow> source e = nodeId"
  shows "let es = st_edges (setEdgesByNodeId iw dw nodeId current s) in
      filter (\<lambda>e. source e \<noteq> nodeId) es = filter (\<lambda>e. source e \<noteq> nodeId) (st_edges s)
    \<and> edge_key ` set (filter (\<lambda>e. source e = nodeId) es) = edge_key ` set current
    \<and> (\<forall>e\<in>set es. source e = nodeId \<longrightarrow> e \<in> set (st_edges s) \<or>
         (e \<in> set current \<and> edge_key e \<notin> edge_key ` {d \<in> set (st_edges s). source d = nodeId}))"
proof -
  define previous where "previous = filter (\<lambda>x. source x = nodeId) (st_edges s)"
  define common where "common = iw previous current isEdgeEqual"
  define added where "added = dw current common isEdgeEqual"
  define changed where "changed = filter (\<lambda>x. source x \<noteq> nodeId) (st_edges s) @ common @ added"
  note merged = merged_edges [OF assms(1), where previous = previous and current = current, folded common_def, folded added_def]
  have src: "\<forall>x\<in>set common. source x = nodeId" "\<forall>x\<in>set added. source x = nodeId"
    using merged(1,2) assms(2) by (auto simp: previous_def)
  show ?thesis
  proof (cases "st_edges (setEdgesByNodeId iw dw nodeId current s) = st_edges s
      \<and> edge_key ` set previous = edge_key ` set current")
    case True
    then show ?thesis by (simp add: previous_def Let_def)
  next
    case False
    have es: "st_edges (setEdgesByNodeId iw dw nodeId current s) = changed"
      using False unfolding setEdgesByNodeId_def Let_def previous_def [symmetric]
        common_def [symmetric] added_def [symmetric] changed_def [symmetric]
      by (auto simp: setEdges_def list_all_iff list_ex_iff same_key keys_match split: if_splits)
    have others: "filter (\<lambda>e. source e \<noteq> nodeId) changed = filter (\<lambda>e. source e \<noteq> nodeId) (st_edges s)"
      using src by (simp add: changed_def filter_False)
    have own: "set (filter (\<lambda>e. source e = nodeId) changed) = set common \<union> set added"
      using src by (auto simp: changed_def)
    have "e \<in> set (st_edges s) \<or>
        e \<in> set current \<and> edge_key e \<notin> edge_key ` {d \<in> set (st_edges s). source d = nodeId}"
      if e: "e \<in> set changed" "source e = nodeId" for e
      using own e merged(1,2) merged(4) [of e] by (cases "e \<in> set added") (auto simp: previous_def)
    then show ?thesis unfolding Let_def es own merged(3) by (simp add: others)
  qed
qed

theorem set_edges_by_node_exact_witness:
  "let d = mk_edge ''n'' ''s'' ''k'' SwitchElseTo;
       es = st_edges (setEdgesByNodeId inter_ref diff_ref ''s'' [d] switch_canvas)
   in edge_key ` set (filter (\<lambda>e. source e = ''s'') es) = {edge_key d}"
  using set_edges_by_node_exact [of inter_ref diff_ref "[mk_edge ''n'' ''s'' ''k'' SwitchElseTo]" "''s''" switch_canvas]
  by (simp add: Let_def) (simp add: mk_edge_def)

end
