(* ===== verification/Store_Deletion.thy ===== *)
theory Store_Deletion
  imports Store_Proofs
begin

text \<open>
  Deleting nodes of the canvas: one node, an agent with everything below it, an iteration with its
  children. The first keeps the graph well formed; the other two leave edges whose ends are gone.
\<close>

lemma getNode_find: "getNode s (Some i) = find_node (st_nodes s) i"
  by (simp add: getNode_def find_node_def)

text \<open>All the edges the source collects have one id: the id of the first.\<close>

lemma push_related_same_id:
  "(\<forall>y\<in>set pre. eid y = i) \<Longrightarrow> pre \<noteq> [] \<Longrightarrow>
     (\<forall>y\<in>set (push_related pre x). eid y = i) \<and> push_related pre x \<noteq> []"
  by (cases pre) (auto simp: push_related_def list_ex_iff)

lemma push_related_fold:
  "\<forall>y\<in>set pre. eid y = i \<Longrightarrow> pre \<noteq> [] \<Longrightarrow> \<forall>y\<in>set (foldl push_related pre xs). eid y = i"
proof (induction xs arbitrary: pre)
  case Nil
  then show ?case by simp
next
  case (Cons x xs)
  from push_related_same_id [OF Cons.prems, of x] Cons.IH [of "push_related pre x"]
  show ?case by (metis foldl_Cons)
qed

lemma push_related_fold_ids: "\<exists>i. \<forall>y\<in>set (foldl push_related [] xs). eid y = i"
proof (cases xs)
  case Nil
  then show ?thesis by simp
next
  case (Cons x ys)
  then show ?thesis using push_related_fold [of "[x]" "eid x" ys] by (auto simp: push_related_def)
qed

lemma related_edges_flat:
  "related_edges edges ids =
     foldl push_related [] (concat (map (\<lambda>cur. filter (\<lambda>x. source x = cur \<or> target x = cur) edges) ids))"
proof -
  have "foldl (\<lambda>pre cur. foldl push_related pre (f cur)) pre ids =
      foldl push_related pre (concat (map f ids))" for f pre
    by (induction ids arbitrary: pre) simp_all
  then show ?thesis by (simp add: related_edges_def)
qed

lemma related_edges_one_id: "\<exists>i. \<forall>y\<in>set (related_edges edges ids). eid y = i"
  unfolding related_edges_flat by (rule push_related_fold_ids)

text \<open>
  C17. Deleting a node that is no agent, on a well-formed graph, removes that node and the edges that
  touch it, nothing else, and leaves a well-formed graph.
\<close>

theorem delete_node_exact:
  assumes "wf_state s" "getOperatorTypeFromId s (Some i) \<noteq> Some (op_str OpAgent)"
  shows "\<exists>s'. deleteNodeById i s = Some s' \<and> wf_state s'
    \<and> st_nodes s' = filter (\<lambda>n. nid n \<noteq> i) (st_nodes s)
    \<and> st_edges s' = filter (\<lambda>e. source e \<noteq> i \<and> target e \<noteq> i) (st_edges s)
    \<and> getNode s' (Some i) = None"
proof -
  let ?ns = "filter (\<lambda>n. nid n \<noteq> i) (st_nodes s)"
  let ?es = "filter (\<lambda>e. source e \<noteq> i \<and> target e \<noteq> i) (st_edges s)"
  have "wf_graph ?ns ?es"
    using assms(1) unfolding wf_state_def by (rule wf_graph_filter) auto
  moreover have "filter (\<lambda>e. target e \<noteq> i) (filter (\<lambda>e. source e \<noteq> i) (st_edges s)) = ?es"
    by (simp add: conj_commute)
  ultimately show ?thesis
    using assms(2) find_filter_None [of "\<lambda>n. nid n = i" "st_nodes s"]
    by (simp add: deleteNodeById_def wf_state_def getNode_find find_node_def)
qed

theorem delete_node_exact_witness:
  "\<exists>s'. deleteNodeById ''m'' switch_canvas = Some s' \<and> wf_state s' \<and> getNode s' (Some ''m'') = None"
proof -
  have "wf_state switch_canvas" "getOperatorTypeFromId switch_canvas (Some ''m'') \<noteq> Some (op_str OpAgent)"
    by (simp_all add: switch_canvas_def mk_defs wf_state_def wf_graph_def node_ids_def
        edges_between_def getOperatorTypeFromId_def getNode_def)
  from delete_node_exact [OF this] show ?thesis by blast
qed

definition agent_edges :: "rf_state \<Rightarrow> (string \<times> string) set" where
  "agent_edges s = edge_rel (st_edges s) is_agent_or_tool_edge"

lemma delete_agent_spec:
  assumes "getOperatorTypeFromId s (Some i) = Some (op_str OpAgent)"
  shows "(deleteNodeById i s = None) =
      (\<exists>z. (i, z) \<in> (agent_edges s)\<^sup>* \<and> (z, z) \<in> (agent_edges s)\<^sup>+)
    \<and> (\<forall>s'. deleteNodeById i s = Some s' \<longrightarrow>
         st_nodes s' = filter (\<lambda>n. (i, nid n) \<notin> (agent_edges s)\<^sup>*) (st_nodes s)
       \<and> (\<exists>k. \<forall>e\<in>set (st_edges s). e \<notin> set (st_edges s') \<longrightarrow> source e = i \<or> target e = i \<or> eid e = k)
       \<and> set (st_edges s') \<subseteq> {e \<in> set (st_edges s). source e \<noteq> i \<and> target e \<noteq> i})"
proof (intro conjI allI impI)
  have del: "deleteNodeById i s = deleteAgentDownstreamNodesById i s"
    using assms by (simp add: deleteNodeById_def)
  show "(deleteNodeById i s = None) =
      (\<exists>z. (i, z) \<in> (agent_edges s)\<^sup>* \<and> (z, z) \<in> (agent_edges s)\<^sup>+)"
    by (simp add: del deleteAgentDownstreamNodesById_def deleteAllDownstreamAgentsAndTool_def
        filterAllDownstreamAgentAndToolNodeIds_def filterAllDownstream_None agent_edges_def)
  fix s'
  assume "deleteNodeById i s = Some s'"
  then obtain ids where ids:
      "filterAllDownstreamNodeIds (st_edges s) [i] is_agent_or_tool_edge = Some ids"
      "s' = s\<lparr>st_nodes := filter (\<lambda>n. \<not> list_ex (\<lambda>x. x = nid n) ids \<and> nid n \<noteq> i) (st_nodes s),
              st_edges := filter (\<lambda>e. source e \<noteq> i \<and> target e \<noteq> i
                \<and> \<not> list_ex (\<lambda>x. eid x = eid e) (related_edges (st_edges s) ids)) (st_edges s)\<rparr>"
    by (auto simp: del deleteAgentDownstreamNodesById_def deleteAllDownstreamAgentsAndTool_def
        filterAllDownstreamAgentAndToolNodeIds_def)
  from filterAllDownstream_Some [OF ids(1)]
  have set_ids: "set ids = {y. (i, y) \<in> (agent_edges s)\<^sup>+}" by (simp add: agent_edges_def)
  have "(\<not> list_ex (\<lambda>x. x = nid n) ids \<and> nid n \<noteq> i) = ((i, nid n) \<notin> (agent_edges s)\<^sup>*)" for n :: agent_node
    by (auto simp: list_ex_iff set_ids rtrancl_eq_or_trancl)
  then show "st_nodes s' = filter (\<lambda>n. (i, nid n) \<notin> (agent_edges s)\<^sup>*) (st_nodes s)"
    by (simp only: ids(2)) simp
  obtain k where "\<forall>y\<in>set (related_edges (st_edges s) ids). eid y = k"
    using related_edges_one_id by blast
  then show "\<exists>k. \<forall>e\<in>set (st_edges s). e \<notin> set (st_edges s') \<longrightarrow> source e = i \<or> target e = i \<or> eid e = k"
    by (intro exI [of _ k]) (auto simp: ids(2) list_ex_iff)
  show "set (st_edges s') \<subseteq> {e \<in> set (st_edges s). source e \<noteq> i \<and> target e \<noteq> i}"
    by (auto simp: ids(2))
qed

text \<open>
  C16. Deleting an agent returns exactly when the agents and tools below it form no cycle, and then the
  nodes left are those that are neither the agent nor below it. Of the edges, those that touch the
  agent are removed, and beyond them only edges of one single id.
\<close>

theorem delete_agent_nodes_exact:
  assumes "getOperatorTypeFromId s (Some i) = Some (op_str OpAgent)"
  shows "(deleteNodeById i s = None) =
      (\<exists>z. (i, z) \<in> (agent_edges s)\<^sup>* \<and> (z, z) \<in> (agent_edges s)\<^sup>+)
    \<and> (\<forall>s'. deleteNodeById i s = Some s' \<longrightarrow>
         st_nodes s' = filter (\<lambda>n. (i, nid n) \<notin> (agent_edges s)\<^sup>*) (st_nodes s)
       \<and> (\<exists>k. \<forall>e\<in>set (st_edges s). e \<notin> set (st_edges s') \<longrightarrow> source e = i \<or> target e = i \<or> eid e = k))"
  using delete_agent_spec [OF assms] by blast

text \<open>An agent with a sub-agent that has a tool.\<close>

definition agent_canvas :: rf_state where
  "agent_canvas = mk_state
     [mk_node ''a'' OpAgent None (JObj []), mk_node ''b'' OpAgent None (JObj []),
      mk_node ''t'' OpTool None (JObj [])]
     [mk_edge ''ab'' ''a'' ''b'' Handle_AgentBottom, mk_edge ''bt'' ''b'' ''t'' Handle_Tool]"

lemma agent_canvas_walk:
  "filterAllDownstreamNodeIds (st_edges agent_canvas) [''a''] is_agent_or_tool_edge = Some [''b'', ''t'']"
  by (simp add: agent_canvas_def mk_defs filterAllDownstreamNodeIds_def down_succs_def
      is_agent_or_tool_edge_def push_new_def eval_nat_numeral)

lemma agent_canvas_delete:
  "deleteNodeById ''a'' agent_canvas =
     Some (agent_canvas\<lparr>st_nodes := [], st_edges := [mk_edge ''bt'' ''b'' ''t'' Handle_Tool]\<rparr>)"
  using agent_canvas_walk
  by (simp add: deleteNodeById_def getOperatorTypeFromId_def getNode_def agent_canvas_def mk_defs
      deleteAgentDownstreamNodesById_def deleteAllDownstreamAgentsAndTool_def
      filterAllDownstreamAgentAndToolNodeIds_def related_edges_def push_related_def)

theorem delete_agent_nodes_exact_witness:
  "filter (\<lambda>n. (''a'', nid n) \<notin> (agent_edges agent_canvas)\<^sup>*) (st_nodes agent_canvas) = []"
proof -
  have "getOperatorTypeFromId agent_canvas (Some ''a'') = Some (op_str OpAgent)"
    by (simp add: agent_canvas_def mk_defs getOperatorTypeFromId_def getNode_def)
  from delete_agent_nodes_exact [OF this] agent_canvas_delete show ?thesis by auto
qed

text \<open>
  Deleting an agent can break the graph: from a well-formed canvas of an agent, a sub-agent and the
  tool of the sub-agent, deleting the agent removes the three nodes and leaves the edge between the
  sub-agent and its tool.
\<close>

theorem delete_agent_leaves_dangling_edge:
  "wf_state agent_canvas
    \<and> (\<exists>s'. deleteNodeById ''a'' agent_canvas = Some s' \<and> st_nodes s' = []
         \<and> st_edges s' = [mk_edge ''bt'' ''b'' ''t'' Handle_Tool] \<and> \<not> wf_state s')"
  unfolding agent_canvas_delete
  by (simp add: wf_state_def wf_graph_def edges_between_def agent_canvas_def mk_defs node_ids_def)

text \<open>
  Deleting an iteration removes the node and its children, but every edge between two different
  children stays, with both its ends gone.
\<close>

theorem delete_iteration_leaves_child_edges:
  assumes "distinct (node_ids (st_nodes s))"
    and "a \<in> set (st_nodes s)" "b \<in> set (st_nodes s)" "parentId a = Some i" "parentId b = Some i"
    and "nid a \<noteq> nid b" "nid a \<noteq> i" "nid b \<noteq> i"
    and "e \<in> set (st_edges s)" "source e = nid a" "target e = nid b"
  shows "e \<in> set (st_edges (deleteIterationNodeById i s))
    \<and> source e \<notin> set (node_ids (st_nodes (deleteIterationNodeById i s)))
    \<and> target e \<notin> set (node_ids (st_nodes (deleteIterationNodeById i s)))"
proof -
  have "e \<in> set (st_edges (deleteIterationNodeById i s))"
    using assms(6-11) by (auto simp: deleteIterationNodeById_def list_ex_iff)
  moreover have "nid c \<notin> set (node_ids (st_nodes (deleteIterationNodeById i s)))"
    if "c \<in> set (st_nodes s)" "parentId c = Some i" for c
    using assms(1) that
    by (auto simp: deleteIterationNodeById_def node_ids_def distinct_map inj_on_def)
  ultimately show ?thesis using assms(2-5,10,11) by simp
qed

definition iteration_canvas :: rf_state where
  "iteration_canvas = mk_state
     [mk_node ''i'' OpIteration None (JObj []), mk_node ''x'' OpIterationStart (Some ''i'') (JObj []),
      mk_node ''y'' OpMessage (Some ''i'') (JObj [])]
     [mk_edge ''xy'' ''x'' ''y'' Handle_Start]"

theorem delete_iteration_leaves_child_edges_witness:
  "mk_edge ''xy'' ''x'' ''y'' Handle_Start \<in> set (st_edges (deleteIterationNodeById ''i'' iteration_canvas))"
  using delete_iteration_leaves_child_edges [of iteration_canvas
      "mk_node ''x'' OpIterationStart (Some ''i'') (JObj [])" "mk_node ''y'' OpMessage (Some ''i'') (JObj [])"
      "''i''" "mk_edge ''xy'' ''x'' ''y'' Handle_Start"]
  by (simp add: iteration_canvas_def mk_defs node_ids_def)

end
