(* ===== verification/Store_Tools.thy ===== *)
theory Store_Tools
  imports Store_Proofs
begin

text \<open>
  Properties of the store's remaining actions: the id of a new tool, the update of a tool, the write
  to one field of a form, and the copies of a node and of an iteration with its children.
\<close>

section \<open>Array indices as keys\<close>

lemma digit_char_zero: "d < 10 \<Longrightarrow> digit_char d = CHR ''0'' \<longleftrightarrow> d = 0"
  using digit_char_simps(2) [of d] by (auto simp: digit_val_def)

lemma nat_str_hd: "hd (nat_str n) = CHR ''0'' \<Longrightarrow> n = 0"
proof (induction n rule: nat_str.induct)
  case (1 n)
  show ?case
  proof (cases "n < 10")
    case True
    then show ?thesis using "1.prems" by (subst (asm) nat_str.simps) (simp add: digit_char_zero)
  next
    case False
    then have "hd (nat_str n) = hd (nat_str (n div 10))" by (subst nat_str.simps) simp
    with False "1.IH" "1.prems" show ?thesis by simp
  qed
qed

lemma is_index_key_nat_str: "n < 2 ^ 32 - 1 \<Longrightarrow> is_index_key (nat_str n)"
  using nat_str_hd [of n] by (auto simp: is_index_key_def nat_str.simps [of 0])

lemma jget_nat_str: "n < length xs \<Longrightarrow> length xs < 2 ^ 32 \<Longrightarrow> jget (JArr xs) (nat_str n) = xs ! n"
  using is_index_key_nat_str [of n] is_index_not_length by auto

section \<open>The id of a new tool\<close>

lemma js_mapM_total: "(\<And>x. x \<in> set xs \<Longrightarrow> \<exists>y. f x = Inr y) \<Longrightarrow> \<exists>ys. js_mapM f xs = Inr ys"
proof (induction xs)
  case Nil
  then show ?case by simp
next
  case (Cons x xs)
  from Cons.prems [of x] obtain y where "f x = Inr y" by auto
  moreover from Cons.IH Cons.prems obtain ys where "js_mapM f xs = Inr ys" by auto
  ultimately show ?case by simp
qed

lemma js_mapM_setD: "js_mapM f xs = Inr ys \<Longrightarrow> x \<in> set xs \<Longrightarrow> \<exists>y\<in>set ys. f x = Inr y"
  by (induction xs arbitrary: ys) (auto simp: js_bind_Inr)

lemma tool_key_total: "\<not> nullish t \<Longrightarrow> \<exists>k. tool_key t = Inr k"
  by (simp add: tool_key_def jprop_def)


definition tool_canvas :: rf_state where
  "tool_canvas = mk_state
     [mk_node ''a'' OpAgent None
        (JObj [(''tools'', JArr [JObj [(''component_name'', JStr ''Bing''), (''id'', JStr ''Bing:0'')]])])] []"


section \<open>Updating a tool\<close>

lemma updateNodeForm_get:
  assumes "lset_laws lset" "path \<noteq> []" "safe_path path" "n \<in> set (st_nodes (updateNodeForm lset k v path s))"
    "nid n = k" "\<forall>m\<in>set (st_nodes s). nid m = k \<longrightarrow> path_fits (JObj (props_of (node_form m))) path"
  shows "get_path (node_form n) path = v"
  using assms set_form_get [OF assms(1,2,3)] by (auto simp: updateNodeForm_def)

text \<open>
  Updating a tool of an agent by its id writes, at the index of the first tool with that id, the
  old tool with the given fields over it; the nodes with other ids are left as they are.
\<close>

theorem update_tool_at_its_index:
  assumes "lset_laws lset" "lget_laws lget" "distinct (node_ids (st_nodes s))"
    and "n \<in> set (st_nodes s)" "jget (node_form n) ''tools'' = JArr tools" "length tools < 2 ^ 32 - 1"
    and "js_findIdx (has_tool_key i) tools = Inr (Some j)" "j < length tools" "tools ! j = JObj tool"
  shows "\<exists>s' n'. updateAgentToolById lget lset (NodeId (nid n)) i (JObj value) s = Inr s'
    \<and> n' \<in> set (st_nodes s') \<and> nid n' = nid n
    \<and> get_path (node_form n') [''tools'', nat_str j] = js_object [Spread (JObj tool), Spread (JObj value)]
    \<and> filter (\<lambda>m. nid m \<noteq> nid n) (st_nodes s') = filter (\<lambda>m. nid m \<noteq> nid n) (st_nodes s)"
proof -
  let ?path = "[''tools'', nat_str j]"
  let ?v = "js_object [Spread (JObj tool), Spread (JObj value)]"
  let ?s = "updateNodeForm lset (nid n) ?v ?path s"
  obtain ps where ps: "node_form n = JObj ps" using assms(5) by (cases "node_form n") (auto split: if_splits simp: is_index_key_def digit_def)
  have idx: "jget (JArr tools) (nat_str j) = tools ! j" using assms(6,8) by (intro jget_nat_str) auto
  then have gp: "get_path (node_form n) ?path = JObj tool"
    using assms(5,9) by (simp only: get_path_def foldl.simps)
  have "get_path (node_form n) [''tools''] = JArr tools" using assms(5) by (simp add: get_path_def)
  with gp assms(2) have l: "lget (node_form n) [''tools''] (JArr []) = JArr tools"
    "lget (node_form n) ?path (JObj []) = JObj tool" by (simp_all add: lget_laws_def)
  have node: "getNode s (Some (nid n)) = Some n"
    using find_by_key [of nid] assms(3,4) by (simp add: getNode_def node_ids_def)
  have "updateAgentToolById lget lset (NodeId (nid n)) i (JObj value) s = Inr ?s"
    using assms(7)
    by (simp add: updateAgentToolById_def node getAgentNodeTools_def l array_elems_def
        js_coalesce_def nullish_def Let_def)
  moreover have "set_form lset ?v ?path n \<in> set (st_nodes ?s)"
    using assms(4) by (force simp: updateNodeForm_def)
  moreover have "get_path (node_form (set_form lset ?v ?path n)) ?path = ?v"
  proof (rule set_form_get [OF assms(1)])
    show "safe_path ?path" using nat_str_safe [OF digits_nat_str [of j]] by (auto simp: safe_path_def)
    have "is_index_key (nat_str j)" using assms(6,8) by (intro is_index_key_nat_str) simp
    then show "path_fits (JObj (props_of (node_form n))) ?path"
      using assms(5) by (simp add: ps split: option.splits)
  qed simp
  moreover have "filter (\<lambda>m. nid m \<noteq> nid n) (st_nodes ?s) = filter (\<lambda>m. nid m \<noteq> nid n) (st_nodes s)"
    by (simp add: updateNodeForm_def filter_map comp_def if_distrib cong: if_cong filter_cong)
      (rule map_idI, auto)
  ultimately show ?thesis by (intro exI [of _ ?s] exI [of _ "set_form lset ?v ?path n"]) simp
qed

theorem update_tool_at_its_index_witness:
  "\<exists>s' n'. updateAgentToolById lget_ref lset_ref (NodeId ''a'') ''Bing:0'' (JObj [(''name'', JStr ''b'')])
        tool_canvas = Inr s'
    \<and> n' \<in> set (st_nodes s') \<and> nid n' = ''a''"
proof -
  let ?n = "mk_node ''a'' OpAgent None
        (JObj [(''tools'', JArr [JObj [(''component_name'', JStr ''Bing''), (''id'', JStr ''Bing:0'')]])])"
  have n: "?n \<in> set (st_nodes tool_canvas)" "nid ?n = ''a''"
    by (simp_all add: tool_canvas_def mk_defs)
  show ?thesis
    using update_tool_at_its_index [of lset_ref lget_ref tool_canvas ?n
        "[JObj [(''component_name'', JStr ''Bing''), (''id'', JStr ''Bing:0'')]]" "''Bing:0''" 0
        "[(''component_name'', JStr ''Bing''), (''id'', JStr ''Bing:0'')]" "[(''name'', JStr ''b'')]"] n
    by (auto simp: tool_canvas_def mk_defs node_ids_def has_tool_key_def tool_key_def jprop_def nullish_def)
qed

section \<open>Writing one field of a form\<close>

text \<open>
  The action that writes one field of a node's form never changes the first node of the canvas,
  whatever id it is given: the index 0 fails its guard. Any other node it finds gets the value.
\<close>

theorem mutable_item_skips_first_node:
  assumes "lset_laws lset" "safe_path [field]" "n \<in> set (st_nodes s)" "distinct (node_ids (st_nodes s))"
    "node_form n = JObj ps"
  shows "\<exists>n'\<in>set (st_nodes (updateMutableNodeFormItem lset (nid n) field value s)).
    nid n' = nid n \<and> (if n = hd (st_nodes s) then n' = n else jget (node_form n') field = value)"
proof -
  have "findIdx (\<lambda>x. nid x = nid n) (st_nodes s) \<noteq> None"
    using assms(3) by (auto simp: findIdx_None)
  then obtain k where k: "findIdx (\<lambda>x. nid x = nid n) (st_nodes s) = Some k" by auto
  from findIdx_SomeD [OF k] assms(3,4) have nth: "k < length (st_nodes s)" "st_nodes s ! k = n"
    by (auto simp: node_ids_def distinct_map inj_on_def)
  have hd: "n = hd (st_nodes s) \<longleftrightarrow> k = 0"
  proof -
    have "hd (st_nodes s) = st_nodes s ! 0" using assms(3) by (cases "st_nodes s") auto
    moreover have "distinct (st_nodes s)" using assms(4) by (simp add: node_ids_def distinct_map)
    moreover have "0 < length (st_nodes s)" using nth(1) by linarith
    ultimately show ?thesis using nth by (metis nth_eq_iff_index_eq)
  qed
  show ?thesis
  proof (cases "k = 0")
    case True
    then have "updateMutableNodeFormItem lset (nid n) field value s = s"
      by (simp add: updateMutableNodeFormItem_def k)
    with True hd assms(3) show ?thesis by (intro bexI [of _ n]) simp_all
  next
    case False
    let ?n = "n\<lparr>ndata := (ndata n)\<lparr>form := lset (JObj ps) [field] value\<rparr>\<rparr>"
    have "get_path (lset (JObj ps) [field] value) [field] = value"
      using assms(1,2) by (simp add: lset_laws_def)
    then have "jget (node_form ?n) field = value" by (simp add: get_path_def)
    moreover have "?n \<in> set (st_nodes (updateMutableNodeFormItem lset (nid n) field value s))"
      using False nth set_update_memI [OF nth(1)]
      by (simp add: updateMutableNodeFormItem_def k Let_def assms(5) container_def)
    ultimately show ?thesis using False hd by (intro bexI [of _ ?n]) auto
  qed
qed

theorem mutable_item_skips_first_node_witness:
  "\<exists>n'\<in>set (st_nodes (updateMutableNodeFormItem lset_ref ''s'' ''x'' JNull switch_canvas)).
     nid n' = ''s'' \<and> jget (node_form n') ''x'' = JUndef"
proof -
  let ?n = "hd (st_nodes switch_canvas)"
  have n: "?n \<in> set (st_nodes switch_canvas)" "nid ?n = ''s''" "distinct (node_ids (st_nodes switch_canvas))"
    "node_form ?n = JObj [(''conditions'', JArr []), (''end_cpn_ids'', JArr [])]" "safe_path [''x'']"
    by (simp_all add: switch_canvas_def mk_defs node_ids_def safe_path_def)
  from mutable_item_skips_first_node [OF lset_ref_laws n(5,1,3,4), of JNull] n(2,4) show ?thesis by auto
qed

section \<open>Copies\<close>

lemma foldl_put_keys:
  "wf_obj ps \<Longrightarrow> fst ` set pre \<inter> fst ` set ps = {} \<Longrightarrow>
     map_of (foldl (\<lambda>pre (k, v). obj_put k (f v) pre) pre ps) =
     (\<lambda>k. case map_of ps k of None \<Rightarrow> map_of pre k | Some v \<Rightarrow> Some (f v))"
proof (induction ps arbitrary: pre)
  case Nil
  then show ?case by (simp add: fun_eq_iff)
next
  case (Cons p ps)
  obtain k v where p: "p = (k, v)" by (cases p)
  from Cons.prems(1) p have k: "k \<notin> fst ` set ps" and wf: "wf_obj ps" by (auto simp: wf_obj_def)
  then have "map_of ps k = None" by (simp add: map_of_eq_None_iff)
  moreover have "fst ` set (obj_put k (f v) pre) \<inter> fst ` set ps = {}" using Cons.prems(2) k p by auto
  ultimately show ?case using Cons.IH [OF wf] p by (auto simp: fun_eq_iff split: option.split)
qed

lemma map_of_clear_to:
  "wf_obj ps \<Longrightarrow> map_of (clear_to ps) k =
     map_option (\<lambda>v. js_object [Spread v, Prop ''to'' JUndef]) (map_of ps k)"
  using foldl_put_keys [of ps "[]" "\<lambda>v. js_object [Spread v, Prop ''to'' JUndef]"]
  by (simp add: clear_to_def split: option.split)

text \<open>
  Duplicating a node that is no iteration adds one node at the end: it has the id drawn for it, a
  position shifted by 50, the type and parent of the original, a free name, and the form of the
  original; for a categorize operator the targets of every category are cleared and the rest of the
  form is kept. The other nodes and the edges stay.
\<close>

theorem duplicate_node_copies:
  assumes "getNode s (Some i) = Some n" "node_label n \<noteq> op_str OpIteration" "node_form n = JObj ps"
    and "CHR ''_'' \<notin> set nm" "used_indices nm (st_nodes s) = map num_of_int ks" "distinct ks"
  shows "\<exists>n'. duplicateNode hid i nm s = s\<lparr>st_nodes := st_nodes s @ [n']\<rparr>
    \<and> nid n' = node_label n @ '':'' @ hid 0 \<and> node_label n' = node_label n \<and> ntype n' = ntype n
    \<and> parentId n' = parentId n \<and> npos n' = \<lparr>px = px (npos n) + 50, py = py (npos n) + 50\<rparr>
    \<and> node_name n' \<notin> node_name ` set (st_nodes s)
    \<and> (\<forall>k. k \<noteq> ''category_description'' \<or> node_label n \<noteq> op_str OpCategorize \<longrightarrow>
         jget (node_form n') k = jget (node_form n) k)
    \<and> (\<forall>cats c v. node_label n = op_str OpCategorize \<longrightarrow>
         jget (node_form n) ''category_description'' = JObj cats \<longrightarrow> wf_obj cats \<longrightarrow> map_of cats c = Some v \<longrightarrow>
         jget (jget (node_form n') ''category_description'') c = js_object [Spread v, Prop ''to'' JUndef])"
proof -
  define n' where "n' = apply_duplicate
      (generateDuplicateNode (hid 0) (Some (npos n)) (Some (node_label n)))
      (n\<lparr>ndata := (duplicateNodeForm (Some (ndata n)))\<lparr>name := generateNodeName s nm\<rparr>\<rparr>)"
  have dup: "duplicateNode hid i nm s = s\<lparr>st_nodes := st_nodes s @ [n']\<rparr>"
    using assms(1,2) by (simp add: duplicateNode_def n'_def addNode_def)
  have basic: "nid n' = node_label n @ '':'' @ hid 0" "node_label n' = node_label n" "ntype n' = ntype n"
    "parentId n' = parentId n" "npos n' = \<lparr>px = px (npos n) + 50, py = py (npos n) + 50\<rparr>"
    "node_name n' = generateNodeName s nm" "node_form n' = form (duplicateNodeForm (Some (ndata n)))"
    by (simp_all add: n'_def apply_duplicate_def generateDuplicateNode_def duplicateNodeForm_def Let_def)
  have "node_name n' \<notin> node_name ` set (st_nodes s)"
    unfolding basic(6) generateNodeName_def by (rule generated_name_fresh [OF assms(4-6)])
  moreover have "jget (node_form n') k = jget (node_form n) k"
    if "k \<noteq> ''category_description'' \<or> node_label n \<noteq> op_str OpCategorize" for k
    using that assms(3) by (auto simp: basic(7) duplicateNodeForm_def Let_def is_op_def)
  moreover have "jget (jget (node_form n') ''category_description'') c = js_object [Spread v, Prop ''to'' JUndef]"
    if "node_label n = op_str OpCategorize" "jget (node_form n) ''category_description'' = JObj cats"
      "wf_obj cats" "map_of cats c = Some v" for cats c v
    using that assms(3)
    by (simp add: basic(7) duplicateNodeForm_def Let_def is_op_def map_of_clear_to del: jget.simps)
      (simp add: map_of_clear_to)
  ultimately show ?thesis using dup basic(1-5) by blast
qed

theorem duplicate_node_copies_witness:
  "\<exists>n'. duplicateNode nat_str ''m'' ''Copy'' switch_canvas =
        switch_canvas\<lparr>st_nodes := st_nodes switch_canvas @ [n']\<rparr> \<and> nid n' = ''Message:0''"
proof -
  have m: "getNode switch_canvas (Some ''m'') = Some (mk_node ''m'' OpMessage None (JObj []))"
    "used_indices ''Copy'' (st_nodes switch_canvas) = map num_of_int []"
    by (simp_all add: switch_canvas_def mk_defs getNode_def used_indices_def is_template_def splitName_def Let_def)
  have z: "nat_str 0 = ''0''" by (simp add: nat_str.simps)
  from duplicate_node_copies [OF m(1) _ _ _ m(2), of "[]" nat_str] show ?thesis
    by (auto simp: mk_defs z)
qed

end
