(* ===== verification/History.thy ===== *)
theory History
  imports Js_Json
begin

text \<open>
  Undo and redo on the agent canvas, from \<open>pages/agent/use-agent-history-manager.ts\<close>: the class
  \<open>HistoryManager\<close> with its list of snapshots and the index of the current one, and the hook's
  effect that pushes the canvas after every change.

  A snapshot goes through \<open>JSON.parse(JSON.stringify(x))\<close>, which is \<open>json_norm\<close> here; two
  snapshots have the same JSON text exactly when their normal forms are the same value.
\<close>

section \<open>The manager\<close>

record snapshot =
  sn_nodes :: jsv
  sn_edges :: jsv

record history_manager =
  history :: "snapshot list"
  currentIndex :: int
  lastSavedState :: "snapshot option"

definition maxSize :: nat where
  "maxSize = 50"

definition new_manager :: history_manager where
  "new_manager = \<lparr>history = [], currentIndex = -1, lastSavedState = None\<rparr>"

definition json_snapshot :: "snapshot \<Rightarrow> snapshot" where
  "json_snapshot s = \<lparr>sn_nodes = json_norm (sn_nodes s), sn_edges = json_norm (sn_edges s)\<rparr>"

definition statesEqual :: "snapshot \<Rightarrow> snapshot \<Rightarrow> bool" where
  "statesEqual a b = (json_snapshot a = json_snapshot b)"

definition current_entry :: "history_manager \<Rightarrow> snapshot option" where
  "current_entry h = (if currentIndex h < 0 then None else nth_opt (history h) (nat (currentIndex h)))"

definition push_state :: "snapshot \<Rightarrow> history_manager \<Rightarrow> history_manager" where
  "push_state s h =
     (let currentState = json_snapshot s in
      if history h \<noteq> [] \<and> (case current_entry h of None \<Rightarrow> False | Some e \<Rightarrow> statesEqual currentState e)
      then h
      else
        (let kept = (if currentIndex h < int (length (history h)) - 1
                     then take (nat (currentIndex h + 1)) (history h) else history h);
             pushed = kept @ [currentState];
             limited = (if length pushed > maxSize then tl pushed else pushed)
         in \<lparr>history = limited, currentIndex = int (length limited) - 1,
             lastSavedState = Some currentState\<rparr>))"

definition canUndo :: "history_manager \<Rightarrow> bool" where
  "canUndo h = (currentIndex h > 0)"

definition canRedo :: "history_manager \<Rightarrow> bool" where
  "canRedo h = (currentIndex h < int (length (history h)) - 1)"

text \<open>
  \<open>undo\<close> and \<open>redo\<close> return the snapshot handed to the two setters, if any; the source's result is
  whether there was one.
\<close>

definition undo :: "history_manager \<Rightarrow> history_manager \<times> snapshot option" where
  "undo h =
     (if canUndo h
      then (let h' = h\<lparr>currentIndex := currentIndex h - 1\<rparr>
            in (h', map_option json_snapshot (current_entry h')))
      else (h, None))"

definition redo :: "history_manager \<Rightarrow> history_manager \<times> snapshot option" where
  "redo h =
     (if canRedo h
      then (let h' = h\<lparr>currentIndex := currentIndex h + 1\<rparr>
            in (h', map_option json_snapshot (current_entry h')))
      else (h, None))"

definition reset :: "history_manager \<Rightarrow> history_manager" where
  "reset h = \<lparr>history = [], currentIndex = -1, lastSavedState = None\<rparr>"

section \<open>The canvas and the manager together\<close>

text \<open>
  The hook's state: the canvas and the manager. A change of the canvas and a setter called by undo
  or redo are both followed by the effect, which pushes the canvas.
\<close>

type_synonym session = "snapshot \<times> history_manager"

definition effect :: "session \<Rightarrow> session" where
  "effect ch = (fst ch, push_state (fst ch) (snd ch))"

definition user_edit :: "snapshot \<Rightarrow> session \<Rightarrow> session" where
  "user_edit c ch = effect (c, snd ch)"

definition key_undo :: "session \<Rightarrow> session" where
  "key_undo ch = (case undo (snd ch) of (h, None) \<Rightarrow> (fst ch, h) | (h, Some c) \<Rightarrow> effect (c, h))"

definition key_redo :: "session \<Rightarrow> session" where
  "key_redo ch = (case redo (snd ch) of (h, None) \<Rightarrow> (fst ch, h) | (h, Some c) \<Rightarrow> effect (c, h))"

text \<open>The keyboard: Ctrl or Cmd with Z undoes, with Shift as well it redoes, unless an input has the focus.\<close>

record key_event =
  ke_ctrl :: bool
  ke_meta :: bool
  ke_shift :: bool
  ke_key :: string
  ke_input_focused :: bool

definition handleKeyDown :: "key_event \<Rightarrow> session \<Rightarrow> session" where
  "handleKeyDown e ch =
     (let z = ((ke_ctrl e \<or> ke_meta e) \<and> (ke_key e = ''z'' \<or> ke_key e = ''Z'')) in
      if ke_input_focused e then ch
      else if z \<and> \<not> ke_shift e then key_undo ch
      else if z \<and> ke_shift e then key_redo ch
      else ch)"

text \<open>Every manager the class can reach.\<close>

inductive reachable :: "history_manager \<Rightarrow> bool" where
  start: "reachable new_manager"
| push: "reachable h \<Longrightarrow> reachable (push_state s h)"
| undo: "reachable h \<Longrightarrow> reachable (fst (undo h))"
| redo: "reachable h \<Longrightarrow> reachable (fst (redo h))"
| reset: "reachable h \<Longrightarrow> reachable (reset h)"

inductive_cases reachable_cases: "reachable h"

section \<open>The invariant\<close>

definition history_inv :: "history_manager \<Rightarrow> bool" where
  "history_inv h \<longleftrightarrow>
     length (history h) \<le> maxSize
   \<and> -1 \<le> currentIndex h \<and> currentIndex h < int (length (history h))
   \<and> (history h \<noteq> [] \<longrightarrow> 0 \<le> currentIndex h)
   \<and> (\<forall>e\<in>set (history h). json_snapshot e = e)
   \<and> successively (\<noteq>) (history h)"

lemma json_snapshot_idem [simp]: "json_snapshot (json_snapshot s) = json_snapshot s"
  by (simp add: json_snapshot_def)

lemma history_invD:
  assumes "history_inv h"
  shows "length (history h) \<le> maxSize" "currentIndex h < int (length (history h))"
    "e \<in> set (history h) \<Longrightarrow> json_snapshot e = e" "successively (\<noteq>) (history h)"
    "history h = [] \<Longrightarrow> currentIndex h = -1" "history h \<noteq> [] \<Longrightarrow> 0 \<le> currentIndex h"
  using assms by (auto simp: history_inv_def)

lemma current_entry_nth:
  "history_inv h \<Longrightarrow> history h \<noteq> [] \<Longrightarrow> current_entry h = Some (history h ! nat (currentIndex h))"
  by (auto simp: current_entry_def nth_opt_def history_inv_def)

lemma inv_new: "history_inv new_manager"
  by (simp add: history_inv_def new_manager_def)

lemma inv_reset: "history_inv (reset h)"
  by (simp add: history_inv_def reset_def)

lemma inv_undo: "history_inv h \<Longrightarrow> history_inv (fst (undo h))"
  by (auto simp: undo_def Let_def canUndo_def history_inv_def)

lemma inv_redo: "history_inv h \<Longrightarrow> history_inv (fst (redo h))"
  by (auto simp: redo_def Let_def canRedo_def history_inv_def)

text \<open>The list a push keeps: everything up to the current snapshot.\<close>

definition kept :: "history_manager \<Rightarrow> snapshot list" where
  "kept h = take (nat (currentIndex h + 1)) (history h)"

lemma kept_push:
  assumes "history_inv h"
  shows "(if currentIndex h < int (length (history h)) - 1
      then take (nat (currentIndex h + 1)) (history h) else history h) = kept h"
  using history_invD(2) [OF assms] by (simp add: kept_def)

lemma kept_last:
  assumes "history_inv h" "history h \<noteq> []"
  shows "kept h \<noteq> []" "last (kept h) = history h ! nat (currentIndex h)"
proof -
  have n: "nat (currentIndex h) < length (history h)" "nat (currentIndex h + 1) = Suc (nat (currentIndex h))"
    using history_invD(2,6) [OF assms(1)] assms(2) by auto
  then show "kept h \<noteq> []" using assms(2) by (simp add: kept_def)
  show "last (kept h) = history h ! nat (currentIndex h)"
    using n by (simp add: kept_def take_Suc_conv_app_nth)
qed

lemma push_state_unfold:
  assumes "history_inv h"
  shows "push_state s h =
    (if history h \<noteq> [] \<and> last (kept h) = json_snapshot s then h
     else (let pushed = kept h @ [json_snapshot s];
               limited = (if length pushed > maxSize then tl pushed else pushed)
           in \<lparr>history = limited, currentIndex = int (length limited) - 1,
               lastSavedState = Some (json_snapshot s)\<rparr>))"
proof -
  have "(case current_entry h of None \<Rightarrow> False | Some e \<Rightarrow> statesEqual (json_snapshot s) e) \<longleftrightarrow>
      last (kept h) = json_snapshot s" if "history h \<noteq> []"
  proof -
    have "history h ! nat (currentIndex h) \<in> set (history h)"
      using history_invD(2,6) [OF assms] that by simp
    with history_invD(3) [OF assms] current_entry_nth [OF assms that] kept_last [OF assms that]
    show ?thesis by (auto simp: statesEqual_def)
  qed
  then show ?thesis
    unfolding push_state_def Let_def kept_push [OF assms] by auto
qed

lemma successively_take: "successively P xs \<Longrightarrow> successively P (take n xs)"
  by (metis append_take_drop_id successively_append_iff)

lemma successively_tl: "successively P xs \<Longrightarrow> successively P (tl xs)"
  by (cases xs) (auto simp: successively_Cons)

lemma inv_push:
  assumes "history_inv h"
  shows "history_inv (push_state s h)"
proof (cases "history h \<noteq> [] \<and> last (kept h) = json_snapshot s")
  case True
  with assms show ?thesis by (simp add: push_state_unfold)
next
  case False
  define pushed where "pushed = kept h @ [json_snapshot s]"
  define limited where "limited = (if length pushed > maxSize then tl pushed else pushed)"
  have eq: "push_state s h = \<lparr>history = limited, currentIndex = int (length limited) - 1,
      lastSavedState = Some (json_snapshot s)\<rparr>"
    unfolding push_state_unfold [OF assms] Let_def limited_def pushed_def using False by (simp only: if_False)
  have "length (kept h) \<le> maxSize"
    using history_invD(1) [OF assms] by (simp add: kept_def)
  then have len: "length limited \<le> maxSize" "limited \<noteq> []"
    by (cases "kept h"; simp add: limited_def pushed_def maxSize_def)+
  have "set (kept h) \<subseteq> set (history h)" by (simp add: kept_def set_take_subset)
  then have "\<forall>e\<in>set pushed. json_snapshot e = e"
    using history_invD(3) [OF assms] by (auto simp: pushed_def)
  moreover have "set limited \<subseteq> set pushed" by (simp add: limited_def set_mono_suffix suffix_tl)
  ultimately have norm: "\<forall>e\<in>set limited. json_snapshot e = e" by blast
  have "successively (\<noteq>) pushed"
  proof (cases "history h = []")
    case True
    then show ?thesis by (simp add: pushed_def kept_def)
  next
    case h: False
    with False kept_last [OF assms h] history_invD(4) [OF assms] show ?thesis
      by (auto simp: pushed_def successively_append_iff kept_def successively_take)
  qed
  then have "successively (\<noteq>) limited" by (simp add: limited_def successively_tl)
  with len norm show ?thesis by (simp add: eq history_inv_def Suc_le_eq)
qed

lemma reachable_inv: "reachable h \<Longrightarrow> history_inv h"
  by (induction rule: reachable.induct) (simp_all add: inv_new inv_push inv_undo inv_redo inv_reset)

text \<open>
  C19. Whatever the sequence of pushes, undos, redos and resets, the manager keeps at most fifty
  snapshots, its index points into them (and is -1 exactly when there are none), and no two
  neighbouring snapshots are the same.
\<close>

theorem history_manager_invariant:
  assumes "reachable h"
  shows "length (history h) \<le> 50 \<and> -1 \<le> currentIndex h \<and> currentIndex h < int (length (history h))
    \<and> (history h = [] \<longleftrightarrow> currentIndex h = -1)
    \<and> (\<forall>i. Suc i < length (history h) \<longrightarrow> \<not> statesEqual (history h ! i) (history h ! Suc i))"
proof -
  from reachable_inv [OF assms] have inv: "history_inv h" .
  have "\<not> statesEqual (history h ! i) (history h ! Suc i)" if "Suc i < length (history h)" for i
  proof -
    have "history h ! i \<noteq> history h ! Suc i"
      using history_invD(4) [OF inv] that by (auto simp: successively_conv_nth)
    moreover have "json_snapshot (history h ! i) = history h ! i"
      "json_snapshot (history h ! Suc i) = history h ! Suc i"
      using history_invD(3) [OF inv] that by auto
    ultimately show ?thesis by (simp add: statesEqual_def)
  qed
  with inv show ?thesis
    by (cases "history h = []") (auto simp: history_inv_def maxSize_def)
qed

theorem history_manager_invariant_witness:
  "length (history (push_state \<lparr>sn_nodes = JArr [], sn_edges = JArr []\<rparr> new_manager)) \<le> 50"
  using history_manager_invariant [OF reachable.push [OF reachable.start]] by blast

section \<open>Undo and redo\<close>

lemma undo_redo_index:
  assumes "history_inv h" "canUndo h"
  shows "fst (redo (fst (undo h))) = h"
  using assms by (auto simp: undo_def redo_def Let_def canUndo_def canRedo_def history_inv_def)

lemma current_entry_some:
  "history_inv h \<Longrightarrow> history h \<noteq> [] \<Longrightarrow> \<exists>e. current_entry h = Some e \<and> json_snapshot e = e"
  using history_invD(2,3,6) [of h] by (force simp: current_entry_nth)

text \<open>Pushing what the manager already shows changes nothing.\<close>

lemma push_current:
  "history_inv h \<Longrightarrow> current_entry h = Some e \<Longrightarrow> json_snapshot s = json_snapshot e \<Longrightarrow> push_state s h = h"
  by (auto simp: push_state_def statesEqual_def current_entry_def nth_opt_def Let_def split: if_splits)

lemma undo_some:
  assumes "history_inv h" "canUndo h"
  obtains h' c where "undo h = (h', Some c)" "history_inv h'" "current_entry h' = Some c"
    "json_snapshot c = c" "fst (redo h') = h" "canRedo h'"
proof -
  let ?h = "h\<lparr>currentIndex := currentIndex h - 1\<rparr>"
  have inv: "history_inv ?h" and ne: "history ?h \<noteq> []"
    using assms by (auto simp: history_inv_def canUndo_def)
  from current_entry_some [OF inv ne] obtain c
    where c: "current_entry ?h = Some c" "json_snapshot c = c" by auto
  have u: "undo h = (?h, Some c)" using assms(2) c by (simp add: undo_def Let_def)
  have "canRedo ?h" using history_invD(2) [OF assms(1)] by (simp add: canRedo_def)
  with that [OF u inv c] undo_redo_index [OF assms] u show thesis by simp
qed

text \<open>
  Undo followed by redo is the identity on the editing session: when the canvas is the one the
  manager shows, undoing puts the previous snapshot on the canvas, the effect that runs after it adds
  nothing to the history, and redoing brings back both the manager and the canvas.
\<close>

theorem undo_then_redo:
  assumes "reachable h" "canUndo h" "current_entry h = Some c"
  shows "key_redo (key_undo (c, h)) = (c, h)
    \<and> snd (key_undo (c, h)) = fst (undo h)
    \<and> current_entry (fst (undo h)) = Some (fst (key_undo (c, h)))"
proof -
  have inv: "history_inv h" by (rule reachable_inv [OF assms(1)])
  from undo_some [OF inv assms(2)] obtain h' p where
    u: "undo h = (h', Some p)" "history_inv h'" "current_entry h' = Some p" "json_snapshot p = p"
      "fst (redo h') = h" "canRedo h'" .
  have ku: "key_undo (c, h) = (p, h')"
    using push_current [OF u(2,3)] by (simp add: key_undo_def u(1) effect_def)
  have "history h \<noteq> []" using assms(2) inv by (auto simp: canUndo_def history_inv_def)
  with current_entry_some [OF inv] assms(3) have c: "json_snapshot c = c" by auto
  have "redo h' = (h, Some c)"
    using u(5,6) assms(3) c by (auto simp: redo_def Let_def)
  then have "key_redo (p, h') = (c, h)"
    using push_current [OF inv assms(3)] by (simp add: key_redo_def effect_def)
  with ku u(1,3) show ?thesis by simp
qed

definition two_snapshots :: history_manager where
  "two_snapshots = push_state \<lparr>sn_nodes = JArr [JNull], sn_edges = JArr []\<rparr>
     (push_state \<lparr>sn_nodes = JArr [], sn_edges = JArr []\<rparr> new_manager)"

theorem undo_then_redo_witness:
  "let c = \<lparr>sn_nodes = JArr [JNull], sn_edges = JArr []\<rparr>
   in key_redo (key_undo (c, two_snapshots)) = (c, two_snapshots)"
proof -
  have r: "reachable two_snapshots" unfolding two_snapshots_def by (intro reachable.intros)
  have "canUndo two_snapshots"
    "current_entry two_snapshots = Some \<lparr>sn_nodes = JArr [JNull], sn_edges = JArr []\<rparr>"
    by (simp_all add: two_snapshots_def push_state_def new_manager_def current_entry_def nth_opt_def
        statesEqual_def json_snapshot_def canUndo_def maxSize_def Let_def)
  from undo_then_redo [OF r this] show ?thesis by (simp add: Let_def)
qed

section \<open>The abstract history\<close>

text \<open>
  What the manager promises: a line of snapshots with a position, the past before it and the future
  after it. A new snapshot forgets the future, and of the past it keeps the last 49.
\<close>

record timeline =
  past :: "snapshot list"
  present :: "snapshot option"
  future :: "snapshot list"

definition last_n :: "nat \<Rightarrow> 'a list \<Rightarrow> 'a list" where
  "last_n n xs = drop (length xs - n) xs"

definition record_new :: "snapshot \<Rightarrow> timeline \<Rightarrow> timeline" where
  "record_new s z =
     (if present z = Some s then z
      else \<lparr>past = last_n 49 (past z @ (case present z of None \<Rightarrow> [] | Some p \<Rightarrow> [p])),
            present = Some s, future = []\<rparr>)"

definition go_back :: "timeline \<Rightarrow> timeline" where
  "go_back z =
     (case present z of None \<Rightarrow> z
      | Some p \<Rightarrow> if past z = [] then z
                  else \<lparr>past = butlast (past z), present = Some (last (past z)), future = p # future z\<rparr>)"

definition go_forward :: "timeline \<Rightarrow> timeline" where
  "go_forward z =
     (case (present z, future z) of
        (Some p, f # fs) \<Rightarrow> \<lparr>past = past z @ [p], present = Some f, future = fs\<rparr>
      | _ \<Rightarrow> z)"

definition timeline_of :: "history_manager \<Rightarrow> timeline" where
  "timeline_of h =
     \<lparr>past = take (nat (currentIndex h)) (history h), present = current_entry h,
      future = drop (nat (currentIndex h + 1)) (history h)\<rparr>"

lemma kept_timeline:
  assumes "history_inv h"
  shows "kept h = past (timeline_of h) @ (case present (timeline_of h) of None \<Rightarrow> [] | Some p \<Rightarrow> [p])"
proof (cases "history h = []")
  case True
  then show ?thesis by (simp add: kept_def timeline_of_def current_entry_def nth_opt_def)
next
  case False
  then have "nat (currentIndex h) < length (history h)" "nat (currentIndex h + 1) = Suc (nat (currentIndex h))"
    using history_invD(2,6) [OF assms] by auto
  then show ?thesis
    by (simp add: kept_def timeline_of_def current_entry_nth [OF assms False] take_Suc_conv_app_nth)
qed

lemma refine_push:
  assumes "history_inv h"
  shows "timeline_of (push_state s h) = record_new (json_snapshot s) (timeline_of h)"
proof (cases "history h \<noteq> [] \<and> last (kept h) = json_snapshot s")
  case True
  then have "present (timeline_of h) = Some (json_snapshot s)"
    using current_entry_nth [OF assms] kept_last [OF assms] by (simp add: timeline_of_def)
  with True show ?thesis by (simp add: push_state_unfold [OF assms] record_new_def)
next
  case False
  have "present (timeline_of h) \<noteq> Some (json_snapshot s)"
  proof (cases "history h = []")
    case True
    then show ?thesis by (simp add: timeline_of_def current_entry_def nth_opt_def)
  next
    case False
    with \<open>\<not> (history h \<noteq> [] \<and> last (kept h) = json_snapshot s)\<close> show ?thesis
      using current_entry_nth [OF assms] kept_last [OF assms] by (simp add: timeline_of_def)
  qed
  then have spec: "record_new (json_snapshot s) (timeline_of h) =
      \<lparr>past = last_n 49 (kept h), present = Some (json_snapshot s), future = []\<rparr>"
    by (simp add: record_new_def kept_timeline [OF assms])
  define limited where
    "limited = (if length (kept h @ [json_snapshot s]) > maxSize then tl (kept h @ [json_snapshot s])
                else kept h @ [json_snapshot s])"
  have push: "push_state s h = \<lparr>history = limited, currentIndex = int (length limited) - 1,
      lastSavedState = Some (json_snapshot s)\<rparr>"
    unfolding push_state_unfold [OF assms] Let_def limited_def using False by (simp only: if_False)
  have len: "length (kept h) \<le> 50"
    using history_invD(1) [OF assms] by (simp add: kept_def maxSize_def)
  have "limited = last_n 49 (kept h) @ [json_snapshot s]"
  proof (cases "length (kept h) = 50")
    case True
    then obtain k ks where "kept h = k # ks" by (cases "kept h") auto
    with True show ?thesis by (simp add: limited_def maxSize_def last_n_def)
  next
    case False
    with len show ?thesis by (simp add: limited_def maxSize_def last_n_def)
  qed
  then show ?thesis
    unfolding spec push by (simp add: timeline_of_def current_entry_def nth_opt_def)
qed

lemma refine_undo:
  assumes "history_inv h"
  shows "timeline_of (fst (undo h)) = go_back (timeline_of h)"
proof (cases "canUndo h")
  case False
  then have "take (nat (currentIndex h)) (history h) = []" by (simp add: canUndo_def)
  with False show ?thesis
    by (simp add: undo_def go_back_def timeline_of_def split: option.split)
next
  case True
  let ?i = "nat (currentIndex h)"
  let ?h = "h\<lparr>currentIndex := currentIndex h - 1\<rparr>"
  have i: "?i < length (history h)" "0 < ?i" "nat (currentIndex h - 1) = ?i - 1" "nat (currentIndex h + 1) = Suc ?i"
    "currentIndex h - 1 + 1 = currentIndex h"
    using True history_invD(2) [OF assms] by (auto simp: canUndo_def)
  then obtain k where k: "?i = Suc k" by (cases ?i) auto
  have "past (timeline_of h) = take k (history h) @ [history h ! k]"
    using i k by (simp add: timeline_of_def take_Suc_conv_app_nth)
  moreover have "history h ! ?i # drop (Suc ?i) (history h) = drop ?i (history h)"
    using i(1) by (simp add: Cons_nth_drop_Suc)
  moreover have "present (timeline_of h) = Some (history h ! ?i)"
    using i(1) True by (simp add: timeline_of_def current_entry_def nth_opt_def canUndo_def)
  moreover have "timeline_of ?h = \<lparr>past = take k (history h), present = Some (history h ! k),
      future = drop ?i (history h)\<rparr>"
    using i k True by (simp add: timeline_of_def current_entry_def nth_opt_def canUndo_def)
  moreover have "future (timeline_of h) = drop (Suc ?i) (history h)"
    using i(4) by (simp add: timeline_of_def)
  ultimately show ?thesis using True by (simp add: undo_def Let_def go_back_def)
qed

lemma refine_redo:
  assumes "history_inv h"
  shows "timeline_of (fst (redo h)) = go_forward (timeline_of h)"
proof (cases "canRedo h")
  case False
  then have "drop (nat (currentIndex h + 1)) (history h) = []"
    by (auto simp: canRedo_def)
  with False show ?thesis
    by (simp add: redo_def go_forward_def timeline_of_def split: option.split)
next
  case True
  let ?i = "nat (currentIndex h)"
  let ?h = "h\<lparr>currentIndex := currentIndex h + 1\<rparr>"
  have ne: "history h \<noteq> []" using True assms by (auto simp: canRedo_def history_inv_def)
  then have i: "0 \<le> currentIndex h" "Suc ?i < length (history h)" "nat (currentIndex h + 1) = Suc ?i"
    "nat (currentIndex h + 1 + 1) = Suc (Suc ?i)"
    using True history_invD(6) [OF assms] by (auto simp: canRedo_def)
  have "future (timeline_of h) = history h ! Suc ?i # drop (Suc (Suc ?i)) (history h)"
    using i(2,3) by (simp add: timeline_of_def Cons_nth_drop_Suc)
  moreover have "present (timeline_of h) = Some (history h ! ?i)"
    using current_entry_nth [OF assms ne] by (simp add: timeline_of_def)
  moreover have "timeline_of ?h = \<lparr>past = past (timeline_of h) @ [history h ! ?i],
      present = Some (history h ! Suc ?i), future = drop (Suc (Suc ?i)) (history h)\<rparr>"
    using i by (simp add: timeline_of_def current_entry_def nth_opt_def take_Suc_conv_app_nth)
  ultimately show ?thesis using True by (simp add: redo_def Let_def go_forward_def)
qed

lemma timeline_of_reset: "timeline_of (reset h) = \<lparr>past = [], present = None, future = []\<rparr>"
  by (simp add: timeline_of_def reset_def current_entry_def)

text \<open>
  C10. The manager implements a timeline: a push records the snapshot as the new present, forgetting
  the future and all but the last 49 of the past (and changing nothing when the snapshot is the
  present one), undo steps back and redo steps forward.
\<close>

theorem history_refines_timeline:
  assumes "reachable h"
  shows "timeline_of (push_state s h) = record_new (json_snapshot s) (timeline_of h)
    \<and> timeline_of (fst (undo h)) = go_back (timeline_of h)
    \<and> timeline_of (fst (redo h)) = go_forward (timeline_of h)
    \<and> timeline_of (reset h) = \<lparr>past = [], present = None, future = []\<rparr>"
  using refine_push refine_undo refine_redo reachable_inv [OF assms]
  by (simp add: timeline_of_reset)

theorem history_refines_timeline_witness:
  "timeline_of (fst (undo two_snapshots)) = go_back (timeline_of two_snapshots)"
proof -
  have "reachable two_snapshots" unfolding two_snapshots_def by (intro reachable.intros)
  from history_refines_timeline [OF this] show ?thesis by blast
qed

end
