(* ===== verification/Add_Node.thy ===== *)
theory Add_Node
  imports Agent_Tools
begin

text \<open>
  Adding nodes to the canvas, from \<open>pages/agent/hooks/use-add-node.ts\<close>, and the initial values of
  a tool, from \<open>use-agent-tool-initial-values.ts\<close>. A hook's callback is a function of the store's
  state, which the hook reads when it renders.

  Arguments: \<open>tr\<close> is the translation function, \<open>lower_first\<close> is lodash's \<open>lowerFirst\<close>, \<open>om\<close> and
  \<open>pk\<close> are its \<open>omit\<close> and \<open>pick\<close>, \<open>llm\<close> the default model, \<open>rules\<close> the default title rules,
  \<open>hid\<close> the words drawn for ids, \<open>screen\<close> the flow position of the mouse when there is a canvas
  instance.
\<close>

section \<open>The form a new node starts with\<close>

datatype side = SLeft | STop | SRight | SBottom

definition isBottomSubAgentType :: "string \<Rightarrow> side \<Rightarrow> bool" where
  "isBottomSubAgentType type position =
     ((is_op OpAgent type \<and> position = SBottom) \<or> is_op OpTool type)"

fun initialFormValuesMap ::
    "(string \<Rightarrow> string) \<Rightarrow> jsv \<Rightarrow> jsv \<Rightarrow> operator \<Rightarrow> jsv" where
  "initialFormValuesMap tr rules llm OpBegin = initialBeginValues"
| "initialFormValuesMap tr rules llm OpRetrieval = initialRetrievalValues"
| "initialFormValuesMap tr rules llm OpCategorize =
     js_object [Spread initialCategorizeValues, Prop ''llm_id'' llm]"
| "initialFormValuesMap tr rules llm OpRewriteQuestion =
     js_object [Spread initialRewriteQuestionValues, Prop ''llm_id'' llm]"
| "initialFormValuesMap tr rules llm OpMessage = initialMessageValues"
| "initialFormValuesMap tr rules llm OpDuckDuckGo = initialDuckValues"
| "initialFormValuesMap tr rules llm OpWikipedia = initialWikipediaValues"
| "initialFormValuesMap tr rules llm OpPubMed = initialPubMedValues"
| "initialFormValuesMap tr rules llm OpArXiv = initialArXivValues"
| "initialFormValuesMap tr rules llm OpGoogle = initialGoogleValues"
| "initialFormValuesMap tr rules llm OpBing = initialBingValues"
| "initialFormValuesMap tr rules llm OpGoogleScholar = initialGoogleScholarValues"
| "initialFormValuesMap tr rules llm OpSearXNG = initialSearXNGValues"
| "initialFormValuesMap tr rules llm OpGitHub = initialGithubValues"
| "initialFormValuesMap tr rules llm OpExeSQL = initialExeSqlValues"
| "initialFormValuesMap tr rules llm OpSwitch = initialSwitchValues"
| "initialFormValuesMap tr rules llm OpWenCai = initialWenCaiValues"
| "initialFormValuesMap tr rules llm OpYahooFinance = initialYahooFinanceValues"
| "initialFormValuesMap tr rules llm OpNote = initialNoteValues"
| "initialFormValuesMap tr rules llm OpCrawler = initialCrawlerValues"
| "initialFormValuesMap tr rules llm OpInvoke = initialInvokeValues"
| "initialFormValuesMap tr rules llm OpEmail = initialEmailValues"
| "initialFormValuesMap tr rules llm OpIteration = initialIterationValues"
| "initialFormValuesMap tr rules llm OpIterationStart = initialIterationStartValues"
| "initialFormValuesMap tr rules llm OpCode = initialCodeValues"
| "initialFormValuesMap tr rules llm OpWaitingDialogue = initialWaitingDialogueValues"
| "initialFormValuesMap tr rules llm OpAgent =
     js_object [Spread (initialAgentValues tr), Prop ''llm_id'' llm]"
| "initialFormValuesMap tr rules llm OpTool = JObj []"
| "initialFormValuesMap tr rules llm OpTavilySearch = initialTavilyValues"
| "initialFormValuesMap tr rules llm OpUserFillUp = initialUserFillUpValues"
| "initialFormValuesMap tr rules llm OpStringTransform = initialStringTransformValues"
| "initialFormValuesMap tr rules llm OpTavilyExtract = initialTavilyExtractValues"
| "initialFormValuesMap tr rules llm OpPlaceholder = JObj []"
| "initialFormValuesMap tr rules llm OpFile = JObj []"
| "initialFormValuesMap tr rules llm OpParser = initialParserValues"
| "initialFormValuesMap tr rules llm OpTokenizer = initialTokenizerValues"
| "initialFormValuesMap tr rules llm OpTokenChunker = initialTokenChunkerValues"
| "initialFormValuesMap tr rules llm OpTitleChunker = initialTitleChunkerValues rules"
| "initialFormValuesMap tr rules llm OpExtractor =
     js_object [Spread initialExtractorValues, Prop ''llm_id'' llm,
                Prop ''sys_prompt'' (JStr (tr ''flow.prompts.system.summary'')),
                Prop ''prompts'' (JStr (tr ''flow.prompts.user.summary''))]"
| "initialFormValuesMap tr rules llm OpDataOperations = initialDataOperationsValues"
| "initialFormValuesMap tr rules llm OpListOperations = initialListOperationsValues"
| "initialFormValuesMap tr rules llm OpVariableAssigner = initialVariableAssignerValues"
| "initialFormValuesMap tr rules llm OpVariableAggregator = initialVariableAggregatorValues"
| "initialFormValuesMap tr rules llm OpLoop = initialLoopValues"
| "initialFormValuesMap tr rules llm OpLoopStart = JObj []"
| "initialFormValuesMap tr rules llm OpExitLoop = JObj []"
| "initialFormValuesMap tr rules llm OpDocGenerator = initialDocGeneratorValues"
| "initialFormValuesMap tr rules llm OpExcelProcessor = JObj []"

definition initial_form :: "(string \<Rightarrow> string) \<Rightarrow> jsv \<Rightarrow> jsv \<Rightarrow> string \<Rightarrow> jsv" where
  "initial_form tr rules llm operatorName =
     (case op_of operatorName of None \<Rightarrow> JUndef | Some p \<Rightarrow> initialFormValuesMap tr rules llm p)"

definition initializeOperatorParams ::
    "(string \<Rightarrow> string) \<Rightarrow> jsv \<Rightarrow> jsv \<Rightarrow> string \<Rightarrow> side \<Rightarrow> jsv" where
  "initializeOperatorParams tr rules llm operatorName position =
     (if isBottomSubAgentType operatorName position
      then js_object [Spread (initial_form tr rules llm operatorName),
                      Prop ''description'' (JStr (tr ''flow.descriptionMessage'')),
                      Prop ''user_prompt'' (JStr (tr ''flow.userPromptDefaultValue''))]
      else initial_form tr rules llm operatorName)"

definition getNodeName :: "(string \<Rightarrow> string) \<Rightarrow> (string \<Rightarrow> string) \<Rightarrow> string \<Rightarrow> string" where
  "getNodeName tr lower_first type = tr (''flow.'' @ lower_first type)"

text \<open>
  The initial values of a tool of an agent. The case \<open>(TavilySearch, TavilyExtract)\<close> of the
  source is a comma expression: its value is the second operator.
\<close>

type_synonym pick_fn = "props \<Rightarrow> string list \<Rightarrow> props"

definition pick_ref :: pick_fn where
  "pick_ref ps ks = filter (\<lambda>(k, _). k \<in> set ks) ps"

definition initializeAgentToolValues ::
    "omit_fn \<Rightarrow> pick_fn \<Rightarrow> (string \<Rightarrow> string) \<Rightarrow> jsv \<Rightarrow> jsv \<Rightarrow> operator \<Rightarrow> jsv" where
  "initializeAgentToolValues om pk tr rules llm operatorName =
     (let v = initialFormValuesMap tr rules llm operatorName;
          omitted = (\<lambda>ks. JObj (om (props_of v) ks));
          picked = (\<lambda>ks. JObj (pk (props_of v) ks))
      in case operatorName of
           OpRetrieval \<Rightarrow> js_object [Spread (omitted [''query'']), Prop ''description'' (JStr [])]
         | OpTavilyExtract \<Rightarrow> JObj [(''api_key'', JStr [])]
         | OpExeSQL \<Rightarrow> omitted [''sql'']
         | OpBing \<Rightarrow> omitted [''query'']
         | OpYahooFinance \<Rightarrow> omitted [''stock_code'']
         | OpEmail \<Rightarrow> picked [''smtp_server'', ''smtp_port'', ''email'', ''smtp_username'', ''password'',
                              ''sender_name'']
         | OpDuckDuckGo \<Rightarrow> picked [''top_n'', ''channel'']
         | OpWikipedia \<Rightarrow> picked [''top_n'', ''language'']
         | OpGoogle \<Rightarrow> picked [''api_key'', ''country'', ''language'']
         | OpGoogleScholar \<Rightarrow> omitted [''query'', ''outputs'']
         | OpArXiv \<Rightarrow> picked [''top_n'', ''sort_by'']
         | OpPubMed \<Rightarrow> picked [''top_n'', ''email'']
         | OpGitHub \<Rightarrow> picked [''top_n'']
         | OpWenCai \<Rightarrow> picked [''top_n'', ''query_type'']
         | OpCode \<Rightarrow> JObj []
         | OpSearXNG \<Rightarrow> picked [''searxng_url'', ''top_n'']
         | _ \<Rightarrow> v)"

section \<open>Where a new node goes\<close>

definition handle_of :: "string option \<Rightarrow> jsv" where
  "handle_of h = (case h of None \<Rightarrow> JUndef | Some s \<Rightarrow> JStr s)"

text \<open>The nodes that the edges leaving a node by a handle lead to.\<close>

definition children_by_handle :: "rf_state \<Rightarrow> string option \<Rightarrow> jsv \<Rightarrow> agent_node list" where
  "children_by_handle s i h =
     (let ids = map target (filter (\<lambda>x. Some (source x) = i \<and> sourceHandle x = h) (st_edges s))
      in filter (\<lambda>x. list_ex (\<lambda>y. y = nid x) ids) (st_nodes s))"

definition max_of :: "rat list \<Rightarrow> rat" where
  "max_of xs = foldl max (hd xs) (tl xs)"

definition calculateNewlyBackChildPosition ::
    "rf_state \<Rightarrow> string option \<Rightarrow> string option \<Rightarrow> pos" where
  "calculateNewlyBackChildPosition s i h =
     (let parentNode = getNode s i;
          yAxises = map (\<lambda>x. py (npos x)) (children_by_handle s i (handle_of h))
      in \<lparr>px = (case parentNode of None \<Rightarrow> 0 | Some p \<Rightarrow> px (npos p)) + 300,
          py = (if yAxises \<noteq> [] then max_of yAxises + 150
                else case parentNode of None \<Rightarrow> 0 | Some p \<Rightarrow> py (npos p))\<rparr>)"

section \<open>Adding\<close>

text \<open>
  The start nodes of the two kinds of groups. Their ids are drawn once, when the module is loaded;
  \<open>gid\<close> holds the two words.
\<close>

definition GroupStartNodeMap :: "string \<times> string \<Rightarrow> operator \<Rightarrow> agent_node option" where
  "GroupStartNodeMap gid p =
     (case p of
        OpIteration \<Rightarrow> Some (no_node\<lparr>nid := op_str OpIterationStart @ '':'' @ fst gid,
            ntype := Some ''iterationStartNode'', npos := \<lparr>px = 50, py = 100\<rparr>, extent := Some ''parent'',
            ndata := \<lparr>label = op_str OpIterationStart, name = op_str OpIterationStart,
                      form = initialIterationStartValues\<rparr>\<rparr>)
      | OpLoop \<Rightarrow> Some (no_node\<lparr>nid := op_str OpLoopStart @ '':'' @ snd gid,
            ntype := Some ''loopStartNode'', npos := \<lparr>px = 50, py = 100\<rparr>, extent := Some ''parent'',
            ndata := \<lparr>label = op_str OpLoopStart, name = op_str OpLoopStart, form = JObj []\<rparr>\<rparr>)
      | _ \<Rightarrow> None)"

definition edge_to :: "string \<Rightarrow> string \<Rightarrow> string \<Rightarrow> string \<Rightarrow> connection" where
  "edge_to src tgt sh th =
     \<lparr>c_source = src, c_target = tgt, c_sourceHandle = JStr sh, c_targetHandle = JStr th\<rparr>"

text \<open>\<open>if (nodeId)\<close>: an id that is there and is not the empty string.\<close>

definition given :: "string option \<Rightarrow> bool" where
  "given i = (case i of None \<Rightarrow> False | Some s \<Rightarrow> s \<noteq> [])"

definition addGroupNode ::
    "add_edge_fn \<Rightarrow> lset_fn \<Rightarrow> agent_node \<Rightarrow> agent_node \<Rightarrow> string option \<Rightarrow> rf_state \<Rightarrow> rf_state" where
  "addGroupNode add_edge lset startNode newNode nodeId s =
     (let newNode' = newNode\<lparr>width := Some 500, height := Some 250\<rparr>;
          s1 = addNode (startNode\<lparr>parentId := Some (nid newNode)\<rparr>) (addNode newNode' s)
      in if given nodeId
         then addEdge add_edge lset (edge_to (the nodeId) (nid newNode) Handle_Start Handle_End) s1
         else s1)"

definition addChildEdge ::
    "add_edge_fn \<Rightarrow> lset_fn \<Rightarrow> side \<Rightarrow> string option \<Rightarrow> string \<Rightarrow> string option \<Rightarrow> rf_state \<Rightarrow> rf_state" where
  "addChildEdge add_edge lset position src tgt handle s =
     (if position = SRight \<and> given src \<and> tgt \<noteq> [] \<and> given handle
      then addEdge add_edge lset (edge_to (the src) tgt (the handle) Handle_End) s
      else s)"

definition addToolNode ::
    "add_edge_fn \<Rightarrow> lset_fn \<Rightarrow> agent_node \<Rightarrow> string option \<Rightarrow> rf_state \<Rightarrow> rf_state \<times> bool" where
  "addToolNode add_edge lset newNode nodeId s =
     (case getNode s nodeId of
        None \<Rightarrow> (s, False)
      | Some agentNode \<Rightarrow>
          (let childToolNodeIds =
                 map target (filter (\<lambda>x. Some (source x) = nodeId \<and> sourceHandle x = JStr Handle_Tool) (st_edges s))
           in if childToolNodeIds \<noteq> [] \<and> list_ex (\<lambda>x. nid x = hd childToolNodeIds) (st_nodes s)
              then (s, False)
              else (let newNode' = newNode\<lparr>npos := \<lparr>px = px (npos agentNode) - 82,
                                                   py = py (npos agentNode) + 140\<rparr>\<rparr>;
                        s1 = addNode newNode' s
                    in if given nodeId
                       then (addEdge add_edge lset
                               (edge_to (the nodeId) (nid newNode) Handle_Tool Handle_End) s1, True)
                       else (s1, True))))"

definition resizeIterationNode :: "string \<Rightarrow> side \<Rightarrow> string option \<Rightarrow> rf_state \<Rightarrow> rf_state" where
  "resizeIterationNode type position pid s =
     (case getNode s pid of
        None \<Rightarrow> s
      | Some parentNode \<Rightarrow>
          if isBottomSubAgentType type position then s
          else (let xs = map (\<lambda>x. px (npos x)) (filter (\<lambda>x. parentId x = pid) (st_nodes s))
                in if xs \<noteq> [] \<and> max_of xs + 310 > px (npos parentNode)
                   then updateNode (parentNode\<lparr>
                          width := Some ((case width parentNode of None \<Rightarrow> 0 | Some w \<Rightarrow> w) + 310),
                          npos := \<lparr>px = px (npos parentNode) + 310 / 2, py = py (npos parentNode)\<rparr>\<rparr>) s
                   else s))"

record add_params =
  ap_nodeId :: "string option"
  ap_position :: side
  ap_id :: "string option"
  ap_isFromConnectionDrag :: bool

record add_env =
  en_add_edge :: add_edge_fn
  en_lset :: lset_fn
  en_tr :: "string \<Rightarrow> string"
  en_lower_first :: "string \<Rightarrow> string"
  en_rules :: jsv
  en_llm :: jsv
  en_gid :: "string \<times> string"

text \<open>The node \<open>addCanvasNode\<close> builds before it decides how to attach it.\<close>

definition new_canvas_node ::
    "add_env \<Rightarrow> string \<Rightarrow> pos option \<Rightarrow> string \<Rightarrow> add_params \<Rightarrow> rf_state \<Rightarrow> agent_node" where
  "new_canvas_node en hid screen type ps s =
     (let node = getNode s (ap_nodeId ps);
          position = (if ap_position ps = SRight \<and> \<not> is_op OpNote type \<and> \<not> ap_isFromConnectionDrag ps
                      then Some (calculateNewlyBackChildPosition s (ap_nodeId ps) (ap_id ps)) else screen);
          newNode = no_node\<lparr>nid := type @ '':'' @ hid,
            ntype := Some (case Option.bind (op_of type) NodeMap of None \<Rightarrow> ''ragNode'' | Some t \<Rightarrow> t),
            npos := (case position of None \<Rightarrow> \<lparr>px = 0, py = 0\<rparr> | Some p \<Rightarrow> p),
            draggable := (if is_op OpPlaceholder type then Some False else None),
            dragHandle := getNodeDragHandle (Some type),
            ndata := \<lparr>label = type,
              name = generateNodeNamesWithIncreasingIndex
                       (getNodeName (en_tr en) (en_lower_first en) type) (st_nodes s),
              form = initializeOperatorParams (en_tr en) (en_rules en) (en_llm en) type (ap_position ps)\<rparr>\<rparr>
      in case node of
           Some n \<Rightarrow> if given (parentId n) then newNode\<lparr>parentId := parentId n, extent := Some ''parent''\<rparr>
                     else newNode
         | None \<Rightarrow> newNode)"

definition resize_parent :: "string \<Rightarrow> add_params \<Rightarrow> rf_state \<Rightarrow> rf_state" where
  "resize_parent type ps s =
     (case getNode s (ap_nodeId ps) of
        None \<Rightarrow> s
      | Some n \<Rightarrow> if given (parentId n) then resizeIterationNode type (ap_position ps) (parentId n) s else s)"

definition below_agent :: "agent_node \<Rightarrow> string option \<Rightarrow> rf_state \<Rightarrow> agent_node" where
  "below_agent newNode nodeId s =
     (case getNode s nodeId of
        None \<Rightarrow> newNode
      | Some agentNode \<Rightarrow>
          (let xAxises = map (\<lambda>x. px (npos x)) (children_by_handle s nodeId (JStr Handle_AgentBottom))
           in newNode\<lparr>npos := \<lparr>px = (if xAxises \<noteq> [] then max_of xAxises + 262
                                      else px (npos agentNode) + 82),
                               py = py (npos agentNode) + 140\<rparr>\<rparr>))"

definition addCanvasNode ::
    "add_env \<Rightarrow> string \<Rightarrow> pos option \<Rightarrow> string \<Rightarrow> add_params \<Rightarrow> rf_state \<Rightarrow> rf_state \<times> string option" where
  "addCanvasNode en hid screen type ps s =
     (let newNode = new_canvas_node en hid screen type ps s;
          s0 = resize_parent type ps s
      in case Option.bind (op_of type) (GroupStartNodeMap (en_gid en)) of
           Some startNode \<Rightarrow>
             (addGroupNode (en_add_edge en) (en_lset en) startNode newNode (ap_nodeId ps) s0,
              Some (nid newNode))
         | None \<Rightarrow>
             if is_op OpAgent type \<and> ap_position ps = SBottom then
               (let s1 = addNode (below_agent newNode (ap_nodeId ps) s) s0
                in ((if given (ap_nodeId ps)
                     then addEdge (en_add_edge en) (en_lset en)
                            (edge_to (the (ap_nodeId ps)) (nid newNode) Handle_AgentBottom Handle_AgentTop) s1
                     else s1), Some (nid newNode)))
             else if is_op OpTool type then
               (case addToolNode (en_add_edge en) (en_lset en) newNode (ap_nodeId ps) s0 of
                  (s1, added) \<Rightarrow> (s1, if added then Some (nid newNode) else None))
             else (addChildEdge (en_add_edge en) (en_lset en) (ap_position ps) (ap_nodeId ps) (nid newNode)
                     (ap_id ps) (addNode newNode s0), Some (nid newNode)))"

definition addNoteNode :: "add_env \<Rightarrow> string \<Rightarrow> pos option \<Rightarrow> rf_state \<Rightarrow> rf_state" where
  "addNoteNode en hid screen s =
     fst (addCanvasNode en hid screen (op_str OpNote)
           \<lparr>ap_nodeId = None, ap_position = SRight, ap_id = None, ap_isFromConnectionDrag = False\<rparr> s)"

end
