(* ===== verification/Add_Node_Proofs.thy ===== *)
theory Add_Node_Proofs
  imports Add_Node Store_Proofs
begin

text \<open>
  Properties of adding nodes: what a new node is and how it is attached, an agent's single tool node,
  and the start nodes of groups, whose id is the same for every group of a kind.
\<close>

section \<open>What the actions do to the nodes\<close>

lemma foldl_max_ge: "a \<le> foldl max (a :: rat) ys \<and> (\<forall>y\<in>set ys. y \<le> foldl max a ys)"
proof (induction ys arbitrary: a)
  case Nil
  show ?case by simp
next
  case (Cons y ys)
  from Cons.IH [of "max a y"] show ?case by simp
qed

lemma max_of_ge: "x \<in> set xs \<Longrightarrow> x \<le> max_of xs"
  using foldl_max_ge [of "hd xs" "tl xs"] by (cases xs) (auto simp: max_of_def)

lemma op_of_op_str: "op_of (op_str p) = Some p"
proof -
  have "list_all (\<lambda>p. op_of (op_str p) = Some p) all_operators" by code_simp
  moreover have "p \<in> set all_operators" by (cases p) (simp_all add: all_operators_def)
  ultimately show ?thesis by (simp add: list_all_iff)
qed

lemma updateFormDataOnConnect_ids [simp]:
  "node_ids (st_nodes (updateFormDataOnConnect lset c s)) = node_ids (st_nodes s)"
  "st_edges (updateFormDataOnConnect lset c s) = st_edges s"
  by (auto simp: updateFormDataOnConnect_def updateSwitchFormData_def Let_def
      split: jsv.split option.split)

lemma addEdge_ids [simp]:
  "node_ids (st_nodes (addEdge add_edge lset c s)) = node_ids (st_nodes s)"
  "st_edges (addEdge add_edge lset c s) = add_edge c (st_edges s)"
  by (simp_all add: addEdge_def)

lemma addNode_simps [simp]:
  "st_nodes (addNode n s) = st_nodes s @ [n]"
  "st_edges (addNode n s) = st_edges s"
  by (simp_all add: addNode_def)

lemma node_ids_append [simp]: "node_ids (xs @ ys) = node_ids xs @ node_ids ys"
  by (simp add: node_ids_def)

lemma node_ids_cons [simp]: "node_ids [] = []" "node_ids (x # xs) = nid x # node_ids xs"
  by (simp_all add: node_ids_def)

lemma updateNode_ids [simp]:
  "node_ids (st_nodes (updateNode n s)) = node_ids (st_nodes s)" "st_edges (updateNode n s) = st_edges s"
  by (auto simp: updateNode_def node_ids_def comp_def)

lemma getNode_id: "getNode s i = Some n \<Longrightarrow> i = Some (nid n) \<and> n \<in> set (st_nodes s)"
  unfolding getNode_def by (drule find_SomeD) simp

lemma resize_parent_ids [simp]:
  "node_ids (st_nodes (resize_parent type ps s)) = node_ids (st_nodes s)"
  "st_edges (resize_parent type ps s) = st_edges s"
  by (auto simp: resize_parent_def resizeIterationNode_def Let_def split: option.split)

lemma new_canvas_node_id [simp]: "nid (new_canvas_node en hid screen type ps s) = type @ '':'' @ hid"
  by (auto simp: new_canvas_node_def Let_def no_node_def split: option.split)

text \<open>The ids a call of \<open>addCanvasNode\<close> appends.\<close>

definition added_ids :: "add_env \<Rightarrow> string \<Rightarrow> string \<Rightarrow> string list" where
  "added_ids en hid type =
     (case Option.bind (op_of type) (GroupStartNodeMap (en_gid en)) of
        None \<Rightarrow> [type @ '':'' @ hid]
      | Some startNode \<Rightarrow> [type @ '':'' @ hid, nid startNode])"

lemma below_agent_id [simp]: "nid (below_agent n i s) = nid n"
  by (auto simp: below_agent_def Let_def split: option.split)

lemma addCanvasNode_ids:
  assumes "addCanvasNode en hid screen type ps s = (s', r)"
  shows "node_ids (st_nodes s') = node_ids (st_nodes s) @ (case r of None \<Rightarrow> [] | Some i \<Rightarrow> added_ids en hid type)
    \<and> (r = None \<or> r = Some (type @ '':'' @ hid))"
  using assms
  by (auto simp: addCanvasNode_def added_ids_def Let_def addGroupNode_def addToolNode_def addChildEdge_def
      split: option.splits if_splits prod.splits)

text \<open>
  Adding a node to the canvas: on success the ids of the nodes are the old ones followed by the id
  drawn for the node, and for a group by that of its start node; so ids stay distinct exactly when
  those are new. Failing leaves the ids as they are.
\<close>

theorem add_node_ids:
  assumes "addCanvasNode en hid screen type ps s = (s', r)" "distinct (node_ids (st_nodes s))"
  shows "(r = None \<and> node_ids (st_nodes s') = node_ids (st_nodes s)
      \<or> r = Some (type @ '':'' @ hid) \<and> node_ids (st_nodes s') = node_ids (st_nodes s) @ added_ids en hid type)
    \<and> (r \<noteq> None \<longrightarrow> distinct (node_ids (st_nodes s')) =
         (distinct (added_ids en hid type) \<and> set (added_ids en hid type) \<inter> set (node_ids (st_nodes s)) = {}))"
  using addCanvasNode_ids [OF assms(1)] assms(2) by (cases r) auto

definition test_env :: add_env where
  "test_env = \<lparr>en_add_edge = append_edge, en_lset = lset_ref, en_tr = (\<lambda>k. k), en_lower_first = (\<lambda>k. k),
     en_rules = JArr [], en_llm = JStr ''llm'', en_gid = (''red'', ''blue'')\<rparr>"

definition right_params :: add_params where
  "right_params = \<lparr>ap_nodeId = None, ap_position = SRight, ap_id = None, ap_isFromConnectionDrag = False\<rparr>"

lemma op_of_names:
  "op_of ''Iteration'' = Some OpIteration" "op_of ''Message'' = Some OpMessage" "op_of ''Tool'' = Some OpTool"
  by code_simp+

theorem add_node_ids_witness:
  "let r = addCanvasNode test_env ''cat'' None ''Iteration'' right_params (mk_state [] [])
   in distinct (node_ids (st_nodes (fst r)))
      \<and> node_ids (st_nodes (fst r)) = [''Iteration:cat'', ''IterationItem:red'']"
proof -
  obtain s' r where r: "addCanvasNode test_env ''cat'' None ''Iteration'' right_params (mk_state [] []) = (s', r)"
    by (cases "addCanvasNode test_env ''cat'' None ''Iteration'' right_params (mk_state [] [])")
  have a: "added_ids test_env ''cat'' ''Iteration'' = [''Iteration:cat'', ''IterationItem:red'']"
    by (simp add: added_ids_def op_of_names GroupStartNodeMap_def test_env_def)
  have "r \<noteq> None"
    using r by (auto simp: addCanvasNode_def Let_def op_of_names GroupStartNodeMap_def test_env_def)
  with add_node_ids [OF r] a r show ?thesis by (auto simp: mk_state_def)
qed

text \<open>
  Every iteration gets a start node with the same id, drawn once for the module: adding an
  iteration to a canvas that already has one always gives two nodes with one id.
\<close>

theorem second_group_repeats_start_id:
  assumes "GroupStartNodeMap (en_gid en) p = Some startNode"
  shows "let s1 = fst (addCanvasNode en hid1 screen1 (op_str p) ps1 s);
             s2 = fst (addCanvasNode en hid2 screen2 (op_str p) ps2 s1)
         in nid startNode \<in> set (node_ids (st_nodes s1)) \<and> \<not> distinct (node_ids (st_nodes s2))"
proof -
  have grp: "node_ids (st_nodes (fst (addCanvasNode en hid screen (op_str p) ps s))) =
      node_ids (st_nodes s) @ [op_str p @ '':'' @ hid, nid startNode]" for hid screen ps s
    by (simp add: addCanvasNode_def Let_def op_of_op_str assms addGroupNode_def)
  show ?thesis by (simp add: Let_def grp)
qed

theorem second_group_repeats_start_id_witness:
  "let s1 = fst (addCanvasNode test_env ''cat'' None (op_str OpIteration) right_params (mk_state [] []));
       s2 = fst (addCanvasNode test_env ''dog'' None (op_str OpIteration) right_params s1)
   in \<not> distinct (node_ids (st_nodes s2))"
  using second_group_repeats_start_id [of test_env OpIteration _ "''cat''" None right_params
      "mk_state [] []" "''dog''" None right_params]
  by (simp add: GroupStartNodeMap_def Let_def del: op_str.simps)

text \<open>
  An agent has one tool node: when an edge leads from the agent's tool handle to a node that is
  there, adding another tool node changes nothing and returns no id.
\<close>

theorem tool_node_added_once:
  assumes "getNode s (Some a) = Some n" "ap_nodeId ps = Some a"
    and "filter (\<lambda>x. source x = a \<and> sourceHandle x = JStr Handle_Tool) (st_edges s) = e # es"
    and "target e \<in> set (node_ids (st_nodes s))"
  shows "addCanvasNode en hid screen (op_str OpTool) ps s = (s, None)"
proof -
  have "isBottomSubAgentType (op_str OpTool) (ap_position ps)" by (simp add: isBottomSubAgentType_def is_op_def)
  then have r: "resize_parent (op_str OpTool) ps s = s"
    by (auto simp: resize_parent_def resizeIterationNode_def split: option.split)
  have "list_ex (\<lambda>x. nid x = target e) (st_nodes s)"
    using assms(4) by (auto simp: node_ids_def list_ex_iff)
  then have "addToolNode (en_add_edge en) (en_lset en) m (Some a) s = (s, False)" for m
    using assms(1,3) by (simp add: addToolNode_def)
  then show ?thesis
    by (simp add: addCanvasNode_def Let_def op_of_op_str r assms(2) GroupStartNodeMap_def is_op_def
        del: op_str.simps) simp
qed

definition one_tool_canvas :: rf_state where
  "one_tool_canvas = mk_state [mk_node ''a'' OpAgent None (JObj []), mk_node ''t'' OpTool None (JObj [])]
     [mk_edge ''at'' ''a'' ''t'' Handle_Tool]"

theorem tool_node_added_once_witness:
  "addCanvasNode test_env ''x'' None (op_str OpTool) (right_params\<lparr>ap_nodeId := Some ''a''\<rparr>) one_tool_canvas
     = (one_tool_canvas, None)"
  by (rule tool_node_added_once [where a = "''a''" and e = "mk_edge ''at'' ''a'' ''t'' Handle_Tool" and es = "[]"])
    (simp_all add: one_tool_canvas_def mk_defs getNode_def right_params_def node_ids_def)

text \<open>
  A node added behind a node, by the handle it leaves from, is placed 300 to the right of it and at
  least 150 below every node already connected to that handle.
\<close>

theorem new_child_position_free:
  assumes "getNode s i = Some parent" "n \<in> set (children_by_handle s i (handle_of h))"
  shows "px (calculateNewlyBackChildPosition s i h) = px (npos parent) + 300
    \<and> py (npos n) + 150 \<le> py (calculateNewlyBackChildPosition s i h)"
proof -
  let ?ys = "map (\<lambda>x. py (npos x)) (children_by_handle s i (handle_of h))"
  have "py (npos n) \<in> set ?ys" using assms(2) by simp
  then have "py (npos n) \<le> max_of ?ys" "?ys \<noteq> []" by (auto intro: max_of_ge)
  with assms(1) show ?thesis by (simp add: calculateNewlyBackChildPosition_def Let_def)
qed

theorem new_child_position_free_witness:
  "px (calculateNewlyBackChildPosition one_tool_canvas (Some ''a'') (Some Handle_Tool)) = 300"
  using new_child_position_free [of one_tool_canvas "Some ''a''" "mk_node ''a'' OpAgent None (JObj [])"
      "mk_node ''t'' OpTool None (JObj [])" "Some Handle_Tool"]
  by (simp add: one_tool_canvas_def mk_defs getNode_def children_by_handle_def handle_of_def)

text \<open>
  The Tavily search tool starts with the whole form of the search operator, not with the single
  key field the source's case names: only the extract tool gets that.
\<close>

theorem tavily_tool_values:
  "initializeAgentToolValues om pk tr rules llm OpTavilyExtract = JObj [(''api_key'', JStr [])]
   \<and> initializeAgentToolValues om pk tr rules llm OpTavilySearch = initialTavilyValues
   \<and> initialTavilyValues \<noteq> JObj [(''api_key'', JStr [])]"
  by (simp add: initializeAgentToolValues_def initialTavilyValues_def)

end
