(* ===== verification/Canvas_Hooks.thy ===== *)
theory Canvas_Hooks
  imports Add_Node_Proofs Store_Deletion
begin

text \<open>
  The hooks that guard deletion and drag a connection out of a handle:
  \<open>pages/agent/hooks/use-before-delete.tsx\<close>, \<open>use-placeholder-manager.ts\<close> and
  \<open>use-connection-drag.ts\<close>. Their refs are the fields of a record; the canvas library's
  \<open>deleteElements\<close> is an argument; calls into the user interface are kept as a list of effects.
\<close>

section \<open>What may be deleted\<close>

definition UndeletableNodes :: "operator list" where
  "UndeletableNodes = [OpBegin, OpIterationStart]"

definition deletable_node :: "agent_node list \<Rightarrow> agent_node \<Rightarrow> bool" where
  "deletable_node nodes node =
     (if is_op OpBegin (node_label node) then False
      else if is_op OpIterationStart (node_label node)
              \<and> \<not> list_ex (\<lambda>x. Some (nid x) = parentId node) nodes then False
      else True)"

definition deletable_edge :: "rf_state \<Rightarrow> agent_node list \<Rightarrow> edge \<Rightarrow> bool" where
  "deletable_edge s nodes e =
     (let sourceType = getOperatorTypeFromId s (Some (source e));
          downStreamNodes = filter (\<lambda>x. nid x = target e) nodes
      in if list_ex (\<lambda>p. sourceType = Some (op_str p)) UndeletableNodes \<and> downStreamNodes = []
         then \<not> list_ex (\<lambda>x. nid x = source e) nodes
         else True)"

text \<open>Pushing what an agent drags along: the nodes below it and the edges collected with them.\<close>

definition push_node :: "rf_state \<Rightarrow> agent_node list \<Rightarrow> string \<Rightarrow> agent_node list" where
  "push_node s acc i =
     (case getNode s (Some i) of
        None \<Rightarrow> acc
      | Some n \<Rightarrow> if list_all (\<lambda>x. nid x \<noteq> i) acc then acc @ [n] else acc)"

definition push_edge :: "edge list \<Rightarrow> edge \<Rightarrow> edge list" where
  "push_edge acc e = (if list_all (\<lambda>x. eid x \<noteq> eid e) acc then acc @ [e] else acc)"

fun push_agents ::
    "rf_state \<Rightarrow> edge list \<Rightarrow> agent_node list \<times> edge list \<Rightarrow> agent_node list
       \<Rightarrow> (agent_node list \<times> edge list) option" where
  "push_agents s edges acc [] = Some acc"
| "push_agents s edges (ns, es) (node # rest) =
     (case deleteAllDownstreamAgentsAndTool (nid node) edges of
        None \<Rightarrow> None
      | Some (ids, related) \<Rightarrow>
          push_agents s edges (foldl (push_node s) ns ids, foldl push_edge es related) rest)"

definition handleBeforeDelete ::
    "rf_state \<Rightarrow> agent_node list \<Rightarrow> edge list \<Rightarrow> (agent_node list \<times> edge list) option" where
  "handleBeforeDelete s nodes edges =
     push_agents s edges (filter (deletable_node nodes) nodes, filter (deletable_edge s nodes) edges)
       (filter (\<lambda>n. getOperatorTypeFromId s (Some (nid n)) = Some (op_str OpAgent)) nodes)"

section \<open>The placeholder\<close>

type_synonym delete_elements_fn = "agent_node list \<Rightarrow> edge list \<Rightarrow> rf_state \<Rightarrow> rf_state"

record placeholder_refs =
  createdPlaceholderRef :: "string option"
  userSelectedNodeRef :: bool

definition touching :: "string \<Rightarrow> edge list \<Rightarrow> edge list" where
  "touching i edges = filter (\<lambda>e. target e = i \<or> source e = i) edges"

text \<open>\<open>inst\<close> tells whether the canvas instance is there.\<close>

definition checkAndRemoveExistingPlaceholder ::
    "delete_elements_fn \<Rightarrow> bool \<Rightarrow> placeholder_refs \<times> rf_state \<Rightarrow> placeholder_refs \<times> rf_state" where
  "checkAndRemoveExistingPlaceholder del inst rs =
     (case rs of (r, s) \<Rightarrow>
        case find (\<lambda>n. is_op OpPlaceholder (node_label n)) (st_nodes s) of
          None \<Rightarrow> (r, s)
        | Some p \<Rightarrow>
            if inst
            then ((if createdPlaceholderRef r = Some (nid p) then r\<lparr>createdPlaceholderRef := None\<rparr> else r),
                  del [p] (touching (nid p) (st_edges s)) s)
            else (r, s))"

definition removePlaceholderNode ::
    "delete_elements_fn \<Rightarrow> bool \<Rightarrow> placeholder_refs \<times> rf_state \<Rightarrow> placeholder_refs \<times> rf_state" where
  "removePlaceholderNode del inst rs =
     (case rs of (r, s) \<Rightarrow>
        if given (createdPlaceholderRef r) \<and> inst \<and> \<not> userSelectedNodeRef r
        then (let i = the (createdPlaceholderRef r);
                  edgesToRemove = touching i (st_edges s);
                  nodesToRemove = filter (\<lambda>n. nid n = i) (st_nodes s)
              in (\<lparr>createdPlaceholderRef = None, userSelectedNodeRef = False\<rparr>,
                  if nodesToRemove \<noteq> [] \<or> edgesToRemove \<noteq> [] then del nodesToRemove edgesToRemove s else s))
        else (r\<lparr>userSelectedNodeRef := False\<rparr>, s))"

definition or_null :: "jsv \<Rightarrow> jsv" where
  "or_null v = js_or v JNull"

definition onNodeCreated ::
    "delete_elements_fn \<Rightarrow> add_edge_fn \<Rightarrow> lset_fn \<Rightarrow> bool \<Rightarrow> string
       \<Rightarrow> placeholder_refs \<times> rf_state \<Rightarrow> placeholder_refs \<times> rf_state" where
  "onNodeCreated del add_edge lset inst newNodeId rs =
     (case rs of (r, s) \<Rightarrow>
        let s3 =
          (if given (createdPlaceholderRef r) \<and> inst
           then
             (let i = the (createdPlaceholderRef r);
                  placeholderNode = find (\<lambda>n. nid n = i) (st_nodes s);
                  placeholderEdge = find (\<lambda>e. target e = i) (st_edges s);
                  s1 = (case (placeholderNode, find (\<lambda>n. nid n = newNodeId) (st_nodes s)) of
                          (Some p, Some n) \<Rightarrow>
                            updateNode (n\<lparr>npos := npos p, parentId := parentId p, extent := extent p\<rparr>) s
                        | _ \<Rightarrow> s);
                  s2 = (case placeholderEdge of
                          None \<Rightarrow> s1
                        | Some e \<Rightarrow>
                            addEdge add_edge lset
                              \<lparr>c_source = source e, c_target = newNodeId,
                               c_sourceHandle = or_null (sourceHandle e),
                               c_targetHandle = or_null (targetHandle e)\<rparr> s1);
                  edgesToRemove = touching i (st_edges s);
                  nodesToRemove = filter (\<lambda>n. nid n = i) (st_nodes s)
              in if nodesToRemove \<noteq> [] \<or> edgesToRemove \<noteq> [] then del nodesToRemove edgesToRemove s2 else s2)
           else s)
        in (\<lparr>createdPlaceholderRef = None, userSelectedNodeRef = True\<rparr>, s3))"

definition setCreatedPlaceholderRef :: "string option \<Rightarrow> placeholder_refs \<Rightarrow> placeholder_refs" where
  "setCreatedPlaceholderRef i r = r\<lparr>createdPlaceholderRef := i\<rparr>"

definition resetUserSelectedFlag :: "placeholder_refs \<Rightarrow> placeholder_refs" where
  "resetUserSelectedFlag r = r\<lparr>userSelectedNodeRef := False\<rparr>"

section \<open>Dragging a connection\<close>

datatype ui_effect =
    SetDropdownPosition pos
  | ShowModal
  | HideModal
  | ClearActiveDropdown
  | SetActiveDropdown string

record drag_refs =
  isConnectedRef :: bool
  connectionStartRef :: "(string \<times> string) option"
  preventCloseRef :: bool
  mouseStartPosRef :: "pos option"

record drag_state =
  dg_refs :: drag_refs
  dg_placeholder :: placeholder_refs
  dg_store :: rf_state
  dg_ui :: "ui_effect list"

definition ui :: "ui_effect list \<Rightarrow> drag_state \<Rightarrow> drag_state" where
  "ui es d = d\<lparr>dg_ui := dg_ui d @ es\<rparr>"

text \<open>The mouse position is missing for touch events; the ids are missing when no handle is hit.\<close>

definition onConnectStart ::
    "pos option \<Rightarrow> string option \<Rightarrow> string option \<Rightarrow> drag_refs \<Rightarrow> drag_refs" where
  "onConnectStart mouse nodeId handleId r =
     r\<lparr>isConnectedRef := False,
       mouseStartPosRef := (case mouse of None \<Rightarrow> mouseStartPosRef r | Some p \<Rightarrow> Some p),
       connectionStartRef := (if given nodeId \<and> given handleId then Some (the nodeId, the handleId) else None)\<rparr>"

text \<open>The distance is compared with 5; the model compares the squares.\<close>

definition isHandleClick :: "pos option \<Rightarrow> pos \<Rightarrow> bool" where
  "isHandleClick start now =
     (case start of None \<Rightarrow> False
      | Some p \<Rightarrow> (px now - px p) ^ 2 + (py now - py p) ^ 2 < 25)"

definition with_placeholder ::
    "(placeholder_refs \<times> rf_state \<Rightarrow> placeholder_refs \<times> rf_state) \<Rightarrow> drag_state \<Rightarrow> drag_state" where
  "with_placeholder f d =
     (case f (dg_placeholder d, dg_store d) of (r, s) \<Rightarrow> d\<lparr>dg_placeholder := r, dg_store := s\<rparr>)"

definition forget_start :: "drag_state \<Rightarrow> drag_state" where
  "forget_start d = d\<lparr>dg_refs := (dg_refs d)\<lparr>connectionStartRef := None, mouseStartPosRef := None\<rparr>\<rparr>"

text \<open>
  \<open>screen\<close> is the mouse position in flow coordinates, \<open>None\<close> when there is no canvas instance;
  \<open>place\<close> is the callback that computes the dropdown's position.
\<close>

definition onConnectEnd ::
    "delete_elements_fn \<Rightarrow> add_env \<Rightarrow> string \<Rightarrow> pos option \<Rightarrow> (pos \<Rightarrow> pos) \<Rightarrow> pos option
       \<Rightarrow> drag_state \<Rightarrow> drag_state" where
  "onConnectEnd del en hid screen place mouse d =
     (case mouse of
        None \<Rightarrow> d
      | Some p \<Rightarrow>
          (let d1 = ui [SetDropdownPosition p] d in
           case connectionStartRef (dg_refs d1) of
             None \<Rightarrow> d1
           | Some (startNode, startHandle) \<Rightarrow>
               if isConnectedRef (dg_refs d1) then d1
               else if isHandleClick (mouseStartPosRef (dg_refs d1)) p
               then forget_start (ui [HideModal, ClearActiveDropdown]
                      (with_placeholder (removePlaceholderNode del (screen \<noteq> None)) d1))
               else
                 (let d2 = with_placeholder (checkAndRemoveExistingPlaceholder del (screen \<noteq> None)) d1;
                      ps = \<lparr>ap_nodeId = Some startNode, ap_position = SRight, ap_id = Some startHandle,
                            ap_isFromConnectionDrag = True\<rparr>;
                      added = addCanvasNode en hid screen (op_str OpPlaceholder) ps (dg_store d2);
                      d3 = d2\<lparr>dg_store := fst added\<rparr>;
                      d4 = (if given (snd added)
                            then d3\<lparr>dg_placeholder := setCreatedPlaceholderRef (snd added) (dg_placeholder d3)\<rparr>
                            else d3);
                      d5 = (if given (snd added) \<and> screen \<noteq> None
                            then ui [SetDropdownPosition (place p), SetActiveDropdown ''drag'', ShowModal]
                                   (d4\<lparr>dg_refs := (dg_refs d4)\<lparr>preventCloseRef := True\<rparr>\<rparr>)
                            else d4)
                  in forget_start d5)))"

text \<open>The timer that ends the protection of the dropdown.\<close>

definition prevent_close_timeout :: "drag_state \<Rightarrow> drag_state" where
  "prevent_close_timeout d = d\<lparr>dg_refs := (dg_refs d)\<lparr>preventCloseRef := False\<rparr>\<rparr>"

definition handleConnect :: "add_edge_fn \<Rightarrow> lset_fn \<Rightarrow> connection \<Rightarrow> drag_state \<Rightarrow> drag_state" where
  "handleConnect add_edge lset c d =
     d\<lparr>dg_store := onConnect add_edge lset c (dg_store d), dg_refs := (dg_refs d)\<lparr>isConnectedRef := True\<rparr>\<rparr>"

definition getConnectionStartContext :: "drag_state \<Rightarrow> add_params option" where
  "getConnectionStartContext d =
     map_option (\<lambda>(n, h). \<lparr>ap_nodeId = Some n, ap_position = SRight, ap_id = Some h,
                          ap_isFromConnectionDrag = True\<rparr>) (connectionStartRef (dg_refs d))"

definition shouldPreventClose :: "drag_state \<Rightarrow> bool" where
  "shouldPreventClose d = preventCloseRef (dg_refs d)"

definition onMove :: "delete_elements_fn \<Rightarrow> bool \<Rightarrow> drag_state \<Rightarrow> drag_state" where
  "onMove del inst d =
     ui [HideModal, ClearActiveDropdown] (with_placeholder (removePlaceholderNode del inst) d)"

end
