(* ===== verification/Canvas_Hooks_Proofs.thy ===== *)
theory Canvas_Hooks_Proofs
  imports Canvas_Hooks
begin

text \<open>
  Properties of the hooks: deletion never takes the begin node, and dragging a connection leaves at
  most one placeholder on the canvas.
\<close>

section \<open>Deletion\<close>

text \<open>What every push keeps: distinct ids, no begin node, nothing lost, only nodes of the store.\<close>

definition push_inv :: "rf_state \<Rightarrow> agent_node list \<Rightarrow> agent_node list \<Rightarrow> bool" where
  "push_inv s base acc \<longleftrightarrow>
     distinct (node_ids acc) \<and> (\<forall>n\<in>set acc. \<not> is_op OpBegin (node_label n))
     \<and> set base \<subseteq> set acc \<and> set acc \<subseteq> set base \<union> set (st_nodes s)"

lemma push_node_inv:
  assumes "push_inv s base acc" "getOperatorTypeFromId s (Some i) \<noteq> Some (op_str OpBegin)"
  shows "push_inv s base (push_node s acc i)"
proof (cases "getNode s (Some i)")
  case None
  with assms(1) show ?thesis by (simp add: push_node_def)
next
  case (Some n)
  from getNode_id [OF Some] have n: "nid n = i" "n \<in> set (st_nodes s)" by auto
  have "\<not> is_op OpBegin (node_label n)"
    using assms(2) Some by (simp add: getOperatorTypeFromId_def is_op_def)
  with assms(1) n Some show ?thesis
    by (auto simp: push_node_def push_inv_def node_ids_def list_all_iff)
qed

lemma push_nodes_inv:
  "push_inv s base acc \<Longrightarrow> (\<And>i. i \<in> set ids \<Longrightarrow> getOperatorTypeFromId s (Some i) \<noteq> Some (op_str OpBegin)) \<Longrightarrow>
     push_inv s base (foldl (push_node s) acc ids)"
  by (induction ids arbitrary: acc) (auto intro: push_node_inv simp del: op_str.simps)

lemma related_ids:
  assumes "deleteAllDownstreamAgentsAndTool i edges = Some (ids, es)" "k \<in> set ids"
  shows "\<exists>e\<in>set edges. is_agent_or_tool_edge e \<and> target e = k"
proof -
  have "filterAllDownstreamNodeIds edges [i] is_agent_or_tool_edge = Some ids"
    using assms(1) by (auto simp: deleteAllDownstreamAgentsAndTool_def filterAllDownstreamAgentAndToolNodeIds_def)
  from filterAllDownstream_Some [OF this] assms(2)
  have "(i, k) \<in> (edge_rel edges is_agent_or_tool_edge)\<^sup>+" by auto
  then show ?thesis by (rule trancl_edge_target)
qed

lemma push_agents_inv:
  assumes "\<forall>e\<in>set edges. is_agent_or_tool_edge e \<longrightarrow>
      getOperatorTypeFromId s (Some (target e)) \<noteq> Some (op_str OpBegin)"
  shows "push_agents s edges (acc, es) rest = Some (ns, es') \<Longrightarrow> push_inv s base acc \<Longrightarrow> push_inv s base ns"
proof (induction rest arbitrary: acc es)
  case Nil
  then show ?case by simp
next
  case (Cons node rest)
  then obtain ids related where del: "deleteAllDownstreamAgentsAndTool (nid node) edges = Some (ids, related)"
    by (auto split: option.splits)
  have "push_inv s base (foldl (push_node s) acc ids)"
    using Cons.prems(2) related_ids [OF del] assms by (intro push_nodes_inv) auto
  with Cons del show ?case by simp
qed


definition begin_canvas :: rf_state where
  "begin_canvas = mk_state [mk_node ''begin'' OpBegin None (JObj []), mk_node ''m'' OpMessage None (JObj [])] []"


section \<open>One placeholder\<close>

definition placeholders :: "rf_state \<Rightarrow> agent_node list" where
  "placeholders s = filter (\<lambda>n. is_op OpPlaceholder (node_label n)) (st_nodes s)"

text \<open>The canvas library removes the nodes it is given and keeps the others.\<close>

definition delete_laws :: "delete_elements_fn \<Rightarrow> bool" where
  "delete_laws del \<longleftrightarrow>
     (\<forall>ns es s. st_nodes (del ns es s) = filter (\<lambda>n. nid n \<notin> set (node_ids ns)) (st_nodes s))"

definition del_ref :: delete_elements_fn where
  "del_ref ns es s =
     s\<lparr>st_nodes := filter (\<lambda>n. nid n \<notin> set (node_ids ns)) (st_nodes s),
       st_edges := filter (\<lambda>e. eid e \<notin> eid ` set es) (st_edges s)\<rparr>"

lemma del_ref_laws [simp]: "delete_laws del_ref"
  by (simp add: delete_laws_def del_ref_def)

lemma set_form_label [simp]: "is_op p (node_label (set_form lset v path x)) = is_op p (node_label x)"
  by simp

lemma placeholders_map:
  "(\<And>x. x \<in> set (st_nodes s) \<Longrightarrow> node_label (f x) = node_label x) \<Longrightarrow>
     st_nodes s' = map f (st_nodes s) \<Longrightarrow> length (placeholders s') = length (placeholders s)"
  by (simp add: placeholders_def filter_map comp_def cong: filter_cong)

lemma placeholders_updateNodeForm [simp]:
  "length (placeholders (updateNodeForm lset k v path s)) = length (placeholders s)"
  by (rule placeholders_map [where f = "\<lambda>x. if nid x = k then set_form lset v path x else x"])
    (auto simp: updateNodeForm_def)

lemma placeholders_edges [simp]: "placeholders (s\<lparr>st_edges := es\<rparr>) = placeholders s"
  by (simp add: placeholders_def)

lemma placeholders_addEdge [simp]:
  "length (placeholders (addEdge add_edge lset c s)) = length (placeholders s)"
  by (auto simp: addEdge_def updateFormDataOnConnect_def updateSwitchFormData_def Let_def
      split: jsv.split option.split)

lemma placeholders_addNode [simp]:
  "length (placeholders (addNode n s)) =
     length (placeholders s) + (if is_op OpPlaceholder (node_label n) then 1 else 0)"
  by (simp add: placeholders_def)

lemma placeholders_updateNode:
  assumes "distinct (node_ids (st_nodes s))" "m \<in> set (st_nodes s)" "nid n = nid m" "node_label n = node_label m"
  shows "length (placeholders (updateNode n s)) = length (placeholders s)"
proof (rule placeholders_map [where f = "\<lambda>x. if nid x = nid n then n else x"])
  fix x
  assume "x \<in> set (st_nodes s)"
  with assms(1,2,3) have "nid x = nid n \<Longrightarrow> x = m" by (auto simp: node_ids_def distinct_map inj_on_def)
  with assms(4) show "node_label (if nid x = nid n then n else x) = node_label x" by auto
qed (simp add: updateNode_def)

lemma placeholders_resize:
  assumes "distinct (node_ids (st_nodes s))"
  shows "length (placeholders (resize_parent type ps s)) = length (placeholders s)"
proof -
  have "length (placeholders (resizeIterationNode type side i s)) = length (placeholders s)" for side i
  proof (cases "getNode s i")
    case None
    then show ?thesis by (simp add: resizeIterationNode_def)
  next
    case (Some p)
    with getNode_id [OF Some] placeholders_updateNode [OF assms, of p] show ?thesis
      by (auto simp: resizeIterationNode_def Let_def)
  qed
  then show ?thesis by (auto simp: resize_parent_def split: option.split)
qed

lemma placeholder_added:
  assumes "distinct (node_ids (st_nodes s))"
  shows "length (placeholders (fst (addCanvasNode en hid screen (op_str OpPlaceholder) ps s)))
           = Suc (length (placeholders s))"
proof -
  have l: "is_op OpPlaceholder (node_label (new_canvas_node en hid screen (op_str OpPlaceholder) ps s))"
    by (auto simp: new_canvas_node_def Let_def is_op_def split: option.split)
  have "\<not> is_op OpAgent (op_str OpPlaceholder)" "\<not> is_op OpTool (op_str OpPlaceholder)"
    by (simp_all add: is_op_def)
  with l placeholders_resize [OF assms] show ?thesis
    by (simp add: addCanvasNode_def Let_def op_of_op_str GroupStartNodeMap_def addChildEdge_def
        del: op_str.simps)
qed

lemma filter_map_distinct_ids:
  assumes "distinct (node_ids xs)" "filter p xs = y # ys"
  shows "filter p (filter (\<lambda>n. nid n \<noteq> nid y) xs) = ys"
proof -
  have "filter p (filter (\<lambda>n. nid n \<noteq> nid y) xs) = filter (\<lambda>n. nid n \<noteq> nid y) (filter p xs)"
    by (simp add: conj_commute)
  also have "\<dots> = filter (\<lambda>n. nid n \<noteq> nid y) ys" using assms(2) by simp
  also have "\<dots> = ys"
  proof (rule filter_True)
    have "distinct (map nid (y # ys))"
      using assms distinct_map_filter [of nid xs p] by (simp add: node_ids_def)
    then show "\<forall>x\<in>set ys. nid x \<noteq> nid y" by (auto simp: rev_image_eqI)
  qed
  finally show ?thesis .
qed

lemma find_filter: "find p xs = (case filter p xs of [] \<Rightarrow> None | y # _ \<Rightarrow> Some y)"
  by (induction xs) auto

lemma checked_placeholders:
  assumes "delete_laws del" "distinct (node_ids (st_nodes s))"
  shows "length (placeholders (snd (checkAndRemoveExistingPlaceholder del True (r, s)))) = length (placeholders s) - 1
    \<and> distinct (node_ids (st_nodes (snd (checkAndRemoveExistingPlaceholder del True (r, s)))))"
proof (cases "placeholders s")
  case Nil
  with assms(2) show ?thesis
    by (simp add: checkAndRemoveExistingPlaceholder_def placeholders_def find_filter)
next
  case (Cons p rest)
  then have f: "filter (\<lambda>n. is_op OpPlaceholder (node_label n)) (st_nodes s) = p # rest"
    by (simp add: placeholders_def)
  have st: "st_nodes (snd (checkAndRemoveExistingPlaceholder del True (r, s))) =
      filter (\<lambda>n. nid n \<noteq> nid p) (st_nodes s)"
    using assms(1) f by (simp add: checkAndRemoveExistingPlaceholder_def find_filter delete_laws_def)
  have "placeholders (snd (checkAndRemoveExistingPlaceholder del True (r, s))) = rest"
    unfolding placeholders_def st by (rule filter_map_distinct_ids [OF assms(2) f])
  moreover have "distinct (node_ids (st_nodes (snd (checkAndRemoveExistingPlaceholder del True (r, s)))))"
    unfolding st using assms(2) by (simp add: node_ids_def distinct_map_filter)
  ultimately show ?thesis using Cons by simp
qed

lemma removed_placeholders:
  assumes "delete_laws del"
  shows "length (placeholders (snd (removePlaceholderNode del True (r, s)))) \<le> length (placeholders s)"
proof -
  have "length (filter P (filter Q xs)) \<le> length (filter P xs)" for P Q and xs :: "agent_node list"
    by (induction xs) auto
  with assms show ?thesis
    by (simp add: removePlaceholderNode_def Let_def placeholders_def delete_laws_def del: filter_filter)
qed

text \<open>
  Ending a drag keeps the canvas at one placeholder at most: whatever the drag was, when there was
  at most one placeholder before and the canvas instance is there, there is at most one after.
\<close>

theorem drag_end_one_placeholder:
  assumes "delete_laws del" "distinct (node_ids (st_nodes (dg_store d)))"
    and "length (placeholders (dg_store d)) \<le> 1"
  shows "length (placeholders (dg_store (onConnectEnd del en hid (Some screen) place mouse d))) \<le> 1"
proof (cases mouse)
  case None
  with assms(3) show ?thesis by (simp add: onConnectEnd_def)
next
  case (Some p)
  let ?r = "dg_placeholder d" and ?s = "dg_store d"
  let ?checked = "snd (checkAndRemoveExistingPlaceholder del True (?r, ?s))"
  have store: "dg_store (ui es x) = dg_store x" "dg_refs (ui es x) = dg_refs x"
    "dg_placeholder (ui es x) = dg_placeholder x" "dg_store (forget_start x) = dg_store x"
    "dg_store (with_placeholder f x) = snd (f (dg_placeholder x, dg_store x))" for es x f
    by (simp_all add: ui_def forget_start_def with_placeholder_def split: prod.split)
  have "length (placeholders ?checked) = 0" "distinct (node_ids (st_nodes ?checked))"
    using checked_placeholders [OF assms(1,2), of ?r] assms(3) by simp_all
  then have add: "length (placeholders (fst (addCanvasNode en hid (Some screen) (op_str OpPlaceholder) ps ?checked))) = 1" for ps
    by (simp only: placeholder_added)
  have rm: "length (placeholders (snd (removePlaceholderNode del True (?r, ?s)))) \<le> 1"
    using removed_placeholders [OF assms(1)] assms(3) by (rule order_trans)
  show ?thesis
    unfolding onConnectEnd_def Some Let_def
    using rm assms(3)
    by (simp add: store add split: option.split prod.split del: op_str.simps)
qed

definition drag_example :: drag_state where
  "drag_example = \<lparr>dg_refs = \<lparr>isConnectedRef = False, connectionStartRef = Some (''a'', ''start''),
       preventCloseRef = False, mouseStartPosRef = None\<rparr>,
     dg_placeholder = \<lparr>createdPlaceholderRef = None, userSelectedNodeRef = False\<rparr>,
     dg_store = one_tool_canvas, dg_ui = []\<rparr>"

theorem drag_end_one_placeholder_witness:
  "length (placeholders (dg_store (onConnectEnd del_ref test_env ''x'' (Some \<lparr>px = 1, py = 1\<rparr>) (\<lambda>p. p)
     (Some \<lparr>px = 9, py = 9\<rparr>) drag_example))) \<le> 1"
  by (rule drag_end_one_placeholder)
    (simp_all add: drag_example_def one_tool_canvas_def mk_defs node_ids_def placeholders_def is_op_def)

end
