(* ===== verification/Connection.thy ===== *)
theory Connection
  imports Add_Node
begin

text \<open>
  Which connections the canvas accepts: \<open>useValidateConnection\<close> of \<open>pages/agent/hooks.tsx\<close>. The
  search for a cycle is a recursion that shares one set of visited ids; it is modelled with the depth
  of the recursion as an argument, and the depth taken is proved enough. The neighbours of a node come
  from the canvas library (\<open>getOutgoers\<close>), which is an argument.
\<close>

section \<open>The search\<close>

type_synonym outgoers_fn = "agent_node \<Rightarrow> agent_node list \<Rightarrow> edge list \<Rightarrow> agent_node list"

text \<open>\<open>hasCycle\<close> on a node, and its loop over the neighbours; the list holds the visited ids.\<close>

function (sequential)
    hasCycle :: "nat \<Rightarrow> (agent_node \<Rightarrow> agent_node list) \<Rightarrow> string \<Rightarrow> agent_node \<Rightarrow> string list
      \<Rightarrow> (bool \<times> string list) option"
and any_cycle :: "nat \<Rightarrow> (agent_node \<Rightarrow> agent_node list) \<Rightarrow> string \<Rightarrow> agent_node list \<Rightarrow> string list
      \<Rightarrow> (bool \<times> string list) option"
where
  "hasCycle 0 outgoers src node visited = None"
| "hasCycle (Suc d) outgoers src node visited =
     (if nid node \<in> set visited then Some (False, visited)
      else any_cycle d outgoers src (outgoers node) (nid node # visited))"
| "any_cycle d outgoers src [] visited = Some (False, visited)"
| "any_cycle d outgoers src (outgoer # rest) visited =
     (if nid outgoer = src then Some (True, visited)
      else case hasCycle d outgoers src outgoer visited of
             None \<Rightarrow> None
           | Some (found, visited') \<Rightarrow>
               if found then Some (True, visited') else any_cycle d outgoers src rest visited')"
  by pat_completeness auto

termination
  by (relation "measures
        [\<lambda>x. case x of Inl (d, _) \<Rightarrow> d | Inr (d, _) \<Rightarrow> d,
         \<lambda>x. case x of Inl (d, _) \<Rightarrow> 0 | Inr (d, _, _, os, _) \<Rightarrow> Suc (length os)]") auto

text \<open>
  Despite its name, the function is true when the connection closes no cycle (and false when the
  connection leads from a node to itself or to no node).
\<close>

definition hasCanvasCycle :: "outgoers_fn \<Rightarrow> rf_state \<Rightarrow> connection \<Rightarrow> bool option" where
  "hasCanvasCycle og s c =
     (let target' = find (\<lambda>node. nid node = c_target c) (st_nodes s)
      in if map_option nid target' = Some (c_source c) then Some False
         else case target' of
                None \<Rightarrow> Some False
              | Some t \<Rightarrow>
                  map_option (\<lambda>r. \<not> fst r)
                    (hasCycle (length (st_nodes s) + 2) (\<lambda>n. og n (st_nodes s) (st_edges s)) (c_source c) t []))"

section \<open>The conditions\<close>

definition isSameNodeChild :: "rf_state \<Rightarrow> connection \<Rightarrow> bool" where
  "isSameNodeChild s c =
     (let sourceParentId = getParentIdById s (Some (c_source c));
          targetParentId = getParentIdById s (Some (c_target c))
      in if given sourceParentId \<or> given targetParentId then sourceParentId = targetParentId else True)"

definition allowed_upstream :: "rf_state \<Rightarrow> connection \<Rightarrow> bool" where
  "allowed_upstream s c =
     (case Option.bind (Option.bind (getOperatorTypeFromId s (Some (c_source c))) op_of) RestrictedUpstreamMap of
        None \<Rightarrow> False
      | Some ops \<Rightarrow> list_all (\<lambda>x. Some (op_str x) \<noteq> getOperatorTypeFromId s (Some (c_target c))) ops)"

definition isValidConnection :: "outgoers_fn \<Rightarrow> rf_state \<Rightarrow> connection \<Rightarrow> bool option" where
  "isValidConnection og s c =
     (if c_target c \<noteq> c_source c \<and> allowed_upstream s c \<and> isSameNodeChild s c
      then hasCanvasCycle og s c else Some False)"

section \<open>What the search finds\<close>

text \<open>The documented behaviour of \<open>getOutgoers\<close>, and a function that has it.\<close>

definition outgoers_laws :: "outgoers_fn \<Rightarrow> bool" where
  "outgoers_laws og \<longleftrightarrow>
     (\<forall>n ns es. set (og n ns es) = {m \<in> set ns. \<exists>e\<in>set es. source e = nid n \<and> target e = nid m})"

definition outgoers_ref :: outgoers_fn where
  "outgoers_ref n ns es = filter (\<lambda>m. list_ex (\<lambda>e. source e = nid n \<and> target e = nid m) es) ns"

lemma outgoers_ref_laws [simp]: "outgoers_laws outgoers_ref"
  by (auto simp: outgoers_laws_def outgoers_ref_def list_ex_iff)

text \<open>The edges that lead to a node that is there.\<close>

definition live_rel :: "agent_node list \<Rightarrow> edge list \<Rightarrow> (string \<times> string) set" where
  "live_rel nodes edges = {(source e, target e) |e. e \<in> set edges \<and> target e \<in> set (node_ids nodes)}"

lemma outgoers_live:
  assumes "outgoers_laws og"
  shows "nid ` set (og n ns es) = {y. (nid n, y) \<in> live_rel ns es}" "set (og n ns es) \<subseteq> set ns"
proof -
  have og: "set (og n ns es) = {m \<in> set ns. \<exists>e\<in>set es. source e = nid n \<and> target e = nid m}"
    using assms by (simp add: outgoers_laws_def)
  show "nid ` set (og n ns es) = {y. (nid n, y) \<in> live_rel ns es}"
  proof (intro set_eqI iffI)
    fix y
    assume "y \<in> nid ` set (og n ns es)"
    then obtain m e where "m \<in> set ns" "e \<in> set es" "source e = nid n" "target e = nid m" "y = nid m"
      unfolding og by blast
    then show "y \<in> {y. (nid n, y) \<in> live_rel ns es}"
      by (auto simp: live_rel_def node_ids_def intro!: exI [of _ e])
  next
    fix y
    assume "y \<in> {y. (nid n, y) \<in> live_rel ns es}"
    then obtain e m where "e \<in> set es" "source e = nid n" "target e = y" "m \<in> set ns" "y = nid m"
      by (auto simp: live_rel_def node_ids_def)
    then show "y \<in> nid ` set (og n ns es)" unfolding og by blast
  qed
  show "set (og n ns es) \<subseteq> set ns" unfolding og by blast
qed

text \<open>
  The set of visited ids only grows, and what a part of the search that found nothing has added is
  closed: every successor of an added node is visited and is not the node looked for.
\<close>

definition closes :: "(string \<times> string) set \<Rightarrow> string \<Rightarrow> string set \<Rightarrow> string set \<Rightarrow> bool" where
  "closes R src V V' = (\<forall>x\<in>V' - V. \<forall>y. (x, y) \<in> R \<longrightarrow> y \<in> V' \<and> y \<noteq> src)"

lemma closes_refl [simp]: "closes R src V V"
  by (simp add: closes_def)

lemma closes_trans: "closes R src V V1 \<Longrightarrow> closes R src V1 V2 \<Longrightarrow> V1 \<subseteq> V2 \<Longrightarrow> closes R src V V2"
  unfolding closes_def by blast

lemma closes_visit:
  assumes "closes R src (insert x V) V'" "\<forall>y. (x, y) \<in> R \<longrightarrow> y \<in> V' \<and> y \<noteq> src"
  shows "closes R src V V'"
  using assms unfolding closes_def by blast

lemma closed_no_path:
  assumes "closes R src {} V" "x \<in> V"
  shows "(x, src) \<notin> R\<^sup>+"
proof
  assume "(x, src) \<in> R\<^sup>+"
  moreover have "(x, y) \<in> R\<^sup>+ \<Longrightarrow> y \<in> V \<and> y \<noteq> src" for y
    by (induction rule: trancl_induct) (use assms in \<open>auto simp: closes_def\<close>)
  ultimately show False by blast
qed

definition visit_ok ::
    "(string \<times> string) set \<Rightarrow> string \<Rightarrow> agent_node \<Rightarrow> string set \<Rightarrow> (bool \<times> string list) option \<Rightarrow> bool" where
  "visit_ok R src node V r =
     (\<exists>b vs. r = Some (b, vs) \<and> V \<subseteq> set vs
       \<and> (if b then (nid node, src) \<in> R\<^sup>+ else nid node \<in> set vs \<and> closes R src V (set vs)))"

definition loop_ok ::
    "(string \<times> string) set \<Rightarrow> string \<Rightarrow> agent_node list \<Rightarrow> string set \<Rightarrow> (bool \<times> string list) option \<Rightarrow> bool" where
  "loop_ok R src os V r =
     (\<exists>b vs. r = Some (b, vs) \<and> V \<subseteq> set vs
       \<and> (if b then \<exists>x\<in>set os. (nid x, src) \<in> R\<^sup>*
          else nid ` set os \<subseteq> set vs - {src} \<and> closes R src V (set vs)))"

lemma visited_card:
  assumes "x \<in> ids" "x \<notin> V" "finite ids" "card (ids - V) < Suc d"
  shows "card (ids - insert x V) < d"
proof -
  have "ids - insert x V = (ids - V) - {x}" by blast
  moreover have "card ((ids - V) - {x}) < card (ids - V)"
    using assms by (intro psubset_card_mono) auto
  ultimately show ?thesis using assms(4) by simp
qed

lemma card_Diff_less: "finite A \<Longrightarrow> V \<subseteq> V' \<Longrightarrow> card (A - V) < d \<Longrightarrow> card (A - V') < d"
  by (meson Diff_mono card_mono finite_Diff le_less_trans order_refl)

lemma any_cycle_ok:
  assumes visit: "\<And>node visited. node \<in> set nodes \<Longrightarrow> card (ids - set visited) < d \<Longrightarrow>
      visit_ok R src node (set visited) (hasCycle d succ src node visited)" and fin: "finite ids"
  shows "set os \<subseteq> set nodes \<Longrightarrow> card (ids - set visited) < d \<Longrightarrow>
    loop_ok R src os (set visited) (any_cycle d succ src os visited)"
proof (induction os arbitrary: visited)
  case Nil
  show ?case by (auto simp: loop_ok_def intro: exI [of _ False])
next
  case (Cons x os)
  show ?case
  proof (cases "nid x = src")
    case True
    then show ?thesis by (auto simp: loop_ok_def intro: exI [of _ True])
  next
    case False
    have "visit_ok R src x (set visited) (hasCycle d succ src x visited)"
      using visit [of x visited] Cons.prems by simp
    then obtain b vs where r: "hasCycle d succ src x visited = Some (b, vs)" "set visited \<subseteq> set vs"
      "if b then (nid x, src) \<in> R\<^sup>+ else nid x \<in> set vs \<and> closes R src (set visited) (set vs)"
      unfolding visit_ok_def by blast
    show ?thesis
    proof (cases b)
      case True
      with r(3) have "(nid x, src) \<in> R\<^sup>*" by (simp add: trancl_into_rtrancl)
      moreover have "any_cycle d succ src (x # os) visited = Some (True, vs)" using r(1) False True by simp
      ultimately show ?thesis using r(2) unfolding loop_ok_def by auto
    next
      case no: False
      have "loop_ok R src os (set vs) (any_cycle d succ src os vs)"
        using Cons.IH [of vs] Cons.prems card_Diff_less [OF fin r(2)] by simp
      then obtain b' ws where w: "any_cycle d succ src os vs = Some (b', ws)" "set vs \<subseteq> set ws"
        "if b' then \<exists>y\<in>set os. (nid y, src) \<in> R\<^sup>*
         else nid ` set os \<subseteq> set ws - {src} \<and> closes R src (set vs) (set ws)"
        unfolding loop_ok_def by blast
      have "closes R src (set visited) (set ws)" if "\<not> b'"
        using closes_trans [of R src "set visited" "set vs" "set ws"] r(3) w(2,3) no that by simp
      moreover have "any_cycle d succ src (x # os) visited = Some (b', ws)" using r(1) w(1) no False by simp
      moreover have "nid x \<in> set ws - {src}" using r(3) w(2) no False by auto
      ultimately show ?thesis using r(2) w(2,3) unfolding loop_ok_def by (cases b') auto
    qed
  qed
qed

lemma hasCycle_ok:
  assumes succ: "\<And>n. nid ` set (succ n) = {y. (nid n, y) \<in> R}" "\<And>n. set (succ n) \<subseteq> set nodes"
  shows "node \<in> set nodes \<Longrightarrow> card (set (node_ids nodes) - set visited) < d \<Longrightarrow>
    visit_ok R src node (set visited) (hasCycle d succ src node visited)"
proof (induction d arbitrary: node visited)
  case 0
  then show ?case by simp
next
  case (Suc d)
  show ?case
  proof (cases "nid node \<in> set visited")
    case True
    then show ?thesis by (auto simp: visit_ok_def intro: exI [of _ False])
  next
    case False
    have "card (set (node_ids nodes) - set (nid node # visited)) < d"
      using visited_card [of "nid node" "set (node_ids nodes)" "set visited" d] Suc.prems False
      by (simp add: node_ids_def)
    with any_cycle_ok [of nodes "set (node_ids nodes)" d R src succ, OF Suc.IH] succ(2)
    have "loop_ok R src (succ node) (set (nid node # visited))
        (any_cycle d succ src (succ node) (nid node # visited))" by blast
    then obtain b vs where r: "any_cycle d succ src (succ node) (nid node # visited) = Some (b, vs)"
      "insert (nid node) (set visited) \<subseteq> set vs"
      "if b then \<exists>x\<in>set (succ node). (nid x, src) \<in> R\<^sup>*
       else nid ` set (succ node) \<subseteq> set vs - {src} \<and> closes R src (set (nid node # visited)) (set vs)"
      unfolding loop_ok_def by auto
    have path: "(nid node, src) \<in> R\<^sup>+" if "x \<in> set (succ node)" "(nid x, src) \<in> R\<^sup>*" for x
    proof -
      have "(nid node, nid x) \<in> R" using succ(1) [of node] that(1) by blast
      then show ?thesis using that(2) by (rule rtrancl_into_trancl2)
    qed
    have run: "hasCycle (Suc d) succ src node visited = Some (b, vs)" using r(1) False by simp
    show ?thesis
    proof (cases b)
      case True
      with r(3) path have "(nid node, src) \<in> R\<^sup>+" by auto
      with run r(2) True show ?thesis unfolding visit_ok_def by auto
    next
      case no: False
      have succs: "\<forall>y. (nid node, y) \<in> R \<longrightarrow> y \<in> set vs \<and> y \<noteq> src"
        using r(3) no succ(1) [of node] by auto
      have "closes R src (insert (nid node) (set visited)) (set vs)" using r(3) no by simp
      from closes_visit [OF this succs] have "closes R src (set visited) (set vs)" .
      with run r(2) no show ?thesis unfolding visit_ok_def by auto
    qed
  qed
qed

lemma hasCycle_exact:
  assumes "outgoers_laws og" "t \<in> set nodes"
  shows "\<exists>vs. hasCycle (length nodes + 2) (\<lambda>n. og n nodes edges) src t [] =
    Some ((nid t, src) \<in> (live_rel nodes edges)\<^sup>+, vs)"
proof -
  have "card (set (node_ids nodes) - set []) < length nodes + 2"
    using card_length [of "node_ids nodes"] by (simp add: node_ids_def)
  from hasCycle_ok [where R = "live_rel nodes edges" and succ = "\<lambda>n. og n nodes edges",
      OF outgoers_live [OF assms(1)] assms(2) this, of src]
  obtain b vs where r: "hasCycle (length nodes + 2) (\<lambda>n. og n nodes edges) src t [] = Some (b, vs)"
    "if b then (nid t, src) \<in> (live_rel nodes edges)\<^sup>+
     else nid t \<in> set vs \<and> closes (live_rel nodes edges) src {} (set vs)"
    by (auto simp: visit_ok_def)
  then show ?thesis using closed_no_path [of "live_rel nodes edges" src "set vs" "nid t"] by (cases b) auto
qed

lemma isValidConnection_spec:
  assumes "outgoers_laws og"
  shows "isValidConnection og s c = Some
    (c_source c \<noteq> c_target c \<and> allowed_upstream s c \<and> isSameNodeChild s c
     \<and> c_target c \<in> set (node_ids (st_nodes s))
     \<and> (c_target c, c_source c) \<notin> (live_rel (st_nodes s) (st_edges s))\<^sup>+)"
proof (cases "c_target c \<noteq> c_source c \<and> allowed_upstream s c \<and> isSameNodeChild s c")
  case False
  then show ?thesis by (auto simp: isValidConnection_def)
next
  case True
  show ?thesis
  proof (cases "find (\<lambda>node. nid node = c_target c) (st_nodes s)")
    case None
    then have "c_target c \<notin> set (node_ids (st_nodes s))" by (auto simp: find_None_iff node_ids_def)
    with None True show ?thesis by (auto simp: isValidConnection_def hasCanvasCycle_def)
  next
    case (Some t)
    from find_SomeD [OF this] have t: "nid t = c_target c" "t \<in> set (st_nodes s)" by auto
    from t have "c_target c \<in> set (node_ids (st_nodes s))" by (auto simp: node_ids_def image_iff intro: bexI [of _ t])
    with hasCycle_exact [OF assms t(2), of "st_edges s" "c_source c"] t(1) Some True show ?thesis
      by (auto simp: isValidConnection_def hasCanvasCycle_def simp del: hasCycle.simps)
  qed
qed

section \<open>The property\<close>

text \<open>
  C3. The check of a connection always returns, and it accepts exactly the connections between two
  different nodes, the second of them on the canvas, whose operators the table does not forbid, which
  lie in the same group, and which close no cycle of edges between nodes of the canvas.
\<close>

theorem valid_connection_exact:
  assumes "outgoers_laws og"
  shows "isValidConnection og s c = Some
    (c_source c \<noteq> c_target c \<and> allowed_upstream s c \<and> isSameNodeChild s c
     \<and> c_target c \<in> set (node_ids (st_nodes s))
     \<and> (c_target c, c_source c) \<notin> (live_rel (st_nodes s) (st_edges s))\<^sup>+)"
  using assms by (rule isValidConnection_spec)

theorem valid_connection_exact_witness:
  "let n = (\<lambda>i. no_node\<lparr>nid := i, ndata := \<lparr>label = op_str OpCode, name = i, form = JUndef\<rparr>\<rparr>);
       e = \<lparr>eid = ''e'', source = ''a'', target = ''b'', sourceHandle = JStr ''start'',
            targetHandle = JStr ''end'', edata = JUndef\<rparr>;
       s = initial_state\<lparr>st_nodes := [n ''a'', n ''b''], st_edges := [e]\<rparr>
   in isValidConnection outgoers_ref s (edge_to ''b'' ''a'' ''start'' ''end'') = Some False"
proof -
  define n where "n = (\<lambda>i. no_node\<lparr>nid := i, ndata := \<lparr>label = op_str OpCode, name = i, form = JUndef\<rparr>\<rparr>)"
  define e where "e = \<lparr>eid = ''e'', source = ''a'', target = ''b'', sourceHandle = JStr ''start'',
            targetHandle = JStr ''end'', edata = JUndef\<rparr>"
  define s where "s = initial_state\<lparr>st_nodes := [n ''a'', n ''b''], st_edges := [e]\<rparr>"
  have "(''a'', ''b'') \<in> live_rel (st_nodes s) (st_edges s)"
    by (auto simp: live_rel_def s_def n_def e_def node_ids_def intro!: exI [of _ e])
  then have "isValidConnection outgoers_ref s (edge_to ''b'' ''a'' ''start'' ''end'') = Some False"
    by (subst valid_connection_exact) (auto simp: edge_to_def)
  then show ?thesis unfolding Let_def n_def e_def s_def .
qed

end
