(* ===== verification/Dsl_Params.thy ===== *)
theory Dsl_Params
  imports Agent_Tools
begin

text \<open>
  From the form of an operator to the parameters of its DSL component: the \<open>transform\<close> functions
  of \<open>pages/agent/utils.ts\<close> and the fields of the model settings from \<open>utils/form.ts\<close>. A
  function throws where the source reads a property of \<open>undefined\<close> or calls an array method on
  something else. \<open>om\<close> is lodash's \<open>omit\<close> and \<open>emp\<close> its \<open>isEmpty\<close>.
\<close>

section \<open>Reading dynamic values\<close>

definition key_str :: "jsv \<Rightarrow> string" where
  "key_str v =
     (case v of JStr s \<Rightarrow> s | JNum n \<Rightarrow> num_str n | JUndef \<Rightarrow> ''undefined'' | JNull \<Rightarrow> ''null''
      | JBool b \<Rightarrow> (if b then ''true'' else ''false'') | _ \<Rightarrow> ''[object Object]'')"

text \<open>\<open>Number(v)\<close>. An array of one element is read as that element, an empty one as 0.\<close>

fun js_to_number :: "jsv \<Rightarrow> jsnum" where
  "js_to_number JUndef = NaN"
| "js_to_number JNull = Fin 0"
| "js_to_number (JBool b) = Fin (if b then 1 else 0)"
| "js_to_number (JNum n) = n"
| "js_to_number (JStr s) = js_Number s"
| "js_to_number (JArr []) = Fin 0"
| "js_to_number (JArr [v]) =
     (case v of JBool _ \<Rightarrow> NaN | JUndef \<Rightarrow> Fin 0 | _ \<Rightarrow> js_to_number v)"
| "js_to_number (JArr _) = NaN"
| "js_to_number (JObj _) = NaN"

definition num_hundredth :: "jsnum \<Rightarrow> jsnum" where
  "num_hundredth n = (case n of Fin q \<Rightarrow> Fin (q / 100) | _ \<Rightarrow> n)"

text \<open>\<open>v.map(x => x.k)\<close> and \<open>v?.map(x => x.k)\<close>.\<close>

definition map_prop :: "jsv \<Rightarrow> string \<Rightarrow> jsv js" where
  "map_prop v k =
     (case v of
        JArr xs \<Rightarrow> js_bind (js_mapM (\<lambda>x. jprop x k) xs) (\<lambda>ys. Inr (JArr ys))
      | _ \<Rightarrow> Inl (TypeError ''map is not a function''))"

definition opt_map_prop :: "jsv \<Rightarrow> string \<Rightarrow> jsv js" where
  "opt_map_prop v k = (if nullish v then Inr JUndef else map_prop v k)"

section \<open>Model settings\<close>

definition excludeUnEnabledVariables :: "jsv \<Rightarrow> string \<Rightarrow> string list" where
  "excludeUnEnabledVariables values pfx =
     map (\<lambda>(k, f). pfx @ f) (filter (\<lambda>(k, f). \<not> truthy (jget values k)) variableEnabledFieldMap)"

definition removeUselessFieldsFromValues :: "omit_fn \<Rightarrow> jsv \<Rightarrow> string \<Rightarrow> jsv" where
  "removeUselessFieldsFromValues om values pfx =
     JObj (om (props_of values)
       (map fst variableEnabledFieldMap @ [''parameter''] @ excludeUnEnabledVariables values pfx))"

definition setLLMSettingEnabledValues :: "jsv \<Rightarrow> props" where
  "setLLMSettingEnabledValues initial =
     foldl (\<lambda>pre (field, k). obj_put field (JBool (if initial = JUndef then False else truthy (jget initial k))) pre)
       [] variableEnabledFieldMap"

definition removeUselessDataInTheOperator :: "omit_fn \<Rightarrow> string \<Rightarrow> jsv \<Rightarrow> jsv" where
  "removeUselessDataInTheOperator om operatorName params =
     (if is_op OpCategorize operatorName then removeUselessFieldsFromValues om params [] else params)"

section \<open>Arrays of the forms\<close>

type_synonym empty_fn = "jsv \<Rightarrow> bool"

definition transformObjectArrayToPureArray :: "empty_fn \<Rightarrow> jsv \<Rightarrow> string \<Rightarrow> jsv js" where
  "transformObjectArrayToPureArray emp list field =
     (case list of
        JArr xs \<Rightarrow> js_bind (js_mapM (\<lambda>x. jprop x field) xs) (\<lambda>ys. Inr (JArr (filter (\<lambda>y. \<not> emp y) ys)))
      | _ \<Rightarrow> Inr (JArr []))"

definition tcadp_part :: "jsv \<Rightarrow> obj_part list js" where
  "tcadp_part cur =
     (let extra = [Prop ''table_result_type'' (jget cur ''table_result_type''),
                   Prop ''markdown_image_response_type'' (jget cur ''markdown_image_response_type'')]
      in case jget cur ''parse_method'' of
           JStr m \<Rightarrow> Inr (if to_lower m = ''tcadp parser'' then extra else [])
         | v \<Rightarrow> if nullish v then Inr [] else Inl (TypeError ''toLowerCase is not a function''))"

definition same_prop :: "jsv \<Rightarrow> string \<Rightarrow> obj_part" where
  "same_prop cur k = Prop k (jget cur k)"

definition vlm_prop :: "jsv \<Rightarrow> obj_part" where
  "vlm_prop cur = Prop ''vlm'' (JObj [(''llm_id'', jget (jget cur ''vlm'') ''llm_id'')])"

text \<open>The settings of one file format, in the order of the source's switch.\<close>

definition parser_setup_parts :: "string \<Rightarrow> jsv \<Rightarrow> obj_part list js" where
  "parser_setup_parts fileFormat cur =
     (let p = same_prop cur in
      if fileFormat = ''pdf'' then
        js_bind (tcadp_part cur) (\<lambda>t. Inr
          ([p ''parse_method'', p ''lang'', vlm_prop cur, p ''flatten_media_to_text'',
            p ''enable_multi_column'', p ''remove_toc''] @ t))
      else if fileFormat = ''spreadsheet'' then
        js_bind (tcadp_part cur) (\<lambda>t. Inr ([p ''parse_method'', vlm_prop cur, p ''flatten_media_to_text''] @ t))
      else if fileFormat = ''slides'' then
        js_bind (tcadp_part cur) (\<lambda>t. Inr ([p ''parse_method''] @ t))
      else if fileFormat = ''image'' then Inr [p ''parse_method'', p ''lang'', p ''system_prompt'']
      else if fileFormat = ''email'' then Inr [p ''fields'']
      else if fileFormat = ''docx'' \<or> fileFormat = ''markdown'' then
        Inr [vlm_prop cur, p ''flatten_media_to_text'']
      else if fileFormat = ''video'' \<or> fileFormat = ''audio'' then Inr [vlm_prop cur]
      else Inr [])"

definition parser_setup :: "string \<Rightarrow> jsv \<Rightarrow> jsv js" where
  "parser_setup fileFormat cur =
     js_bind (parser_setup_parts fileFormat cur) (\<lambda>ps. Inr (js_object
       ([same_prop cur ''output_format'', same_prop cur ''preprocess'',
         Prop ''suffix'' (jget (JObj FileTypeSuffixMap) fileFormat)] @ ps)))"

fun parser_setups :: "props \<Rightarrow> jsv list \<Rightarrow> props js" where
  "parser_setups pre [] = Inr pre"
| "parser_setups pre (cur # rest) =
     js_bind (jprop cur ''fileFormat'') (\<lambda>f.
       if truthy f
       then js_bind (parser_setup (key_str f) cur) (\<lambda>v. parser_setups (obj_put (key_str f) v pre) rest)
       else parser_setups pre rest)"

definition transformParserParams :: "jsv \<Rightarrow> jsv js" where
  "transformParserParams params =
     (case jget params ''setups'' of
        JArr xs \<Rightarrow> js_bind (parser_setups [] xs)
          (\<lambda>setups. Inr (js_object [Spread params, Prop ''setups'' (JObj setups)]))
      | _ \<Rightarrow> Inl (TypeError ''params.setups.reduce''))"

definition transformTokenChunkerParams :: "empty_fn \<Rightarrow> jsv \<Rightarrow> jsv js" where
  "transformTokenChunkerParams emp params =
     (let rest = JObj (obj_del ''image_table_context_window'' (props_of params));
          size = JNum (js_to_number (js_or (jget params ''image_table_context_window'') (JInt 0)));
          mode = jget params ''delimiter_mode''
      in js_bind (if mode = JStr ''delimiter''
                  then transformObjectArrayToPureArray emp (jget params ''delimiters'') ''value''
                  else Inr (JArr [])) (\<lambda>delimiters.
         js_bind (if truthy (jget params ''enable_children'')
                  then transformObjectArrayToPureArray emp (jget params ''children_delimiters'') ''value''
                  else Inr (JArr [])) (\<lambda>children.
         Inr (js_object
           [Spread rest,
            Prop ''overlapped_percent'' (if mode = JStr ''one'' then JInt 0
              else JNum (num_hundredth (js_to_number (jget params ''overlapped_percent'')))),
            Prop ''delimiters'' delimiters,
            Prop ''table_context_size'' size,
            Prop ''image_context_size'' size,
            Prop ''children_delimiters'' children]))))"

definition transformTitleChunkerParams :: "empty_fn \<Rightarrow> jsv \<Rightarrow> jsv js" where
  "transformTitleChunkerParams emp params =
     (case jget params ''rules'' of
        JArr rules \<Rightarrow>
          js_bind (js_mapM (\<lambda>rule. js_bind (jprop rule ''levels'')
                     (\<lambda>ls. transformObjectArrayToPureArray emp ls ''expression'')) rules) (\<lambda>levels.
          Inr (JObj
            [(''method'', jget params ''method''),
             (''hierarchy'', JNum (js_to_number (js_or (jget params ''hierarchy'') (JInt 0)))),
             (''include_heading_content'', JBool (truthy (jget params ''include_heading_content''))),
             (''root_chunk_as_heading'', JBool (truthy (jget params ''root_chunk_as_heading''))),
             (''levels'', JArr levels)]))
      | _ \<Rightarrow> Inl (TypeError ''params.rules.map''))"

definition transformExtractorParams :: "jsv \<Rightarrow> jsv" where
  "transformExtractorParams params =
     js_object [Spread params,
       Prop ''prompts'' (JArr [JObj [(''content'', jget params ''prompts''), (''role'', JStr ''user'')]])]"

definition transformDataOperationsParams :: "jsv \<Rightarrow> jsv js" where
  "transformDataOperationsParams params =
     js_bind (opt_map_prop (jget params ''select_keys'') ''name'') (\<lambda>sel.
     js_bind (opt_map_prop (jget params ''remove_keys'') ''name'') (\<lambda>rem.
     js_bind (map_prop (jget params ''query'') ''input'') (\<lambda>q.
     Inr (js_object [Spread params, Prop ''select_keys'' sel, Prop ''remove_keys'' rem, Prop ''query'' q]))))"

section \<open>The begin operator\<close>

fun array_to_object :: "props \<Rightarrow> jsv list \<Rightarrow> props js" where
  "array_to_object pre [] = Inr pre"
| "array_to_object pre (cur # rest) =
     js_bind (jprop cur ''key'') (\<lambda>k.
       array_to_object (if truthy k then obj_put (key_str k) (jget cur ''value'') pre else pre) rest)"

definition transformArrayToObject :: "jsv \<Rightarrow> jsv js" where
  "transformArrayToObject list =
     (case list of JArr xs \<Rightarrow> js_bind (array_to_object [] xs) (\<lambda>ps. Inr (JObj ps)) | _ \<Rightarrow> Inr (JObj []))"

definition schema_object :: "jsv list \<Rightarrow> jsv js" where
  "schema_object xs =
     js_bind (js_filter (\<lambda>x. js_bind (jprop x ''required'') (\<lambda>r. Inr (truthy r))) xs) (\<lambda>req.
     Inr (JObj
       [(''type'', JStr ''object''),
        (''required'', JArr (map (\<lambda>x. jget x ''key'') req)),
        (''properties'', JObj (foldl (\<lambda>pre cur.
           obj_put (key_str (jget cur ''key'')) (JObj [(''type'', jget cur ''type'')]) pre) [] xs))]))"

fun schema_entries :: "props \<Rightarrow> props \<Rightarrow> props js" where
  "schema_entries pre [] = Inr pre"
| "schema_entries pre ((k, v) # rest) =
     (case v of
        JArr xs \<Rightarrow> js_bind (schema_object xs) (\<lambda>s. schema_entries (obj_put k s pre) rest)
      | _ \<Rightarrow> schema_entries pre rest)"

definition transformRequestSchemaToJsonschema :: "jsv \<Rightarrow> jsv js" where
  "transformRequestSchemaToJsonschema schema =
     js_bind (schema_entries [] (props_of schema)) (\<lambda>ps. Inr (JObj ps))"

definition transformBeginParams :: "jsv \<Rightarrow> jsv js" where
  "transformBeginParams params =
     (if jget params ''mode'' = JStr ''Webhook'' then
        (let security = jget params ''security'' in
         js_bind (if nullish security then Inr JUndef
                  else map_prop (jget security ''ip_whitelist'') ''value'') (\<lambda>ips.
         js_bind (if jget security ''auth_type'' = JStr ''jwt''
                  then (let jwt = jget security ''jwt'' in
                        js_bind (if nullish jwt then Inr JUndef
                                 else map_prop (jget jwt ''required_claims'') ''value'') (\<lambda>cs.
                        Inr [Prop ''jwt'' (js_object [Spread jwt, Prop ''required_claims'' cs])]))
                  else Inr []) (\<lambda>jwt.
         js_bind (transformRequestSchemaToJsonschema (jget params ''schema'')) (\<lambda>schema.
         Inr (js_object
           [Spread params, Prop ''schema'' schema,
            Prop ''security'' (js_object ([Spread security, Prop ''ip_whitelist'' ips] @ jwt))])))))
      else Inr (js_object [Spread params]))"

end
