(* ===== verification/Dsl_Build.thy ===== *)
theory Dsl_Build
  imports Dsl_Params Add_Node_Proofs
begin

text \<open>
  The DSL the canvas is saved as: \<open>buildDslComponentsByGraph\<close> and its helpers in
  \<open>pages/agent/utils.ts\<close>, the global variables, and the hook \<open>use-build-dsl.ts\<close>. The tools of an
  agent are built by a recursion over the sub-agents; the depth is bounded by two more than the number
  of edges, \<open>None\<close> stands for a recursion that does not end.
\<close>

section \<open>Computations that may throw or not return\<close>

type_synonym 'a run = "'a js option"

definition run_bind :: "'a run \<Rightarrow> ('a \<Rightarrow> 'b run) \<Rightarrow> 'b run" where
  "run_bind m f = (case m of None \<Rightarrow> None | Some (Inl e) \<Rightarrow> Some (Inl e) | Some (Inr x) \<Rightarrow> f x)"

fun run_map :: "('a \<Rightarrow> 'b run) \<Rightarrow> 'a list \<Rightarrow> 'b list run" where
  "run_map f [] = Some (Inr [])"
| "run_map f (x # xs) = run_bind (f x) (\<lambda>y. run_bind (run_map f xs) (\<lambda>ys. Some (Inr (y # ys))))"

lemma run_bind_simps [simp]:
  "run_bind None f = None" "run_bind (Some (Inl e)) f = Some (Inl e)" "run_bind (Some (Inr x)) f = f x"
  by (simp_all add: run_bind_def)

lemma run_bind_None: "run_bind m f = None \<Longrightarrow> m = None \<or> (\<exists>x. m = Some (Inr x) \<and> f x = None)"
  by (auto simp: run_bind_def split: option.splits sum.splits)

lemma run_bind_returns:
  "m \<noteq> None \<Longrightarrow> (\<And>x. m = Some (Inr x) \<Longrightarrow> f x \<noteq> None) \<Longrightarrow> run_bind m f \<noteq> None"
  by (metis run_bind_None)

lemma run_map_None: "run_map f xs = None \<Longrightarrow> \<exists>x\<in>set xs. f x = None"
  by (induction xs) (auto dest!: run_bind_None)

section \<open>The edges of a component\<close>

definition buildAgentExceptionGoto :: "edge list \<Rightarrow> string \<Rightarrow> string list" where
  "buildAgentExceptionGoto edges nodeId =
     map target (filter (\<lambda>x. source x = nodeId \<and> sourceHandle x = JStr Handle_AgentException) edges)"

definition buildComponentDownstreamOrUpstream ::
    "edge list \<Rightarrow> string \<Rightarrow> bool \<Rightarrow> agent_node list \<Rightarrow> string list" where
  "buildComponentDownstreamOrUpstream edges nodeId isBuildDownstream nodes =
     map (\<lambda>y. if isBuildDownstream then target y else source y)
       (filter (\<lambda>y.
          (let node = find (\<lambda>x. nid x = nodeId) nodes;
               isAgent = isBuildDownstream \<and> map_option node_label node = Some (op_str OpAgent);
               isNotExceptionGoto = (isAgent \<longrightarrow> sourceHandle y \<noteq> JStr Handle_AgentException);
               isNotUpstreamTool = (isAgent \<longrightarrow> \<not> starts_with (target y) (op_str OpTool));
               isNotUpstreamAgent = (isAgent \<longrightarrow> \<not> (starts_with (target y) (op_str OpAgent)
                                                  \<and> targetHandle y = JStr Handle_AgentTop))
           in (if isBuildDownstream then source y else target y) = nodeId
              \<and> isNotUpstreamTool \<and> isNotUpstreamAgent \<and> isNotExceptionGoto)) edges)"

section \<open>Agents and categories\<close>

record agent_tools =
  at_params :: jsv
  at_name :: jsv
  at_id :: jsv

fun buildAgentTools :: "nat \<Rightarrow> edge list \<Rightarrow> agent_node list \<Rightarrow> string \<Rightarrow> agent_tools run" where
  "buildAgentTools 0 edges nodes nodeId = None"
| "buildAgentTools (Suc d) edges nodes nodeId =
     (case find (\<lambda>x. nid x = nodeId) nodes of
        None \<Rightarrow> Some (Inr \<lparr>at_params = JObj [], at_name = JUndef, at_id = JUndef\<rparr>)
      | Some node \<Rightarrow>
          (let params = props_of (node_form node);
               result = (\<lambda>ps. \<lparr>at_params = JObj ps, at_name = JStr (node_name node), at_id = JStr (nid node)\<rparr>)
           in if is_op OpAgent (node_label node)
              then (case jget (JObj params) ''tools'' of
                      JArr tools \<Rightarrow>
                        run_bind (run_map (\<lambda>x. run_bind (buildAgentTools d edges nodes (target x)) (\<lambda>sub.
                            Some (Inr (JObj
                              [(''component_name'', JStr (op_str OpAgent)), (''id'', at_id sub),
                               (''name'', at_name sub), (''params'', js_object [Spread (at_params sub)])]))))
                          (filter (\<lambda>x. source x = nodeId \<and> is_agent_edge x) edges))
                        (\<lambda>subs. Some (Inr (result (obj_put ''tools'' (JArr (tools @ subs)) params))))
                    | _ \<Rightarrow> Some (Inl (TypeError ''tools.concat'')))
              else Some (Inr (result params))))"

definition filterTargetsBySourceHandleId :: "edge list \<Rightarrow> jsv \<Rightarrow> string list" where
  "filterTargetsBySourceHandleId edges handleId =
     map target (filter (\<lambda>x. sourceHandle x = handleId) edges)"

definition category_entry :: "omit_fn \<Rightarrow> edge list \<Rightarrow> jsv \<Rightarrow> jsv js" where
  "category_entry om subEdges val =
     js_bind (opt_map_prop (jget val ''examples'') ''value'') (\<lambda>ex.
     Inr (js_object
       [Spread (JObj (om (props_of val) [''name'', ''uuid''])),
        Prop ''examples'' (js_or ex (JArr [])),
        Prop ''to'' (JArr (map JStr (filterTargetsBySourceHandleId subEdges (jget val ''uuid''))))]))"

fun category_description :: "omit_fn \<Rightarrow> edge list \<Rightarrow> props \<Rightarrow> jsv list \<Rightarrow> props js" where
  "category_description om subEdges pre [] = Inr pre"
| "category_description om subEdges pre (val # rest) =
     js_bind (jprop val ''name'') (\<lambda>key. js_bind (category_entry om subEdges val) (\<lambda>v.
       category_description om subEdges (obj_put (key_str key) v pre) rest))"

definition buildCategorize :: "omit_fn \<Rightarrow> edge list \<Rightarrow> agent_node list \<Rightarrow> string \<Rightarrow> jsv js" where
  "buildCategorize om edges nodes nodeId =
     (case find (\<lambda>x. nid x = nodeId) nodes of
        None \<Rightarrow> Inr (JObj (om [] [''items'']))
      | Some node \<Rightarrow>
          (let params = props_of (node_form node) in
           if is_op OpCategorize (node_label node)
           then (case js_or (jget (JObj params) ''items'') (JArr []) of
                   JArr items \<Rightarrow>
                     js_bind (category_description om (filter (\<lambda>x. source x = nodeId) edges) [] items)
                       (\<lambda>ps. Inr (JObj (om (obj_put ''category_description'' (JObj ps) params) [''items''])))
                 | _ \<Rightarrow> Inl (TypeError ''items.reduce''))
           else Inr (JObj (om params [''items'']))))"

section \<open>Components\<close>

definition ExcludeOperators :: "operator list" where
  "ExcludeOperators = [OpNote, OpTool, OpPlaceholder]"

definition in_dsl :: "edge list \<Rightarrow> agent_node \<Rightarrow> bool" where
  "in_dsl edges x =
     (\<not> list_ex (\<lambda>y. is_op y (node_label x)) ExcludeOperators \<and> \<not> isBottomSubAgent edges (Some (nid x)))"

definition operator_params ::
    "omit_fn \<Rightarrow> empty_fn \<Rightarrow> edge list \<Rightarrow> agent_node list \<Rightarrow> agent_node \<Rightarrow> jsv run" where
  "operator_params om emp edges nodes x =
     (let params = js_coalesce (node_form x) (JObj []) in
      case op_of (node_label x) of
        Some OpAgent \<Rightarrow>
          run_bind (buildAgentTools (length edges + 2) edges nodes (nid x)) (\<lambda>t.
          Some (Inr (js_object
            [Spread (at_params t),
             Prop ''exception_goto'' (JArr (map JStr (buildAgentExceptionGoto edges (nid x))))])))
      | Some OpCategorize \<Rightarrow> Some (buildCategorize om edges nodes (nid x))
      | Some OpParser \<Rightarrow> Some (transformParserParams params)
      | Some OpTokenChunker \<Rightarrow> Some (transformTokenChunkerParams emp params)
      | Some OpTitleChunker \<Rightarrow> Some (transformTitleChunkerParams emp params)
      | Some OpExtractor \<Rightarrow> Some (Inr (transformExtractorParams params))
      | Some OpDataOperations \<Rightarrow> Some (transformDataOperationsParams params)
      | Some OpBegin \<Rightarrow> Some (transformBeginParams params)
      | _ \<Rightarrow> Some (Inr params))"

definition component_of ::
    "omit_fn \<Rightarrow> edge list \<Rightarrow> agent_node list \<Rightarrow> jsv \<Rightarrow> agent_node \<Rightarrow> jsv \<Rightarrow> jsv" where
  "component_of om edges nodes old x params =
     JObj
       [(''obj'', js_object
           [Spread (js_coalesce (jget (jget old (nid x)) ''obj'') (JObj [])),
            Prop ''component_name'' (JStr (node_label x)),
            Prop ''params'' (js_coalesce (removeUselessDataInTheOperator om (node_label x) params) (JObj []))]),
        (''downstream'', JArr (map JStr (buildComponentDownstreamOrUpstream edges (nid x) True nodes))),
        (''upstream'', JArr (map JStr (buildComponentDownstreamOrUpstream edges (nid x) False nodes))),
        (''parent_id'', (case parentId x of None \<Rightarrow> JUndef | Some p \<Rightarrow> JStr p))]"

fun build_components ::
    "omit_fn \<Rightarrow> empty_fn \<Rightarrow> edge list \<Rightarrow> agent_node list \<Rightarrow> jsv \<Rightarrow> props \<Rightarrow> agent_node list \<Rightarrow> props run" where
  "build_components om emp edges nodes old pre [] = Some (Inr pre)"
| "build_components om emp edges nodes old pre (x # rest) =
     run_bind (operator_params om emp edges nodes x) (\<lambda>params.
       build_components om emp edges nodes old
         (obj_put (nid x) (component_of om edges nodes old x params) pre) rest)"

definition buildDslComponentsByGraph ::
    "omit_fn \<Rightarrow> empty_fn \<Rightarrow> agent_node list \<Rightarrow> edge list \<Rightarrow> jsv \<Rightarrow> props run" where
  "buildDslComponentsByGraph om emp nodes edges oldDslComponents =
     build_components om emp edges nodes oldDslComponents [] (filter (in_dsl edges) nodes)"

section \<open>Global variables and the whole DSL\<close>

definition system_globals :: "props \<Rightarrow> props" where
  "system_globals globals =
     foldl (\<lambda>pre (key, v). if str_includes key ''sys'' then obj_put key v pre else pre) [] globals"

definition env_variables :: "props \<Rightarrow> props js" where
  "env_variables vars =
     foldl (\<lambda>acc (key, v). js_bind acc (\<lambda>pre. js_bind (jprop v ''value'')
        (\<lambda>w. Inr (obj_put (''env.'' @ key) w pre)))) (Inr []) vars"

definition buildDslGlobalVariables :: "jsv \<Rightarrow> jsv \<Rightarrow> props js" where
  "buildDslGlobalVariables dsl globalVariables =
     (if \<not> truthy globalVariables
      then Inr [(''globals'', jget dsl ''globals''), (''variables'', js_or (jget dsl ''variables'') (JObj []))]
      else if nullish (jget dsl ''globals'') then Inl (TypeError ''Object.keys'')
      else js_bind (env_variables (props_of globalVariables)) (\<lambda>vars.
        Inr [(''globals'', JObj (obj_assign (system_globals (props_of (jget dsl ''globals''))) vars)),
             (''variables'', globalVariables)]))"

definition is_placeholder :: "agent_node \<Rightarrow> bool" where
  "is_placeholder n = is_op OpPlaceholder (node_label n)"

definition real_nodes :: "agent_node list \<Rightarrow> agent_node list" where
  "real_nodes nodes = filter (\<lambda>n. \<not> is_placeholder n) nodes"

definition real_edges :: "agent_node list \<Rightarrow> edge list \<Rightarrow> edge list" where
  "real_edges nodes edges =
     filter (\<lambda>e. (case find (\<lambda>n. nid n = source e) nodes of None \<Rightarrow> True | Some n \<Rightarrow> \<not> is_placeholder n)
               \<and> (case find (\<lambda>n. nid n = target e) nodes of None \<Rightarrow> True | Some n \<Rightarrow> \<not> is_placeholder n)) edges"

record dsl_data =
  dd_rest :: props
  dd_globals :: props
  dd_nodes :: "agent_node list"
  dd_edges :: "edge list"
  dd_components :: props

text \<open>
  The result spreads the old DSL, then the globals and variables; the graph and the components are the
  last two fields.
\<close>

definition buildDslData ::
    "omit_fn \<Rightarrow> empty_fn \<Rightarrow> rf_state \<Rightarrow> jsv \<Rightarrow> agent_node list option \<Rightarrow> jsv \<Rightarrow> dsl_data run" where
  "buildDslData om emp s dsl currentNodes globalVariables =
     (let nodesToProcess = (case currentNodes of None \<Rightarrow> st_nodes s | Some ns \<Rightarrow> ns);
          filteredNodes = real_nodes nodesToProcess;
          filteredEdges = real_edges nodesToProcess (st_edges s)
      in run_bind (buildDslComponentsByGraph om emp filteredNodes filteredEdges (jget dsl ''components'')) (\<lambda>cs.
         run_bind (Some (buildDslGlobalVariables dsl globalVariables)) (\<lambda>gs.
         Some (Inr \<lparr>dd_rest = props_of dsl, dd_globals = gs, dd_nodes = filteredNodes,
                     dd_edges = filteredEdges, dd_components = cs\<rparr>))))"

end
