(* ===== verification/Dsl_Proofs.thy ===== *)
theory Dsl_Proofs
  imports Dsl_Build
begin

text \<open>
  Properties of the DSL: which nodes become components, how the upstream and downstream lists
  relate, that placeholders leave no trace, and that the tools of agents are built unless the agents
  form a cycle.
\<close>

section \<open>Termination\<close>

text \<open>A recursion that runs out of depth has followed a path of that length.\<close>

lemma buildAgentTools_None:
  "buildAgentTools d edges nodes i = None \<Longrightarrow> \<exists>y. (i, y) \<in> edge_rel edges is_agent_edge ^^ d"
proof (induction d arbitrary: i)
  case 0
  then show ?case by auto
next
  case (Suc d)
  then obtain x where x: "x \<in> set edges" "source x = i" "is_agent_edge x"
    "run_bind (buildAgentTools d edges nodes (target x)) (\<lambda>sub. Some (Inr (JObj
        [(''component_name'', JStr (op_str OpAgent)), (''id'', at_id sub),
         (''name'', at_name sub), (''params'', js_object [Spread (at_params sub)])]))) = None"
    by (auto simp: Let_def split: option.splits if_splits jsv.splits dest!: run_bind_None run_map_None)
  then have "buildAgentTools d edges nodes (target x) = None" by (auto dest: run_bind_None)
  with Suc.IH obtain y where "(target x, y) \<in> edge_rel edges is_agent_edge ^^ d" by blast
  moreover have "(i, target x) \<in> edge_rel edges is_agent_edge" using x(1-3) by (auto simp: edge_rel_def)
  ultimately show ?case by (blast intro: relpow_Suc_I2)
qed

lemma buildAgentTools_returns:
  assumes "\<nexists>z. (i, z) \<in> (edge_rel edges is_agent_edge)\<^sup>* \<and> (z, z) \<in> (edge_rel edges is_agent_edge)\<^sup>+"
  shows "buildAgentTools (length edges + 2) edges nodes i \<noteq> None"
proof
  assume "buildAgentTools (length edges + 2) edges nodes i = None"
  from buildAgentTools_None [OF this] obtain y
    where "(i, y) \<in> step_rel (down_succs edges is_agent_edge) ^^ (length edges + 2)"
    unfolding step_rel_down by blast
  from down.long_path_cycles [OF this] assms show False by simp
qed

section \<open>Components\<close>

lemma build_components_keys:
  "build_components om emp edges nodes old pre xs = Some (Inr cs) \<Longrightarrow>
     fst ` set cs = fst ` set pre \<union> nid ` set xs \<and> (wf_obj pre \<longrightarrow> wf_obj cs)"
proof (induction xs arbitrary: pre)
  case Nil
  then show ?case by simp
next
  case (Cons x xs)
  then obtain params where "operator_params om emp edges nodes x = Some (Inr params)"
    by (cases "operator_params om emp edges nodes x") (auto simp: run_bind_def split: sum.splits)
  with Cons show ?case by auto
qed

lemma build_components_get:
  "build_components om emp edges nodes old pre xs = Some (Inr cs) \<Longrightarrow> distinct (node_ids xs) \<Longrightarrow> x \<in> set xs \<Longrightarrow>
     \<exists>params. operator_params om emp edges nodes x = Some (Inr params)
       \<and> map_of cs (nid x) = Some (component_of om edges nodes old x params)"
proof (induction xs arbitrary: pre)
  case Nil
  then show ?case by simp
next
  case (Cons y xs)
  then obtain params where p: "operator_params om emp edges nodes y = Some (Inr params)"
    by (cases "operator_params om emp edges nodes y") (auto simp: run_bind_def split: sum.splits)
  let ?pre = "obj_put (nid y) (component_of om edges nodes old y params) pre"
  have rest: "build_components om emp edges nodes old ?pre xs = Some (Inr cs)"
    using Cons.prems(1) p by simp
  show ?case
  proof (cases "x = y")
    case False
    with Cons rest show ?thesis by auto
  next
    case True
    have keep: "build_components om emp edges nodes old qs zs = Some (Inr cs) \<Longrightarrow> nid y \<notin> set (node_ids zs) \<Longrightarrow>
        map_of cs (nid y) = map_of qs (nid y)" for qs zs
    proof (induction zs arbitrary: qs)
      case (Cons z zs)
      then show ?case
        by (cases "operator_params om emp edges nodes z") (auto simp: run_bind_def split: sum.splits)
    qed simp
    from keep [OF rest] Cons.prems(2) True p show ?thesis by simp
  qed
qed

lemma component_of_fields:
  "jget (jget (component_of om edges nodes old n params) ''obj'') ''component_name'' = JStr (node_label n)
   \<and> jget (component_of om edges nodes old n params) ''parent_id'' =
       (case parentId n of None \<Rightarrow> JUndef | Some p \<Rightarrow> JStr p)
   \<and> jget (component_of om edges nodes old n params) ''upstream'' =
       JArr (map JStr (map source (filter (\<lambda>e. target e = nid n) edges)))"
proof -
  have "jget (component_of om edges nodes old n params) ''upstream'' =
       JArr (map JStr (map source (filter (\<lambda>e. target e = nid n) edges)))"
    by (simp add: component_of_def buildComponentDownstreamOrUpstream_def Let_def)
  moreover have "jget (component_of om edges nodes old n params) ''parent_id'' =
       (case parentId n of None \<Rightarrow> JUndef | Some p \<Rightarrow> JStr p)"
    by (simp add: component_of_def)
  moreover have "jget (jget (component_of om edges nodes old n params) ''obj'') ''component_name'' = JStr (node_label n)"
    by (simp add: component_of_def js_object_def obj_of_def obj_assign_def)
  ultimately show ?thesis by blast
qed

text \<open>
  The nodes the DSL keeps, and an edge that belongs to the inside of an agent, as conditions on the graph.
\<close>

definition kept_node :: "edge list \<Rightarrow> agent_node \<Rightarrow> bool" where
  "kept_node edges n =
     (node_label n \<notin> {op_str OpNote, op_str OpTool, op_str OpPlaceholder}
      \<and> (\<forall>e\<in>set edges. target e = nid n \<longrightarrow> targetHandle e \<noteq> JStr Handle_AgentTop))"

definition agent_internal_edge :: "edge \<Rightarrow> bool" where
  "agent_internal_edge y =
     (sourceHandle y = JStr Handle_AgentException
      \<or> starts_with (target y) (op_str OpTool)
      \<or> (starts_with (target y) (op_str OpAgent) \<and> targetHandle y = JStr Handle_AgentTop))"

lemma in_dsl_kept: "in_dsl edges n = kept_node edges n"
  by (auto simp: in_dsl_def kept_node_def ExcludeOperators_def is_op_def isBottomSubAgent_def find_None_iff)


definition begin_message :: "agent_node list" where
  "begin_message = [mk_node ''b'' OpBegin None (JObj []), mk_node ''m'' OpMessage None (JObj [])]"

lemma begin_message_builds:
  "\<exists>cs. buildDslComponentsByGraph omit_ref (\<lambda>_. False) begin_message [mk_edge ''e'' ''b'' ''m'' ''start''] JUndef
     = Some (Inr cs)"
  by (simp add: buildDslComponentsByGraph_def begin_message_def mk_defs in_dsl_def ExcludeOperators_def
      is_op_def isBottomSubAgent_def operator_params_def op_of_op_str [of OpBegin, simplified]
      op_of_op_str [of OpMessage, simplified] transformBeginParams_def js_coalesce_def nullish_def)


section \<open>Upstream and downstream\<close>

text \<open>
  Downstream is upstream read the other way, but for the edges inside an agent: a node is
  downstream of another exactly when an edge leads from that one to it which, if that one is an agent,
  is neither an exception edge nor leads to a tool or a sub-agent; upstream holds the sources of all
  edges.
\<close>

theorem downstream_upstream_dual:
  "(b \<in> set (buildComponentDownstreamOrUpstream edges a True nodes)) =
     (\<exists>e\<in>set edges. source e = a \<and> target e = b
        \<and> \<not> (map_option node_label (find (\<lambda>x. nid x = a) nodes) = Some (op_str OpAgent) \<and> agent_internal_edge e))
   \<and> (a \<in> set (buildComponentDownstreamOrUpstream edges b False nodes)) =
     (\<exists>e\<in>set edges. source e = a \<and> target e = b)"
  unfolding buildComponentDownstreamOrUpstream_def agent_internal_edge_def Let_def by auto

section \<open>Placeholders and cycles\<close>

text \<open>
  C22. The graph that is saved holds no placeholder and no edge to or from one, and it is well formed
  when the canvas is.
\<close>

theorem saved_graph_has_no_placeholder:
  assumes "wf_graph nodes edges"
  shows "wf_graph (real_nodes nodes) (real_edges nodes edges)
    \<and> (\<forall>n\<in>set (real_nodes nodes). node_label n \<noteq> op_str OpPlaceholder)
    \<and> (\<forall>e\<in>set edges. e \<in> set (real_edges nodes edges) \<longleftrightarrow>
         (\<forall>n\<in>set nodes. nid n = source e \<or> nid n = target e \<longrightarrow> node_label n \<noteq> op_str OpPlaceholder))"
proof -
  have f: "(case find (\<lambda>n. nid n = i) nodes of None \<Rightarrow> True | Some n \<Rightarrow> \<not> is_placeholder n) \<longleftrightarrow>
      (\<forall>n\<in>set nodes. nid n = i \<longrightarrow> \<not> is_placeholder n)" for i
  proof (cases "find (\<lambda>n. nid n = i) nodes")
    case None
    then have "\<forall>n\<in>set nodes. nid n \<noteq> i" by (simp add: find_None_iff)
    with None show ?thesis by simp
  next
    case (Some m)
    with find_SomeD [OF Some] wf_graphD(1) [OF assms] show ?thesis
      by (auto simp: node_ids_def distinct_map inj_on_def)
  qed
  have "wf_graph (real_nodes nodes) (real_edges nodes edges)"
    unfolding real_nodes_def real_edges_def f by (rule wf_graph_filter [OF assms]) blast
  then show ?thesis
    unfolding real_nodes_def real_edges_def f by (auto simp: is_placeholder_def is_op_def simp del: op_str.simps)
qed

theorem saved_graph_has_no_placeholder_witness:
  "real_nodes [mk_node ''p'' OpPlaceholder None JUndef] = []
   \<and> wf_graph (real_nodes [mk_node ''p'' OpPlaceholder None JUndef]) (real_edges [mk_node ''p'' OpPlaceholder None JUndef] [])"
proof -
  have "wf_graph [mk_node ''p'' OpPlaceholder None JUndef] []"
    by (simp add: wf_graph_def edges_between_def node_ids_def)
  from saved_graph_has_no_placeholder [OF this] show ?thesis
    by (simp add: real_nodes_def is_placeholder_def is_op_def mk_defs)
qed

lemma build_components_returns:
  "(\<And>x. x \<in> set xs \<Longrightarrow> operator_params om emp edges nodes x \<noteq> None) \<Longrightarrow>
     build_components om emp edges nodes old pre xs \<noteq> None"
proof (induction xs arbitrary: pre)
  case Nil
  then show ?case by simp
next
  case (Cons x xs)
  then have "operator_params om emp edges nodes x \<noteq> None" by simp
  moreover have "build_components om emp edges nodes old qs xs \<noteq> None" for qs
    using Cons.IH Cons.prems by simp
  ultimately show ?case by (simp only: build_components.simps run_bind_returns not_False_eq_True)
qed

lemma buildDslComponentsByGraph_returns:
  assumes "\<nexists>z. (z, z) \<in> (edge_rel edges is_agent_edge)\<^sup>+"
  shows "buildDslComponentsByGraph om emp nodes edges old \<noteq> None"
  unfolding buildDslComponentsByGraph_def
proof (rule build_components_returns)
  fix x :: agent_node
  have "buildAgentTools (length edges + 2) edges nodes (nid x) \<noteq> None"
    using assms by (intro buildAgentTools_returns) blast
  then show "operator_params om emp edges nodes x \<noteq> None"
    unfolding operator_params_def Let_def
    by (cases "op_of (node_label x)")
      (simp_all add: run_bind_returns del: buildAgentTools.simps not_None_eq split: operator.split)
qed

text \<open>
  C21. Building the DSL always comes back, with a result or with an error of one of the forms, unless
  the sub-agents of some agent form a cycle.
\<close>

theorem dsl_build_returns:
  assumes "\<nexists>z. (z, z) \<in> (edge_rel edges is_agent_edge)\<^sup>+"
  shows "buildDslComponentsByGraph om emp nodes edges old \<noteq> None"
  using assms by (rule buildDslComponentsByGraph_returns)

theorem dsl_build_returns_witness:
  "buildDslComponentsByGraph omit_ref (\<lambda>_. False) begin_message [mk_edge ''e'' ''b'' ''m'' ''start''] JUndef \<noteq> None"
proof (rule dsl_build_returns)
  have "edge_rel [mk_edge ''e'' ''b'' ''m'' ''start''] is_agent_edge = {}"
    by (auto simp: edge_rel_def is_agent_edge_def mk_edge_def)
  then show "\<nexists>z. (z, z) \<in> (edge_rel [mk_edge ''e'' ''b'' ''m'' ''start''] is_agent_edge)\<^sup>+" by simp
qed

end
