(* ===== verification/Canvas_Session.thy ===== *)
theory Canvas_Session
  imports Connection Store_Deletion Dsl_Proofs
begin

text \<open>
  Sessions of edits on the canvas: the actions of the store in any order, connections only when the
  check accepts them and new nodes with new ids. The graph stays free of cycles, so every recursion of
  the program over it comes back. Deleting an agent or a group can leave edges whose
  ends are gone; the invariant allows them.
\<close>

section \<open>Adding an edge\<close>

text \<open>
  The documented behaviour of \<open>addEdge\<close> of the canvas library: the edges of the result are old ones or
  join the ends of the connection.
\<close>

definition add_edge_laws :: "add_edge_fn \<Rightarrow> bool" where
  "add_edge_laws ae \<longleftrightarrow>
     (\<forall>c es. \<forall>e\<in>set (ae c es). e \<in> set es \<or> source e = c_source c \<and> target e = c_target c)"

definition add_edge_ref :: add_edge_fn where
  "add_edge_ref c es = es @ [\<lparr>eid = c_source c @ ''-'' @ c_target c, source = c_source c,
     target = c_target c, sourceHandle = c_sourceHandle c, targetHandle = c_targetHandle c, edata = JUndef\<rparr>]"

lemma add_edge_ref_laws [simp]: "add_edge_laws add_edge_ref"
  by (auto simp: add_edge_laws_def add_edge_ref_def)

abbreviation graph_rel :: "edge list \<Rightarrow> (string \<times> string) set" where
  "graph_rel edges \<equiv> edge_rel edges (\<lambda>_. True)"

lemma graph_rel_add:
  assumes "add_edge_laws ae"
  shows "graph_rel (ae c es) \<subseteq> insert (c_source c, c_target c) (graph_rel es)"
proof
  fix p
  assume "p \<in> graph_rel (ae c es)"
  then obtain e where "e \<in> set (ae c es)" "p = (source e, target e)" by (auto simp: edge_rel_def)
  with assms show "p \<in> insert (c_source c, c_target c) (graph_rel es)"
    unfolding add_edge_laws_def edge_rel_def by blast
qed

section \<open>Steps\<close>

text \<open>The ids a state mentions, and the children of a group.\<close>

definition known_ids :: "rf_state \<Rightarrow> string set" where
  "known_ids s = set (node_ids (st_nodes s)) \<union> source ` set (st_edges s) \<union> target ` set (st_edges s)"

definition is_child :: "rf_state \<Rightarrow> string \<Rightarrow> string \<Rightarrow> bool" where
  "is_child s i x = (\<exists>n\<in>set (st_nodes s). nid n = x \<and> parentId n = Some i)"

text \<open>
  Deleting an agent or a group is an edit when no edge leads from outside into what is deleted with it:
  the handles the canvas draws for sub-agents, tools and children of a group allow no other edges.
\<close>

inductive canvas_step :: "add_env \<Rightarrow> outgoers_fn \<Rightarrow> rf_state \<Rightarrow> rf_state \<Rightarrow> bool"
  for en og where
  connect: "isValidConnection og s c = Some True \<Longrightarrow>
    canvas_step en og s (onConnect (en_add_edge en) (en_lset en) c s)"
| add_node: "addCanvasNode en hid screen type ps s = (s', r) \<Longrightarrow>
    distinct (added_ids en hid type) \<Longrightarrow> set (added_ids en hid type) \<inter> known_ids s = {} \<Longrightarrow>
    (\<forall>i. ap_nodeId ps = Some i \<longrightarrow> i \<in> set (node_ids (st_nodes s))) \<Longrightarrow>
    canvas_step en og s s'"
| update_form: "canvas_step en og s (updateNodeForm lset i values path s)"
| rename: "canvas_step en og s (updateNodeName i nm s)"
| select: "canvas_step en og s (selectNodeIds ids s)"
| delete_edge: "canvas_step en og s (deleteEdgeById lset i s)"
| delete_selected: "canvas_step en og s (deleteEdge s)"
| delete_handle: "canvas_step en og s (deleteEdgesBySourceAndSourceHandle src h s)"
| delete_node: "getOperatorTypeFromId s (Some i) \<noteq> Some (op_str OpAgent) \<Longrightarrow>
    deleteNodeById i s = Some s' \<Longrightarrow> canvas_step en og s s'"
| delete_agent: "getOperatorTypeFromId s (Some i) = Some (op_str OpAgent) \<Longrightarrow>
    (\<forall>e\<in>set (st_edges s). (i, target e) \<in> (agent_edges s)\<^sup>+ \<longrightarrow> (i, source e) \<in> (agent_edges s)\<^sup>*) \<Longrightarrow>
    deleteNodeById i s = Some s' \<Longrightarrow> canvas_step en og s s'"
| delete_group: "(\<forall>e\<in>set (st_edges s). is_child s i (target e) \<longrightarrow> source e = i \<or> is_child s i (source e)) \<Longrightarrow>
    canvas_step en og s (deleteIterationNodeById i s)"

inductive canvas_run :: "add_env \<Rightarrow> outgoers_fn \<Rightarrow> rf_state \<Rightarrow> rf_state \<Rightarrow> bool"
  for en og s0 where
  start: "canvas_run en og s0 s0"
| more: "canvas_run en og s0 s \<Longrightarrow> canvas_step en og s s' \<Longrightarrow> canvas_run en og s0 s'"

section \<open>The invariant\<close>

text \<open>
  The ids of the nodes are distinct, an edge that leaves a node of the canvas leads to a node of the
  canvas, and the edges form no cycle. Edges whose source is gone may be left.
\<close>

definition canvas_inv :: "rf_state \<Rightarrow> bool" where
  "canvas_inv s = (distinct (node_ids (st_nodes s))
     \<and> (\<forall>e\<in>set (st_edges s). source e \<in> set (node_ids (st_nodes s)) \<longrightarrow> target e \<in> set (node_ids (st_nodes s)))
     \<and> acyclic (graph_rel (st_edges s)))"

lemma canvas_invD:
  assumes "canvas_inv s"
  shows "distinct (node_ids (st_nodes s))" "acyclic (graph_rel (st_edges s))"
    "e \<in> set (st_edges s) \<Longrightarrow> source e \<in> set (node_ids (st_nodes s)) \<Longrightarrow> target e \<in> set (node_ids (st_nodes s))"
  using assms by (auto simp: canvas_inv_def)

lemma graph_rel_mono: "set es' \<subseteq> set es \<Longrightarrow> graph_rel es' \<subseteq> graph_rel es"
  by (auto simp: edge_rel_def)

lemma inv_fewer:
  assumes "canvas_inv s" "distinct (node_ids (st_nodes s'))" "set (st_edges s') \<subseteq> set (st_edges s)"
    and "\<And>e. e \<in> set (st_edges s') \<Longrightarrow> source e \<in> set (node_ids (st_nodes s')) \<Longrightarrow>
           target e \<in> set (node_ids (st_nodes s'))"
  shows "canvas_inv s'"
  unfolding canvas_inv_def
  using assms(2,4) acyclic_subset [OF canvas_invD(2) [OF assms(1)] graph_rel_mono [OF assms(3)]] by blast

lemma inv_fewer_edges:
  assumes "canvas_inv s" "node_ids (st_nodes s') = node_ids (st_nodes s)" "set (st_edges s') \<subseteq> set (st_edges s)"
  shows "canvas_inv s'"
proof (rule inv_fewer [OF assms(1) _ assms(3)])
  show "distinct (node_ids (st_nodes s'))" using canvas_invD(1) [OF assms(1)] assms(2) by simp
  show "target e \<in> set (node_ids (st_nodes s'))"
    if "e \<in> set (st_edges s')" "source e \<in> set (node_ids (st_nodes s'))" for e
    using canvas_invD(3) [OF assms(1), of e] that assms(2,3) by auto
qed

text \<open>Edges are added between nodes that are there, possibly with new nodes.\<close>

lemma inv_one_edge:
  assumes "canvas_inv s" "distinct (node_ids (st_nodes s'))"
    and "set (node_ids (st_nodes s)) \<subseteq> set (node_ids (st_nodes s'))"
    and "set (node_ids (st_nodes s')) \<inter> source ` set (st_edges s) \<subseteq> set (node_ids (st_nodes s))"
    and "graph_rel (st_edges s') \<subseteq> insert (a, b) (graph_rel (st_edges s))"
    and "b \<in> set (node_ids (st_nodes s'))" "(b, a) \<notin> (graph_rel (st_edges s))\<^sup>*"
  shows "canvas_inv s'"
proof -
  have "acyclic (insert (a, b) (graph_rel (st_edges s)))"
    using canvas_invD(2) [OF assms(1)] assms(7) by simp
  then have "acyclic (graph_rel (st_edges s'))" using assms(5) by (rule acyclic_subset)
  moreover have "target e \<in> set (node_ids (st_nodes s'))"
    if e: "e \<in> set (st_edges s')" "source e \<in> set (node_ids (st_nodes s'))" for e
  proof -
    have "(source e, target e) \<in> insert (a, b) (graph_rel (st_edges s))"
      using assms(5) e(1) by (auto simp: edge_rel_def)
    then consider "target e = b" | d where "d \<in> set (st_edges s)" "source d = source e" "target d = target e"
      by (auto simp: edge_rel_def)
    then show ?thesis
    proof cases
      case 1
      with assms(6) show ?thesis by simp
    next
      case 2
      have "source d \<in> source ` set (st_edges s)" using 2(1) by (rule imageI)
      with assms(4) e(2) 2(2) have "source d \<in> set (node_ids (st_nodes s))" by auto
      with canvas_invD(3) [OF assms(1) 2(1)] 2(3) assms(3) show ?thesis by auto
    qed
  qed
  ultimately show ?thesis using assms(2) unfolding canvas_inv_def by blast
qed

text \<open>A path from a node of the canvas stays on the canvas.\<close>

lemma live_path:
  assumes "canvas_inv s" "x \<in> set (node_ids (st_nodes s))"
  shows "(x, y) \<in> (graph_rel (st_edges s))\<^sup>+ \<Longrightarrow>
    y \<in> set (node_ids (st_nodes s)) \<and> (x, y) \<in> (live_rel (st_nodes s) (st_edges s))\<^sup>+"
proof (induction rule: trancl_induct)
  case (base y)
  then obtain e where "e \<in> set (st_edges s)" "x = source e" "y = target e" by (auto simp: edge_rel_def)
  with canvas_invD(3) [OF assms(1), of e] assms(2) show ?case by (auto simp: live_rel_def)
next
  case (step y z)
  then obtain e where e: "e \<in> set (st_edges s)" "y = source e" "z = target e" by (auto simp: edge_rel_def)
  with canvas_invD(3) [OF assms(1), of e] step.IH have z: "z \<in> set (node_ids (st_nodes s))" by simp
  with e have "(y, z) \<in> live_rel (st_nodes s) (st_edges s)" by (auto simp: live_rel_def)
  with step.IH z show ?case by (meson trancl_into_trancl)
qed

lemma connect_keeps:
  assumes "outgoers_laws og" "add_edge_laws ae" "canvas_inv s" "isValidConnection og s c = Some True"
  shows "canvas_inv (onConnect ae lset c s)"
proof -
  have v: "c_source c \<noteq> c_target c" "c_target c \<in> set (node_ids (st_nodes s))"
    "(c_target c, c_source c) \<notin> (live_rel (st_nodes s) (st_edges s))\<^sup>+"
    using assms(4) isValidConnection_spec [OF assms(1), of s c] by auto
  show ?thesis
  proof (rule inv_one_edge [OF assms(3)])
    show "graph_rel (st_edges (onConnect ae lset c s)) \<subseteq>
        insert (c_source c, c_target c) (graph_rel (st_edges s))"
      using graph_rel_add [OF assms(2)] by (simp add: onConnect_def)
    show "(c_target c, c_source c) \<notin> (graph_rel (st_edges s))\<^sup>*"
      using v(1,3) live_path [OF assms(3) v(2)] by (auto simp: rtrancl_eq_or_trancl)
  qed (use canvas_invD(1) [OF assms(3)] v(2) in \<open>auto simp: onConnect_def\<close>)
qed

lemma addCanvasNode_edges:
  assumes "add_edge_laws (en_add_edge en)" "addCanvasNode en hid screen type ps s = (s', r)"
  shows "graph_rel (st_edges s') \<subseteq>
      graph_rel (st_edges s) \<union> {(i, type @ '':'' @ hid) |i. ap_nodeId ps = Some i}
    \<and> (r = None \<longrightarrow> st_edges s' = st_edges s)"
proof -
  have add: "graph_rel (en_add_edge en (edge_to i (type @ '':'' @ hid) sh th) es) \<subseteq>
      insert (i, type @ '':'' @ hid) (graph_rel es)" for i sh th es
    using graph_rel_add [OF assms(1), of "edge_to i (type @ '':'' @ hid) sh th" es] by (simp add: edge_to_def)
  have some: "ap_nodeId ps = Some (the (ap_nodeId ps))" if "given (ap_nodeId ps)"
    using that by (cases "ap_nodeId ps") (simp_all add: given_def)
  show ?thesis
    using assms(2) add some
    by (fastforce simp: addCanvasNode_def Let_def addGroupNode_def addToolNode_def addChildEdge_def
        split: option.splits if_splits prod.splits)
qed

lemma add_node_keeps:
  assumes "add_edge_laws (en_add_edge en)" "canvas_inv s"
    and a: "addCanvasNode en hid screen type ps s = (s', r)"
    and "distinct (added_ids en hid type)" "set (added_ids en hid type) \<inter> known_ids s = {}"
    and "\<forall>i. ap_nodeId ps = Some i \<longrightarrow> i \<in> set (node_ids (st_nodes s))"
  shows "canvas_inv s'"
proof (cases r)
  case None
  with addCanvasNode_ids [OF a] addCanvasNode_edges [OF assms(1) a] assms(2) show ?thesis
    by (simp add: inv_fewer_edges)
next
  case (Some x)
  let ?new = "type @ '':'' @ hid"
  have ids: "node_ids (st_nodes s') = node_ids (st_nodes s) @ added_ids en hid type"
    using addCanvasNode_ids [OF a] Some by simp
  have new: "?new \<in> set (added_ids en hid type)" by (simp add: added_ids_def split: option.split)
  then have fresh: "?new \<notin> known_ids s" using assms(5) by blast
  have d: "distinct (node_ids (st_nodes s'))"
    using canvas_invD(1) [OF assms(2)] assms(4,5) ids by (auto simp: known_ids_def)
  have dom: "set (node_ids (st_nodes s')) \<inter> source ` set (st_edges s) \<subseteq> set (node_ids (st_nodes s))"
    using ids assms(5) by (auto simp: known_ids_def)
  obtain i where sub: "graph_rel (st_edges s') \<subseteq> insert (i, ?new) (graph_rel (st_edges s))" "i \<noteq> ?new"
  proof (cases "ap_nodeId ps")
    case None
    have "?new @ ''x'' \<noteq> ?new" by simp
    with addCanvasNode_edges [OF assms(1) a] None that [of "?new @ ''x''"] show ?thesis by auto
  next
    case (Some i)
    with fresh assms(6) have "i \<noteq> ?new" by (auto simp: known_ids_def)
    with addCanvasNode_edges [OF assms(1) a] Some that [of i] show ?thesis by auto
  qed
  have "(?new, i) \<notin> (graph_rel (st_edges s))\<^sup>*"
  proof
    assume "(?new, i) \<in> (graph_rel (st_edges s))\<^sup>*"
    then show False
      by (cases rule: converse_rtranclE) (use sub(2) fresh in \<open>auto simp: known_ids_def edge_rel_def\<close>)
  qed
  with inv_one_edge [OF assms(2) d _ dom sub(1)] ids new show ?thesis by simp
qed

lemma update_first_ids: "(\<And>x. nid (f x) = nid x) \<Longrightarrow> map nid (update_first p f xs) = map nid xs"
  by (induction xs) auto

lemma updateNodeForm_ids:
  "node_ids (st_nodes (updateNodeForm lset i values path s)) = node_ids (st_nodes s)"
  "st_edges (updateNodeForm lset i values path s) = st_edges s"
  by (auto simp: updateNodeForm_def set_form_def node_ids_def Let_def)

lemma deleteEdgeById_edges:
  "st_edges (deleteEdgeById lset i s) = filter (\<lambda>e. eid e \<noteq> i) (st_edges s)"
  by (simp add: deleteEdgeById_def Let_def)

lemma deleteEdgeById_ids [simp]: "node_ids (st_nodes (deleteEdgeById lset i s)) = node_ids (st_nodes s)"
  by (auto simp: deleteEdgeById_def Let_def updateSwitchFormData_def split: option.split jsv.split)

lemma delete_agent_keeps:
  assumes "canvas_inv s" "getOperatorTypeFromId s (Some i) = Some (op_str OpAgent)"
    and "\<forall>e\<in>set (st_edges s). (i, target e) \<in> (agent_edges s)\<^sup>+ \<longrightarrow> (i, source e) \<in> (agent_edges s)\<^sup>*"
    and "deleteNodeById i s = Some s'"
  shows "canvas_inv s'"
proof -
  have n: "st_nodes s' = filter (\<lambda>n. (i, nid n) \<notin> (agent_edges s)\<^sup>*) (st_nodes s)"
    and e: "set (st_edges s') \<subseteq> {e \<in> set (st_edges s). source e \<noteq> i \<and> target e \<noteq> i}"
    using delete_agent_spec [OF assms(2)] assms(4) by blast+
  have ids: "x \<in> set (node_ids (st_nodes s')) \<longleftrightarrow> x \<in> set (node_ids (st_nodes s)) \<and> (i, x) \<notin> (agent_edges s)\<^sup>*" for x
    by (auto simp: n node_ids_def)
  show ?thesis
  proof (rule inv_fewer [OF assms(1)])
    show "distinct (node_ids (st_nodes s'))"
      using canvas_invD(1) [OF assms(1)] by (simp add: n node_ids_def distinct_map_filter)
    show "set (st_edges s') \<subseteq> set (st_edges s)" using e by blast
    fix d
    assume d: "d \<in> set (st_edges s')" "source d \<in> set (node_ids (st_nodes s'))"
    with e have "d \<in> set (st_edges s)" "target d \<noteq> i" by auto
    with d(2) assms(3) canvas_invD(3) [OF assms(1), of d] show "target d \<in> set (node_ids (st_nodes s'))"
      unfolding ids rtrancl_eq_or_trancl by blast
  qed
qed

lemma delete_group_keeps:
  assumes "canvas_inv s"
    and "\<forall>e\<in>set (st_edges s). is_child s i (target e) \<longrightarrow> source e = i \<or> is_child s i (source e)"
  shows "canvas_inv (deleteIterationNodeById i s)"
proof -
  let ?s = "deleteIterationNodeById i s"
  have n: "st_nodes ?s = filter (\<lambda>n. nid n \<noteq> i \<and> parentId n \<noteq> Some i) (st_nodes s)"
    by (simp add: deleteIterationNodeById_def Let_def)
  have e: "set (st_edges ?s) \<subseteq> {e \<in> set (st_edges s). source e \<noteq> i \<and> target e \<noteq> i}"
    by (auto simp: deleteIterationNodeById_def Let_def)
  have ids: "x \<in> set (node_ids (st_nodes ?s)) \<longleftrightarrow> x \<in> set (node_ids (st_nodes s)) \<and> x \<noteq> i \<and> \<not> is_child s i x" for x
    using canvas_invD(1) [OF assms(1)]
    by (auto simp: n node_ids_def is_child_def distinct_map inj_on_def)
  show ?thesis
  proof (rule inv_fewer [OF assms(1)])
    show "distinct (node_ids (st_nodes ?s))"
      using canvas_invD(1) [OF assms(1)] by (simp add: n node_ids_def distinct_map_filter)
    show "set (st_edges ?s) \<subseteq> set (st_edges s)" using e by blast
    fix d
    assume d: "d \<in> set (st_edges ?s)" "source d \<in> set (node_ids (st_nodes ?s))"
    with e have "d \<in> set (st_edges s)" "target d \<noteq> i" by auto
    with d(2) assms(2) canvas_invD(3) [OF assms(1), of d] show "target d \<in> set (node_ids (st_nodes ?s))"
      unfolding ids by blast
  qed
qed

lemma canvas_step_keeps:
  assumes "outgoers_laws og" "add_edge_laws (en_add_edge en)"
  shows "canvas_step en og s s' \<Longrightarrow> canvas_inv s \<Longrightarrow> canvas_inv s'"
proof (induction rule: canvas_step.induct)
  case (connect s c)
  then show ?case using connect_keeps assms by blast
next
  case (add_node hid screen type ps s s' r)
  then show ?case using add_node_keeps [OF assms(2)] by blast
next
  case (delete_node s i s')
  then have s': "s' = s\<lparr>st_nodes := filter (\<lambda>n. nid n \<noteq> i) (st_nodes s),
      st_edges := filter (\<lambda>e. target e \<noteq> i) (filter (\<lambda>e. source e \<noteq> i) (st_edges s))\<rparr>"
    by (simp add: deleteNodeById_def)
  have ids: "x \<in> set (node_ids (st_nodes s')) \<longleftrightarrow> x \<in> set (node_ids (st_nodes s)) \<and> x \<noteq> i" for x
    by (auto simp: s' node_ids_def)
  show ?case
    using delete_node(3)
  proof (rule inv_fewer)
    show "distinct (node_ids (st_nodes s'))"
      using canvas_invD(1) [OF delete_node(3)] by (simp add: s' node_ids_def distinct_map_filter)
    show "set (st_edges s') \<subseteq> set (st_edges s)" by (auto simp: s')
    fix e
    assume e: "e \<in> set (st_edges s')" "source e \<in> set (node_ids (st_nodes s'))"
    then have "e \<in> set (st_edges s)" "target e \<noteq> i" by (auto simp: s')
    with e(2) canvas_invD(3) [OF delete_node(3), of e] show "target e \<in> set (node_ids (st_nodes s'))"
      unfolding ids by blast
  qed
next
  case (delete_agent s i s')
  then show ?case using delete_agent_keeps by blast
next
  case (delete_group s i)
  then show ?case using delete_group_keeps by blast
next
  case (update_form s lset i v path)
  then show ?case
    by (rule inv_fewer_edges) (simp_all add: updateNodeForm_ids)
next
  case (rename s i nm)
  then show ?case
    by (rule inv_fewer_edges) (simp_all add: updateNodeName_def node_ids_def update_first_ids)
next
  case (select s ids)
  then show ?case
    by (rule inv_fewer_edges) (simp_all add: selectNodeIds_def setNodes_def node_ids_def comp_def)
next
  case (delete_edge s lset i)
  then show ?case by (rule inv_fewer_edges) (auto simp: deleteEdgeById_edges)
next
  case (delete_selected s)
  then show ?case by (rule inv_fewer_edges) (auto simp: deleteEdge_def)
next
  case (delete_handle s src h)
  then show ?case
    by (rule inv_fewer_edges) (auto simp: deleteEdgesBySourceAndSourceHandle_def setEdges_def)
qed


text \<open>
  C1. However the canvas is edited, with connections the check accepts and new ids for new nodes, its
  edges never form a cycle, edges of present nodes lead to present nodes, and ids stay distinct; so
  deleting any node, walking up or down from any nodes, and building the DSL all come back.
\<close>

theorem canvas_run_stays_acyclic:
  assumes "outgoers_laws og" "add_edge_laws (en_add_edge en)" "canvas_run en og s0 s" "canvas_inv s0"
  shows "canvas_inv s \<and> acyclic (graph_rel (st_edges s))
    \<and> (\<forall>i. deleteNodeById i s \<noteq> None)
    \<and> (\<forall>ids p. filterAllDownstreamNodeIds (st_edges s) ids p \<noteq> None)
    \<and> (\<forall>ids. filterAllUpstreamNodeIds (st_edges s) ids \<noteq> None)
    \<and> (\<forall>om emp old. buildDslComponentsByGraph om emp (st_nodes s) (st_edges s) old \<noteq> None)"
proof -
  have inv: "canvas_inv s"
    using assms(3,4) by induction (auto intro: canvas_step_keeps [OF assms(1,2)])
  then have acyc: "acyclic (graph_rel (st_edges s))" by (rule canvas_invD)
  have sub: "(edge_rel (st_edges s) p)\<^sup>+ \<subseteq> (graph_rel (st_edges s))\<^sup>+" for p
    by (rule trancl_mono_subset) (auto simp: edge_rel_def)
  have no: "(z, z) \<notin> (edge_rel (st_edges s) p)\<^sup>+" for z p
    using acyc sub [of p] by (auto simp: acyclic_def)
  have down: "filterAllDownstreamNodeIds (st_edges s) ids p \<noteq> None" for ids p
    using no unfolding filterAllDownstream_None by blast
  have up: "filterAllUpstreamNodeIds (st_edges s) ids \<noteq> None" for ids
    using no unfolding filterAllUpstream_None by blast
  have del: "deleteNodeById i s \<noteq> None" for i
    using down by (auto simp: deleteNodeById_def deleteAgentDownstreamNodesById_def
        deleteAllDownstreamAgentsAndTool_def filterAllDownstreamAgentAndToolNodeIds_def)
  have dsl: "buildDslComponentsByGraph om emp (st_nodes s) (st_edges s) old \<noteq> None" for om emp old
    using no by (intro buildDslComponentsByGraph_returns) blast
  show ?thesis by (intro conjI allI inv acyc down up del dsl)
qed

definition two_codes :: rf_state where
  "two_codes = mk_state [mk_node ''a'' OpCode None (JObj []), mk_node ''b'' OpCode None (JObj [])] []"

definition plain_env :: add_env where
  "plain_env = \<lparr>en_add_edge = add_edge_ref, en_lset = lset_ref, en_tr = id, en_lower_first = id,
     en_rules = JUndef, en_llm = JUndef, en_gid = (''g'', ''h'')\<rparr>"

theorem canvas_run_stays_acyclic_witness:
  "let s = onConnect add_edge_ref lset_ref (edge_to ''a'' ''b'' ''start'' ''end'') two_codes
   in st_edges s \<noteq> [] \<and> deleteNodeById ''b'' s \<noteq> None \<and> filterAllUpstreamNodeIds (st_edges s) [''b''] \<noteq> None"
proof -
  let ?c = "edge_to ''a'' ''b'' ''start'' ''end''"
  have "isValidConnection outgoers_ref two_codes ?c = Some True"
    by (simp add: isValidConnection_spec two_codes_def mk_defs edge_to_def allowed_upstream_def
        getOperatorTypeFromId_def getNode_def op_of_op_str [of OpCode, simplified] isSameNodeChild_def
        getParentIdById_def given_def node_ids_def live_rel_def)
  then have "canvas_step plain_env outgoers_ref two_codes (onConnect add_edge_ref lset_ref ?c two_codes)"
    using canvas_step.connect [of outgoers_ref two_codes ?c plain_env] by (simp add: plain_env_def)
  then have run: "canvas_run plain_env outgoers_ref two_codes (onConnect add_edge_ref lset_ref ?c two_codes)"
    by (rule canvas_run.more [OF canvas_run.start])
  have "canvas_inv two_codes"
    by (simp add: canvas_inv_def two_codes_def mk_defs node_ids_def edge_rel_def acyclic_def)
  from canvas_run_stays_acyclic [OF _ _ run this]
  have "deleteNodeById ''b'' (onConnect add_edge_ref lset_ref ?c two_codes) \<noteq> None
      \<and> filterAllUpstreamNodeIds (st_edges (onConnect add_edge_ref lset_ref ?c two_codes)) [''b''] \<noteq> None"
    by (simp add: plain_env_def)
  moreover have "st_edges (onConnect add_edge_ref lset_ref ?c two_codes) \<noteq> []"
    by (simp add: onConnect_def add_edge_ref_def)
  ultimately show ?thesis unfolding Let_def by blast
qed

end
