(* ===== verification/Chat_Messages.thy ===== *)
theory Chat_Messages
  imports Node_Copy
begin

text \<open>
  The list of messages of a conversation: the callbacks of \<open>useSelectDerivedMessages\<close> in
  \<open>hooks/logic-hooks.ts\<close> and the message ids of \<open>utils/chat.ts\<close>. A message is an object; the
  fresh ids the \<open>uuid\<close> package returns are arguments, as is lodash's \<open>omit\<close>.
\<close>

section \<open>Ids\<close>

definition EmptyConversationId :: string where
  "EmptyConversationId = ''empty''"

definition isConversationIdExist :: "string \<Rightarrow> bool" where
  "isConversationIdExist conversationId = (conversationId \<noteq> EmptyConversationId \<and> conversationId \<noteq> [])"

definition buildMessageUuid :: "string \<Rightarrow> jsv \<Rightarrow> jsv" where
  "buildMessageUuid uuid message = (if truthy (jget message ''id'') then jget message ''id'' else JStr uuid)"

definition buildMessageUuidWithRole :: "jsv \<Rightarrow> string" where
  "buildMessageUuidWithRole message = str_of (jget message ''role'') @ ''_'' @ str_of (jget message ''id'')"

definition buildMessageListWithUuid :: "omit_fn \<Rightarrow> (nat \<Rightarrow> string) \<Rightarrow> jsv list option \<Rightarrow> jsv list" where
  "buildMessageListWithUuid om uuid messages =
     (case messages of None \<Rightarrow> []
      | Some ms \<Rightarrow> map (\<lambda>(k, x). js_object
          [Spread (JObj (om (props_of x) [''reference''])), Prop ''id'' (buildMessageUuid (uuid k) x)])
          (enumerate 0 ms))"

definition same_id :: "jsv \<Rightarrow> jsv \<Rightarrow> bool" where
  "same_id x i = js_seq (jget x ''id'') i"

section \<open>The list\<close>

definition slice_to :: "int \<Rightarrow> 'a list \<Rightarrow> 'a list" where
  "slice_to n xs = (if n < 0 then take (length xs - nat (- n)) xs else take (nat n) xs)"

definition addNewestOneQuestion :: "string \<Rightarrow> jsv \<Rightarrow> jsv list \<Rightarrow> jsv list" where
  "addNewestOneQuestion uuid message pre =
     pre @ [js_object [Spread message, Prop ''id'' (buildMessageUuid uuid message)]]"

definition addNewestQuestion :: "string \<Rightarrow> string \<Rightarrow> jsv \<Rightarrow> string \<Rightarrow> jsv list \<Rightarrow> jsv list" where
  "addNewestQuestion uuid uuid' message answer pre =
     pre @ [js_object [Spread message, Prop ''id'' (buildMessageUuid uuid message)],
            JObj [(''role'', JStr ''assistant''), (''content'', JStr answer),
                  (''conversationId'', jget message ''conversationId''),
                  (''id'', buildMessageUuid uuid' (js_object [Spread message, Prop ''role'' (JStr ''assistant'')]))]]"

definition answer_message :: "omit_fn \<Rightarrow> string \<Rightarrow> jsv \<Rightarrow> jsv" where
  "answer_message om uuid answer =
     js_object
       [Prop ''role'' (JStr ''assistant''), Prop ''content'' (jget answer ''answer''),
        Prop ''reference'' (jget answer ''reference''),
        Prop ''id'' (buildMessageUuid uuid (JObj [(''id'', jget answer ''id''), (''role'', JStr ''assistant'')])),
        Prop ''prompt'' (jget answer ''prompt''), Prop ''audio_binary'' (jget answer ''audio_binary''),
        Spread (JObj (om (props_of answer) [''reference'']))]"

definition addNewestAnswer :: "omit_fn \<Rightarrow> string \<Rightarrow> jsv \<Rightarrow> jsv list \<Rightarrow> jsv list" where
  "addNewestAnswer om uuid answer pre = slice_to (-1) pre @ [answer_message om uuid answer]"

definition update_message :: "jsv \<Rightarrow> jsv \<Rightarrow> jsv" where
  "update_message answer x =
     js_object [Spread x, Spread answer, Prop ''content'' (jget answer ''answer'')]"

definition addNewestOneAnswer :: "omit_fn \<Rightarrow> string \<Rightarrow> jsv \<Rightarrow> jsv list \<Rightarrow> jsv list" where
  "addNewestOneAnswer om uuid answer pre =
     (case findIdx (\<lambda>x. same_id x (jget answer ''id'')) pre of
        Some idx \<Rightarrow> map (\<lambda>x. if same_id x (jget answer ''id'') then update_message answer x else x) pre
      | None \<Rightarrow> pre @ [answer_message om uuid answer])"

definition addPrologue :: "string \<Rightarrow> string \<Rightarrow> jsv list \<Rightarrow> jsv list" where
  "addPrologue uuid prologue pre =
     (case pre of
        m # rest \<Rightarrow> js_object [Spread m, Prop ''content'' (JStr prologue)] # rest
      | [] \<Rightarrow> [JObj [(''role'', JStr ''assistant''), (''content'', JStr prologue),
                     (''id'', buildMessageUuid uuid (JObj [(''role'', JStr ''assistant'')]))]])"

definition removeLatestMessage :: "jsv list \<Rightarrow> jsv list" where
  "removeLatestMessage pre = slice_to (-2) pre"

definition removeMessageById :: "string \<Rightarrow> jsv list \<Rightarrow> jsv list" where
  "removeMessageById messageId pre = filter (\<lambda>x. \<not> same_id x (JStr messageId)) pre"

definition clear_answer :: "jsv \<Rightarrow> jsv" where
  "clear_answer m =
     js_object [Spread m, Prop ''content'' (JStr []), Prop ''reference'' JUndef, Prop ''prompt'' JUndef]"

definition removeMessagesAfterCurrentMessage :: "string \<Rightarrow> jsv list \<Rightarrow> jsv list" where
  "removeMessagesAfterCurrentMessage messageId pre =
     (case findIdx (\<lambda>x. same_id x (JStr messageId)) pre of
        None \<Rightarrow> pre
      | Some index \<Rightarrow>
          (let nextMessages = take (index + 2) pre
           in case last_opt nextMessages of
                None \<Rightarrow> nextMessages
              | Some latestMessage \<Rightarrow> slice_to (-1) nextMessages @ [clear_answer latestMessage]))"

definition removeAllMessages :: "jsv list \<Rightarrow> jsv list" where
  "removeAllMessages pre = []"

definition removeAllMessagesExceptFirst :: "jsv list \<Rightarrow> jsv list" where
  "removeAllMessagesExceptFirst list = (if length list \<le> 1 then list else take 1 list)"

text \<open>The conversation object around the list, and asking a question again.\<close>

definition remove_after_in_conversation :: "string \<Rightarrow> jsv \<Rightarrow> jsv" where
  "remove_after_in_conversation messageId pre =
     (case jget pre ''message'' of
        JArr ms \<Rightarrow>
          if findIdx (\<lambda>x. same_id x (JStr messageId)) ms \<noteq> None
          then js_object [Spread pre, Prop ''message'' (JArr (removeMessagesAfterCurrentMessage messageId ms))]
          else pre
      | _ \<Rightarrow> js_object [Spread pre, Prop ''message'' (JArr [])])"

record regenerate_request =
  rg_message :: jsv
  rg_messages :: "jsv list option"

definition regenerateMessage :: "string \<Rightarrow> jsv \<Rightarrow> jsv list \<Rightarrow> jsv list \<times> regenerate_request option" where
  "regenerateMessage uuid message messages =
     (case jget message ''id'' of
        JStr i \<Rightarrow>
          if i = [] then (messages, None)
          else (removeMessagesAfterCurrentMessage i messages,
                Some \<lparr>rg_message = js_object [Spread message, Prop ''id'' (JStr uuid)],
                      rg_messages = map_option (\<lambda>k. take k messages) (findIdx (\<lambda>x. same_id x (JStr i)) messages)\<rparr>)
      | _ \<Rightarrow> (messages, None))"

text \<open>The escapes a user types into the input: a backslash with \<open>n\<close> or with \<open>t\<close>.\<close>

fun replace_escape :: "char \<Rightarrow> char \<Rightarrow> string \<Rightarrow> string" where
  "replace_escape e r [] = []"
| "replace_escape e r [c] = [c]"
| "replace_escape e r (c # d # s) =
     (if of_char c = (92::nat) \<and> d = e then r # replace_escape e r s else c # replace_escape e r (d # s))"

definition handleInputChange :: "string \<Rightarrow> string" where
  "handleInputChange value =
     replace_escape CHR ''t'' (char_of (9::nat)) (replace_escape CHR ''n'' (char_of (10::nat)) value)"

section \<open>Properties\<close>

lemma jget_js_object_last:
  "jget (js_object (parts @ [Prop k v])) k' = (if k' = k then v else jget (js_object parts) k')"
  by (simp add: js_object_def obj_of_def obj_assign_def)

lemma jget_js_object_spread:
  "wf_obj ps \<Longrightarrow> jget (js_object (parts @ [Spread (JObj ps)])) k =
     (case map_of ps k of None \<Rightarrow> jget (js_object parts) k | Some v \<Rightarrow> v)"
proof -
  assume "wf_obj ps"
  moreover have "obj_of (concat (map part_props (parts @ [Spread (JObj ps)]))) =
      obj_assign (obj_of (concat (map part_props parts))) ps"
    by (simp add: obj_of_def obj_assign_def)
  ultimately show ?thesis
    by (simp add: js_object_def map_of_obj_assign map_add_def split: option.split)
qed

lemma update_message_get:
  assumes "wf_obj ps"
  shows "jget (update_message (JObj ps) x) k =
    (if k = ''content'' then jget (JObj ps) ''answer''
     else case map_of ps k of Some v \<Rightarrow> v | None \<Rightarrow> jget (js_object [Spread x]) k)"
  using jget_js_object_last [of "[Spread x, Spread (JObj ps)]"] jget_js_object_spread [OF assms, of "[Spread x]"]
  by (simp add: update_message_def split: option.split)

lemma answer_message_get:
  assumes "omit_laws om" "wf_obj ps" "k \<noteq> ''reference''" "map_of ps k = Some v"
  shows "jget (answer_message om uuid (JObj ps)) k = v"
proof -
  have "wf_obj (om ps [''reference''])" "map_of (om ps [''reference'']) k = Some v"
    using assms by (auto simp: omit_laws_def)
  then show ?thesis
    using jget_js_object_spread [of "om ps [''reference'']"
        "[Prop ''role'' (JStr ''assistant''), Prop ''content'' (jget (JObj ps) ''answer''),
          Prop ''reference'' (jget (JObj ps) ''reference''),
          Prop ''id'' (buildMessageUuid uuid (JObj [(''id'', jget (JObj ps) ''id''), (''role'', JStr ''assistant'')])),
          Prop ''prompt'' (jget (JObj ps) ''prompt''), Prop ''audio_binary'' (jget (JObj ps) ''audio_binary'')]" k]
    by (simp add: answer_message_def)
qed

lemma answer_message_content:
  assumes "omit_laws om" "wf_obj ps" "map_of ps ''content'' = None"
  shows "jget (answer_message om uuid (JObj ps)) ''content'' = jget (JObj ps) ''answer''"
proof -
  have w: "wf_obj (om ps [''reference''])" and m: "map_of (om ps [''reference'']) ''content'' = None"
    using assms by (auto simp: omit_laws_def)
  show ?thesis
    using jget_js_object_spread [OF w, of
        "[Prop ''role'' (JStr ''assistant''), Prop ''content'' (jget (JObj ps) ''answer''),
          Prop ''reference'' (jget (JObj ps) ''reference''),
          Prop ''id'' (buildMessageUuid uuid (JObj [(''id'', jget (JObj ps) ''id''), (''role'', JStr ''assistant'')])),
          Prop ''prompt'' (jget (JObj ps) ''prompt''), Prop ''audio_binary'' (jget (JObj ps) ''audio_binary'')]" "''content''"] m
    by (simp add: answer_message_def js_object_def obj_of_def obj_assign_def)
qed

lemma same_id_iff: "same_id x (JStr i) \<longleftrightarrow> jget x ''id'' = JStr i"
  by (simp add: same_id_def)

lemma add_answer_new:
  assumes "\<forall>x\<in>set pre. jget x ''id'' \<noteq> JStr i" "jget answer ''id'' = JStr i"
  shows "addNewestOneAnswer om uuid answer pre = pre @ [answer_message om uuid answer]"
proof -
  have "findIdx (\<lambda>x. same_id x (jget answer ''id'')) pre = None"
    using assms by (simp add: findIdx_None same_id_iff)
  then show ?thesis by (simp add: addNewestOneAnswer_def)
qed

lemma add_answer_again:
  assumes "\<forall>x\<in>set pre. jget x ''id'' \<noteq> JStr i" "jget answer ''id'' = JStr i" "jget m ''id'' = JStr i"
  shows "addNewestOneAnswer om uuid answer (pre @ [m]) = pre @ [update_message answer m]"
proof -
  have "findIdx (\<lambda>x. same_id x (jget answer ''id'')) (pre @ [m]) \<noteq> None"
    using assms by (simp add: findIdx_None same_id_iff del: not_None_eq)
  moreover have "map (\<lambda>x. if same_id x (JStr i) then update_message answer x else x) pre = pre"
    using assms(1) by (simp add: same_id_iff map_idI)
  ultimately show ?thesis using assms(2,3) by (auto simp: addNewestOneAnswer_def same_id_iff)
qed

text \<open>
  A streamed answer is one message: however many pieces arrive with one id that the list does not
  know, the list grows by one message at its end, with that id and with the text of the last piece, and
  the earlier messages stay as they are.
\<close>

theorem streamed_answer_is_one_message:
  assumes "omit_laws om" "\<forall>x\<in>set pre. jget x ''id'' \<noteq> JStr i" "answers \<noteq> []"
    and "\<forall>a\<in>set answers. wf_obj a \<and> map_of a ''id'' = Some (JStr i) \<and> map_of a ''content'' = None"
  shows "\<exists>m. foldl (\<lambda>ms a. addNewestOneAnswer om uuid (JObj a) ms) pre answers = pre @ [m]
    \<and> jget m ''id'' = JStr i \<and> jget m ''content'' = jget (JObj (last answers)) ''answer''"
  using assms(3,4)
proof (induction answers rule: rev_induct)
  case Nil
  then show ?case by simp
next
  case (snoc a as)
  then have a: "wf_obj a" "map_of a ''id'' = Some (JStr i)" "map_of a ''content'' = None" by auto
  then have id: "jget (JObj a) ''id'' = JStr i" by simp
  show ?case
  proof (cases "as = []")
    case True
    have "addNewestOneAnswer om uuid (JObj a) pre = pre @ [answer_message om uuid (JObj a)]"
      using add_answer_new [OF assms(2) id] .
    moreover have "jget (answer_message om uuid (JObj a)) ''id'' = JStr i"
      by (rule answer_message_get [OF assms(1) a(1) _ a(2)]) simp
    ultimately show ?thesis
      using True answer_message_content [OF assms(1) a(1,3)] by simp
  next
    case False
    with snoc obtain m where m: "foldl (\<lambda>ms a. addNewestOneAnswer om uuid (JObj a) ms) pre as = pre @ [m]"
      "jget m ''id'' = JStr i" by auto
    have "addNewestOneAnswer om uuid (JObj a) (pre @ [m]) = pre @ [update_message (JObj a) m]"
      by (rule add_answer_again [OF assms(2) id m(2)])
    with m(1) a update_message_get [OF a(1), of m] show ?thesis by simp
  qed
qed

theorem streamed_answer_is_one_message_witness:
  "\<exists>m. foldl (\<lambda>ms a. addNewestOneAnswer omit_ref ''u'' (JObj a) ms) [JObj [(''id'', JStr ''q'')]]
        [[(''id'', JStr ''x''), (''answer'', JStr ''He'')], [(''id'', JStr ''x''), (''answer'', JStr ''Hello'')]]
      = [JObj [(''id'', JStr ''q'')], m] \<and> jget m ''content'' = JStr ''Hello''"
  using streamed_answer_is_one_message [of omit_ref "[JObj [(''id'', JStr ''q'')]]" "''x''"
      "[[(''id'', JStr ''x''), (''answer'', JStr ''He'')], [(''id'', JStr ''x''), (''answer'', JStr ''Hello'')]]" "''u''"]
  by (simp add: wf_obj_def) blast

lemma slice_to_snoc [simp]: "slice_to (-1) (xs @ [x]) = xs"
  by (simp add: slice_to_def)

lemma clear_answer_get:
  "jget (clear_answer m) k = (if k = ''prompt'' \<or> k = ''reference'' then JUndef
     else if k = ''content'' then JStr [] else jget (js_object [Spread m]) k)"
  using jget_js_object_last [of "[Spread m, Prop ''content'' (JStr []), Prop ''reference'' JUndef]"]
    jget_js_object_last [of "[Spread m, Prop ''content'' (JStr [])]"] jget_js_object_last [of "[Spread m]"]
  by (simp add: clear_answer_def)

text \<open>
  Regenerating from a message keeps the messages up to it and one more, and blanks that one. When
  the message is followed by its answer, the message and all before it stay as they are; when it is
  the last of the list, the message itself is blanked.
\<close>

theorem remove_after_message:
  assumes "findIdx (\<lambda>x. same_id x (JStr i)) pre = Some k"
  shows "let ms = removeMessagesAfterCurrentMessage i pre in
      length ms = min (k + 2) (length pre) \<and> jget (last ms) ''content'' = JStr []
    \<and> (if k + 1 < length pre then take (k + 1) ms = take (k + 1) pre
       else take k ms = take k pre \<and> ms = take k pre @ [clear_answer (pre ! k)])"
proof -
  have k: "k < length pre" using findIdx_less [OF assms] .
  define n where "n = min (k + 1) (length pre - 1)"
  have t: "take (k + 2) pre = take n pre @ [pre ! n]"
  proof (cases "k + 1 < length pre")
    case True
    then show ?thesis by (simp add: n_def take_Suc_conv_app_nth)
  next
    case False
    with k have "length pre = Suc k" by simp
    then show ?thesis by (simp add: n_def take_Suc_conv_app_nth [symmetric])
  qed
  have r: "removeMessagesAfterCurrentMessage i pre = take n pre @ [clear_answer (pre ! n)]"
    unfolding removeMessagesAfterCurrentMessage_def assms option.case Let_def t by simp
  have len: "n < length pre" "Suc n = min (k + 2) (length pre)" using k by (auto simp: n_def)
  have "take (k + 1) (take n pre @ [clear_answer (pre ! n)]) = take (k + 1) pre" if "k + 1 < length pre"
    using that len by (simp add: n_def)
  moreover have "n = k" if "\<not> k + 1 < length pre" using that k by (simp add: n_def)
  ultimately show ?thesis
    using len by (auto simp: r Let_def clear_answer_get)
qed

theorem remove_after_message_witness:
  "removeMessagesAfterCurrentMessage ''q'' [JObj [(''id'', JStr ''q'')]] = [clear_answer (JObj [(''id'', JStr ''q'')])]"
  using remove_after_message [of "''q''" "[JObj [(''id'', JStr ''q'')]]" 0]
  by (simp add: same_id_def Let_def)

end
