(* ===== verification/Chat_Events.thy ===== *)
theory Chat_Events
  imports Chat_Messages
begin

text \<open>
  The stream of events of an agent run: what the chat shows of it
  (\<open>pages/agent/chat/use-send-agent-message.ts\<close>), the cache of events by message
  (\<open>pages/agent/hooks/use-cache-chat-log.ts\<close>), the stream reader of
  \<open>hooks/use-send-message.ts\<close>, and the marks in the text (\<open>utils/chat.ts\<close>).
\<close>

section \<open>Events\<close>

datatype event_type =
    WorkflowStarted | NodeStarted | NodeFinished | MessageEvent | MessageEnd | WorkflowFinished
  | UserInputs | NodeLogs

record answer_event =
  ev_event :: event_type
  ev_message_id :: string
  ev_session_id :: string
  ev_task_id :: string
  ev_data :: jsv

text \<open>The state of the loop over the message events.\<close>

record think_state =
  nextContent :: string
  startIndex :: int
  endIndex :: int
  audioBinary :: jsv

definition think_init :: think_state where
  "think_init = \<lparr>nextContent = [], startIndex = -1, endIndex = -1, audioBinary = JUndef\<rparr>"

definition think_step :: "think_state \<Rightarrow> nat \<times> jsv \<Rightarrow> think_state" where
  "think_step st ix =
     (case ix of (idx, data) \<Rightarrow>
        let content = str_of (jget data ''content'');
            st1 = (if truthy (jget data ''audio_binary'')
                   then st\<lparr>audioBinary := jget data ''audio_binary''\<rparr> else st)
        in if jget data ''start_to_think'' = JBool True then
             st1\<lparr>nextContent := nextContent st1 @ ''<think>'' @ content, startIndex := int idx\<rparr>
           else if jget data ''end_to_think'' = JBool True then
             st1\<lparr>nextContent := nextContent st1 @ content @ ''</think>'', endIndex := int idx\<rparr>
           else st1\<lparr>nextContent := nextContent st1 @ content\<rparr>)"

definition think_fold :: "jsv list \<Rightarrow> think_state" where
  "think_fold ds = foldl think_step think_init (enumerate 0 ds)"

definition closed_content :: "jsv list \<Rightarrow> string" where
  "closed_content ds =
     (let st = think_fold ds in
      if startIndex st \<ge> 0 \<and> startIndex st \<le> int (length ds) - 1 \<and> endIndex st = -1
      then nextContent st @ ''</think>'' else nextContent st)"

record found_message =
  fm_id :: "string option"
  fm_content :: string
  fm_audio_binary :: jsv
  fm_attachment :: jsv
  fm_downloads :: jsv

definition findMessageFromList :: "answer_event list \<Rightarrow> found_message" where
  "findMessageFromList eventList =
     (let ds = map ev_data (filter (\<lambda>x. ev_event x = MessageEvent) eventList);
          outputs = (case find (\<lambda>x. ev_event x = WorkflowFinished) eventList of
                       None \<Rightarrow> JUndef | Some w \<Rightarrow> jget (ev_data w) ''outputs'')
      in \<lparr>fm_id = map_option ev_message_id (hd_opt eventList), fm_content = closed_content ds,
          fm_audio_binary = audioBinary (think_fold ds),
          fm_attachment = js_or (jget outputs ''attachment'') (JObj []),
          fm_downloads = js_or (jget outputs ''downloads'') (JArr [])\<rparr>)"

definition findInputFromList :: "answer_event list \<Rightarrow> (string \<times> jsv) option" where
  "findInputFromList eventList =
     map_option (\<lambda>e. (ev_message_id e, ev_data e)) (find (\<lambda>x. ev_event x = UserInputs) eventList)"

text \<open>
  An event as it came: an error is an object with a code and a message instead of an event.
\<close>

definition getLatestError :: "jsv list \<Rightarrow> jsv" where
  "getLatestError eventList =
     (let latest = (case last_opt eventList of None \<Rightarrow> JUndef | Some v \<Rightarrow> v);
          code = jget latest ''code''
      in js_or (jget (jget (jget latest ''data'') ''outputs'') ''_ERROR'')
           (if truthy code then (if js_seq code (JInt 0) then JUndef else jget latest ''message'') else JUndef))"

section \<open>References and uploads\<close>

definition add_message_end :: "answer_event list \<Rightarrow> answer_event list \<Rightarrow> answer_event list" where
  "add_message_end answerList list =
     (case find (\<lambda>x. ev_event x = MessageEnd) answerList of
        None \<Rightarrow> list
      | Some e \<Rightarrow> if list_all (\<lambda>x. ev_message_id x \<noteq> ev_message_id e) list then list @ [e] else list)"

definition findReferenceByMessageId :: "answer_event list \<Rightarrow> string \<Rightarrow> jsv" where
  "findReferenceByMessageId messageEndEventList messageId =
     (case find (\<lambda>x. ev_message_id x = messageId) messageEndEventList of
        None \<Rightarrow> JUndef | Some e \<Rightarrow> jget (ev_data e) ''reference'')"

record upload_state =
  uploadResponseList :: "jsv list"
  fileList :: "string list"

definition upload_append :: "jsv \<Rightarrow> string list \<Rightarrow> upload_state \<Rightarrow> upload_state" where
  "upload_append data files s =
     \<lparr>uploadResponseList = uploadResponseList s @ [data], fileList = fileList s @ files\<rparr>"

definition upload_clear :: "upload_state \<Rightarrow> upload_state" where
  "upload_clear s = \<lparr>uploadResponseList = [], fileList = []\<rparr>"

definition removeFile :: "string \<Rightarrow> upload_state \<Rightarrow> upload_state" where
  "removeFile file s =
     \<lparr>uploadResponseList = filter (\<lambda>item. \<not> js_seq (jget item ''name'') (JStr file)) (uploadResponseList s),
      fileList = filter (\<lambda>f. f \<noteq> file) (fileList s)\<rparr>"

definition buildRequestBody :: "string \<Rightarrow> string \<Rightarrow> jsv" where
  "buildRequestBody uuid value =
     JObj [(''id'', JStr uuid), (''content'', JStr (js_trim value)), (''role'', JStr ''user'')]"

section \<open>The cache of events\<close>

record chat_log =
  messageIdPool :: "(string \<times> answer_event list) list"
  latestTaskId :: string
  currentMessageId :: string

definition ExcludeTypes :: "event_type list" where
  "ExcludeTypes = [MessageEvent, MessageEnd]"

text \<open>
  The cache compares events by reference; here two events are the same when they are equal, which
  is so when the caller hands over the events of one growing list.
\<close>

definition addEventList :: "answer_event list \<Rightarrow> string \<Rightarrow> chat_log \<Rightarrow> chat_log" where
  "addEventList events message_id s =
     (case events of
        [] \<Rightarrow> s
      | e # _ \<Rightarrow>
          (let old = (case map_of (messageIdPool s) message_id of None \<Rightarrow> [] | Some l \<Rightarrow> l)
           in s\<lparr>latestTaskId := ev_task_id e,
                messageIdPool := obj_put message_id (push_all_new old events) (messageIdPool s)\<rparr>))"

definition clearEventList :: "chat_log \<Rightarrow> chat_log" where
  "clearEventList s = s\<lparr>messageIdPool := []\<rparr>"

definition filterEventListByMessageId :: "chat_log \<Rightarrow> string \<Rightarrow> answer_event list option" where
  "filterEventListByMessageId s i =
     map_option (filter (\<lambda>x. ev_message_id x = i)) (map_of (messageIdPool s) i)"

definition filterEventListByEventType :: "chat_log \<Rightarrow> event_type \<Rightarrow> answer_event list option" where
  "filterEventListByEventType s t =
     map_option (filter (\<lambda>x. ev_event x = t)) (map_of (messageIdPool s) (currentMessageId s))"

definition currentEventListWithoutMessageById :: "chat_log \<Rightarrow> string \<Rightarrow> answer_event list option" where
  "currentEventListWithoutMessageById s i =
     map_option (filter (\<lambda>x. ev_message_id x = i \<and> list_all (\<lambda>y. y \<noteq> ev_event x) ExcludeTypes))
       (map_of (messageIdPool s) i)"

definition currentEventListWithoutMessage :: "chat_log \<Rightarrow> answer_event list option" where
  "currentEventListWithoutMessage s = currentEventListWithoutMessageById s (currentMessageId s)"

section \<open>The stream reader\<close>

text \<open>
  The loop of \<open>send\<close> over what the reader delivers: a chunk with a JSON text (\<open>None\<close> when it does
  not parse, which is logged and skipped), the end, an abort, or another error, after which the loop
  goes on. The list of chunks is the run of the reader; the result is the list of answers and whether
  the loop has ended.
\<close>

datatype chunk = Chunk "jsv option" | StreamDone | Aborted | ReadError

fun read_stream :: "jsv list \<Rightarrow> chunk list \<Rightarrow> jsv list \<times> bool" where
  "read_stream answers [] = (answers, False)"
| "read_stream answers (Chunk (Some v) # cs) = read_stream (answers @ [v]) cs"
| "read_stream answers (Chunk None # cs) = read_stream answers cs"
| "read_stream answers (StreamDone # cs) = (answers, True)"
| "read_stream answers (Aborted # cs) = (answers, True)"
| "read_stream answers (ReadError # cs) = read_stream answers cs"

section \<open>Marks in the text\<close>

lemma index_of_nonempty: "index_of s p = Some i \<Longrightarrow> p \<noteq> [] \<Longrightarrow> i < length s"
proof -
  assume a: "index_of s p = Some i" "p \<noteq> []"
  from index_of_SomeD [OF a(1)] have "starts_with (drop i s) p" by simp
  with a(2) have "drop i s \<noteq> []" by (auto simp: starts_with_def)
  then show ?thesis by simp
qed

text \<open>
  \<open>text.replace(/<think>([\s\S]*?)<\/think>/g, ..)\<close>: from the first opening mark that has a closing
  mark after it to the nearest such closing mark.
\<close>

function replaceThinkToSection :: "string \<Rightarrow> string" where
  "replaceThinkToSection text =
     (case index_of text ''<think>'' of
        None \<Rightarrow> text
      | Some i \<Rightarrow>
          (case index_of (drop (i + 7) text) ''</think>'' of
             None \<Rightarrow> text
           | Some j \<Rightarrow>
               take i text @ ''<section class=\"think\">'' @ take j (drop (i + 7) text) @ ''</section>''
               @ replaceThinkToSection (drop (i + 7 + j + 8) text)))"
  by pat_completeness auto

termination
  by (relation "measure length") (auto dest!: index_of_nonempty)

declare replaceThinkToSection.simps [simp del]

section \<open>Properties\<close>

text \<open>What one message event adds to the text.\<close>

definition starts_think :: "jsv \<Rightarrow> bool" where
  "starts_think d = (jget d ''start_to_think'' = JBool True)"

definition ends_think :: "jsv \<Rightarrow> bool" where
  "ends_think d = (\<not> starts_think d \<and> jget d ''end_to_think'' = JBool True)"

definition piece :: "jsv \<Rightarrow> string" where
  "piece d =
     (if starts_think d then ''<think>'' @ str_of (jget d ''content'')
      else if ends_think d then str_of (jget d ''content'') @ ''</think>''
      else str_of (jget d ''content''))"

lemma enumerate_snoc: "enumerate n (xs @ [x]) = enumerate n xs @ [(n + length xs, x)]"
  by (induction xs arbitrary: n) simp_all

lemma think_fold_snoc: "think_fold (ds @ [d]) = think_step (think_fold ds) (length ds, d)"
  by (simp add: think_fold_def enumerate_snoc)

lemma think_fold_spec:
  "nextContent (think_fold ds) = concat (map piece ds)
   \<and> (startIndex (think_fold ds) \<ge> 0 \<longleftrightarrow> (\<exists>d\<in>set ds. starts_think d))
   \<and> startIndex (think_fold ds) < int (length ds)
   \<and> (endIndex (think_fold ds) = -1 \<longleftrightarrow> \<not> (\<exists>d\<in>set ds. ends_think d))"
proof (induction ds rule: rev_induct)
  case Nil
  show ?case by (simp add: think_fold_def think_init_def)
next
  case (snoc d ds)
  then show ?case
    by (auto simp: think_fold_snoc think_step_def Let_def piece_def starts_think_def ends_think_def)
qed

text \<open>
  The text of an answer is the texts of its message events in order, with an opening mark before
  the text of an event that starts thinking and a closing mark after one that ends it; a closing mark
  is added at the end exactly when thinking was started and no event at all ended it.
\<close>

theorem answer_text_of_events:
  "fm_content (findMessageFromList evs) =
     (let ds = map ev_data (filter (\<lambda>x. ev_event x = MessageEvent) evs) in
      concat (map piece ds)
      @ (if (\<exists>d\<in>set ds. starts_think d) \<and> \<not> (\<exists>d\<in>set ds. ends_think d) then ''</think>'' else []))"
proof -
  define ds where "ds = map ev_data (filter (\<lambda>x. ev_event x = MessageEvent) evs)"
  from think_fold_spec [of ds] show ?thesis
    unfolding findMessageFromList_def closed_content_def Let_def ds_def [symmetric] by auto
qed

text \<open>
  A second block of thinking that has not ended yet stays open: its text follows the opening mark
  and no closing mark comes after it.
\<close>

theorem second_thinking_block_stays_open:
  "fm_content (findMessageFromList (map (\<lambda>d. \<lparr>ev_event = MessageEvent, ev_message_id = i, ev_session_id = u, ev_task_id = t, ev_data = d\<rparr>)
     [JObj [(''content'', JStr a), (''start_to_think'', JBool True)],
      JObj [(''content'', JStr b), (''end_to_think'', JBool True)],
      JObj [(''content'', JStr c), (''start_to_think'', JBool True)]]))
   = ''<think>'' @ a @ b @ ''</think><think>'' @ c"
  by (simp add: findMessageFromList_def closed_content_def think_fold_def think_step_def think_init_def
      str_of_def Let_def)

text \<open>
  The cache of events follows a growing stream: adding a longer list of events after a prefix of it
  leaves under the message id what adding the longer list alone leaves, each event once and in order.
\<close>

theorem cache_follows_stream:
  assumes "distinct (xs @ ys)" "xs \<noteq> []" "map_of (messageIdPool s) i = None"
  shows "map_of (messageIdPool (addEventList (xs @ ys) i (addEventList xs i s))) i = Some (xs @ ys)
    \<and> map_of (messageIdPool (addEventList (xs @ ys) i s)) i = Some (xs @ ys)"
proof -
  obtain e xs' where xs: "xs = e # xs'" using assms(2) by (cases xs) auto
  have add: "map_of (messageIdPool (addEventList (xs @ zs) i s')) i =
      Some (push_all_new (case map_of (messageIdPool s') i of None \<Rightarrow> [] | Some l \<Rightarrow> l) (xs @ zs))" for zs s'
    by (simp add: addEventList_def xs Let_def del: push_all_new_simps)
  have prefix: "map_of (messageIdPool (addEventList xs i s)) i = Some xs"
    using add [of "[]" s] assms(1,3) push_all_new_distinct [of "[]" xs] by simp
  have "push_all_new xs (xs @ ys) = xs @ ys"
  proof -
    have "push_all_new xs (xs @ ys) = push_all_new (push_all_new xs xs) ys" by (simp add: push_all_new_def)
    also have "\<dots> = xs @ ys"
      using assms(1) push_all_new_distinct [of xs ys] by (simp add: push_all_new_absorb)
    finally show ?thesis .
  qed
  with add [of ys] prefix assms(1,3) push_all_new_distinct [of "[]" "xs @ ys"] show ?thesis by simp
qed

theorem cache_follows_stream_witness:
  "let e = \<lparr>ev_event = NodeStarted, ev_message_id = ''m'', ev_session_id = ''s'', ev_task_id = ''t'', ev_data = JNull\<rparr>;
       f = \<lparr>ev_event = NodeFinished, ev_message_id = ''m'', ev_session_id = ''s'', ev_task_id = ''t'', ev_data = JNull\<rparr>;
       s = \<lparr>messageIdPool = [], latestTaskId = [], currentMessageId = []\<rparr>
   in map_of (messageIdPool (addEventList [e, f] ''m'' (addEventList [e] ''m'' s))) ''m'' = Some [e, f]"
proof -
  let ?e = "\<lparr>ev_event = NodeStarted, ev_message_id = ''m'', ev_session_id = ''s'', ev_task_id = ''t'', ev_data = JNull\<rparr>"
  let ?f = "\<lparr>ev_event = NodeFinished, ev_message_id = ''m'', ev_session_id = ''s'', ev_task_id = ''t'', ev_data = JNull\<rparr>"
  have "distinct ([?e] @ [?f])" "[?e] \<noteq> []" by simp_all
  from cache_follows_stream [OF this, of "\<lparr>messageIdPool = [], latestTaskId = [], currentMessageId = []\<rparr>" "''m''"]
  show ?thesis by (simp add: Let_def)
qed

end
