(* ===== verification/Chat_Session.thy ===== *)
theory Chat_Session
  imports Chat_Events
begin

text \<open>
  A chat with an agent as a state machine: \<open>useSendAgentMessage\<close> of
  \<open>pages/agent/chat/use-send-agent-message.ts\<close> over \<open>useSendMessageBySSE\<close> of
  \<open>hooks/use-send-message.ts\<close>. What the user does, the events and the end of a stream and the reset
  timer are the actions, and the effects of a render run after the action that caused it; fresh ids and
  lodash's \<open>omit\<close> are arguments. Only the end of a stream matters of its requests: an abort is a
  stream that ends, and whoever aborts waits for that end.
\<close>

section \<open>State\<close>

text \<open>What stays the same in a chat: the inputs are those of the begin node, as sent.\<close>

record chat_env =
  agentId :: string
  beginInputs :: jsv
  releaseMode :: "string option"
  userId :: "string option"
  isShared :: bool
  taskMode :: bool

record chat_request =
  rq_agent :: string
  rq_query :: string
  rq_inputs :: jsv
  rq_files :: "jsv list"
  rq_session :: "string option"
  rq_release :: "string option"
  rq_user :: "string option"

text \<open>The body of a request, the form of a waiting agent with its session and its release mode.\<close>

datatype sent = Sent_Message chat_request | Sent_Form jsv "string option" "string option"

record chat_state =
  c_value :: string
  c_done :: bool
  c_answers :: "answer_event list"
  c_timer :: bool
  c_streams :: "sent list"
  c_session :: "string option"
  c_messages :: "jsv list"
  c_ends :: "answer_event list"
  c_log :: chat_log
  c_uploads :: upload_state
  c_sent :: "sent list"
  sendedTaskMessage :: bool

definition new_chat :: chat_state where
  "new_chat = \<lparr>c_value = [], c_done = True, c_answers = [], c_timer = False, c_streams = [], c_session = None,
     c_messages = [], c_ends = [], c_log = \<lparr>messageIdPool = [], latestTaskId = [], currentMessageId = []\<rparr>,
     c_uploads = \<lparr>uploadResponseList = [], fileList = []\<rparr>, c_sent = [], sendedTaskMessage = False\<rparr>"

section \<open>What an answer shows\<close>

text \<open>An event as the object it came as.\<close>

fun event_name :: "event_type \<Rightarrow> string" where
  "event_name WorkflowStarted = ''workflow_started''"
| "event_name NodeStarted = ''node_started''"
| "event_name NodeFinished = ''node_finished''"
| "event_name MessageEvent = ''message''"
| "event_name MessageEnd = ''message_end''"
| "event_name WorkflowFinished = ''workflow_finished''"
| "event_name UserInputs = ''user_inputs''"
| "event_name NodeLogs = ''node_logs''"

definition event_json :: "answer_event \<Rightarrow> jsv" where
  "event_json e = JObj [(''event'', JStr (event_name (ev_event e))), (''message_id'', JStr (ev_message_id e)),
     (''session_id'', JStr (ev_session_id e)), (''task_id'', JStr (ev_task_id e)), (''data'', ev_data e)]"

definition answer_of :: "answer_event list \<Rightarrow> jsv" where
  "answer_of answerList =
     (let m = findMessageFromList answerList;
          answer = js_or (JStr (fm_content m)) (getLatestError (map event_json answerList))
      in js_object ([Prop ''answer'' (js_coalesce answer (JStr [])), Prop ''audio_binary'' (fm_audio_binary m),
           Prop ''attachment'' (fm_attachment m), Prop ''downloads'' (fm_downloads m),
           Prop ''id'' (case fm_id m of None \<Rightarrow> JUndef | Some i \<Rightarrow> JStr i)]
         @ (case findInputFromList answerList of
              None \<Rightarrow> [] | Some (i, d) \<Rightarrow> [Prop ''id'' (JStr i), Prop ''data'' d])))"

text \<open>
  The effects that run when the list of answers has changed. The session is taken from the first answer
  when that is a new one.
\<close>

definition answers_changed :: "omit_fn \<Rightarrow> string \<Rightarrow> chat_state \<Rightarrow> chat_state" where
  "answers_changed om uuid s =
     (case c_answers s of
        [] \<Rightarrow> s
      | first # _ \<Rightarrow>
          s\<lparr>c_messages := addNewestOneAnswer om uuid (answer_of (c_answers s)) (c_messages s),
            c_ends := add_message_end (c_answers s) (c_ends s),
            c_log := addEventList (c_answers s) (ev_message_id first) (c_log s),
            c_session := (if length (c_answers s) = 1 \<and> ev_session_id first \<noteq> []
                          then Some (ev_session_id first) else c_session s)\<rparr>)"

section \<open>Actions\<close>

definition start_stream :: "sent \<Rightarrow> chat_state \<Rightarrow> chat_state" where
  "start_stream body s = s\<lparr>c_done := False, c_streams := c_streams s @ [body], c_sent := c_sent s @ [body]\<rparr>"

text \<open>A parameter that is sent only when it is not empty; and \<open>exploreSessionId || sessionId\<close>.\<close>

definition given :: "string option \<Rightarrow> string option" where
  "given x = (case x of Some v \<Rightarrow> if v \<noteq> [] then x else None | None \<Rightarrow> None)"

definition session_param :: "string option \<Rightarrow> chat_state \<Rightarrow> string option" where
  "session_param explore s = (case given explore of Some x \<Rightarrow> Some x | None \<Rightarrow> c_session s)"

definition sendMessage :: "chat_env \<Rightarrow> string option \<Rightarrow> string \<Rightarrow> chat_state \<Rightarrow> chat_state" where
  "sendMessage env explore content s =
     start_stream (Sent_Message \<lparr>rq_agent = agentId env, rq_query = content, rq_inputs = beginInputs env,
         rq_files = uploadResponseList (c_uploads s), rq_session = session_param explore s,
         rq_release = given (releaseMode env), rq_user = given (userId env)\<rparr>) s"

definition handlePressEnter :: "chat_env \<Rightarrow> string \<Rightarrow> string \<Rightarrow> string option \<Rightarrow> chat_state \<Rightarrow> chat_state" where
  "handlePressEnter env uuid uuid' explore s =
     (if js_trim (c_value s) = [] then s
      else (let msgBody = buildRequestBody uuid (c_value s);
                s1 = (if c_done s then sendMessage env explore (js_trim (c_value s)) (s\<lparr>c_value := []\<rparr>) else s)
            in s1\<lparr>c_messages := addNewestOneQuestion uuid'
                   (js_object [Spread msgBody, Prop ''files'' (JArr (map JStr (fileList (c_uploads s))))])
                   (c_messages s1)\<rparr>))"

definition form_text :: "(string \<times> string) list \<Rightarrow> string" where
  "form_text inputs = join_with ''<br/>'' (map (\<lambda>(n, v). n @ '': '' @ v) inputs)"

definition sendFormMessage :: "chat_env \<Rightarrow> string \<Rightarrow> jsv \<Rightarrow> (string \<times> string) list \<Rightarrow> chat_state \<Rightarrow> chat_state" where
  "sendFormMessage env uuid body inputs s =
     start_stream (Sent_Form body (c_session s) (given (releaseMode env)))
       (s\<lparr>c_messages := addNewestOneQuestion uuid
            (JObj [(''content'', JStr (form_text inputs)), (''role'', JStr ''user'')]) (c_messages s)\<rparr>)"

definition sendMessageInTaskMode :: "chat_env \<Rightarrow> chat_state \<Rightarrow> chat_state" where
  "sendMessageInTaskMode env s =
     (if isShared env \<or> \<not> taskMode env \<or> sendedTaskMessage s then s
      else (sendMessage env None [] s)\<lparr>sendedTaskMessage := True\<rparr>)"

text \<open>
  The end of a stream, by the last chunk, by an abort or because the request failed, and what the
  caller of \<open>send\<close> does then: a message clears the uploads, and when the answer carries an error
  its text goes back into the input and the last two messages are taken away.
\<close>

definition stream_ended :: "nat \<Rightarrow> bool \<Rightarrow> chat_state \<Rightarrow> chat_state" where
  "stream_ended i failed s =
     (let s1 = s\<lparr>c_done := True, c_streams := remove_at i (c_streams s), c_timer := True\<rparr>
      in case c_streams s ! i of
           Sent_Form _ _ _ \<Rightarrow> s1
         | Sent_Message rq \<Rightarrow>
             (let s2 = s1\<lparr>c_uploads := upload_clear (c_uploads s1)\<rparr>
              in if failed then s2\<lparr>c_value := rq_query rq, c_messages := removeLatestMessage (c_messages s2)\<rparr>
                 else s2))"

definition resetSession :: "chat_env \<Rightarrow> chat_state \<Rightarrow> chat_state" where
  "resetSession env s =
     s\<lparr>c_timer := True, c_session := None,
       c_messages := (if taskMode env then removeAllMessages (c_messages s)
                      else removeAllMessagesExceptFirst (c_messages s))\<rparr>"

datatype action =
    Type string
  | Enter string string "string option"
  | Submit_Form string jsv "(string \<times> string) list"
  | Task_Start
  | Prologue string string
  | Event answer_event string
  | Unreadable_Chunk
  | Failed_Read
  | Stream_End nat bool
  | Timer
  | Reset
  | Attach jsv "string list"
  | Detach string

fun step :: "omit_fn \<Rightarrow> chat_env \<Rightarrow> chat_state \<Rightarrow> action \<Rightarrow> chat_state" where
  "step om env s (Type v) = s\<lparr>c_value := handleInputChange v\<rparr>"
| "step om env s (Enter u u' explore) = handlePressEnter env u u' explore s"
| "step om env s (Submit_Form u body inputs) = sendFormMessage env u body inputs s"
| "step om env s Task_Start = sendMessageInTaskMode env s"
| "step om env s (Prologue u p) =
     (if taskMode env \<or> p = [] then s else s\<lparr>c_messages := addPrologue u p (c_messages s)\<rparr>)"
| "step om env s (Event e u) =
     (if c_streams s \<noteq> [] then answers_changed om u (s\<lparr>c_answers := c_answers s @ [e]\<rparr>) else s)"
| "step om env s Unreadable_Chunk = s"
| "step om env s Failed_Read = s"
| "step om env s (Stream_End i failed) = (if i < length (c_streams s) then stream_ended i failed s else s)"
| "step om env s Timer = (if c_timer s then s\<lparr>c_answers := [], c_timer := False\<rparr> else s)"
| "step om env s Reset = resetSession env s"
| "step om env s (Attach d fs) = s\<lparr>c_uploads := upload_append d fs (c_uploads s)\<rparr>"
| "step om env s (Detach f) = s\<lparr>c_uploads := removeFile f (c_uploads s)\<rparr>"

abbreviation chat_run :: "omit_fn \<Rightarrow> chat_env \<Rightarrow> chat_state \<Rightarrow> action list \<Rightarrow> chat_state" where
  "chat_run om env s acts \<equiv> foldl (step om env) s acts"

section \<open>The answer of a growing list of events\<close>

lemma map_of_snoc_put: "map_of (obj_assign a (b @ [(k, v)])) k' = (if k' = k then Some v else map_of (obj_assign a b) k')"
  by (simp add: obj_assign_def)

lemma answer_of_props:
  assumes "es \<noteq> []" "\<forall>e\<in>set es. ev_message_id e = i"
  shows "\<exists>ps. answer_of es = JObj ps \<and> wf_obj ps \<and> map_of ps ''id'' = Some (JStr i) \<and> map_of ps ''content'' = None
    \<and> map_of ps ''answer'' = Some (js_coalesce (js_or (JStr (fm_content (findMessageFromList es)))
         (getLatestError (map event_json es))) (JStr []))"
proof -
  have hd: "fm_id (findMessageFromList es) = Some i"
    using assms by (cases es) (simp_all add: findMessageFromList_def Let_def hd_opt_def)
  have inp: "j = i" if "findInputFromList es = Some (j, d)" for j d
    using that assms(2) by (auto simp: findInputFromList_def find_Some_iff)
  show ?thesis
  proof (cases "findInputFromList es")
    case None
    then show ?thesis
      by (simp add: answer_of_def Let_def js_object_def hd obj_of_def obj_assign_def)
  next
    case (Some p)
    then obtain d where "findInputFromList es = Some (i, d)" using inp by (cases p) auto
    then show ?thesis
      by (simp add: answer_of_def Let_def js_object_def hd obj_of_def obj_assign_def)
  qed
qed

lemma run_append [simp]: "chat_run om env s (xs @ ys) = chat_run om env (chat_run om env s xs) ys"
  by simp

definition shown :: "chat_state \<Rightarrow> jsv list \<Rightarrow> string \<Rightarrow> answer_event list \<Rightarrow> bool" where
  "shown s pre i es \<longleftrightarrow>
     (\<exists>m. c_messages s = pre @ [m] \<and> jget m ''id'' = JStr i
        \<and> jget m ''content'' = js_coalesce (js_or (JStr (fm_content (findMessageFromList es)))
             (getLatestError (map event_json es))) (JStr []))"

lemma answers_changed_same:
  "c_answers s \<noteq> [] \<Longrightarrow> c_answers (answers_changed om w s) = c_answers s
    \<and> c_streams (answers_changed om w s) = c_streams s \<and> c_done (answers_changed om w s) = c_done s
    \<and> c_value (answers_changed om w s) = c_value s \<and> c_sent (answers_changed om w s) = c_sent s
    \<and> c_messages (answers_changed om w s) = addNewestOneAnswer om w (answer_of (c_answers s)) (c_messages s)"
  by (cases "c_answers s") (simp_all add: answers_changed_def)

lemma events_shown:
  assumes "omit_laws om" "c_streams s \<noteq> []" "c_answers s = []"
    and "\<forall>x\<in>set (c_messages s). jget x ''id'' \<noteq> JStr i"
    and "es \<noteq> []" "\<forall>e\<in>set es. ev_message_id e = i"
  shows "(let s' = chat_run om env s (map (\<lambda>e. Event e w) es)
     in shown s' (c_messages s) i es \<and> c_answers s' = es \<and> c_streams s' = c_streams s
      \<and> c_done s' = c_done s \<and> c_value s' = c_value s \<and> c_sent s' = c_sent s)"
  using assms(5,6)
proof (induction es rule: rev_induct)
  case Nil
  then show ?case by simp
next
  case (snoc e es)
  let ?s = "chat_run om env s (map (\<lambda>e. Event e w) es)"
  obtain ps where ps: "answer_of (es @ [e]) = JObj ps" "wf_obj ps" "map_of ps ''id'' = Some (JStr i)"
      "map_of ps ''content'' = None"
      "map_of ps ''answer'' = Some (js_coalesce (js_or (JStr (fm_content (findMessageFromList (es @ [e]))))
         (getLatestError (map event_json (es @ [e])))) (JStr []))"
    using answer_of_props [of "es @ [e]" i] snoc.prems by blast
  have same: "c_answers ?s = es \<and> c_streams ?s = c_streams s \<and> c_done ?s = c_done s \<and> c_value ?s = c_value s
      \<and> c_sent ?s = c_sent s \<and> (if es = [] then c_messages ?s = c_messages s else shown ?s (c_messages s) i es)"
    using snoc assms(3) by (cases "es = []") (simp_all add: Let_def)
  let ?t = "answers_changed om w (?s\<lparr>c_answers := es @ [e]\<rparr>)"
  have step: "chat_run om env s (map (\<lambda>e. Event e w) (es @ [e])) = ?t"
    using same assms(2) by simp
  have idg: "jget (JObj ps) ''id'' = JStr i" using ps(3) by simp
  have msgs: "c_messages ?t = addNewestOneAnswer om w (JObj ps) (c_messages ?s)"
    using answers_changed_same [of "?s\<lparr>c_answers := es @ [e]\<rparr>" om w] ps(1) by simp
  have "shown ?t (c_messages s) i (es @ [e])"
  proof (cases "es = []")
    case True
    then have "c_messages ?t = c_messages s @ [answer_message om w (JObj ps)]"
      using msgs add_answer_new [OF assms(4) idg] by simp
    then show ?thesis
      using answer_message_get [OF assms(1) ps(2) _ ps(3)] answer_message_content [OF assms(1) ps(2,4)] ps(5)
      by (simp add: shown_def)
  next
    case False
    then obtain m where "c_messages ?s = c_messages s @ [m]" "jget m ''id'' = JStr i"
      using same by (auto simp: shown_def)
    then have "c_messages ?t = c_messages s @ [update_message (JObj ps) m]"
      using msgs add_answer_again [OF assms(4) idg] by simp
    then show ?thesis
      using ps(3,5) update_message_get [OF ps(2), of m] by (simp add: shown_def)
  qed
  then show ?case
    using same answers_changed_same [of "?s\<lparr>c_answers := es @ [e]\<rparr>" om w] unfolding step Let_def by simp
qed

section \<open>Properties\<close>

lemma jget_spread_only: "wf_obj qs \<Longrightarrow> jget (js_object [Spread (JObj qs)]) k = jget (JObj qs) k"
  using jget_js_object_spread [of qs "[]" k] by (simp add: js_object_def obj_of_def split: option.split)

lemma question_message:
  assumes "u \<noteq> []"
  shows "jget (js_object [Spread (js_object [Spread (buildRequestBody u v), Prop ''files'' fs]),
      Prop ''id'' (buildMessageUuid u' (js_object [Spread (buildRequestBody u v), Prop ''files'' fs]))]) k =
    (if k = ''id'' then JStr u else if k = ''files'' then fs else jget (buildRequestBody u v) k)"
proof -
  obtain ps where ps: "buildRequestBody u v = JObj ps" "wf_obj ps"
    by (simp add: buildRequestBody_def wf_obj_def)
  let ?b = "js_object [Spread (buildRequestBody u v), Prop ''files'' fs]"
  have b: "jget ?b k = (if k = ''files'' then fs else jget (buildRequestBody u v) k)" for k
    using jget_js_object_last [of "[Spread (JObj ps)]" "''files''" fs k] jget_spread_only [OF ps(2), of k]
    by (simp add: ps(1))
  obtain qs where qs: "?b = JObj qs" "wf_obj qs" using js_object_wf by blast
  have spread: "jget (js_object [Spread ?b]) k = jget ?b k" for k
    unfolding qs(1) by (rule jget_spread_only [OF qs(2)])
  have "jget ?b ''id'' = JStr u" unfolding b by (simp add: buildRequestBody_def)
  with assms have id: "buildMessageUuid u' ?b = JStr u" by (simp add: buildMessageUuid_def)
  have "jget (js_object [Spread ?b, Prop ''id'' (JStr u)]) k = (if k = ''id'' then JStr u else jget ?b k)"
    using jget_js_object_last [of "[Spread ?b]" "''id''" "JStr u" k] spread by simp
  with b show ?thesis unfolding id by simp
qed

lemma sendMessage_simps [simp]:
  "c_messages (sendMessage env x c s) = c_messages s" "c_done (sendMessage env x c s) = False"
  "c_value (sendMessage env x c s) = c_value s" "c_answers (sendMessage env x c s) = c_answers s"
  "c_uploads (sendMessage env x c s) = c_uploads s"
  "\<exists>rq. c_sent (sendMessage env x c s) = c_sent s @ [Sent_Message rq] \<and> rq_query rq = c
     \<and> c_streams (sendMessage env x c s) = c_streams s @ [Sent_Message rq]"
  by (simp_all add: sendMessage_def start_stream_def)

text \<open>
  C2. One turn of a chat: from a state with nothing running, typing a text and pressing enter sends it, and
  when events of one message have come and the stream has ended there are two messages more, the
  question and one answer with the text of all the events; the input is empty and the chat is ready
  for the next turn.
\<close>

theorem turn_adds_question_and_answer:
  assumes "omit_laws om" "c_done s" "c_streams s = []" "c_answers s = []"
    and "js_trim (handleInputChange v) \<noteq> []" "u \<noteq> []" "u \<noteq> i"
    and "\<forall>x\<in>set (c_messages s). jget x ''id'' \<noteq> JStr i"
    and "es \<noteq> []" "\<forall>e\<in>set es. ev_message_id e = i" "fm_content (findMessageFromList es) \<noteq> []"
  shows "\<exists>q m rq s'.
    s' = chat_run om env s ([Type v, Enter u u' x] @ map (\<lambda>e. Event e w) es @ [Stream_End 0 False, Timer])
    \<and> c_messages s' = c_messages s @ [q, m] \<and> c_sent s' = c_sent s @ [Sent_Message rq]
    \<and> jget q ''id'' = JStr u \<and> jget q ''content'' = JStr (js_trim (handleInputChange v))
    \<and> rq_query rq = js_trim (handleInputChange v)
    \<and> jget m ''id'' = JStr i \<and> jget m ''content'' = JStr (fm_content (findMessageFromList es))
    \<and> c_value s' = [] \<and> c_done s' \<and> c_streams s' = [] \<and> c_answers s' = []"
proof -
  let ?s = "chat_run om env s [Type v, Enter u u' x]"
  let ?q = "js_object [Spread (js_object [Spread (buildRequestBody u (handleInputChange v)), Prop ''files'' (JArr (map JStr (fileList (c_uploads s))))]),
      Prop ''id'' (buildMessageUuid u' (js_object [Spread (buildRequestBody u (handleInputChange v)), Prop ''files'' (JArr (map JStr (fileList (c_uploads s))))]))]"
  obtain rq where rq: "c_sent ?s = c_sent s @ [Sent_Message rq]" "rq_query rq = js_trim (handleInputChange v)"
      "c_streams ?s = [Sent_Message rq]"
    using assms(2,3,5) by (simp add: handlePressEnter_def Let_def sendMessage_def start_stream_def)
  have s: "c_messages ?s = c_messages s @ [?q]" "c_value ?s = []" "c_answers ?s = []"
    using assms(2,4,5) by (simp_all add: handlePressEnter_def Let_def addNewestOneQuestion_def)
  have q: "jget ?q ''id'' = JStr u" "jget ?q ''content'' = JStr (js_trim (handleInputChange v))"
    using question_message [OF assms(6)] by (simp_all add: buildRequestBody_def)
  have "c_streams ?s \<noteq> []" "\<forall>y\<in>set (c_messages ?s). jget y ''id'' \<noteq> JStr i"
    using s rq(3) q(1) assms(7,8) by auto
  from events_shown [OF assms(1) this(1) s(3) this(2) assms(9,10), of env w]
  obtain s2 where s2: "s2 = chat_run om env ?s (map (\<lambda>e. Event e w) es)" "shown s2 (c_messages ?s) i es"
      "c_streams s2 = [Sent_Message rq]" "c_value s2 = []" "c_sent s2 = c_sent s @ [Sent_Message rq]"
    using s rq by (auto simp: Let_def)
  obtain m where m: "c_messages s2 = c_messages s @ [?q, m]" "jget m ''id'' = JStr i"
      "jget m ''content'' = JStr (fm_content (findMessageFromList es))"
    using s2(2) s(1) assms(11) by (auto simp: shown_def js_or_def js_coalesce_def nullish_def)
  define s3 where "s3 = chat_run om env s2 [Stream_End 0 False, Timer]"
  have s3: "c_messages s3 = c_messages s2" "c_value s3 = []" "c_done s3" "c_streams s3 = []" "c_answers s3 = []"
      "c_sent s3 = c_sent s2"
    using s2 by (simp_all add: s3_def stream_ended_def Let_def remove_at_def)
  have "s3 = chat_run om env s ([Type v, Enter u u' x] @ map (\<lambda>e. Event e w) es @ [Stream_End 0 False, Timer])"
    by (simp add: s3_def s2(1))
  then show ?thesis using s3 m q rq(2) s2(5) by metis
qed

theorem turn_adds_question_and_answer_witness:
  "\<exists>q m rq s'. s' = chat_run omit_ref \<lparr>agentId = ''a'', beginInputs = JObj [], releaseMode = None, userId = None,
       isShared = False, taskMode = False\<rparr> new_chat ([Type ''hi'', Enter ''1'' ''2'' None]
         @ map (\<lambda>e. Event e ''w'') [\<lparr>ev_event = MessageEvent, ev_message_id = ''m'', ev_session_id = ''s'',
              ev_task_id = ''t'', ev_data = JObj [(''content'', JStr ''Hello'')]\<rparr>] @ [Stream_End 0 False, Timer])
    \<and> c_messages s' = [q, m] \<and> jget q ''content'' = JStr ''hi'' \<and> jget m ''content'' = JStr ''Hello''"
proof -
  let ?es = "[\<lparr>ev_event = MessageEvent, ev_message_id = ''m'', ev_session_id = ''s'', ev_task_id = ''t'',
      ev_data = JObj [(''content'', JStr ''Hello'')]\<rparr>]"
  have h: "omit_laws omit_ref" "c_done new_chat" "c_streams new_chat = []" "c_answers new_chat = []"
    "js_trim (handleInputChange ''hi'') \<noteq> []" "(''1''::string) \<noteq> []" "(''1''::string) \<noteq> ''m''"
    "\<forall>x\<in>set (c_messages new_chat). jget x ''id'' \<noteq> JStr ''m''" "?es \<noteq> []"
    "\<forall>e\<in>set ?es. ev_message_id e = ''m''" "fm_content (findMessageFromList ?es) \<noteq> []"
    by (simp_all add: new_chat_def handleInputChange_def js_trim_def is_space_def findMessageFromList_def
        closed_content_def think_fold_def think_step_def think_init_def str_of_def Let_def)
  have v: "js_trim (handleInputChange ''hi'') = ''hi''" "fm_content (findMessageFromList ?es) = ''Hello''"
    "c_messages new_chat = []"
    by (simp_all add: new_chat_def handleInputChange_def js_trim_def is_space_def findMessageFromList_def
        closed_content_def think_fold_def think_step_def think_init_def str_of_def Let_def)
  from turn_adds_question_and_answer [OF h, of "\<lparr>agentId = ''a'', beginInputs = JObj [], releaseMode = None,
      userId = None, isShared = False, taskMode = False\<rparr>" "''2''" None "''w''"]
  show ?thesis unfolding v append_Nil by blast
qed

lemma not_done_has_stream:
  "(c_done s \<or> c_streams s \<noteq> []) \<Longrightarrow> c_done (step om env s a) \<or> c_streams (step om env s a) \<noteq> []"
  by (cases a) (auto simp: handlePressEnter_def sendMessage_def start_stream_def sendFormMessage_def
      sendMessageInTaskMode_def answers_changed_def stream_ended_def resetSession_def Let_def
      split: list.splits sent.splits)

lemma run_done_or_stream:
  "(c_done s \<or> c_streams s \<noteq> []) \<Longrightarrow> c_done (chat_run om env s acts) \<or> c_streams (chat_run om env s acts) \<noteq> []"
  by (induction acts arbitrary: s) (simp_all only: foldl.simps not_done_has_stream)

lemma stream_end_done: "c_streams s \<noteq> [] \<Longrightarrow> c_done (step om env s (Stream_End 0 f))"
  by (auto simp: stream_ended_def Let_def split: sent.splits)

text \<open>
  C14. A chat never hangs by itself: after any history of typing, questions, forms, events, broken chunks,
  resets and timers, the end of one running stream (if there is one) is enough for the next text to be
  sent when enter is pressed.
\<close>

theorem question_sent_after_stream_end:
  assumes "js_trim (handleInputChange v) \<noteq> []"
  shows "let s = chat_run om env new_chat acts;
             s' = chat_run om env s [Stream_End 0 f, Type v, Enter u u' x]
         in \<exists>rq. c_sent s' = c_sent s @ [Sent_Message rq] \<and> rq_query rq = js_trim (handleInputChange v)"
proof -
  let ?s = "chat_run om env new_chat acts"
  let ?t = "step om env ?s (Stream_End 0 f)"
  have "c_done ?s \<or> c_streams ?s \<noteq> []" by (rule run_done_or_stream) (simp add: new_chat_def)
  then have "c_done ?t" using stream_end_done [of ?s om env f] by (cases "c_streams ?s = []") (simp_all del: step.simps, simp)
  moreover have "c_sent ?t = c_sent ?s" by (simp add: stream_ended_def Let_def split: sent.splits)
  ultimately show ?thesis
    using assms by (simp add: Let_def handlePressEnter_def sendMessage_def start_stream_def del: step.simps(9))
qed

theorem question_sent_after_stream_end_witness:
  "let s = chat_run omit_ref \<lparr>agentId = ''a'', beginInputs = JObj [], releaseMode = None, userId = None, isShared = False,
           taskMode = True\<rparr> new_chat [Task_Start, Failed_Read];
       s' = chat_run omit_ref \<lparr>agentId = ''a'', beginInputs = JObj [], releaseMode = None, userId = None, isShared = False,
           taskMode = True\<rparr> s [Stream_End 0 False, Type ''hi'', Enter ''u'' ''v'' None]
   in \<exists>rq. c_sent s' = c_sent s @ [Sent_Message rq] \<and> rq_query rq = ''hi''"
proof -
  have "js_trim (handleInputChange ''hi'') = ''hi''"
    by (simp add: handleInputChange_def js_trim_def is_space_def)
  then show ?thesis
    using question_sent_after_stream_end [of "''hi''" omit_ref "\<lparr>agentId = ''a'', beginInputs = JObj [],
        releaseMode = None, userId = None, isShared = False, taskMode = True\<rparr>" "[Task_Start, Failed_Read]" False
        "''u''" "''v''" None]
    by (simp only: Let_def list.distinct(2) not_False_eq_True simp_thms)
qed

text \<open>
  A question entered while an answer is still coming shows up in the list of messages, yet it is
  not sent and its text stays in the input, so that entering it once more adds it again.
\<close>

theorem question_while_answering_is_not_sent:
  assumes "c_done s" "js_trim (handleInputChange v) \<noteq> []" "js_trim (handleInputChange v') \<noteq> []"
  shows "let s' = chat_run om env s [Type v, Enter u1 u2 x, Type v', Enter u3 u4 x, Enter u5 u6 x]
    in length (c_messages s') = length (c_messages s) + 3
     \<and> (\<exists>rq. c_sent s' = c_sent s @ [Sent_Message rq] \<and> rq_query rq = js_trim (handleInputChange v))
     \<and> c_value s' = handleInputChange v'"
  using assms
  by (simp add: Let_def handlePressEnter_def addNewestOneQuestion_def sendMessage_def start_stream_def)

theorem question_while_answering_is_not_sent_witness:
  "length (c_messages (chat_run omit_ref \<lparr>agentId = ''a'', beginInputs = JObj [], releaseMode = None, userId = None,
       isShared = False, taskMode = False\<rparr> new_chat
       [Type ''a'', Enter ''1'' ''2'' None, Type ''b'', Enter ''3'' ''4'' None, Enter ''5'' ''6'' None])) = 3"
proof -
  have "c_done new_chat" "js_trim (handleInputChange ''a'') \<noteq> []" "js_trim (handleInputChange ''b'') \<noteq> []"
    by (simp_all add: new_chat_def handleInputChange_def js_trim_def is_space_def)
  from question_while_answering_is_not_sent [OF this, of omit_ref "\<lparr>agentId = ''a'', beginInputs = JObj [],
      releaseMode = None, userId = None, isShared = False, taskMode = False\<rparr>" "''1''" "''2''" None "''3''" "''4''" "''5''" "''6''"]
  show ?thesis by (simp only: Let_def) (simp add: new_chat_def)
qed

text \<open>
  A message whose request is refused takes back more than itself: its text returns to the input and
  the question leaves the list, but the message before the question is removed with it.
\<close>

theorem refused_message_takes_the_one_before:
  assumes "c_done s" "c_streams s = []" "js_trim (handleInputChange v) \<noteq> []"
  shows "let s' = chat_run om env s [Type v, Enter u u' x, Stream_End 0 True]
    in c_messages s' = take (length (c_messages s) - 1) (c_messages s)
     \<and> c_value s' = js_trim (handleInputChange v) \<and> c_done s'"
  using assms
  by (simp add: Let_def handlePressEnter_def addNewestOneQuestion_def sendMessage_def start_stream_def
      stream_ended_def removeLatestMessage_def slice_to_def)

theorem refused_message_takes_the_one_before_witness:
  "c_messages (chat_run omit_ref \<lparr>agentId = ''a'', beginInputs = JObj [], releaseMode = None, userId = None,
       isShared = False, taskMode = False\<rparr> (chat_run omit_ref \<lparr>agentId = ''a'', beginInputs = JObj [],
       releaseMode = None, userId = None, isShared = False, taskMode = False\<rparr> new_chat [Prologue ''p'' ''Hello''])
       [Type ''a'', Enter ''1'' ''2'' None, Stream_End 0 True]) = []"
proof -
  let ?env = "\<lparr>agentId = ''a'', beginInputs = JObj [], releaseMode = None, userId = None,
       isShared = False, taskMode = False\<rparr>"
  let ?s = "chat_run omit_ref ?env new_chat [Prologue ''p'' ''Hello'']"
  have s: "c_done ?s" "c_streams ?s = []" "js_trim (handleInputChange ''a'') \<noteq> []"
    by (simp_all add: new_chat_def addPrologue_def handleInputChange_def js_trim_def is_space_def)
  have "length (c_messages ?s) = 1" by (simp add: new_chat_def addPrologue_def)
  with refused_message_takes_the_one_before [OF s, of omit_ref ?env "''1''" "''2''" None]
  show ?thesis by (simp only: Let_def) simp
qed

text \<open>
  The timer that clears the answers of a finished stream is not stopped by the next question: what
  the next answer has streamed until the timer fires is lost, and the answer goes on from there.
\<close>

theorem late_timer_loses_events:
  assumes "c_done s" "c_streams s = []" "c_timer s" "js_trim (handleInputChange v) \<noteq> []"
  shows "c_answers (chat_run om env s ([Type v, Enter u u' x] @ map (\<lambda>e. Event e w) es @ [Timer]
     @ map (\<lambda>e. Event e w) es')) = es'"
proof -
  have keep: "c_answers t = as \<Longrightarrow> c_streams t \<noteq> [] \<Longrightarrow> c_answers (chat_run om env t (map (\<lambda>e. Event e w) ds)) = as @ ds
      \<and> c_streams (chat_run om env t (map (\<lambda>e. Event e w) ds)) \<noteq> []
      \<and> c_timer (chat_run om env t (map (\<lambda>e. Event e w) ds)) = c_timer t" for t as ds
  proof (induction ds arbitrary: t as)
    case (Cons d ds)
    have "c_timer (answers_changed om w t') = c_timer t'" for t' by (simp add: answers_changed_def split: list.split)
    with Cons.prems Cons.IH [of "step om env t (Event d w)" "as @ [d]"] show ?case
      by (simp add: answers_changed_same)
  qed simp
  let ?s = "chat_run om env s [Type v, Enter u u' x]"
  have "c_streams ?s \<noteq> []" "c_timer ?s"
    using assms by (simp_all add: handlePressEnter_def Let_def sendMessage_def start_stream_def)
  from keep [OF refl this(1), of es] this(2)
  have t: "c_streams (chat_run om env ?s (map (\<lambda>e. Event e w) es)) \<noteq> []" "c_timer (chat_run om env ?s (map (\<lambda>e. Event e w) es))"
    by blast+
  let ?t = "chat_run om env (chat_run om env ?s (map (\<lambda>e. Event e w) es)) [Timer]"
  have "c_answers ?t = []" "c_streams ?t \<noteq> []" using t by simp_all
  from keep [OF this, of es'] show ?thesis by simp
qed

theorem late_timer_loses_events_witness:
  "c_answers (chat_run omit_ref \<lparr>agentId = ''a'', beginInputs = JObj [], releaseMode = None, userId = None,
       isShared = False, taskMode = False\<rparr> (chat_run omit_ref \<lparr>agentId = ''a'', beginInputs = JObj [], releaseMode = None,
       userId = None, isShared = False, taskMode = False\<rparr> new_chat [Reset])
     ([Type ''hi'', Enter ''1'' ''2'' None] @ map (\<lambda>e. Event e ''w'') [\<lparr>ev_event = MessageEvent, ev_message_id = ''m'',
        ev_session_id = ''s'', ev_task_id = ''t'', ev_data = JNull\<rparr>] @ [Timer] @ map (\<lambda>e. Event e ''w'') [])) = []"
proof -
  let ?s = "chat_run omit_ref \<lparr>agentId = ''a'', beginInputs = JObj [], releaseMode = None, userId = None,
       isShared = False, taskMode = False\<rparr> new_chat [Reset]"
  have "c_done ?s" "c_streams ?s = []" "c_timer ?s" "js_trim (handleInputChange ''hi'') \<noteq> []"
    by (simp_all add: new_chat_def resetSession_def handleInputChange_def js_trim_def is_space_def)
  then show ?thesis by (rule late_timer_loses_events)
qed

end
