(* ===== verification/Json_Schema.thy ===== *)
theory Json_Schema
  imports Js_Json Js_Regex
begin

text \<open>
  JSON schemas of the schema builder (\<open>components/jsonjoy-builder\<close>): the helpers of
  \<open>types/json-schema.ts\<close> and the editor of object and array schemas, \<open>lib/schema-editor.ts\<close>. A schema
  is a boolean or an object; a schema that is read again after a copy is the same value here.
\<close>

section \<open>Kinds of schemas\<close>

definition isBooleanSchema :: "jsv \<Rightarrow> bool" where
  "isBooleanSchema schema = (js_typeof schema = ''boolean'')"

definition isObjectSchema :: "jsv \<Rightarrow> bool" where
  "isObjectSchema schema = (\<not> isBooleanSchema schema)"

definition asObjectSchema :: "jsv \<Rightarrow> jsv" where
  "asObjectSchema schema = (if isObjectSchema schema then schema else JObj [(''type'', JStr ''null'')])"

definition withObjectSchema :: "jsv \<Rightarrow> (jsv \<Rightarrow> 'a) \<Rightarrow> 'a \<Rightarrow> 'a" where
  "withObjectSchema schema fn defaultValue = (if isObjectSchema schema then fn schema else defaultValue)"

definition getSchemaDescription :: "jsv \<Rightarrow> jsv" where
  "getSchemaDescription schema =
     (if isObjectSchema schema then js_or (jget schema ''description'') (JStr []) else JStr [])"

section \<open>Editing an object schema\<close>

text \<open>The elements of an array, none for another value.\<close>

definition elems :: "jsv \<Rightarrow> jsv list" where
  "elems v = (case v of JArr xs \<Rightarrow> xs | _ \<Rightarrow> [])"

definition copySchema :: "jsv \<Rightarrow> jsv" where
  "copySchema schema = schema"

definition updateObjectProperty :: "jsv \<Rightarrow> string \<Rightarrow> jsv \<Rightarrow> jsv" where
  "updateObjectProperty schema propertyName propertySchema =
     (if \<not> isObjectSchema schema then schema
      else (let newSchema = copySchema schema;
                properties = (if truthy (jget newSchema ''properties'') then jget newSchema ''properties''
                              else JObj [])
            in jset newSchema ''properties'' (jset properties propertyName propertySchema)))"

definition removeObjectProperty :: "jsv \<Rightarrow> string \<Rightarrow> jsv" where
  "removeObjectProperty schema propertyName =
     (if \<not> isObjectSchema schema \<or> \<not> truthy (jget schema ''properties'') then schema
      else (let newSchema = copySchema schema;
                remainingProps = JObj (obj_del propertyName (props_of (jget newSchema ''properties'')));
                s1 = jset newSchema ''properties'' remainingProps
            in if truthy (jget s1 ''required'')
               then jset s1 ''required''
                      (JArr (filter (\<lambda>name. name \<noteq> JStr propertyName) (elems (jget s1 ''required''))))
               else s1))"

definition updatePropertyRequired :: "jsv \<Rightarrow> string \<Rightarrow> bool \<Rightarrow> jsv" where
  "updatePropertyRequired schema propertyName required =
     (if \<not> isObjectSchema schema then schema
      else (let newSchema = copySchema schema;
                old = (if truthy (jget newSchema ''required'') then elems (jget newSchema ''required'') else [])
            in jset newSchema ''required'' (JArr
                 (if required
                  then (if JStr propertyName \<in> set old then old else old @ [JStr propertyName])
                  else filter (\<lambda>name. name \<noteq> JStr propertyName) old))))"

definition updateArrayItems :: "jsv \<Rightarrow> jsv \<Rightarrow> jsv" where
  "updateArrayItems schema itemsSchema =
     (if isObjectSchema schema \<and> js_seq (jget schema ''type'') (JStr ''array'')
      then js_object [Spread schema, Prop ''items'' itemsSchema] else schema)"

text \<open>The data of a field that is added or edited.\<close>

record new_field =
  f_name :: string
  f_type :: jsv
  f_description :: jsv
  f_required :: bool
  f_validation :: jsv

definition createFieldSchema :: "new_field \<Rightarrow> jsv" where
  "createFieldSchema field =
     (if isObjectSchema (f_validation field)
      then js_object [Prop ''type'' (f_type field), Prop ''description'' (f_description field),
                      Spread (f_validation field)]
      else f_validation field)"

text \<open>\<open>/^[a-zA-Z_$][a-zA-Z0-9_$]*$/\<close>.\<close>

definition name_start :: "char \<Rightarrow> bool" where
  "name_start c = (let n = (of_char c :: nat) in
     (97 \<le> n \<and> n \<le> 122) \<or> (65 \<le> n \<and> n \<le> 90) \<or> c = CHR ''_'' \<or> c = CHR ''$'')"

definition validNamePattern :: rx where
  "validNamePattern = Seq (Cls name_start) (Star (Cls (\<lambda>c. name_start c \<or> digit c)))"

definition validateFieldName :: "string \<Rightarrow> bool" where
  "validateFieldName name = (if name = [] \<or> js_trim name = [] then False else rx_match validNamePattern name)"

section \<open>Reading a schema\<close>

record property =
  p_name :: string
  p_schema :: jsv
  p_required :: bool

definition getSchemaProperties :: "jsv \<Rightarrow> property list" where
  "getSchemaProperties schema =
     (if \<not> isObjectSchema schema \<or> \<not> truthy (jget schema ''properties'') then []
      else (let required = elems (js_or (jget schema ''required'') (JArr []))
            in map (\<lambda>(name, propSchema). \<lparr>p_name = name, p_schema = propSchema,
                      p_required = JStr name \<in> set required\<rparr>)
                 (props_of (jget schema ''properties''))))"

definition getArrayItemsSchema :: "jsv \<Rightarrow> jsv" where
  "getArrayItemsSchema schema =
     (if isBooleanSchema schema then JNull
      else if \<not> js_seq (jget schema ''type'') (JStr ''array'') then JNull
      else js_or (jget schema ''items'') JNull)"

definition hasChildren :: "jsv \<Rightarrow> bool" where
  "hasChildren schema =
     (if \<not> isObjectSchema schema then False
      else if js_seq (jget schema ''type'') (JStr ''object'') \<and> truthy (jget schema ''properties'')
      then obj_keys (props_of (jget schema ''properties'')) \<noteq> []
      else (let items = jget schema ''items'' in
            js_seq (jget schema ''type'') (JStr ''array'') \<and> truthy items \<and> isObjectSchema items
            \<and> js_seq (jget items ''type'') (JStr ''object'') \<and> truthy (jget items ''properties'')))"

end
