(* ===== verification/Schema_Infer.thy ===== *)
theory Schema_Infer
  imports Json_Schema "HOL-Library.List_Lexorder"
begin

text \<open>
  Inferring a schema from a value: \<open>lib/schema-inference.ts\<close> of the schema builder. The time of the
  call, \<open>Date.now()\<close>, is an argument. Strings are sorted by their characters, as \<open>sort()\<close> does.
\<close>

section \<open>Primitive values\<close>

abbreviation typed :: "string \<Rightarrow> jsv" where
  "typed t \<equiv> JObj [(''type'', JStr t)]"

definition dig :: rx where
  "dig = Cls digit"

definition hex_ci :: rx where
  "hex_ci = Cls (\<lambda>c. digit c \<or> (let n = (of_char (lower_char c) :: nat) in 97 \<le> n \<and> n \<le> 102))"

definition not_at :: rx where
  "not_at = Cls (\<lambda>c. c \<noteq> CHR ''@'')"

definition date_rx :: rx where
  "date_rx = seqs [times 4 dig, lit ''-'', times 2 dig, lit ''-'', times 2 dig]"

definition date_time_rx :: rx where
  "date_time_rx = seqs [date_rx, lit ''T'', times 2 dig, lit '':'', times 2 dig, lit '':'', times 2 dig,
     opt (Seq (lit ''.'') (plus dig)),
     opt (Alt (lit ''Z'') (seqs [Alt (lit ''+'') (lit ''-''), times 2 dig, lit '':'', times 2 dig]))]"

definition email_rx :: rx where
  "email_rx = seqs [plus not_at, lit ''@'', plus not_at, lit ''.'', plus not_at]"

definition uuid_rx :: rx where
  "uuid_rx = seqs [times 8 hex_ci, lit ''-'', times 4 hex_ci, lit ''-'', times 4 hex_ci, lit ''-'',
     times 4 hex_ci, lit ''-'', times 12 hex_ci]"

definition uri_rx :: rx where
  "uri_rx = seqs [Alt (Seq (lit_ci ''http'') (opt (lit_ci ''s''))) (lit_ci ''ftp''), lit ''://'',
     Cls (\<lambda>c. \<not> is_space c \<and> c \<notin> set ''/$.?#''),
     Cls (\<lambda>c. (of_char c :: nat) \<notin> {10, 13}), Star (Cls (\<lambda>c. \<not> is_space c))]"

definition string_formats :: "(string \<times> rx) list" where
  "string_formats = [(''date'', date_rx), (''date-time'', date_time_rx), (''email'', email_rx),
     (''uuid'', uuid_rx), (''uri'', uri_rx)]"

definition inferStringSchema :: "string \<Rightarrow> jsv" where
  "inferStringSchema str =
     (case find (\<lambda>(format, regex). rx_match regex str) string_formats of
        Some (format, _) \<Rightarrow> JObj [(''type'', JStr ''string''), (''format'', JStr format)]
      | None \<Rightarrow> typed ''string'')"

definition is_integer :: "jsv \<Rightarrow> bool" where
  "is_integer v = (case v of JNum (Fin q) \<Rightarrow> is_int q | _ \<Rightarrow> False)"

definition inferNumberSchema :: "jsnum \<Rightarrow> jsv" where
  "inferNumberSchema num = (if is_integer (JNum num) then typed ''integer'' else typed ''number'')"

section \<open>Merging schemas\<close>

definition mergeSchemas :: "jsv \<Rightarrow> jsv \<Rightarrow> jsv" where
  "mergeSchemas schema1 schema2 =
     (let s1 = asObjectSchema schema1; s2 = asObjectSchema schema2;
          t1 = jget s1 ''type''; t2 = jget s2 ''type''
      in if json_same s1 s2 then schema1
         else if t1 = JStr ''integer'' \<and> t2 = JStr ''number'' then typed ''number''
         else if t1 = JStr ''number'' \<and> t2 = JStr ''integer'' then typed ''number''
         else (let existingOneOf = (case jget s1 ''oneOf'' of JArr xs \<Rightarrow> xs | _ \<Rightarrow> [s1])
               in if \<not> list_ex (\<lambda>s. json_same s s2) existingOneOf
                  then (let uniqueSchemas = json_unique (existingOneOf @ [s2])
                        in if length uniqueSchemas = 1 then hd uniqueSchemas
                           else JObj [(''oneOf'', JArr uniqueSchemas)])
                  else if truthy (jget s1 ''oneOf'') then s1 else JObj [(''oneOf'', JArr [s1])]))"

section \<open>Objects\<close>

text \<open>The properties come with their inferred schemas.\<close>

definition required_keys :: "string list \<Rightarrow> jsv" where
  "required_keys required = (if required \<noteq> [] then JArr (map JStr (sort required)) else JUndef)"

definition inferObjectSchema :: "(string \<times> jsv \<times> jsv) list \<Rightarrow> jsv" where
  "inferObjectSchema entries =
     (let properties = foldl (\<lambda>ps (key, value, schema). obj_put key schema ps) [] entries;
          required = map fst (filter (\<lambda>(key, value, schema). \<not> nullish value) entries)
      in JObj [(''type'', JStr ''object''), (''properties'', JObj properties),
               (''required'', required_keys required)])"

text \<open>The value an item has of its own under a key.\<close>

definition own :: "jsv \<Rightarrow> string \<Rightarrow> jsv option" where
  "own item key = map_of (props_of item) key"

definition collect_value :: "jsv \<Rightarrow> (string \<times> jsv list) list \<Rightarrow> string \<Rightarrow> (string \<times> jsv list) list" where
  "collect_value item valueMap key =
     (case own item key of
        None \<Rightarrow> valueMap
      | Some v \<Rightarrow>
          if js_typeof v = ''string'' \<or> js_typeof v = ''number''
          then obj_put key (push_new (case map_of valueMap key of None \<Rightarrow> [] | Some vs \<Rightarrow> vs) v) valueMap
          else valueMap)"

definition value_map :: "string list \<Rightarrow> jsv list \<Rightarrow> (string \<times> jsv list) list" where
  "value_map keys items = foldl (\<lambda>vm item. foldl (collect_value item) vm keys) [] items"

definition enum_property :: "nat \<Rightarrow> props \<Rightarrow> string \<times> jsv list \<Rightarrow> props" where
  "enum_property totalItems ps kv =
     (case kv of (key, distinctValues) \<Rightarrow>
        let currentSchema = asObjectSchema (jget (JObj ps) key); t = jget currentSchema ''type''
        in if 1 < length distinctValues \<and> length distinctValues \<le> 10 \<and> 2 * length distinctValues < totalItems
              \<and> t \<in> {JStr ''string'', JStr ''number'', JStr ''integer''}
           then obj_put key (JObj [(''type'', t), (''enum'', JArr (sort_key str_of distinctValues))]) ps
           else ps)"

definition detectEnumsInArrayItems :: "props \<Rightarrow> jsv list \<Rightarrow> nat \<Rightarrow> props" where
  "detectEnumsInArrayItems mergedProperties originalArray totalItems =
     (if totalItems < 10 \<or> obj_keys mergedProperties = [] then mergedProperties
      else foldl (enum_property totalItems) mergedProperties
             (value_map (obj_keys mergedProperties) originalArray))"

definition coordinates_rx :: rx where
  "coordinates_rx = alts [Seq (lit_ci ''coordinate'') (opt (lit_ci ''s'')),
     Seq (lit_ci ''coord'') (opt (lit_ci ''s'')), lit_ci ''latlon'', lit_ci ''lonlat'', lit_ci ''point'']"

definition timestamp_rx :: rx where
  "timestamp_rx = alts [lit_ci ''timestamp'', lit_ci ''createdat'', lit_ci ''updatedat'', lit_ci ''occurredat'']"

text \<open>The loop over the items: whether they all look like coordinates, and the length they have.\<close>

fun coord_check :: "string \<Rightarrow> jsv list \<Rightarrow> nat option \<Rightarrow> bool \<times> nat option" where
  "coord_check key [] coordLength = (True, coordLength)"
| "coord_check key (item # rest) coordLength =
     (case own item key of
        None \<Rightarrow> coord_check key rest coordLength
      | Some (JArr arr) \<Rightarrow>
          (let n = (case coordLength of None \<Rightarrow> length arr | Some n \<Rightarrow> n)
           in if length arr \<noteq> n \<or> (length arr \<noteq> 2 \<and> length arr \<noteq> 3)
                 \<or> \<not> list_all (\<lambda>v. js_typeof v = ''number'') arr
              then (False, Some n) else coord_check key rest (Some n))
      | Some _ \<Rightarrow> (False, coordLength))"

definition timestamp_like :: "rat \<Rightarrow> jsv \<Rightarrow> bool" where
  "timestamp_like fiftyYearsAgo val = (case val of JNum (Fin q) \<Rightarrow> is_int q \<and> fiftyYearsAgo \<le> q | _ \<Rightarrow> False)"

definition coord_property :: "jsv list \<Rightarrow> string \<Rightarrow> jsv \<Rightarrow> props \<Rightarrow> props" where
  "coord_property originalArray key currentSchema ps =
     (if rx_search coordinates_rx key \<and> jget currentSchema ''type'' = JStr ''array''
         \<and> jget (asObjectSchema (jget currentSchema ''items'')) ''type'' \<in> {JStr ''number'', JStr ''integer''}
      then (case coord_check key originalArray None of
              (True, Some n) \<Rightarrow>
                obj_put key (JObj [(''type'', JStr ''array''), (''items'', typed ''number''),
                  (''minItems'', JInt (int n)), (''maxItems'', JInt (int n))]) ps
            | _ \<Rightarrow> ps)
      else ps)"

definition timestamp_property :: "rat \<Rightarrow> jsv list \<Rightarrow> string \<Rightarrow> jsv \<Rightarrow> props \<Rightarrow> props" where
  "timestamp_property now originalArray key currentSchema ps =
     (if rx_search timestamp_rx key \<and> jget currentSchema ''type'' = JStr ''integer''
         \<and> list_all (\<lambda>item. case own item key of None \<Rightarrow> True
             | Some val \<Rightarrow> timestamp_like (now - 50 * 365 * 24 * 60 * 60 * 1000) val) originalArray
      then obj_put key (JObj [(''type'', JStr ''integer''), (''format'', JStr ''unix-timestamp''),
             (''description'', JStr ''Unix timestamp (likely milliseconds)'')]) ps
      else ps)"

definition semantic_property :: "rat \<Rightarrow> jsv list \<Rightarrow> props \<Rightarrow> string \<Rightarrow> props" where
  "semantic_property now originalArray ps key =
     (let currentSchema = asObjectSchema (jget (JObj ps) key)
      in timestamp_property now originalArray key currentSchema
           (coord_property originalArray key currentSchema ps))"

definition detectSemanticFormatsInArrayItems :: "rat \<Rightarrow> props \<Rightarrow> jsv list \<Rightarrow> props" where
  "detectSemanticFormatsInArrayItems now mergedProperties originalArray =
     foldl (semantic_property now originalArray) mergedProperties (obj_keys mergedProperties)"

section \<open>Arrays\<close>

definition merge_property :: "props \<times> (string \<times> nat) list \<Rightarrow> string \<times> jsv \<Rightarrow> props \<times> (string \<times> nat) list" where
  "merge_property mc kv =
     (case (mc, kv) of ((merged, counts), (key, value)) \<Rightarrow>
        (case map_of merged key of
           Some old \<Rightarrow> obj_put key (mergeSchemas old value) merged
         | None \<Rightarrow> obj_put key value merged,
         obj_put key ((case map_of counts key of None \<Rightarrow> 0 | Some n \<Rightarrow> n) + 1) counts))"

definition merge_item :: "props \<times> (string \<times> nat) list \<Rightarrow> jsv \<Rightarrow> props \<times> (string \<times> nat) list" where
  "merge_item mc schema =
     (let objSchema = asObjectSchema schema in
      if \<not> truthy (jget objSchema ''properties'') then mc
      else foldl merge_property mc (props_of (jget objSchema ''properties'')))"

definition processArrayOfObjects :: "rat \<Rightarrow> jsv list \<Rightarrow> jsv list \<Rightarrow> jsv" where
  "processArrayOfObjects now itemSchemas originalArray =
     (let totalItems = length itemSchemas;
          (merged, propertyCounts) = foldl merge_item ([], []) itemSchemas;
          requiredProps = map fst (filter (\<lambda>(key, count). count = totalItems) propertyCounts);
          enums = detectEnumsInArrayItems merged originalArray totalItems;
          properties = detectSemanticFormatsInArrayItems now enums originalArray
      in JObj [(''type'', JStr ''object''), (''properties'', JObj properties),
               (''required'', required_keys requiredProps)])"

definition array_of :: "jsv \<Rightarrow> jsv" where
  "array_of items = JObj [(''type'', JStr ''array''), (''items'', items), (''minItems'', JInt 0)]"

text \<open>The items come with their inferred schemas.\<close>

definition inferArraySchema :: "rat \<Rightarrow> jsv list \<Rightarrow> jsv list \<Rightarrow> jsv" where
  "inferArraySchema now obj itemSchemas =
     (if obj = [] then JObj [(''type'', JStr ''array''), (''items'', JObj [])]
      else (let firstItemSchema = asObjectSchema (hd itemSchemas);
                allSameType = list_all (\<lambda>schema.
                  jget (asObjectSchema schema) ''type'' = jget firstItemSchema ''type'') itemSchemas
            in if allSameType
               then (if jget firstItemSchema ''type'' = JStr ''object''
                     then array_of (processArrayOfObjects now itemSchemas obj)
                     else array_of (hd itemSchemas))
               else (let uniqueSchemas = json_unique itemSchemas
                     in array_of (if length uniqueSchemas = 1 then hd uniqueSchemas
                                  else JObj [(''oneOf'', JArr uniqueSchemas)]))))"

section \<open>Inference\<close>

fun inferSchema :: "rat \<Rightarrow> jsv \<Rightarrow> jsv" where
  "inferSchema now JNull = typed ''null''"
| "inferSchema now (JObj ps) = inferObjectSchema (map (\<lambda>(key, value). (key, value, inferSchema now value)) ps)"
| "inferSchema now (JArr xs) = inferArraySchema now xs (map (inferSchema now) xs)"
| "inferSchema now (JStr s) = inferStringSchema s"
| "inferSchema now (JNum n) = inferNumberSchema n"
| "inferSchema now (JBool b) = typed ''boolean''"
| "inferSchema now JUndef = JObj []"

definition createSchemaFromJson :: "rat \<Rightarrow> jsv \<Rightarrow> jsv" where
  "createSchemaFromJson now jsonObject =
     (let rootSchema = asObjectSchema (inferSchema now jsonObject);
          final = [(''$schema'', JStr ''https://json-schema.org/draft-07/schema''),
                   (''title'', JStr ''Generated Schema''), (''description'', JStr ''Generated from JSON data'')];
          given = (\<lambda>k. if jget rootSchema k \<noteq> JUndef then [(k, jget rootSchema k)] else [])
      in if jget rootSchema ''type'' = JStr ''object'' \<or> truthy (jget rootSchema ''properties'')
         then JObj (final @ [(''type'', JStr ''object''), (''properties'', jget rootSchema ''properties'')]
                    @ (if truthy (jget rootSchema ''required'') then [(''required'', jget rootSchema ''required'')] else []))
         else if jget rootSchema ''type'' = JStr ''array'' \<or> truthy (jget rootSchema ''items'')
         then JObj (final @ [(''type'', JStr ''array''), (''items'', jget rootSchema ''items'')]
                    @ given ''minItems'' @ given ''maxItems'')
         else if truthy (jget rootSchema ''type'')
         then JObj [(''$schema'', JStr ''https://json-schema.org/draft-07/schema''),
                    (''title'', JStr ''Generated Schema (Primitive Root)''),
                    (''description'', JStr ''Input was a primitive value, wrapped in an object.''),
                    (''type'', JStr ''object''), (''properties'', JObj [(''value'', rootSchema)]),
                    (''required'', JArr [JStr ''value''])]
         else JObj (final @ [(''type'', JStr ''object'')]))"

end
