(* ===== verification/Schema_Accept.thy ===== *)
theory Schema_Accept
  imports Schema_Infer
begin

text \<open>
  What it means for a value to satisfy a schema, as JSON Schema (draft 7) has it, for the keywords the
  inference uses; \<open>format\<close> and \<open>description\<close> are annotations. With it, the inferred schema is shown to
  accept the value it was inferred from, when all items of every array infer one schema.
\<close>

section \<open>Satisfying a schema\<close>

fun has_type :: "jsv \<Rightarrow> jsv \<Rightarrow> bool" where
  "has_type (JStr t) v =
     (case v of
        JUndef \<Rightarrow> False
      | JNull \<Rightarrow> t = ''null''
      | JBool b \<Rightarrow> t = ''boolean''
      | JNum n \<Rightarrow> t = ''number'' \<or> (t = ''integer'' \<and> is_integer v)
      | JStr s \<Rightarrow> t = ''string''
      | JArr xs \<Rightarrow> t = ''array''
      | JObj ps \<Rightarrow> t = ''object'')"
| "has_type _ v = True"

definition has_required :: "jsv \<Rightarrow> jsv \<Rightarrow> bool" where
  "has_required r v =
     (case v of JObj vs \<Rightarrow> list_all (\<lambda>k. case k of JStr k \<Rightarrow> map_of vs k \<noteq> None | _ \<Rightarrow> True) (elems r) | _ \<Rightarrow> True)"

definition has_length :: "jsv \<Rightarrow> jsv \<Rightarrow> jsv \<Rightarrow> bool" where
  "has_length least most v =
     (case v of
        JArr xs \<Rightarrow>
          (case least of JNum (Fin q) \<Rightarrow> q \<le> of_nat (length xs) | _ \<Rightarrow> True)
          \<and> (case most of JNum (Fin q) \<Rightarrow> of_nat (length xs) \<le> q | _ \<Rightarrow> True)
      | _ \<Rightarrow> True)"

definition in_enum :: "jsv \<Rightarrow> jsv \<Rightarrow> bool" where
  "in_enum e v = (case e of JArr xs \<Rightarrow> v \<in> set xs | _ \<Rightarrow> True)"

function (sequential) accepts :: "jsv \<Rightarrow> jsv \<Rightarrow> bool" where
  "accepts (JBool b) v = b"
| "accepts (JObj ps) v =
     (has_type (jget (JObj ps) ''type'') v
      \<and> has_required (jget (JObj ps) ''required'') v
      \<and> has_length (jget (JObj ps) ''minItems'') (jget (JObj ps) ''maxItems'') v
      \<and> in_enum (jget (JObj ps) ''enum'') v
      \<and> (case jget (JObj ps) ''properties'' of
           JObj qs \<Rightarrow> list_all (\<lambda>(k, s). case own v k of None \<Rightarrow> True | Some w \<Rightarrow> accepts s w) qs
         | _ \<Rightarrow> True)
      \<and> (if jget (JObj ps) ''items'' = JUndef then True
         else list_all (accepts (jget (JObj ps) ''items'')) (elems v))
      \<and> (case jget (JObj ps) ''oneOf'' of
           JArr ss \<Rightarrow> length (filter (\<lambda>s. accepts s v) ss) = 1
         | _ \<Rightarrow> True))"
| "accepts _ v = False"
  by pat_completeness auto

termination
  by (relation "measure (\<lambda>(s, v). size s)")
    (auto simp del: jget.simps dest: size_jget_prop size_jget_elem intro: size_jget_Suc)

declare accepts.simps [simp del]


text \<open>The cases the inference produces.\<close>

lemma typed_type [simp]: "jget (typed t) ''type'' = JStr t"
  by simp

lemma accepts_typed: "accepts (typed t) v = has_type (JStr t) v"
  by (simp add: accepts.simps has_required_def has_length_def in_enum_def elems_def split: jsv.split)

lemma accepts_has_type: "accepts (JObj ps) v \<Longrightarrow> has_type (jget (JObj ps) ''type'') v"
  by (simp add: accepts.simps del: jget.simps has_type.simps)

lemma accepts_array_of:
  "accepts (array_of s) v = (\<exists>xs. v = JArr xs \<and> (s \<noteq> JUndef \<longrightarrow> list_all (accepts s) xs))"
  by (cases v) (auto simp: array_of_def accepts.simps has_required_def has_length_def in_enum_def elems_def)

lemma accepts_enum:
  "accepts (JObj [(''type'', JStr t), (''enum'', JArr es)]) v = (has_type (JStr t) v \<and> v \<in> set es)"
  by (simp add: accepts.simps has_required_def has_length_def in_enum_def elems_def split: jsv.split)

lemma accepts_object:
  "accepts (JObj [(''type'', JStr ''object''), (''properties'', JObj qs), (''required'', r)]) v =
     (\<exists>vs. v = JObj vs \<and> has_required r v
        \<and> list_all (\<lambda>(k, s). case map_of vs k of None \<Rightarrow> True | Some w \<Rightarrow> accepts s w) qs)"
  by (cases v)
    (auto simp: accepts.simps has_length_def in_enum_def own_def)

lemma has_required_keys:
  "has_required (required_keys ks) (JObj ps) \<longleftrightarrow> (\<forall>k\<in>set ks. map_of ps k \<noteq> None)"
  by (auto simp: has_required_def required_keys_def elems_def list_all_iff)

section \<open>Objects\<close>

lemma inferObject_properties:
  "foldl (\<lambda>ps (key, value, schema). obj_put key schema ps) a
     (map (\<lambda>(k, v). (k, v, f v)) ps) = obj_assign a (map (\<lambda>(k, v). (k, f v)) ps)"
  by (induction ps arbitrary: a) (auto simp: obj_assign_def)

lemma map_of_map_snd: "map_of (map (\<lambda>(k, v). (k, f v)) ps) k = map_option f (map_of ps k)"
  by (induction ps) auto

lemma inferSchema_JObj:
  assumes "wf_obj ps"
  obtains qs r where "inferSchema now (JObj ps) =
      JObj [(''type'', JStr ''object''), (''properties'', JObj qs), (''required'', r)]"
    "wf_obj qs" "\<And>k. map_of qs k = map_option (inferSchema now) (map_of ps k)"
    "has_required r (JObj ps)"
proof -
  let ?qs = "obj_of (map (\<lambda>(k, v). (k, inferSchema now v)) ps)"
  let ?r = "required_keys (map fst (filter (\<lambda>(k, v, s). \<not> nullish v)
      (map (\<lambda>(k, v). (k, v, inferSchema now v)) ps)))"
  have "wf_obj (map (\<lambda>(k, v). (k, inferSchema now v)) ps)"
    using assms by (simp add: wf_obj_def comp_def case_prod_beta)
  then have "map_of ?qs k = map_option (inferSchema now) (map_of ps k)" for k
    by (simp add: obj_of_def map_of_obj_assign map_of_map_snd)
  moreover have "map_of ps k \<noteq> None"
    if "k \<in> set (map fst (filter (\<lambda>(k, v, s). \<not> nullish v) (map (\<lambda>(k, v). (k, v, inferSchema now v)) ps)))" for k
  proof -
    from that obtain v where "(k, v) \<in> set ps" by auto
    then show ?thesis by (auto simp: map_of_eq_None_iff intro: image_eqI [of _ _ "(k, v)"])
  qed
  then have "has_required ?r (JObj ps)" unfolding has_required_keys by blast
  moreover have "inferSchema now (JObj ps) =
      JObj [(''type'', JStr ''object''), (''properties'', JObj ?qs), (''required'', ?r)]"
    by (simp add: inferObjectSchema_def Let_def inferObject_properties obj_of_def)
  ultimately show thesis using that by simp
qed

lemma infer_array_type [simp]: "jget (inferArraySchema now xs ss) ''type'' = JStr ''array''"
  by (simp add: inferArraySchema_def Let_def array_of_def)

lemma infer_type_object:
  "jget (inferSchema now v) ''type'' = JStr ''object'' \<Longrightarrow> \<exists>ps. v = JObj ps"
  by (cases v) (auto simp: inferStringSchema_def inferNumberSchema_def split: option.splits if_splits)

section \<open>Properties of the items of an array\<close>

text \<open>A table of property schemas is good for items when each schema accepts what the items have there.\<close>

definition good_props :: "jsv list \<Rightarrow> props \<Rightarrow> bool" where
  "good_props items ps =
     (\<forall>k s. map_of ps k = Some s \<longrightarrow> (\<forall>x\<in>set items. \<forall>v. own x k = Some v \<longrightarrow> accepts s v))"

lemma good_put:
  assumes "good_props items ps" "\<And>x v. x \<in> set items \<Longrightarrow> own x k = Some v \<Longrightarrow> accepts s v"
  shows "good_props items (obj_put k s ps)"
  using assms by (simp add: good_props_def)

lemma good_foldl:
  assumes "\<And>ps a. a \<in> set as \<Longrightarrow> good_props items ps \<Longrightarrow> good_props items (f ps a)" "good_props items ps"
  shows "good_props items (foldl f ps as)"
  using assms by (induction as arbitrary: ps) auto

lemma good_type:
  assumes "good_props items ps" "x \<in> set items" "own x k = Some v"
    and "jget (asObjectSchema (jget (JObj ps) k)) ''type'' = JStr t" "t \<noteq> ''null''"
  shows "has_type (JStr t) v"
proof -
  let ?s = "jget (JObj ps) k"
  from assms(4,5) have "?s \<noteq> JUndef"
    by (auto simp: asObjectSchema_def isObjectSchema_def isBooleanSchema_def)
  then have "map_of ps k = Some ?s" by (auto split: option.splits)
  then have a: "accepts ?s v" using assms(1-3) unfolding good_props_def by blast
  from assms(4,5) a obtain qs where "?s = JObj qs"
    by (cases ?s) (auto simp: asObjectSchema_def isObjectSchema_def isBooleanSchema_def accepts.simps
        typed_type simp del: jget.simps(1))
  with a assms(4) accepts_has_type [of qs v] show ?thesis
    by (simp add: asObjectSchema_def isObjectSchema_def isBooleanSchema_def del: jget.simps)
qed

text \<open>The values collected under a key.\<close>

definition collected :: "(string \<times> jsv list) list \<Rightarrow> string \<Rightarrow> jsv set" where
  "collected vm k = (case map_of vm k of None \<Rightarrow> {} | Some vs \<Rightarrow> set vs)"

lemma collect_value_grows: "collected vm k \<subseteq> collected (collect_value item vm key) k"
  by (auto simp: collected_def collect_value_def split: option.splits)

lemma collect_value_adds:
  "own item key = Some v \<Longrightarrow> js_typeof v = ''string'' \<or> js_typeof v = ''number'' \<Longrightarrow>
     v \<in> collected (collect_value item vm key) key"
  by (auto simp: collected_def collect_value_def)

lemma collect_keys_grow: "collected vm k \<subseteq> collected (foldl (collect_value item) vm keys) k"
proof (induction keys arbitrary: vm)
  case (Cons key keys)
  from collect_value_grows [of vm k item key] Cons.IH [of "collect_value item vm key"] show ?case by auto
qed simp

lemma collect_keys_add:
  "key \<in> set keys \<Longrightarrow> own item key = Some v \<Longrightarrow> js_typeof v = ''string'' \<or> js_typeof v = ''number'' \<Longrightarrow>
     v \<in> collected (foldl (collect_value item) vm keys) key"
proof (induction keys arbitrary: vm)
  case (Cons k keys)
  then show ?case
    using collect_keys_grow [of "collect_value item vm key" key item keys] collect_value_adds [of item key v vm]
    by auto
qed simp

lemma value_map_adds:
  assumes "key \<in> set keys" "x \<in> set items" "own x key = Some v"
    "js_typeof v = ''string'' \<or> js_typeof v = ''number''"
  shows "v \<in> collected (value_map keys items) key"
proof -
  have grow: "collected vm k \<subseteq> collected (foldl (\<lambda>vm item. foldl (collect_value item) vm keys) vm its) k" for vm k its
  proof (induction its arbitrary: vm)
    case (Cons it its)
    from collect_keys_grow [of vm k it keys] Cons.IH [of "foldl (collect_value it) vm keys"] show ?case by auto
  qed simp
  have "v \<in> collected (foldl (\<lambda>vm item. foldl (collect_value item) vm keys) vm items) key" for vm
    using assms(2)
  proof (induction items arbitrary: vm)
    case (Cons it its)
    show ?case
    proof (cases "x = it")
      case True
      with collect_keys_add [OF assms(1,3,4), of vm] grow [of "foldl (collect_value it) vm keys" key its]
      show ?thesis by auto
    next
      case False
      with Cons show ?thesis by simp
    qed
  qed simp
  then show ?thesis by (simp add: value_map_def)
qed

lemma keys_value_map: "wf_obj vm \<Longrightarrow> wf_obj (foldl (\<lambda>vm item. foldl (collect_value item) vm keys) vm items)
    \<and> fst ` set (foldl (\<lambda>vm item. foldl (collect_value item) vm keys) vm items) \<subseteq> fst ` set vm \<union> set keys"
proof (induction items arbitrary: vm)
  case (Cons it its)
  have one: "wf_obj vm \<Longrightarrow> wf_obj (foldl (collect_value it) vm ks)
      \<and> fst ` set (foldl (collect_value it) vm ks) \<subseteq> fst ` set vm \<union> set ks" for ks vm
  proof (induction ks arbitrary: vm)
    case (Cons k ks)
    have "wf_obj (collect_value it vm k)" "fst ` set (collect_value it vm k) \<subseteq> insert k (fst ` set vm)"
      using Cons.prems by (auto simp: collect_value_def split: option.split)
    with Cons.IH [of "collect_value it vm k"] show ?case by (simp, blast)
  qed simp
  from one [OF Cons.prems, of keys] Cons.IH [of "foldl (collect_value it) vm keys"] show ?case by (simp, blast)
qed simp

lemma value_map_complete:
  assumes "(key, vs) \<in> set (value_map keys items)" "x \<in> set items" "own x key = Some v"
    "js_typeof v = ''string'' \<or> js_typeof v = ''number''"
  shows "v \<in> set vs"
proof -
  have "wf_obj (value_map keys items)" "key \<in> set keys"
    using keys_value_map [of "[]" keys items] assms(1) by (auto simp: value_map_def)
  with assms(1) have "map_of (value_map keys items) key = Some vs" by (simp add: wf_obj_def)
  with value_map_adds [OF \<open>key \<in> set keys\<close> assms(2-4)] show ?thesis by (simp add: collected_def)
qed

lemma enum_property_good:
  assumes "good_props items ps"
    and "\<And>x v. x \<in> set items \<Longrightarrow> own x key = Some v \<Longrightarrow>
           js_typeof v = ''string'' \<or> js_typeof v = ''number'' \<Longrightarrow> v \<in> set vs"
  shows "good_props items (enum_property n ps (key, vs))"
proof -
  let ?t = "jget (asObjectSchema (jget (JObj ps) key)) ''type''"
  have "accepts (JObj [(''type'', ?t), (''enum'', JArr (sort_key str_of vs))]) v"
    if x: "x \<in> set items" "own x key = Some v"
      and t: "?t = JStr t" "t \<in> {''string'', ''number'', ''integer''}" for x v t
  proof -
    have "has_type (JStr t) v" using good_type [OF assms(1) x t(1)] t(2) by auto
    moreover from this t(2) have "js_typeof v = ''string'' \<or> js_typeof v = ''number''" by (cases v) auto
    with assms(2) [OF x] have "v \<in> set vs" by blast
    ultimately show ?thesis unfolding t(1) accepts_enum by simp
  qed
  with good_put [OF assms(1)] show ?thesis
    using assms(1) unfolding enum_property_def Let_def by auto
qed

lemma detectEnums_good:
  assumes "good_props items ps"
  shows "good_props items (detectEnumsInArrayItems ps items n)"
proof (cases "n < 10 \<or> obj_keys ps = []")
  case True
  with assms show ?thesis by (auto simp: detectEnumsInArrayItems_def)
next
  case False
  have "good_props items (enum_property n qs kv)"
    if "kv \<in> set (value_map (obj_keys ps) items)" "good_props items qs" for qs kv
    using that value_map_complete [of "fst kv" "snd kv" "obj_keys ps" items]
      enum_property_good [of items qs "fst kv" "snd kv" n] by simp
  then show ?thesis
    using False assms unfolding detectEnumsInArrayItems_def by (simp add: good_foldl)
qed

lemma coord_check_other:
  assumes "own item key = Some v" "\<not> is_array v"
  shows "coord_check key (item # rest) l = (False, l)"
proof (cases v)
  case (JArr xs)
  with assms(2) have False by simp
  then show ?thesis ..
qed (use assms(1) in simp_all)

lemma coord_check_ok:
  "coord_check key items l = (True, Some n) \<Longrightarrow>
     (\<forall>x\<in>set items. \<forall>v. own x key = Some v \<longrightarrow>
        (\<exists>arr. v = JArr arr \<and> length arr = n \<and> list_all (\<lambda>v. js_typeof v = ''number'') arr))
     \<and> (l = None \<or> l = Some n)"
proof (induction items arbitrary: l)
  case Nil
  then show ?case by simp
next
  case (Cons item rest)
  show ?case
  proof (cases "own item key")
    case None
    with Cons.prems have "coord_check key rest l = (True, Some n)" by simp
    from Cons.IH [OF this] None show ?thesis by simp
  next
    case (Some v)
    with Cons.prems coord_check_other [OF Some, of rest l] have "is_array v" by auto
    then obtain arr where v: "v = JArr arr" by (cases v) simp_all
    define m where "m = (case l of None \<Rightarrow> length arr | Some n \<Rightarrow> n)"
    have "coord_check key (item # rest) l =
        (if length arr \<noteq> m \<or> (length arr \<noteq> 2 \<and> length arr \<noteq> 3) \<or> \<not> list_all (\<lambda>v. js_typeof v = ''number'') arr
         then (False, Some m) else coord_check key rest (Some m))"
      by (simp only: coord_check.simps Some v option.case jsv.case Let_def m_def)
    with Cons.prems have c: "length arr = m" "list_all (\<lambda>v. js_typeof v = ''number'') arr"
      "coord_check key rest (Some m) = (True, Some n)"
      by (auto split: if_splits)
    from Cons.IH [OF c(3)] have m: "m = n" by blast
    then have "l = None \<or> l = Some n" unfolding m_def by (cases l) simp_all
    with Cons.IH [OF c(3)] c(1,2) Some v m show ?thesis by auto
  qed
qed

lemma number_type: "js_typeof v = ''number'' \<Longrightarrow> has_type (JStr ''number'') v"
  by (cases v) auto

lemma accepts_coordinates:
  "length arr = n \<Longrightarrow> list_all (\<lambda>v. js_typeof v = ''number'') arr \<Longrightarrow>
     accepts (JObj [(''type'', JStr ''array''), (''items'', typed ''number''),
       (''minItems'', JInt (int n)), (''maxItems'', JInt (int n))]) (JArr arr)"
  by (simp add: accepts.simps(2) [of "[(''type'', JStr ''array''), _, _, _]"] has_required_def has_length_def
      in_enum_def elems_def accepts_typed list_all_iff number_type del: has_type.simps(1))
    (simp add: number_type)

lemma coord_property_good:
  "good_props items ps \<Longrightarrow> good_props items (coord_property items key s ps)"
proof -
  assume g: "good_props items ps"
  have "good_props items (obj_put key (JObj [(''type'', JStr ''array''), (''items'', typed ''number''),
      (''minItems'', JInt (int n)), (''maxItems'', JInt (int n))]) ps)"
    if "coord_check key items None = (True, Some n)" for n
    using coord_check_ok [OF that] accepts_coordinates by (intro good_put [OF g]) blast
  then show ?thesis
    using g by (cases "coord_check key items None") (simp add: coord_property_def split: bool.split option.split)
qed

lemma accepts_timestamp:
  "is_integer v \<Longrightarrow> accepts (JObj [(''type'', JStr ''integer''), (''format'', f), (''description'', d)]) v"
  by (cases v) (auto simp: accepts.simps has_required_def has_length_def in_enum_def is_integer_def)

lemma timestamp_property_good:
  "good_props items ps \<Longrightarrow> good_props items (timestamp_property now items key s ps)"
proof -
  assume g: "good_props items ps"
  have int: "timestamp_like y v \<Longrightarrow> is_integer v" for y v
    by (auto simp: timestamp_like_def is_integer_def split: jsv.splits jsnum.splits)
  show ?thesis
  proof (cases "list_all (\<lambda>item. case own item key of None \<Rightarrow> True
             | Some val \<Rightarrow> timestamp_like (now - 50 * 365 * 24 * 60 * 60 * 1000) val) items")
    case True
    then have "is_integer v" if "x \<in> set items" "own x key = Some v" for x v
      using that int by (force simp: list_all_iff)
    with g show ?thesis
      unfolding timestamp_property_def by (auto intro!: good_put accepts_timestamp)
  next
    case False
    with g show ?thesis unfolding timestamp_property_def by simp
  qed
qed

lemma detectSemantic_good:
  "good_props items ps \<Longrightarrow> good_props items (detectSemanticFormatsInArrayItems now ps items)"
  unfolding detectSemanticFormatsInArrayItems_def
  by (rule good_foldl) (simp_all add: semantic_property_def Let_def timestamp_property_good coord_property_good)

section \<open>Merging equal schemas\<close>

lemma mergeSchemas_same [simp]: "mergeSchemas s s = s"
  by (simp add: mergeSchemas_def Let_def)

definition count_of :: "(string \<times> nat) list \<Rightarrow> string \<Rightarrow> nat" where
  "count_of counts k = (case map_of counts k of None \<Rightarrow> 0 | Some n \<Rightarrow> n)"

lemma merge_property_pair:
  "merge_property (m, c) (k, v) =
     (case map_of m k of Some old \<Rightarrow> obj_put k (mergeSchemas old v) m | None \<Rightarrow> obj_put k v m,
      obj_put k ((case map_of c k of None \<Rightarrow> 0 | Some n \<Rightarrow> n) + 1) c)"
  by (simp add: merge_property_def)

lemma merge_properties:
  "wf_obj qs \<Longrightarrow> foldl merge_property (m, c) qs = (m', c') \<Longrightarrow>
     (\<forall>k. map_of m' k = (case map_of qs k of None \<Rightarrow> map_of m k
          | Some v \<Rightarrow> Some (case map_of m k of None \<Rightarrow> v | Some old \<Rightarrow> mergeSchemas old v)))
   \<and> (\<forall>k. count_of c' k = (if k \<in> fst ` set qs then count_of c k + 1 else count_of c k))
   \<and> fst ` set c' = fst ` set c \<union> fst ` set qs"
proof (induction qs arbitrary: m c)
  case Nil
  then show ?case by simp
next
  case (Cons kv qs)
  obtain k v where kv: "kv = (k, v)" by (cases kv)
  let ?m = "case map_of m k of Some old \<Rightarrow> obj_put k (mergeSchemas old v) m | None \<Rightarrow> obj_put k v m"
  let ?c = "obj_put k ((case map_of c k of None \<Rightarrow> 0 | Some n \<Rightarrow> n) + 1) c"
  have wf: "wf_obj qs" and new: "k \<notin> fst ` set qs"
    using Cons.prems(1) kv by (auto simp: wf_obj_def)
  then have none: "map_of qs k = None" by (simp add: map_of_eq_None_iff)
  have "foldl merge_property (?m, ?c) qs = (m', c')"
    using Cons.prems(2) by (simp add: kv merge_property_pair)
  note IH = Cons.IH [OF wf this]
  have "map_of m' x = (case map_of (kv # qs) x of None \<Rightarrow> map_of m x
      | Some v \<Rightarrow> Some (case map_of m x of None \<Rightarrow> v | Some old \<Rightarrow> mergeSchemas old v))" for x
  proof (cases "x = k")
    case True
    with IH none show ?thesis by (simp add: kv split: option.split)
  next
    case False
    with IH show ?thesis by (simp add: kv split: option.split)
  qed
  moreover have "count_of c' x = (if x \<in> fst ` set (kv # qs) then count_of c x + 1 else count_of c x)" for x
    using IH new by (simp add: kv count_of_def)
  moreover have "fst ` set c' = fst ` set c \<union> fst ` set (kv # qs)" using IH by (simp add: kv)
  ultimately show ?case by blast
qed

text \<open>Merging copies of one schema gives its properties, each counted once for every copy.\<close>

lemma merge_copies:
  assumes "wf_obj qs" "jget S ''properties'' = JObj qs" "isObjectSchema S"
    "foldl merge_item ([], []) (replicate n S) = (m, c)"
  shows "(\<forall>k. map_of m k = (if n = 0 then None else map_of qs k))
    \<and> (\<forall>k. count_of c k = (if k \<in> fst ` set qs then n else 0))
    \<and> fst ` set c = (if n = 0 then {} else fst ` set qs)"
  using assms(4)
proof (induction n arbitrary: m c)
  case 0
  then show ?case by (simp add: count_of_def)
next
  case (Suc n)
  obtain m0 c0 where mc: "foldl merge_item ([], []) (replicate n S) = (m0, c0)" by fastforce
  have "foldl merge_item ([], []) (replicate n S @ [S]) = (m, c)"
    using Suc.prems by (simp only: replicate_append_same replicate_Suc)
  then have "foldl merge_property (m0, c0) qs = (m, c)"
    using assms(2,3) by (simp add: mc merge_item_def asObjectSchema_def)
  from merge_properties [OF assms(1) this] Suc.IH [OF mc] show ?case
    by (auto split: option.splits simp: map_of_eq_None_iff
        intro: map_of_eq_None_iff [THEN iffD2, symmetric])
qed

section \<open>The inferred schema accepts the value\<close>

text \<open>A value without \<open>undefined\<close> all of whose arrays have items that infer one schema.\<close>

fun regular :: "rat \<Rightarrow> jsv \<Rightarrow> bool" where
  "regular now (JObj ps) = (wf_obj ps \<and> list_all (\<lambda>(k, v). regular now v) ps)"
| "regular now (JArr xs) =
     (list_all (regular now) xs \<and> list_all (\<lambda>x. inferSchema now x = inferSchema now (hd xs)) xs)"
| "regular now JUndef = False"
| "regular now _ = True"

lemma same_object_schema:
  assumes "wf_obj ps" "inferSchema now (JObj ps) =
      JObj [(''type'', JStr ''object''), (''properties'', JObj qs), (''required'', r)]"
  shows "map_of qs k = map_option (inferSchema now) (map_of ps k)"
  by (rule inferSchema_JObj [OF assms(1), of now]) (use assms(2) in auto)

text \<open>The property tables have one entry for each key.\<close>

lemma wf_foldl: "(\<And>ps a. wf_obj ps \<Longrightarrow> wf_obj (f ps a)) \<Longrightarrow> wf_obj ps \<Longrightarrow> wf_obj (foldl f ps as)"
  by (induction as arbitrary: ps) auto

lemma wf_detectEnums: "wf_obj ps \<Longrightarrow> wf_obj (detectEnumsInArrayItems ps xs n)"
  unfolding detectEnumsInArrayItems_def
  by (auto simp: enum_property_def Let_def intro!: wf_foldl split: prod.split)

lemma wf_detectSemantic: "wf_obj ps \<Longrightarrow> wf_obj (detectSemanticFormatsInArrayItems now ps xs)"
  unfolding detectSemanticFormatsInArrayItems_def
  by (rule wf_foldl)
    (auto simp: semantic_property_def timestamp_property_def coord_property_def Let_def
      split: prod.split option.split bool.split)

lemma wf_merge_property: "wf_obj (fst mc) \<Longrightarrow> wf_obj (fst (merge_property mc kv))"
  by (auto simp: merge_property_def split: prod.split option.split)

lemma wf_merge_properties: "wf_obj (fst mc) \<Longrightarrow> wf_obj (fst (foldl merge_property mc ps))"
  by (induction ps arbitrary: mc) (auto simp: wf_merge_property)

lemma wf_merge_items: "wf_obj (fst mc) \<Longrightarrow> wf_obj (fst (foldl merge_item mc ss))"
  by (induction ss arbitrary: mc) (auto simp: merge_item_def Let_def wf_merge_properties)

lemma accepts_object_items:
  assumes reg: "\<forall>x\<in>set xs. regular now x" and S: "\<forall>x\<in>set xs. inferSchema now x = S" "xs \<noteq> []"
    and obj: "jget S ''type'' = JStr ''object''" and IH: "\<forall>x\<in>set xs. accepts S x"
  shows "list_all (accepts (processArrayOfObjects now (replicate (length xs) S) xs)) xs"
proof -
  have objs: "\<exists>ps. x = JObj ps \<and> wf_obj ps" if "x \<in> set xs" for x
    using infer_type_object [of now x] S(1) obj reg that by fastforce
  obtain ps0 where ps0: "JObj ps0 \<in> set xs" "wf_obj ps0"
    using objs [OF hd_in_set [OF S(2)]] hd_in_set [OF S(2)] by metis
  obtain qs r where SS: "S = JObj [(''type'', JStr ''object''), (''properties'', JObj qs), (''required'', r)]"
    "wf_obj qs"
    using inferSchema_JObj [OF ps0(2), of now] S(1) ps0(1) by metis
  have keys: "map_of qs k = map_option (inferSchema now) (map_of ps k)" if "JObj ps \<in> set xs" for ps k
    using same_object_schema [of ps now qs r k] objs [OF that] S(1) that SS(1) by auto
  obtain m c where mc: "foldl merge_item ([], []) (replicate (length xs) S) = (m, c)" by fastforce
  have m: "map_of m k = map_of qs k" "count_of c k = (if k \<in> fst ` set qs then length xs else 0)"
    "fst ` set c = fst ` set qs" for k
    using merge_copies [OF SS(2) _ _ mc] S(2) SS(1) by (auto simp: isObjectSchema_def isBooleanSchema_def)
  have good: "good_props xs m"
    unfolding good_props_def
  proof (intro allI impI ballI)
    fix k s x v
    assume a: "map_of m k = Some s" "x \<in> set xs" "own x k = Some v"
    then obtain ps where ps: "x = JObj ps" "map_of ps k = Some v" using objs [OF a(2)] by (auto simp: own_def)
    have "accepts S (JObj ps)" using IH a(2) ps(1) by blast
    then have "list_all (\<lambda>(k, s). case map_of ps k of None \<Rightarrow> True | Some w \<Rightarrow> accepts s w) qs"
      unfolding SS(1) accepts_object by blast
    moreover have "(k, s) \<in> set qs" using a(1) m(1) by (simp add: map_of_SomeD)
    ultimately show "accepts s v" using ps(2) by (auto simp: list_all_iff)
  qed
  define props where "props = detectSemanticFormatsInArrayItems now (detectEnumsInArrayItems m xs (length xs)) xs"
  have gp: "good_props xs props" unfolding props_def by (intro detectSemantic_good detectEnums_good good)
  have "wf_obj m" using wf_merge_items [of "([], [])" "replicate (length xs) S"] by (simp add: mc)
  then have wp: "wf_obj props" unfolding props_def by (intro wf_detectSemantic wf_detectEnums)
  let ?req = "map fst (filter (\<lambda>(k, n). n = length xs) c)"
  have "has_required (required_keys ?req) (JObj ps)" if "JObj ps \<in> set xs" for ps
    unfolding has_required_keys
  proof
    fix k
    assume "k \<in> set ?req"
    then have "k \<in> fst ` set qs" using m(3) by force
    then have "map_of qs k \<noteq> None" by (simp add: map_of_eq_None_iff)
    with keys [OF that, of k] show "map_of ps k \<noteq> None" by (cases "map_of ps k") auto
  qed
  moreover have "list_all (\<lambda>(k, s). case map_of ps k of None \<Rightarrow> True | Some w \<Rightarrow> accepts s w) props"
    if "JObj ps \<in> set xs" for ps
  proof -
    have "case map_of ps k of None \<Rightarrow> True | Some w \<Rightarrow> accepts s w" if "(k, s) \<in> set props" for k s
    proof -
      have "map_of props k = Some s" using wp that by (simp add: wf_obj_def)
      with gp \<open>JObj ps \<in> set xs\<close> show ?thesis
        unfolding good_props_def own_def by (auto split: option.split)
    qed
    then show ?thesis by (auto simp: list_all_iff)
  qed
  moreover have "processArrayOfObjects now (replicate (length xs) S) xs =
      JObj [(''type'', JStr ''object''), (''properties'', JObj props), (''required'', required_keys ?req)]"
    by (simp add: processArrayOfObjects_def mc props_def Let_def)
  ultimately have "accepts (processArrayOfObjects now (replicate (length xs) S) xs) (JObj ps)"
    if "JObj ps \<in> set xs" for ps
    using that by (simp add: accepts_object)
  with objs show ?thesis unfolding list_all_iff by metis
qed

lemma inferSchema_is_object: "\<exists>ps. inferSchema now v = JObj ps"
  by (cases v) (auto simp: inferStringSchema_def inferNumberSchema_def inferObjectSchema_def
      inferArraySchema_def array_of_def Let_def split: option.splits)

lemma asObjectSchema_infer [simp]: "asObjectSchema (inferSchema now v) = inferSchema now v"
  using inferSchema_is_object [of now v]
  by (auto simp: asObjectSchema_def isObjectSchema_def isBooleanSchema_def)

lemma infer_same_array:
  assumes "xs \<noteq> []" "\<forall>x\<in>set xs. inferSchema now x = S"
  shows "inferSchema now (JArr xs) = array_of
    (if jget S ''type'' = JStr ''object'' then processArrayOfObjects now (replicate (length xs) S) xs else S)"
proof -
  have rep: "map (inferSchema now) xs = replicate (length xs) S"
    using assms(2) by (simp add: map_replicate_const [symmetric])
  have hd: "hd (map (inferSchema now) xs) = S" using assms by (simp add: hd_map)
  have "asObjectSchema S = S" using assms asObjectSchema_infer [of now "hd xs"] hd_in_set by metis
  with rep hd assms(1) show ?thesis by (auto simp: inferArraySchema_def Let_def list_all_iff)
qed

lemma accepts_infer_string: "accepts (inferStringSchema s) (JStr s)"
  by (auto simp: inferStringSchema_def accepts_typed accepts.simps has_required_def has_length_def
      in_enum_def elems_def split: option.split)

lemma accepts_infer_number: "accepts (inferNumberSchema n) (JNum n)"
  by (simp add: inferNumberSchema_def accepts_typed)

lemma accepts_infer_object:
  assumes "wf_obj ps" "\<And>k v. (k, v) \<in> set ps \<Longrightarrow> accepts (inferSchema now v) v"
  shows "accepts (inferSchema now (JObj ps)) (JObj ps)"
proof -
  obtain qs r where S: "inferSchema now (JObj ps) =
      JObj [(''type'', JStr ''object''), (''properties'', JObj qs), (''required'', r)]"
    "wf_obj qs" "\<And>k. map_of qs k = map_option (inferSchema now) (map_of ps k)" "has_required r (JObj ps)"
    using inferSchema_JObj [OF assms(1)] by metis
  have "case map_of ps k of None \<Rightarrow> True | Some w \<Rightarrow> accepts s w" if "(k, s) \<in> set qs" for k s
  proof (cases "map_of ps k")
    case (Some w)
    from that S(2) have "map_of qs k = Some s" by (simp add: wf_obj_def)
    with S(3) [of k] Some have "s = inferSchema now w" by simp
    with Some assms(2) [OF map_of_SomeD [OF Some]] show ?thesis by simp
  qed simp
  then show ?thesis unfolding S(1) accepts_object using S(4) by (auto simp: list_all_iff)
qed

lemma accepts_infer_array:
  assumes reg: "regular now (JArr xs)" and IH: "\<And>x. x \<in> set xs \<Longrightarrow> accepts (inferSchema now x) x"
  shows "accepts (inferSchema now (JArr xs)) (JArr xs)"
proof (cases "xs = []")
  case True
  then show ?thesis
    by (simp add: inferArraySchema_def accepts.simps has_required_def has_length_def in_enum_def elems_def)
next
  case False
  let ?S = "inferSchema now (hd xs)"
  have S: "\<forall>x\<in>set xs. inferSchema now x = ?S" "\<forall>x\<in>set xs. regular now x"
    using reg by (simp_all add: list_all_iff)
  then have acc: "\<forall>x\<in>set xs. accepts ?S x" using IH by metis
  show ?thesis
    unfolding infer_same_array [OF False S(1)] accepts_array_of
    using accepts_object_items [OF S(2,1) False _ acc] acc by (auto simp: list_all_iff)
qed

lemma accepts_inferSchema: "regular now v \<Longrightarrow> accepts (inferSchema now v) v"
proof (induction v)
  case (JObj ps)
  then show ?case
    by (intro accepts_infer_object) (fastforce simp: list_all_iff)+
next
  case (JArr xs)
  show ?case
    by (rule accepts_infer_array [OF JArr.prems])
      (use JArr in \<open>auto simp: list_all_iff\<close>)
qed (simp_all add: accepts_typed accepts_infer_string accepts_infer_number)

section \<open>The schema of a document\<close>

text \<open>What the schema of a document is asked to accept: a primitive value comes wrapped in an object.\<close>

definition document :: "jsv \<Rightarrow> jsv" where
  "document v = (case v of JObj _ \<Rightarrow> v | JArr _ \<Rightarrow> v | _ \<Rightarrow> JObj [(''value'', v)])"

abbreviation heading :: "string \<Rightarrow> string \<Rightarrow> props" where
  "heading t d \<equiv> [(''$schema'', JStr ''https://json-schema.org/draft-07/schema''),
     (''title'', JStr t), (''description'', JStr d)]"

lemma accepts_heading: "accepts (JObj (heading t d @ ps)) v = accepts (JObj ps) v"
  by (simp add: accepts.simps)

lemma accepts_document_object:
  assumes "accepts (JObj [(''type'', JStr ''object''), (''properties'', JObj qs), (''required'', r)]) v"
  shows "accepts (JObj (heading t d @ [(''type'', JStr ''object''), (''properties'', JObj qs)]
           @ (if truthy r then [(''required'', r)] else []))) v"
proof (cases "truthy r")
  case True
  with assms accepts_heading [of t d "[(''type'', JStr ''object''), (''properties'', JObj qs), (''required'', r)]" v]
  show ?thesis by simp
next
  case False
  with assms show ?thesis
    by (simp add: accepts.simps has_required_def elems_def split: jsv.splits)
qed

lemma accepts_wrapped:
  assumes "accepts S v"
  shows "accepts (JObj (heading t d @ [(''type'', JStr ''object''), (''properties'', JObj [(''value'', S)]),
           (''required'', JArr [JStr ''value''])])) (JObj [(''value'', v)])"
  using assms by (simp add: accepts.simps has_required_def has_length_def in_enum_def own_def elems_def)

lemma createSchema_object:
  assumes "regular now (JObj ps)"
  shows "accepts (createSchemaFromJson now (JObj ps)) (JObj ps)"
proof -
  obtain qs r where S: "inferSchema now (JObj ps) =
      JObj [(''type'', JStr ''object''), (''properties'', JObj qs), (''required'', r)]"
    using inferSchema_JObj assms by (metis regular.simps(1))
  with accepts_inferSchema [OF assms]
  have "accepts (JObj [(''type'', JStr ''object''), (''properties'', JObj qs), (''required'', r)]) (JObj ps)"
    by (simp del: inferSchema.simps)
  from accepts_document_object [OF this, of "''Generated Schema''" "''Generated from JSON data''"] show ?thesis
    by (simp add: createSchemaFromJson_def S Let_def asObjectSchema_def isObjectSchema_def isBooleanSchema_def
        del: inferSchema.simps split: if_splits)
qed

lemma createSchema_array:
  assumes "regular now (JArr xs)"
  shows "accepts (createSchemaFromJson now (JArr xs)) (JArr xs)"
proof (cases "xs = []")
  case True
  then show ?thesis
    by (simp add: createSchemaFromJson_def inferArraySchema_def Let_def asObjectSchema_def isObjectSchema_def
      isBooleanSchema_def accepts.simps has_required_def has_length_def in_enum_def elems_def)
next
  case False
  obtain s where S: "inferSchema now (JArr xs) = array_of s" "s \<noteq> JUndef"
  proof -
    have "\<forall>x\<in>set xs. inferSchema now x = inferSchema now (hd xs)" using assms by (simp add: list_all_iff)
    from infer_same_array [OF False this] inferSchema_is_object [of now "hd xs"] that show thesis
      by (auto simp: processArrayOfObjects_def Let_def split: prod.splits)
  qed
  have "list_all (accepts s) xs" using accepts_inferSchema [OF assms] S by (simp only: accepts_array_of) simp
  with S(2) show ?thesis
    by (simp add: createSchemaFromJson_def S(1) Let_def asObjectSchema_def isObjectSchema_def isBooleanSchema_def
        array_of_def accepts.simps has_required_def has_length_def in_enum_def elems_def del: inferSchema.simps)
qed

lemma createSchema_primitive:
  assumes "regular now v" "\<And>ps. v \<noteq> JObj ps" "\<And>xs. v \<noteq> JArr xs"
  shows "accepts (createSchemaFromJson now v) (JObj [(''value'', v)])"
proof -
  let ?S = "inferSchema now v"
  have "\<exists>t. jget ?S ''type'' = JStr t \<and> t \<noteq> [] \<and> t \<noteq> ''object'' \<and> t \<noteq> ''array''
      \<and> jget ?S ''properties'' = JUndef \<and> jget ?S ''items'' = JUndef"
    using assms by (cases v) (auto simp: inferStringSchema_def inferNumberSchema_def split: option.splits)
  then have "createSchemaFromJson now v = JObj (heading ''Generated Schema (Primitive Root)''
      ''Input was a primitive value, wrapped in an object.'' @ [(''type'', JStr ''object''),
      (''properties'', JObj [(''value'', ?S)]), (''required'', JArr [JStr ''value''])])"
    by (auto simp: createSchemaFromJson_def Let_def simp del: inferSchema.simps jget.simps)
  with accepts_wrapped [OF accepts_inferSchema [OF assms(1)]] show ?thesis by (simp only:)
qed

text \<open>
  C11. Inference is sound: the schema generated from a JSON document whose arrays each have items of one
  inferred schema (with enumerations, coordinates and timestamps detected in arrays of objects) accepts
  that document; a primitive document is accepted in its wrapper object.
\<close>

theorem generated_schema_accepts_its_document:
  "regular now v \<Longrightarrow> accepts (createSchemaFromJson now v) (document v)"
  using createSchema_object createSchema_array createSchema_primitive
  by (cases v) (simp_all add: document_def)

lemma generated_schema_accepts_its_document_witness:
  "accepts (createSchemaFromJson 0 (JObj [(''rows'', JArr [JObj [(''id'', JInt 1)], JObj [(''id'', JInt 2)]])]))
     (document (JObj [(''rows'', JArr [JObj [(''id'', JInt 1)], JObj [(''id'', JInt 2)]])]))"
  by (rule generated_schema_accepts_its_document)
    (simp add: wf_obj_def inferObjectSchema_def inferNumberSchema_def is_integer_def nullish_def)

text \<open>
  An array that mixes integers with other numbers gets \<open>oneOf\<close> of the integer and the number
  schema; an integer satisfies both, so the inferred schema rejects the array it was inferred from.
\<close>

theorem mixed_numbers_rejected:
  assumes "is_integer (JNum a)" "\<not> is_integer (JNum b)"
  shows "\<not> accepts (inferSchema now (JArr [JNum a, JNum b])) (JArr [JNum a, JNum b])"
  using assms
  by (simp add: inferNumberSchema_def inferArraySchema_def Let_def json_unique_def json_same_def
      asObjectSchema_def isObjectSchema_def isBooleanSchema_def accepts_array_of accepts.simps
      has_required_def has_length_def in_enum_def elems_def)

lemma is_int_half: "\<not> is_int (1 / 2)"
proof -
  have "\<lfloor>1 / 2 :: rat\<rfloor> = 0" by (simp add: floor_eq_iff)
  then show ?thesis by (simp add: is_int_def)
qed

lemma mixed_numbers_rejected_witness:
  "\<not> accepts (inferSchema 0 (JArr [JNum (Fin 1), JNum (Fin (1/2))])) (JArr [JNum (Fin 1), JNum (Fin (1/2))])"
  by (rule mixed_numbers_rejected) (simp_all add: is_integer_def is_int_half)

end
