(* ===== verification/Schema_Edit.thy ===== *)
theory Schema_Edit
  imports Schema_Accept
begin

text \<open>
  The handlers of the schema editor (\<open>components/schema-editor\<close> of the schema builder): fields of the
  root schema (\<open>schema-visual-editor.tsx\<close>, \<open>schema-field-list.tsx\<close>), properties of an object schema
  (\<open>types/object-editor.tsx\<close>) and their settings by type. A handler gives the schema that it passes to
  \<open>onChange\<close>, \<open>None\<close> where it returns without calling it.
\<close>

section \<open>The fields of the root schema\<close>

definition handleAddField :: "jsv \<Rightarrow> new_field \<Rightarrow> jsv" where
  "handleAddField schema newField =
     (let fieldSchema = createFieldSchema newField;
          newSchema = updateObjectProperty (asObjectSchema schema) (f_name newField) fieldSchema
      in if f_required newField then updatePropertyRequired newSchema (f_name newField) True else newSchema)"

definition drop_property :: "jsv \<Rightarrow> string \<Rightarrow> jsv" where
  "drop_property schema name =
     js_object [Spread (JObj (obj_del ''properties'' (props_of schema))),
                Prop ''properties'' (JObj (obj_del name (props_of (jget schema ''properties''))))]"

definition handleEditField :: "jsv \<Rightarrow> string \<Rightarrow> new_field \<Rightarrow> jsv" where
  "handleEditField schema name updatedField =
     (let fieldSchema = createFieldSchema updatedField;
          s1 = updateObjectProperty (asObjectSchema schema) (f_name updatedField) fieldSchema;
          s2 = updatePropertyRequired s1 (f_name updatedField) (f_required updatedField)
      in if name \<noteq> f_name updatedField
         then (let s3 = updateObjectProperty (drop_property s2 name) (f_name updatedField) fieldSchema
               in if f_required updatedField then updatePropertyRequired s3 (f_name updatedField) True else s3)
         else s2)"

definition handleDeleteField :: "jsv \<Rightarrow> string \<Rightarrow> jsv option" where
  "handleDeleteField schema name =
     (if isBooleanSchema schema \<or> \<not> truthy (jget schema ''properties'') then None
      else (let newSchema = js_object [Spread schema,
                  Prop ''properties'' (JObj (obj_del name (props_of (jget schema ''properties''))))]
            in Some (if truthy (jget newSchema ''required'')
                     then jset newSchema ''required''
                            (JArr (filter (\<lambda>field. field \<noteq> JStr name) (elems (jget newSchema ''required''))))
                     else newSchema)))"

section \<open>The list of fields\<close>

definition getValidSchemaType :: "jsv \<Rightarrow> jsv" where
  "getValidSchemaType propSchema =
     (if js_typeof propSchema = ''boolean'' then JStr ''object''
      else (case jget propSchema ''type'' of
              JArr ts \<Rightarrow> js_or (jget (JArr ts) ''0'') (JStr ''object'')
            | t \<Rightarrow> js_or t (JStr ''object'')))"

definition field_of :: "string \<Rightarrow> bool \<Rightarrow> jsv \<Rightarrow> new_field" where
  "field_of name required schema =
     \<lparr>f_name = name, f_type = getValidSchemaType schema,
      f_description = (if js_typeof schema = ''boolean'' then JStr []
                       else js_or (jget schema ''description'') (JStr [])),
      f_required = required,
      f_validation = (if js_typeof schema = ''boolean'' then JObj [(''type'', JStr ''object'')] else schema)\<rparr>"

definition handleNameChange :: "jsv \<Rightarrow> string \<Rightarrow> string \<Rightarrow> jsv option" where
  "handleNameChange schema oldName newName =
     (case find (\<lambda>prop. p_name prop = oldName) (getSchemaProperties schema) of
        None \<Rightarrow> None
      | Some property \<Rightarrow>
          Some (handleEditField schema oldName (field_of newName (p_required property) (p_schema property))))"

definition handleRequiredChange :: "jsv \<Rightarrow> string \<Rightarrow> bool \<Rightarrow> jsv option" where
  "handleRequiredChange schema name required =
     (case find (\<lambda>prop. p_name prop = name) (getSchemaProperties schema) of
        None \<Rightarrow> None
      | Some property \<Rightarrow> Some (handleEditField schema name (field_of name required (p_schema property))))"

definition handleSchemaChange :: "jsv \<Rightarrow> string \<Rightarrow> jsv \<Rightarrow> jsv option" where
  "handleSchemaChange schema name updatedSchema =
     (case find (\<lambda>prop. p_name prop = name) (getSchemaProperties schema) of
        None \<Rightarrow> None
      | Some property \<Rightarrow>
          (let type = js_or (jget updatedSchema ''type'') (JStr ''object'');
               validType = (case type of JArr ts \<Rightarrow> js_or (jget type ''0'') (JStr ''object'') | _ \<Rightarrow> type)
           in Some (handleEditField schema name
                \<lparr>f_name = name, f_type = validType,
                 f_description = js_or (jget updatedSchema ''description'') (JStr []),
                 f_required = p_required property, f_validation = updatedSchema\<rparr>)))"

section \<open>The properties of an object schema\<close>

definition normalizedSchema :: "jsv \<Rightarrow> jsv" where
  "normalizedSchema schema =
     (if isBooleanSchema schema then JObj [(''type'', JStr ''object''), (''properties'', JObj [])]
      else js_object [Spread schema, Prop ''type'' (JStr ''object''),
                      Prop ''properties'' (js_or (jget schema ''properties'') (JObj []))])"

definition handleAddProperty :: "jsv \<Rightarrow> new_field \<Rightarrow> jsv" where
  "handleAddProperty schema newField =
     (let fieldSchema = js_object [Prop ''type'' (f_type newField),
            Prop ''description'' (js_or (f_description newField) JUndef),
            Spread (js_or (f_validation newField) (JObj []))];
          newSchema = updateObjectProperty (normalizedSchema schema) (f_name newField) fieldSchema
      in if f_required newField then updatePropertyRequired newSchema (f_name newField) True else newSchema)"

definition handleDeleteProperty :: "jsv \<Rightarrow> string \<Rightarrow> jsv" where
  "handleDeleteProperty schema propertyName = removeObjectProperty (normalizedSchema schema) propertyName"

definition handlePropertyNameChange :: "jsv \<Rightarrow> string \<Rightarrow> string \<Rightarrow> jsv option" where
  "handlePropertyNameChange schema oldName newName =
     (if oldName = newName then None
      else (case find (\<lambda>p. p_name p = oldName) (getSchemaProperties schema) of
              None \<Rightarrow> None
            | Some property \<Rightarrow>
                (let s1 = updateObjectProperty (normalizedSchema schema) newName (asObjectSchema (p_schema property));
                     s2 = (if p_required property then updatePropertyRequired s1 newName True else s1)
                 in Some (removeObjectProperty s2 oldName))))"

definition handlePropertyRequiredChange :: "jsv \<Rightarrow> string \<Rightarrow> bool \<Rightarrow> jsv" where
  "handlePropertyRequiredChange schema propertyName required =
     updatePropertyRequired (normalizedSchema schema) propertyName required"

definition handlePropertySchemaChange :: "jsv \<Rightarrow> string \<Rightarrow> jsv \<Rightarrow> jsv" where
  "handlePropertySchemaChange schema propertyName propertySchema =
     updateObjectProperty (normalizedSchema schema) propertyName propertySchema"

section \<open>Editing as changes of a table\<close>

text \<open>
  What the handlers promise: a schema is a table of fields and a set of required names, and an editor
  puts, drops and marks them one at a time.
\<close>

locale field_editor =
  fixes ok :: "'s \<Rightarrow> bool" and fields :: "'s \<Rightarrow> string \<Rightarrow> jsv option" and needed :: "'s \<Rightarrow> string set"
    and put_field :: "'s \<Rightarrow> string \<Rightarrow> jsv \<Rightarrow> 's" and drop_field :: "'s \<Rightarrow> string \<Rightarrow> 's"
    and mark_field :: "'s \<Rightarrow> string \<Rightarrow> bool \<Rightarrow> 's"
  assumes put_ok: "ok s \<Longrightarrow> ok (put_field s n v)"
    and put_fields: "ok s \<Longrightarrow> fields (put_field s n v) = (fields s)(n \<mapsto> v)"
    and put_needed: "ok s \<Longrightarrow> needed (put_field s n v) = needed s"
    and drop_ok: "ok s \<Longrightarrow> ok (drop_field s n)"
    and drop_fields: "ok s \<Longrightarrow> fields (drop_field s n) = (fields s)(n := None)"
    and drop_needed: "ok s \<Longrightarrow> fields s n \<noteq> None \<Longrightarrow> needed (drop_field s n) = needed s - {n}"
    and mark_ok: "ok s \<Longrightarrow> ok (mark_field s n b)"
    and mark_fields: "ok s \<Longrightarrow> fields (mark_field s n b) = fields s"
    and mark_needed: "ok s \<Longrightarrow> needed (mark_field s n b) = (if b then insert n (needed s) else needed s - {n})"
begin

lemmas field_laws = put_ok put_fields put_needed drop_ok drop_fields drop_needed mark_ok mark_fields mark_needed

definition place :: "'s \<Rightarrow> string \<Rightarrow> jsv \<Rightarrow> bool \<Rightarrow> 's" where
  "place s n v b = (if b then mark_field (put_field s n v) n True else put_field s n v)"

lemma place_laws:
  assumes "ok s"
  shows "ok (place s n v b)" "fields (place s n v b) = (fields s)(n \<mapsto> v)"
    "needed (place s n v b) = (if b then insert n (needed s) else needed s)"
  using assms by (simp_all add: place_def field_laws)

lemma rename_laws:
  assumes "ok s" "fields s old \<noteq> None" "old \<noteq> new"
  shows "ok (drop_field (place s new v b) old)"
    "fields (drop_field (place s new v b) old) = (fields s)(old := None, new \<mapsto> v)"
    "needed (drop_field (place s new v b) old) = (if b then insert new (needed s) else needed s) - {old}"
  using assms by (auto simp: field_laws place_laws fun_eq_iff)

end

section \<open>The editor on schemas\<close>

text \<open>An object schema as the editor makes it: its properties are an object, its required names an array.\<close>

definition schema_ok :: "jsv \<Rightarrow> bool" where
  "schema_ok s =
     ((case s of JObj ps \<Rightarrow> wf_obj ps | _ \<Rightarrow> False)
      \<and> (case jget s ''properties'' of JUndef \<Rightarrow> True | JObj qs \<Rightarrow> wf_obj qs | _ \<Rightarrow> False)
      \<and> (case jget s ''required'' of JUndef \<Rightarrow> True | JArr rs \<Rightarrow> True | _ \<Rightarrow> False))"

definition schema_fields :: "jsv \<Rightarrow> string \<Rightarrow> jsv option" where
  "schema_fields s = map_of (props_of (jget s ''properties''))"

definition schema_needed :: "jsv \<Rightarrow> string set" where
  "schema_needed s = {k. JStr k \<in> set (elems (jget s ''required''))}"

lemma schema_okE:
  assumes "schema_ok s"
  obtains ps where "s = JObj ps" "wf_obj ps"
    "jget s ''properties'' = JUndef \<or> (\<exists>qs. jget s ''properties'' = JObj qs \<and> wf_obj qs)"
    "jget s ''required'' = JUndef \<or> (\<exists>rs. jget s ''required'' = JArr rs)"
proof (cases s)
  case (JObj ps)
  with assms that show thesis
    by (simp add: schema_ok_def del: jget.simps split: jsv.splits)
qed (use assms in \<open>simp_all add: schema_ok_def\<close>)

lemma schema_okI:
  "s = JObj ps \<Longrightarrow> wf_obj ps \<Longrightarrow>
     jget s ''properties'' = JUndef \<or> (\<exists>qs. jget s ''properties'' = JObj qs \<and> wf_obj qs) \<Longrightarrow>
     jget s ''required'' = JUndef \<or> (\<exists>rs. jget s ''required'' = JArr rs) \<Longrightarrow> schema_ok s"
  by (auto simp: schema_ok_def simp del: jget.simps)

lemma isObjectSchema_JObj [simp]: "isObjectSchema (JObj ps)"
  by (simp add: isObjectSchema_def isBooleanSchema_def)

lemma asObjectSchema_JObj [simp]: "asObjectSchema (JObj ps) = JObj ps"
  by (simp add: asObjectSchema_def)

lemma props_of_JUndef [simp]: "props_of JUndef = []"
  by (simp add: props_of_def)

lemma elems_simps [simp]: "elems (JArr xs) = xs" "elems JUndef = []"
  by (simp_all add: elems_def)

lemma put_property:
  assumes "schema_ok s"
  shows "schema_ok (updateObjectProperty s n v)
    \<and> schema_fields (updateObjectProperty s n v) = (schema_fields s)(n \<mapsto> v)
    \<and> schema_needed (updateObjectProperty s n v) = schema_needed s"
proof -
  from assms obtain ps where s: "s = JObj ps" "wf_obj ps"
    and p: "jget s ''properties'' = JUndef \<or> (\<exists>qs. jget s ''properties'' = JObj qs \<and> wf_obj qs)"
    and r: "jget s ''required'' = JUndef \<or> (\<exists>rs. jget s ''required'' = JArr rs)" by (rule schema_okE)
  obtain qs where qs: "wf_obj qs" "updateObjectProperty s n v = JObj (obj_put ''properties'' (JObj (obj_put n v qs)) ps)"
    "map_of qs = schema_fields s"
    using p s that [of "props_of (jget s ''properties'')"]
    by (auto simp: updateObjectProperty_def copySchema_def schema_fields_def Let_def simp del: jget.simps)
  then show ?thesis
    using s r by (auto simp: schema_fields_def schema_needed_def simp del: jget.simps intro!: schema_okI [OF refl])
qed

lemma drop_property_laws:
  assumes "schema_ok s"
  shows "schema_ok (removeObjectProperty s n)
    \<and> schema_fields (removeObjectProperty s n) = (schema_fields s)(n := None)
    \<and> (schema_fields s n \<noteq> None \<longrightarrow> schema_needed (removeObjectProperty s n) = schema_needed s - {n})"
proof -
  from assms obtain ps where s: "s = JObj ps" "wf_obj ps"
    and p: "jget s ''properties'' = JUndef \<or> (\<exists>qs. jget s ''properties'' = JObj qs \<and> wf_obj qs)"
    and r: "jget s ''required'' = JUndef \<or> (\<exists>rs. jget s ''required'' = JArr rs)" by (rule schema_okE)
  from p show ?thesis
  proof
    assume u: "jget s ''properties'' = JUndef"
    then have "removeObjectProperty s n = s" by (simp add: removeObjectProperty_def)
    with u assms show ?thesis by (simp add: schema_fields_def props_of_def)
  next
    assume "\<exists>qs. jget s ''properties'' = JObj qs \<and> wf_obj qs"
    then obtain qs where qs: "jget s ''properties'' = JObj qs" "wf_obj qs" by blast
    let ?ps = "obj_put ''properties'' (JObj (obj_del n qs)) ps"
    have "removeObjectProperty s n = (case jget s ''required'' of
        JArr rs \<Rightarrow> JObj (obj_put ''required'' (JArr (filter (\<lambda>name. name \<noteq> JStr n) rs)) ?ps) | _ \<Rightarrow> JObj ?ps)"
      using r s qs(1) by (auto simp: removeObjectProperty_def copySchema_def Let_def simp del: jget.simps)
    with r s qs show ?thesis
      by (auto simp: schema_fields_def schema_needed_def simp del: jget.simps intro!: schema_okI [OF refl])
  qed
qed

lemma mark_property_laws:
  assumes "schema_ok s"
  shows "schema_ok (updatePropertyRequired s n b)
    \<and> schema_fields (updatePropertyRequired s n b) = schema_fields s
    \<and> schema_needed (updatePropertyRequired s n b) = (if b then insert n (schema_needed s) else schema_needed s - {n})"
proof -
  from assms obtain ps where s: "s = JObj ps" "wf_obj ps"
    and p: "jget s ''properties'' = JUndef \<or> (\<exists>qs. jget s ''properties'' = JObj qs \<and> wf_obj qs)"
    and r: "jget s ''required'' = JUndef \<or> (\<exists>rs. jget s ''required'' = JArr rs)" by (rule schema_okE)
  let ?rs = "elems (jget s ''required'')"
  have old: "(if truthy (jget s ''required'') then ?rs else []) = ?rs" using r by auto
  have "updatePropertyRequired s n b = JObj (obj_put ''required'' (JArr (if b
      then (if JStr n \<in> set ?rs then ?rs else ?rs @ [JStr n]) else filter (\<lambda>name. name \<noteq> JStr n) ?rs)) ps)"
    unfolding updatePropertyRequired_def copySchema_def Let_def old using s by simp
  then show ?thesis
    using s p by (auto simp: schema_fields_def schema_needed_def simp del: jget.simps intro!: schema_okI [OF refl])
qed

interpretation ed: field_editor schema_ok schema_fields schema_needed
  updateObjectProperty removeObjectProperty updatePropertyRequired
  by unfold_locales (simp_all add: put_property drop_property_laws mark_property_laws)

lemma normalized_ok:
  assumes "schema_ok s"
  shows "schema_ok (normalizedSchema s)" "schema_fields (normalizedSchema s) = schema_fields s"
    "schema_needed (normalizedSchema s) = schema_needed s"
proof -
  from assms obtain ps where s: "s = JObj ps" "wf_obj ps"
    and p: "jget s ''properties'' = JUndef \<or> (\<exists>qs. jget s ''properties'' = JObj qs \<and> wf_obj qs)"
    and r: "jget s ''required'' = JUndef \<or> (\<exists>rs. jget s ''required'' = JArr rs)" by (rule schema_okE)
  let ?qs = "JObj (props_of (jget s ''properties''))"
  have "js_or (jget s ''properties'') (JObj []) = ?qs" using p by (auto simp: js_or_def)
  then have n: "normalizedSchema s = JObj (obj_put ''properties'' ?qs
      (obj_put ''type'' (JStr ''object'') (obj_of ps)))"
    using s by (simp add: normalizedSchema_def js_object_def isBooleanSchema_def obj_of_def obj_assign_def)
  have get: "jget (JObj (obj_of ps)) k = jget s k" for k
    using s by (simp add: obj_of_def map_of_obj_assign)
  have "jget (normalizedSchema s) ''required'' = jget s ''required''"
    unfolding n by (simp del: jget.simps add: get)
  then show "schema_needed (normalizedSchema s) = schema_needed s" by (simp add: schema_needed_def)
  show "schema_fields (normalizedSchema s) = schema_fields s"
    unfolding n by (simp add: schema_fields_def)
  have "wf_obj (props_of (jget s ''properties''))" using p by auto
  then show "schema_ok (normalizedSchema s)"
    using r unfolding n by (intro schema_okI [OF refl]) (simp_all del: jget.simps add: get)
qed

lemma find_property:
  assumes "schema_ok s"
  shows "find (\<lambda>p. p_name p = n) (getSchemaProperties s) =
    (case schema_fields s n of None \<Rightarrow> None
     | Some v \<Rightarrow> Some \<lparr>p_name = n, p_schema = v, p_required = (n \<in> schema_needed s)\<rparr>)"
proof -
  from assms obtain ps where s: "s = JObj ps"
    and p: "jget s ''properties'' = JUndef \<or> (\<exists>qs. jget s ''properties'' = JObj qs \<and> wf_obj qs)"
    and r: "jget s ''required'' = JUndef \<or> (\<exists>rs. jget s ''required'' = JArr rs)" by (rule schema_okE)
  have "elems (js_or (jget s ''required'') (JArr [])) = elems (jget s ''required'')"
    using r by (auto simp: js_or_def)
  then have g: "getSchemaProperties s = map (\<lambda>(name, v). \<lparr>p_name = name, p_schema = v,
      p_required = (name \<in> schema_needed s)\<rparr>) (props_of (jget s ''properties''))"
    using s p by (auto simp: getSchemaProperties_def schema_needed_def Let_def simp del: jget.simps)
  have "find (\<lambda>p. p_name p = n) (map (\<lambda>(name, v). \<lparr>p_name = name, p_schema = v, p_required = f name\<rparr>) qs) =
      (case map_of qs n of None \<Rightarrow> None | Some v \<Rightarrow> Some \<lparr>p_name = n, p_schema = v, p_required = f n\<rparr>)" for qs f
    by (induction qs) auto
  from this [of "\<lambda>name. name \<in> schema_needed s"] show ?thesis unfolding g schema_fields_def by simp
qed

text \<open>
  C12. The object editor edits the table of the properties and the set of the required names: adding
  puts the property and marks it when asked, deleting drops both, renaming moves the schema and the mark
  to the new name, and changing a mark or a schema touches nothing else.
\<close>

theorem object_editor_refines_table:
  assumes "schema_ok s" "schema_fields s old = Some v" "old \<noteq> new"
  shows "(schema_fields (handleAddProperty s f) =
        (schema_fields s)(f_name f \<mapsto> js_object [Prop ''type'' (f_type f),
           Prop ''description'' (js_or (f_description f) JUndef), Spread (js_or (f_validation f) (JObj []))])
      \<and> schema_needed (handleAddProperty s f) = schema_needed s \<union> (if f_required f then {f_name f} else {}))
    \<and> (schema_fields (handlePropertySchemaChange s n w) = (schema_fields s)(n \<mapsto> w)
      \<and> schema_needed (handlePropertySchemaChange s n w) = schema_needed s)
    \<and> (schema_fields (handlePropertyRequiredChange s n b) = schema_fields s
      \<and> schema_needed (handlePropertyRequiredChange s n b) =
          (if b then insert n (schema_needed s) else schema_needed s - {n}))
    \<and> (schema_fields (handleDeleteProperty s old) = (schema_fields s)(old := None)
      \<and> schema_needed (handleDeleteProperty s old) = schema_needed s - {old})
    \<and> (\<exists>s'. handlePropertyNameChange s old new = Some s' \<and> schema_ok s'
        \<and> schema_fields s' = (schema_fields s)(old := None, new \<mapsto> asObjectSchema v)
        \<and> schema_needed s' = (if old \<in> schema_needed s then insert new (schema_needed s) else schema_needed s) - {old})"
proof (intro conjI)
  note ok = normalized_ok [OF assms(1)]
  show "schema_fields (handleAddProperty s f) =
        (schema_fields s)(f_name f \<mapsto> js_object [Prop ''type'' (f_type f),
           Prop ''description'' (js_or (f_description f) JUndef), Spread (js_or (f_validation f) (JObj []))])"
    "schema_needed (handleAddProperty s f) = schema_needed s \<union> (if f_required f then {f_name f} else {})"
    by (simp_all add: handleAddProperty_def Let_def ok ed.field_laws)
  from assms(2) ok(2) have known: "schema_fields (normalizedSchema s) old \<noteq> None" by simp
  show "\<exists>s'. handlePropertyNameChange s old new = Some s' \<and> schema_ok s'
        \<and> schema_fields s' = (schema_fields s)(old := None, new \<mapsto> asObjectSchema v)
        \<and> schema_needed s' = (if old \<in> schema_needed s then insert new (schema_needed s) else schema_needed s) - {old}"
    using assms ed.rename_laws [OF ok(1) known assms(3), unfolded ed.place_def, of "old \<in> schema_needed s" "asObjectSchema v"]
    by (simp add: handlePropertyNameChange_def find_property [OF assms(1)] Let_def ok)
qed (use assms in \<open>simp_all add: handlePropertySchemaChange_def handlePropertyRequiredChange_def
  handleDeleteProperty_def normalized_ok ed.field_laws\<close>)

abbreviation two_fields :: jsv where
  "two_fields \<equiv> JObj [(''type'', JStr ''object''),
     (''properties'', JObj [(''city'', JObj []), (''zip'', JBool True)]), (''required'', JArr [JStr ''zip''])]"

lemma two_fields_ok: "schema_ok two_fields" "schema_fields two_fields ''zip'' = Some (JBool True)"
  "schema_needed two_fields = {''zip''}"
  by (simp_all add: schema_ok_def schema_fields_def schema_needed_def wf_obj_def)

lemma object_editor_refines_table_witness:
  "schema_needed (handleAddProperty two_fields (field_of ''city'' True (JBool True))) = {''city'', ''zip''}
   \<and> (\<exists>s'. handlePropertyNameChange two_fields ''zip'' ''code'' = Some s' \<and> schema_needed s' = {''code''})"
proof -
  have n: "f_name (field_of ''city'' True (JBool True)) = ''city''" "f_required (field_of ''city'' True (JBool True))"
    by (simp_all add: field_of_def)
  have c: "''zip'' \<noteq> ''code''" by simp
  note refines = object_editor_refines_table [OF two_fields_ok(1,2) c, where b = True
      and f = "field_of ''city'' True (JBool True)" and n = "''city''" and w = JNull, unfolded two_fields_ok(3) n]
  from refines [THEN conjunct1, THEN conjunct2]
  have "schema_needed (handleAddProperty two_fields (field_of ''city'' True (JBool True))) = {''city'', ''zip''}"
    by (simp only: n) auto
  moreover from refines [THEN conjunct2, THEN conjunct2, THEN conjunct2, THEN conjunct2]
  have "\<exists>s'. handlePropertyNameChange two_fields ''zip'' ''code'' = Some s' \<and> schema_needed s' = {''code''}"
    by (elim exE) (rule exI, auto)
  ultimately show ?thesis ..
qed

section \<open>Renaming a field of the root schema\<close>

lemma drop_from_root:
  assumes "schema_ok s"
  shows "schema_ok (drop_property s n)" "schema_fields (drop_property s n) = (schema_fields s)(n := None)"
    "schema_needed (drop_property s n) = schema_needed s"
proof -
  from assms obtain ps where s: "s = JObj ps" "wf_obj ps"
    and p: "jget s ''properties'' = JUndef \<or> (\<exists>qs. jget s ''properties'' = JObj qs \<and> wf_obj qs)"
    and r: "jget s ''required'' = JUndef \<or> (\<exists>rs. jget s ''required'' = JArr rs)" by (rule schema_okE)
  let ?qs = "JObj (obj_del n (props_of (jget s ''properties'')))"
  have d: "drop_property s n = JObj (obj_put ''properties'' ?qs (obj_of (obj_del ''properties'' ps)))"
    using s by (simp add: drop_property_def js_object_def obj_of_def obj_assign_def)
  have "jget (JObj (obj_of (obj_del ''properties'' ps))) ''required'' = jget s ''required''"
    using s by (simp add: obj_of_def map_of_obj_assign)
  then have req: "jget (drop_property s n) ''required'' = jget s ''required''"
    unfolding d by (simp del: jget.simps)
  then show "schema_needed (drop_property s n) = schema_needed s" by (simp add: schema_needed_def)
  show "schema_fields (drop_property s n) = (schema_fields s)(n := None)"
    unfolding d by (simp add: schema_fields_def)
  have "wf_obj (props_of (jget s ''properties''))" using p by auto
  with r req show "schema_ok (drop_property s n)"
    unfolding d by (intro schema_okI [OF refl]) (simp_all del: jget.simps)
qed

lemma edit_root_field:
  assumes "schema_ok s" "name \<noteq> f_name f"
  shows "schema_fields (handleEditField s name f) = (schema_fields s)(name := None, f_name f \<mapsto> createFieldSchema f)"
    "schema_needed (handleEditField s name f) =
       (if f_required f then insert (f_name f) (schema_needed s) else schema_needed s - {f_name f})"
proof -
  from assms(1) have "asObjectSchema s = s" by (auto elim: schema_okE)
  with assms show "schema_fields (handleEditField s name f) = (schema_fields s)(name := None, f_name f \<mapsto> createFieldSchema f)"
    "schema_needed (handleEditField s name f) =
       (if f_required f then insert (f_name f) (schema_needed s) else schema_needed s - {f_name f})"
    by (auto simp: handleEditField_def Let_def ed.field_laws drop_from_root fun_eq_iff)
qed

text \<open>
  Renaming a required field of the root schema leaves its old name among the required names: the
  new schema has no such field, and accepts no object without it.
\<close>

theorem rename_keeps_old_name_required:
  assumes "schema_ok s" "schema_fields s old = Some v" "old \<in> schema_needed s" "old \<noteq> new"
    "map_of vs old = None"
  shows "\<exists>s'. handleNameChange s old new = Some s' \<and> schema_fields s' old = None \<and> \<not> accepts s' (JObj vs)"
proof -
  let ?f = "field_of new True v"
  have n: "f_name ?f = new" by (simp add: field_of_def)
  let ?s = "handleEditField s old ?f"
  have "schema_fields ?s old = None" "old \<in> schema_needed ?s"
    using edit_root_field [OF assms(1), of old ?f] assms(3,4) n by (simp_all add: field_of_def)
  moreover have "handleNameChange s old new = Some ?s"
    using assms(2,3) by (simp add: handleNameChange_def find_property [OF assms(1)])
  moreover have "\<not> accepts ?s (JObj vs)"
  proof
    assume a: "accepts ?s (JObj vs)"
    obtain ps where "?s = JObj ps"
      using a \<open>old \<in> schema_needed ?s\<close> by (cases ?s) (auto simp: accepts.simps schema_needed_def elems_def)
    with a have "has_required (jget ?s ''required'') (JObj vs)"
      by (simp add: accepts.simps del: jget.simps)
    with \<open>old \<in> schema_needed ?s\<close> assms(5) show False
      by (auto simp: has_required_def schema_needed_def list_all_iff)
  qed
  ultimately show ?thesis by blast
qed

lemma rename_keeps_old_name_required_witness:
  "\<exists>s'. handleNameChange two_fields ''zip'' ''code'' = Some s'
     \<and> schema_fields s' ''zip'' = None \<and> \<not> accepts s' (JObj [(''code'', JStr ''x'')])"
  by (rule rename_keeps_old_name_required [OF two_fields_ok(1,2)]) (simp_all add: two_fields_ok(3))

end
