(* ===== verification/Schema_Settings.thy ===== *)
theory Schema_Settings
  imports Schema_Edit
begin

text \<open>
  The settings of a schema by its type (\<open>types/string-editor.tsx\<close>, \<open>number-editor.tsx\<close>,
  \<open>boolean-editor.tsx\<close>, \<open>array-editor.tsx\<close>) and the row of a property (\<open>schema-property-editor.tsx\<close>).
  As before a handler gives what it passes to \<open>onChange\<close>, \<open>None\<close> where it calls nothing.
\<close>

section \<open>Strings\<close>

definition base_schema :: "string \<Rightarrow> jsv \<Rightarrow> jsv" where
  "base_schema t schema =
     (if isBooleanSchema schema then JObj [(''type'', JStr t)] else js_object [Spread schema])"

definition string_validation_change :: "jsv \<Rightarrow> string \<Rightarrow> jsv \<Rightarrow> jsv" where
  "string_validation_change schema property value =
     (let validationProps = obj_del ''description'' (obj_del ''type'' (props_of (base_schema ''string'' schema)))
      in js_object [Spread (JObj validationProps), Prop ''type'' (JStr ''string''), Prop property value])"

definition enum_values :: "jsv \<Rightarrow> jsv list" where
  "enum_values schema = elems (withObjectSchema schema (\<lambda>s. js_or (jget s ''enum'') (JArr [])) (JArr []))"

definition string_add_enum :: "jsv \<Rightarrow> string \<Rightarrow> jsv option" where
  "string_add_enum schema enumValue =
     (if js_trim enumValue = [] then None
      else if JStr enumValue \<notin> set (enum_values schema)
      then Some (string_validation_change schema ''enum'' (JArr (enum_values schema @ [JStr enumValue])))
      else None)"

definition string_remove_enum :: "jsv \<Rightarrow> nat \<Rightarrow> jsv" where
  "string_remove_enum schema index =
     (let newEnumValues = remove_at index (enum_values schema) in
      if newEnumValues = []
      then (let base = base_schema ''string'' schema in
            if \<not> isBooleanSchema base \<and> ''enum'' \<in> set (obj_keys (props_of base))
            then JObj (obj_del ''enum'' (props_of base)) else base)
      else string_validation_change schema ''enum'' (JArr newEnumValues))"

section \<open>Numbers\<close>

definition number_properties :: "string list" where
  "number_properties = [''minimum'', ''maximum'', ''exclusiveMinimum'', ''exclusiveMaximum'', ''multipleOf'', ''enum'']"

definition number_base :: "bool \<Rightarrow> jsv \<Rightarrow> props" where
  "number_base integer schema =
     obj_of ((''type'', JStr (if integer then ''integer'' else ''number''))
       # (if isBooleanSchema schema then []
          else map (\<lambda>k. (k, jget schema k)) (filter (\<lambda>k. jget schema k \<noteq> JUndef) number_properties)))"

definition number_validation_change :: "bool \<Rightarrow> jsv \<Rightarrow> string \<Rightarrow> jsv \<Rightarrow> jsv" where
  "number_validation_change integer schema property value =
     (let baseProperties = number_base integer schema in
      if property \<notin> set number_properties then JObj baseProperties
      else if value \<noteq> JUndef then JObj (obj_put property value baseProperties)
      else JObj (obj_del property baseProperties))"

definition js_floor :: "jsnum \<Rightarrow> jsnum" where
  "js_floor n = (case n of Fin q \<Rightarrow> Fin (of_int \<lfloor>q\<rfloor>) | _ \<Rightarrow> n)"

definition number_add_enum :: "bool \<Rightarrow> jsv \<Rightarrow> string \<Rightarrow> jsv option" where
  "number_add_enum integer schema enumValue =
     (if js_trim enumValue = [] then None
      else (let numValue = js_Number enumValue in
            if numValue = NaN then None
            else (let validValue = JNum (if integer then js_floor numValue else numValue) in
                  if validValue \<notin> set (enum_values schema)
                  then Some (number_validation_change integer schema ''enum'' (JArr (enum_values schema @ [validValue])))
                  else None)))"

definition number_remove_enum :: "bool \<Rightarrow> jsv \<Rightarrow> nat \<Rightarrow> jsv" where
  "number_remove_enum integer schema index =
     (let newEnumValues = remove_at index (enum_values schema) in
      number_validation_change integer schema ''enum'' (if newEnumValues = [] then JUndef else JArr newEnumValues))"

section \<open>Booleans\<close>

definition allowed_values :: "jsv \<Rightarrow> jsv list option" where
  "allowed_values schema =
     (case withObjectSchema schema (\<lambda>s. jget s ''enum'') JNull of JArr es \<Rightarrow> Some es | _ \<Rightarrow> None)"

definition allows :: "jsv \<Rightarrow> bool \<Rightarrow> bool" where
  "allows schema value = (case allowed_values schema of None \<Rightarrow> True | Some es \<Rightarrow> JBool value \<in> set es)"

definition handleAllowedChange :: "jsv \<Rightarrow> bool \<Rightarrow> bool \<Rightarrow> jsv option" where
  "handleAllowedChange schema value allowed =
     (if allowed
      then (case allowed_values schema of
              None \<Rightarrow> None
            | Some es \<Rightarrow>
                if JBool value \<in> set es then None
                else (let newEnum = es @ [JBool value] in
                      if JBool True \<in> set newEnum \<and> JBool False \<in> set newEnum
                      then Some (JObj [(''type'', JStr ''boolean'')])
                      else Some (JObj [(''type'', JStr ''boolean''), (''enum'', JArr newEnum)])))
      else (case allowed_values schema of
              Some es \<Rightarrow>
                if JBool value \<notin> set es then None
                else Some (JObj [(''type'', JStr ''boolean''), (''enum'', JArr [JBool (\<not> value)])])
            | None \<Rightarrow> Some (JObj [(''type'', JStr ''boolean''), (''enum'', JArr [JBool (\<not> value)])])))"

section \<open>Arrays\<close>

definition items_schema :: "jsv \<Rightarrow> jsv" where
  "items_schema schema = js_or (getArrayItemsSchema schema) (JObj [(''type'', JStr ''string'')])"

definition array_validation_change :: "jsv \<Rightarrow> jsv \<Rightarrow> jsv \<Rightarrow> bool \<Rightarrow> jsv" where
  "array_validation_change schema minItems maxItems uniqueItems =
     (let validationProps = js_object [Prop ''type'' (JStr ''array''),
            Spread (if isBooleanSchema schema then JObj [] else schema),
            Prop ''minItems'' minItems, Prop ''maxItems'' maxItems,
            Prop ''uniqueItems'' (if uniqueItems then JBool True else JUndef)];
          withItems = (if jget validationProps ''items'' = JUndef \<and> truthy (items_schema schema)
                       then jset validationProps ''items'' (items_schema schema) else validationProps)
      in JObj (obj_of (filter (\<lambda>(key, value). value \<noteq> JUndef) (props_of withItems))))"

definition item_schema_change :: "jsv \<Rightarrow> jsv \<Rightarrow> jsv" where
  "item_schema_change schema updatedItemSchema =
     js_object [Prop ''type'' (JStr ''array''), Spread (if isBooleanSchema schema then JObj [] else schema),
                Prop ''items'' updatedItemSchema]"

section \<open>The row of a property\<close>

text \<open>The name that is passed on when the edited name is submitted.\<close>

definition handleNameSubmit :: "string \<Rightarrow> string \<Rightarrow> string option" where
  "handleNameSubmit name tempName =
     (let trimmedName = js_trim tempName in
      if trimmedName \<noteq> [] \<and> trimmedName \<noteq> name then Some trimmedName else None)"

definition handleDescSubmit :: "jsv \<Rightarrow> string \<Rightarrow> jsv option" where
  "handleDescSubmit schema tempDesc =
     (let trimmedDesc = js_trim tempDesc in
      if JStr trimmedDesc \<noteq> getSchemaDescription schema
      then Some (js_object [Spread (asObjectSchema schema), Prop ''description'' (js_or (JStr trimmedDesc) JUndef)])
      else None)"

definition handleSchemaUpdate :: "jsv \<Rightarrow> jsv \<Rightarrow> jsv" where
  "handleSchemaUpdate schema updatedSchema =
     js_object [Spread updatedSchema, Prop ''description'' (js_or (getSchemaDescription schema) JUndef)]"

section \<open>What the settings accept\<close>

lemma accepts_boolean:
  "accepts (JObj [(''type'', JStr ''boolean'')]) (JBool b)"
  "accepts (JObj [(''type'', JStr ''boolean''), (''enum'', JArr es)]) (JBool b) \<longleftrightarrow> JBool b \<in> set es"
  by (simp_all add: accepts_typed accepts_enum)

text \<open>
  The switches of a boolean schema: when a value is allowed or forbidden the new schema accepts just
  that; allowing keeps the other value as it was, and forbidding a value always leaves the other one
  allowed, so that the schema never becomes empty.
\<close>

theorem boolean_switch_exact:
  assumes "handleAllowedChange schema b allowed = Some s'"
  shows "(accepts s' (JBool b) \<longleftrightarrow> allowed)
    \<and> (accepts s' (JBool (\<not> b)) \<longleftrightarrow> \<not> allowed \<or> allows schema (\<not> b))"
  using assms
  by (cases b; cases allowed)
    (auto simp: handleAllowedChange_def allows_def Let_def accepts_boolean split: option.splits if_splits)

lemma boolean_switch_exact_witness:
  "accepts (JObj [(''type'', JStr ''boolean''), (''enum'', JArr [JBool False])]) (JBool (\<not> True))"
  using boolean_switch_exact [of "JObj [(''type'', JStr ''boolean'')]" True False
      "JObj [(''type'', JStr ''boolean''), (''enum'', JArr [JBool False])]"]
  by (simp add: handleAllowedChange_def allowed_values_def withObjectSchema_def)

end
