(* ===== verification/Schema_Validate.thy ===== *)
theory Schema_Validate
  imports Json_Schema Complex_Main
begin

text \<open>
  The validation of the settings of a schema, \<open>types/validation.ts\<close> of the schema builder: the refinements
  of the types and the tree of errors. The parser of a type is the library zod's: it is the parameter
  \<open>parse\<close>, which gives the issues of a schema for one of the known types, \<open>None\<close> for success.
\<close>

section \<open>Ranges\<close>

definition refineRangeConsistency :: "rat option \<Rightarrow> bool \<Rightarrow> rat option \<Rightarrow> bool \<Rightarrow> bool" where
  "refineRangeConsistency lo isMinExclusive hi isMaxExclusive =
     (case (lo, hi) of
        (Some a, Some b) \<Rightarrow>
          if b < a then False
          else if isMinExclusive \<and> isMaxExclusive \<and> b - a < 2 then False
          else if (isMinExclusive \<or> isMaxExclusive) \<and> b - a < 1 then False
          else True
      | _ \<Rightarrow> True)"

record number_settings =
  minimum :: "rat option"
  maximum :: "rat option"
  exclusiveMinimum :: "rat option"
  exclusiveMaximum :: "rat option"
  enumValues :: "jsv list option"

definition number_range_ok :: "number_settings \<Rightarrow> bool" where
  "number_range_ok s =
     (refineRangeConsistency (minimum s) False (maximum s) False
      \<and> refineRangeConsistency (minimum s) False (exclusiveMaximum s) True
      \<and> refineRangeConsistency (exclusiveMinimum s) True (maximum s) False
      \<and> refineRangeConsistency (exclusiveMinimum s) True (exclusiveMaximum s) True)"

definition single_minimum :: "number_settings \<Rightarrow> bool" where
  "single_minimum s = (exclusiveMinimum s = None \<or> minimum s = None)"

definition single_maximum :: "number_settings \<Rightarrow> bool" where
  "single_maximum s = (exclusiveMaximum s = None \<or> maximum s = None)"

definition enum_in_range :: "number_settings \<Rightarrow> bool" where
  "enum_in_range s =
     (case enumValues s of
        None \<Rightarrow> True
      | Some vs \<Rightarrow> list_all (\<lambda>val.
          case val of
            JNum (Fin q) \<Rightarrow>
              (case minimum s of Some a \<Rightarrow> \<not> q < a | None \<Rightarrow> True)
              \<and> (case maximum s of Some b \<Rightarrow> \<not> b < q | None \<Rightarrow> True)
              \<and> (case exclusiveMinimum s of Some a \<Rightarrow> \<not> q \<le> a | None \<Rightarrow> True)
              \<and> (case exclusiveMaximum s of Some b \<Rightarrow> \<not> b \<le> q | None \<Rightarrow> True)
          | _ \<Rightarrow> False) vs)"

section \<open>The tree of errors\<close>

definition getTypeValidation :: "string option \<Rightarrow> string option" where
  "getTypeValidation type =
     (case type of
        None \<Rightarrow> None
      | Some t \<Rightarrow> if t \<in> {''string'', ''number'', ''array'', ''object''} then Some t else None)"

definition validateSchemaByType :: "(string \<Rightarrow> jsv \<Rightarrow> 'i list option) \<Rightarrow> jsv \<Rightarrow> string option \<Rightarrow> 'i list option" where
  "validateSchemaByType parse schema type =
     (case getTypeValidation type of None \<Rightarrow> None | Some t \<Rightarrow> parse t schema)"

definition deriveType :: "jsv \<Rightarrow> string option" where
  "deriveType sch =
     (if \<not> truthy sch \<or> js_typeof sch \<noteq> ''object'' then None
      else (case jget sch ''type'' of
              JStr t \<Rightarrow> Some t
            | JArr (JStr t # _) \<Rightarrow> Some t
            | _ \<Rightarrow> None))"

text \<open>\<open>Object.entries\<close> of an object or an array, and nothing for another value.\<close>

definition entries :: "jsv \<Rightarrow> (string \<times> jsv) list" where
  "entries v = (case v of JObj ps \<Rightarrow> ps | JArr xs \<Rightarrow> map (\<lambda>(i, x). (nat_str i, x)) (enumerate 0 xs) | _ \<Rightarrow> [])"

definition indexed :: "string \<Rightarrow> string \<Rightarrow> jsv list \<Rightarrow> (string \<times> jsv) list" where
  "indexed before after xs = map (\<lambda>(i, x). (before @ nat_str i @ after, x)) (enumerate 0 xs)"

definition prefixed :: "string \<Rightarrow> (string \<times> jsv) list \<Rightarrow> (string \<times> jsv) list" where
  "prefixed before ps = map (\<lambda>(k, v). (before @ k, v)) ps"

definition sub_schemas :: "jsv \<Rightarrow> (string \<times> jsv) list" where
  "sub_schemas sch =
     (if deriveType sch = Some ''object''
      then entries (jget sch ''properties'') @ prefixed ''pattern:'' (entries (jget sch ''patternProperties''))
      else [])
     @ (if deriveType sch = Some ''array''
        then (case jget sch ''items'' of
                JArr xs \<Rightarrow> indexed ''items['' '']'' xs
              | it \<Rightarrow> if truthy it then [(''items'', it)] else [])
             @ (case jget sch ''prefixItems'' of JArr xs \<Rightarrow> indexed ''prefixItems['' '']'' xs | _ \<Rightarrow> [])
        else [])
     @ concat (map (\<lambda>comb. case jget sch comb of JArr xs \<Rightarrow> indexed (comb @ '':'') [] xs | _ \<Rightarrow> [])
         [''allOf'', ''anyOf'', ''oneOf''])
     @ (if truthy (jget sch ''not'') then [(''not'', jget sch ''not'')] else [])
     @ prefixed ''$defs:'' (entries (jget sch ''$defs''))
     @ prefixed ''definitions:'' (entries (jget sch ''definitions''))"

datatype 'i node = Node (node_name: "string option") (node_issues: "'i list option")
  (node_children: "(string \<times> 'i node) list") (cumulativeChildrenErrors: nat)

definition issue_count :: "'i list option \<Rightarrow> nat" where
  "issue_count validation = (case validation of None \<Rightarrow> 0 | Some errors \<Rightarrow> length errors)"

definition make_node :: "string option \<Rightarrow> 'i list option \<Rightarrow> (string \<times> 'i node) list \<Rightarrow> 'i node" where
  "make_node name validation assigned =
     (let children = obj_of assigned
      in Node name validation children
           (issue_count validation + sum_list (map (\<lambda>(k, c). cumulativeChildrenErrors c) children)))"

text \<open>The parts of a schema are smaller than the schema.\<close>

lemma size_entry: "(k, v) \<in> set (entries w) \<Longrightarrow> size v < size w"
proof (cases w)
  case (JObj ps)
  then show "(k, v) \<in> set (entries w) \<Longrightarrow> size v < size w"
    by (induction ps arbitrary: w) (auto simp: entries_def)
next
  case (JArr xs)
  assume "(k, v) \<in> set (entries w)"
  with JArr have "v \<in> set xs" by (auto simp: entries_def in_set_enumerate_eq)
  with JArr show ?thesis by (induction xs arbitrary: w) auto
qed (simp_all add: entries_def)

lemma size_indexed: "(k, v) \<in> set (indexed a b xs) \<Longrightarrow> size v < size (JArr xs)"
  using size_entry [of "nat_str _" v "JArr xs"] by (fastforce simp: indexed_def entries_def)

lemma size_jget_le: "size (jget v k) \<le> size v"
proof (cases v)
  case (JObj ps)
  show ?thesis
  proof (cases "map_of ps k")
    case (Some w)
    then have "(k, w) \<in> set (entries v)" using JObj by (simp add: entries_def map_of_SomeD)
    with size_entry Some JObj show ?thesis by (metis jget.simps(1) less_imp_le option.simps(5))
  qed (use JObj in simp)
next
  case (JArr xs)
  then show ?thesis by (auto intro!: le_SucI size_list_estimation' [OF nth_mem])
qed auto

lemma index_key_digit: "is_index_key k \<Longrightarrow> digit (hd k)"
  by (cases k) (auto simp: is_index_key_def)

lemma size_of_part:
  assumes "jget v k = w" "w \<noteq> JUndef" "\<not> digit (hd k)" "k \<noteq> ''length''"
  shows "size w < size v"
proof (cases v)
  case (JObj ps)
  then have "(k, w) \<in> set (entries v)"
    using assms(1,2) by (auto simp: entries_def dest: map_of_SomeD split: option.splits)
  then show ?thesis by (rule size_entry)
qed (use assms index_key_digit [of k] in \<open>auto split: if_splits\<close>)

lemma size_part_entry: "(k, s) \<in> set (entries (jget v k')) \<Longrightarrow> size s < size v"
  using size_entry [of k s "jget v k'"] size_jget_le [of v k'] by simp

lemma size_part_indexed: "jget v k' = JArr xs \<Longrightarrow> (k, s) \<in> set (indexed a b xs) \<Longrightarrow> size s < size v"
  using size_indexed [of k s a b xs] size_jget_le [of v k'] by simp

lemma size_sub_schema: "(k, s) \<in> set (sub_schemas v) \<Longrightarrow> size s < size v"
proof -
  assume "(k, s) \<in> set (sub_schemas v)"
  moreover have "size (jget v ''items'') < size v" if "truthy (jget v ''items'')"
    by (rule size_of_part [OF refl]) (use that in \<open>auto simp: digit_def\<close>)
  moreover have "size (jget v ''not'') < size v" if "truthy (jget v ''not'')"
    by (rule size_of_part [OF refl]) (use that in \<open>auto simp: digit_def\<close>)
  ultimately show ?thesis
    unfolding sub_schemas_def prefixed_def
    by (auto simp del: jget.simps split: if_splits jsv.splits dest: size_part_entry size_part_indexed size_part_indexed [OF sym])
qed

lemma js_mapM_cong [fundef_cong]:
  "xs = ys \<Longrightarrow> (\<And>x. x \<in> set ys \<Longrightarrow> f x = g x) \<Longrightarrow> js_mapM f xs = js_mapM g ys"
proof -
  have "(\<And>x. x \<in> set ys \<Longrightarrow> f x = g x) \<Longrightarrow> js_mapM f ys = js_mapM g ys" by (induction ys) auto
  then show "xs = ys \<Longrightarrow> (\<And>x. x \<in> set ys \<Longrightarrow> f x = g x) \<Longrightarrow> js_mapM f xs = js_mapM g ys" by simp
qed

text \<open>\<open>null\<close> and \<open>undefined\<close> in the place of a schema throw where the combinators are read.\<close>

function buildValidationTree :: "(string \<Rightarrow> jsv \<Rightarrow> 'i list option) \<Rightarrow> 'i \<Rightarrow> jsv \<Rightarrow> 'i node js" where
  "buildValidationTree parse boolean_issue schema =
     (case schema of
        JBool b \<Rightarrow>
          Inr (if b then Node (Some ''true'') None [] 0 else Node (Some ''false'') (Some [boolean_issue]) [] 1)
      | _ \<Rightarrow>
          if nullish schema then Inl (TypeError ''Cannot read properties, reading allOf'')
          else js_bind (js_mapM (\<lambda>(k, s). js_bind (buildValidationTree parse boolean_issue s) (\<lambda>c. Inr (k, c)))
                          (sub_schemas schema))
                 (\<lambda>children. Inr (make_node (deriveType schema)
                    (validateSchemaByType parse schema (deriveType schema)) children)))"
  by pat_completeness auto
termination
  by (relation "measure (\<lambda>(parse, i, s). size s)") (auto dest: size_sub_schema)

declare buildValidationTree.simps [simp del]

section \<open>The tree is complete\<close>

text \<open>The schemas a schema is made of, and all issues of them.\<close>

inductive part_of :: "jsv \<Rightarrow> jsv \<Rightarrow> bool" where
  part_self: "part_of schema schema"
| part_sub: "(k, s) \<in> set (sub_schemas schema) \<Longrightarrow> part_of t s \<Longrightarrow> part_of t schema"

definition own_issues :: "(string \<Rightarrow> jsv \<Rightarrow> 'i list option) \<Rightarrow> jsv \<Rightarrow> nat" where
  "own_issues parse schema =
     (case schema of JBool b \<Rightarrow> if b then 0 else 1
      | _ \<Rightarrow> issue_count (validateSchemaByType parse schema (deriveType schema)))"

function all_issues :: "(string \<Rightarrow> jsv \<Rightarrow> 'i list option) \<Rightarrow> jsv \<Rightarrow> nat" where
  "all_issues parse schema =
     own_issues parse schema + sum_list (map (\<lambda>(k, s). all_issues parse s) (sub_schemas schema))"
  by pat_completeness auto
termination
  by (relation "measure (\<lambda>(parse, s). size s)") (auto dest: size_sub_schema)

declare all_issues.simps [simp del]

lemma list_all2_mono':
  "list_all2 P xs ys \<Longrightarrow> (\<And>x y. x \<in> set xs \<Longrightarrow> P x y \<Longrightarrow> Q x y) \<Longrightarrow> list_all2 Q xs ys"
  by (auto simp: list_all2_conv_all_nth)

lemma js_mapM_list_all2: "js_mapM f xs = Inr ys \<Longrightarrow> list_all2 (\<lambda>x y. f x = Inr y) xs ys"
  by (induction xs arbitrary: ys) (auto simp: js_bind_Inr)

lemma sub_schemas_JBool [simp]: "sub_schemas (JBool b) = []"
  by (simp add: sub_schemas_def deriveType_def entries_def prefixed_def)

lemma part_of_JBool [simp]: "part_of t (JBool b) \<longleftrightarrow> t = JBool b"
  by (auto intro: part_self elim: part_of.cases)

lemma part_of_rec: "part_of t s \<longleftrightarrow> t = s \<or> (\<exists>(k, u)\<in>set (sub_schemas s). part_of t u)"
  by (auto intro: part_of.intros elim: part_of.cases)

lemma build_JBool: "buildValidationTree parse i (JBool b) =
    Inr (if b then Node (Some ''true'') None [] 0 else Node (Some ''false'') (Some [i]) [] 1)"
  by (simp add: buildValidationTree.simps)

lemma build_other:
  assumes "\<And>b. s \<noteq> JBool b"
  shows "buildValidationTree parse i s =
    (if nullish s then Inl (TypeError ''Cannot read properties, reading allOf'')
     else js_bind (js_mapM (\<lambda>(k, s). js_bind (buildValidationTree parse i s) (\<lambda>c. Inr (k, c))) (sub_schemas s))
       (\<lambda>children. Inr (make_node (deriveType s) (validateSchemaByType parse s (deriveType s)) children)))"
  by (subst buildValidationTree.simps) (use assms in \<open>auto split: jsv.split\<close>)

text \<open>
  The tree of errors is built exactly when no schema inside the schema is \<open>null\<close> or \<open>undefined\<close>;
  otherwise a \<open>TypeError\<close> is thrown.
\<close>

theorem validation_tree_returns:
  "(\<exists>n. buildValidationTree parse i s = Inr n) = (\<forall>t. \<not> (part_of t s \<and> nullish t))"
proof (induction s rule: measure_induct_rule [of size])
  case (less s)
  show ?case
  proof (cases "\<exists>b. s = JBool b")
    case True
    then show ?thesis by (auto simp: build_JBool nullish_def)
  next
    case False
    let ?f = "\<lambda>(k, s). js_bind (buildValidationTree parse i s) (\<lambda>c. Inr (k, c))"
    have sub: "(\<exists>n. buildValidationTree parse i u = Inr n) = (\<forall>t. \<not> (part_of t u \<and> nullish t))"
      if "(k, u) \<in> set (sub_schemas s)" for k u
      by (rule less.IH [OF size_sub_schema [OF that]])
    have "(\<exists>n. buildValidationTree parse i s = Inr n) \<longleftrightarrow>
        \<not> nullish s \<and> (\<exists>ys. js_mapM ?f (sub_schemas s) = Inr ys)"
      using False by (auto simp: build_other js_bind_Inr)
    also have "\<dots> \<longleftrightarrow> \<not> nullish s \<and> (\<forall>(k, u)\<in>set (sub_schemas s). \<exists>n. buildValidationTree parse i u = Inr n)"
      by (auto simp: js_mapM_returns js_bind_Inr)
    also have "\<dots> \<longleftrightarrow> \<not> nullish s \<and> (\<forall>(k, u)\<in>set (sub_schemas s). \<forall>t. \<not> (part_of t u \<and> nullish t))"
      using sub by (intro conj_cong refl ball_cong) (auto split: prod.splits)
    also have "\<dots> \<longleftrightarrow> (\<forall>t. \<not> (part_of t s \<and> nullish t))"
      by (subst part_of_rec) auto
    finally show ?thesis .
  qed
qed

text \<open>Assigning under distinct keys keeps every assigned node.\<close>

lemma sum_insert_key: "sum_list (map f (insert_key k v ps)) = f (k, v) + (sum_list (map f ps) :: nat)"
  by (induction ps) auto

lemma sum_obj_assign:
  "distinct (map fst ps) \<Longrightarrow> fst ` set a \<inter> fst ` set ps = {} \<Longrightarrow>
     sum_list (map f (obj_assign a ps)) = sum_list (map f a) + (sum_list (map f ps) :: nat)"
proof (induction ps arbitrary: a)
  case (Cons p ps)
  obtain k v where p: "p = (k, v)" by (cases p)
  have "sum_list (map f (obj_put k v a)) = f (k, v) + sum_list (map f a)"
    using Cons.prems p by (simp add: obj_put_def sum_insert_key)
  with Cons.IH [of "obj_put k v a"] Cons.prems show ?case by (auto simp: p)
qed simp

lemma sum_obj_of: "distinct (map fst ps) \<Longrightarrow> sum_list (map f (obj_of ps)) = (sum_list (map f ps) :: nat)"
  by (simp add: obj_of_def sum_obj_assign)

lemma all_issues_JBool: "all_issues parse (JBool b) = (if b then 0 else 1)"
  by (simp add: all_issues.simps own_issues_def)

lemma children_sum:
  assumes "list_all2 (\<lambda>(k, s) (k', c). k' = k \<and> cumulativeChildrenErrors c = g s) ss cs"
  shows "map fst cs = map fst ss"
    "sum_list (map (\<lambda>(k, c). cumulativeChildrenErrors c) cs) = sum_list (map (\<lambda>(k, s). g s) ss)"
  using assms by (induction ss cs rule: list_all2_induct) auto

text \<open>
  The count at the root of the tree is the number of all issues of the schema and of every schema
  inside it, when no two of the parts of one schema are filed under one name.
\<close>

theorem validation_tree_counts_all:
  assumes "buildValidationTree parse i s = Inr n" "\<forall>t. part_of t s \<longrightarrow> distinct (map fst (sub_schemas t))"
  shows "cumulativeChildrenErrors n = all_issues parse s"
  using assms
proof (induction s arbitrary: n rule: measure_induct_rule [of size])
  case (less s)
  show ?case
  proof (cases "\<exists>b. s = JBool b")
    case True
    with less.prems(1) show ?thesis by (auto simp: build_JBool all_issues_JBool)
  next
    case False
    let ?f = "\<lambda>(k, s). js_bind (buildValidationTree parse i s) (\<lambda>c. Inr (k, c))"
    let ?v = "validateSchemaByType parse s (deriveType s)"
    obtain cs where cs: "js_mapM ?f (sub_schemas s) = Inr cs" "n = make_node (deriveType s) ?v cs"
      using less.prems(1) False by (auto simp: build_other js_bind_Inr split: if_splits)
    have part: "part_of t s" if "(k, u) \<in> set (sub_schemas s)" "part_of t u" for k u t
      using that by (rule part_sub)
    have "list_all2 (\<lambda>(k, u) (k', c). k' = k \<and> cumulativeChildrenErrors c = all_issues parse u) (sub_schemas s) cs"
      using js_mapM_list_all2 [OF cs(1)]
    proof (rule list_all2_mono')
      fix a b
      assume "a \<in> set (sub_schemas s)" "?f a = Inr b"
      then show "(\<lambda>(k, u) (k', c). k' = k \<and> cumulativeChildrenErrors c = all_issues parse u) a b"
        using less.IH less.prems(2) part size_sub_schema by (fastforce simp: js_bind_Inr split: prod.splits)
    qed
    from children_sum [OF this] have c: "map fst cs = map fst (sub_schemas s)"
      "sum_list (map (\<lambda>(k, c). cumulativeChildrenErrors c) cs) = sum_list (map (\<lambda>(k, u). all_issues parse u) (sub_schemas s))" .
    have "distinct (map fst cs)" using less.prems(2) part_self c(1) by metis
    then have "cumulativeChildrenErrors n = issue_count ?v
        + sum_list (map (\<lambda>(k, u). all_issues parse u) (sub_schemas s))"
      by (simp add: cs(2) make_node_def Let_def sum_obj_of c(2))
    moreover have "own_issues parse s = issue_count ?v"
      using False by (auto simp: own_issues_def split: jsv.split)
    ultimately show ?thesis by (subst all_issues.simps) simp
  qed
qed

text \<open>A small schema to evaluate on, and a parser that finds one issue in every string schema.\<close>

definition string_parse :: "string \<Rightarrow> jsv \<Rightarrow> string list option" where
  "string_parse t s = (if t = ''string'' then Some [''length''] else None)"

definition text_schema :: jsv where
  "text_schema = JObj [(''type'', JStr ''string'')]"

definition record_schema :: jsv where
  "record_schema = JObj [(''type'', JStr ''object''), (''properties'', JObj [(''name'', text_schema)])]"

lemma sub_text_schema [simp]: "sub_schemas text_schema = []"
  by (simp add: text_schema_def sub_schemas_def deriveType_def entries_def prefixed_def)

lemma sub_record_schema [simp]: "sub_schemas record_schema = [(''name'', text_schema)]"
  by (simp add: record_schema_def sub_schemas_def deriveType_def entries_def prefixed_def)

lemma part_of_text_schema [simp]: "part_of t text_schema \<longleftrightarrow> t = text_schema"
  by (subst part_of_rec) simp

lemma part_of_record_schema [simp]: "part_of t record_schema \<longleftrightarrow> t = record_schema \<or> t = text_schema"
  by (subst part_of_rec) simp

lemma build_text_schema:
  "buildValidationTree string_parse i text_schema = Inr (Node (Some ''string'') (Some [''length'']) [] 1)"
  by (simp add: text_schema_def build_other nullish_def sub_text_schema [unfolded text_schema_def]
      make_node_def obj_of_def deriveType_def validateSchemaByType_def getTypeValidation_def string_parse_def
      issue_count_def)

lemma validation_tree_counts_all_witness:
  "\<exists>n. buildValidationTree string_parse ''message'' record_schema = Inr n
     \<and> cumulativeChildrenErrors n = all_issues string_parse record_schema"
proof -
  obtain n where n: "buildValidationTree string_parse ''message'' record_schema = Inr n"
    using build_text_schema [of "''message''"]
    by (auto simp: build_other nullish_def record_schema_def sub_record_schema [unfolded record_schema_def])
  with validation_tree_counts_all [OF n] show ?thesis by simp
qed

text \<open>
  A property that is called \<open>not\<close> shares its name in the tree with the schema under the keyword
  \<open>not\<close>, which takes its place: its issue is not counted.
\<close>

definition not_schema :: jsv where
  "not_schema = JObj [(''type'', JStr ''object''), (''properties'', JObj [(''not'', text_schema)]), (''not'', JBool True)]"

lemma property_called_not_is_lost:
  "buildValidationTree string_parse i not_schema = Inr n \<Longrightarrow>
     cumulativeChildrenErrors n = 0 \<and> all_issues string_parse not_schema = 1"
proof -
  have s: "sub_schemas not_schema = [(''not'', text_schema), (''not'', JBool True)]"
    by (simp add: not_schema_def sub_schemas_def deriveType_def entries_def prefixed_def)
  have d: "deriveType not_schema = Some ''object''" "\<not> nullish not_schema" "not_schema \<noteq> JBool b" for b
    by (simp_all add: not_schema_def deriveType_def nullish_def)
  have own: "own_issues string_parse not_schema = 0" "own_issues string_parse text_schema = 1"
    by (simp_all add: own_issues_def not_schema_def text_schema_def deriveType_def validateSchemaByType_def
        getTypeValidation_def string_parse_def issue_count_def)
  have "all_issues string_parse text_schema = 1" by (subst all_issues.simps) (simp add: own)
  then have a: "all_issues string_parse not_schema = 1"
    by (subst all_issues.simps) (simp add: s own all_issues_JBool)
  assume "buildValidationTree string_parse i not_schema = Inr n"
  then have "n = make_node (Some ''object'') None [(''not'', Node (Some ''string'') (Some [''length'']) [] 1),
      (''not'', Node (Some ''true'') None [] 0)]"
    using build_text_schema [of i]
    by (simp add: build_other d s build_JBool validateSchemaByType_def getTypeValidation_def string_parse_def)
  with a show ?thesis by (simp add: make_node_def Let_def obj_of_def obj_put_def issue_count_def)
qed

section \<open>Ranges of numbers\<close>

text \<open>
  C26. On integers the check of a range is exact: it passes when some integer lies between the bounds,
  each taken as exclusive or inclusive, or a bound is missing.
\<close>

theorem range_check_exact_on_integers:
  "refineRangeConsistency (map_option of_int lo) e1 (map_option of_int hi) e2 =
     (\<exists>n::int. (case lo of None \<Rightarrow> True | Some a \<Rightarrow> if e1 then a < n else a \<le> n)
        \<and> (case hi of None \<Rightarrow> True | Some b \<Rightarrow> if e2 then n < b else n \<le> b))"
proof (cases lo; cases hi)
  fix a b
  assume lh: "lo = Some a" "hi = Some b"
  have "(of_int b - of_int a :: rat) < 2 \<longleftrightarrow> b - a < 2" "(of_int b - of_int a :: rat) < 1 \<longleftrightarrow> b - a < 1"
    by linarith+
  then have "refineRangeConsistency (map_option of_int lo) e1 (map_option of_int hi) e2 =
      (a \<le> b \<and> \<not> (e1 \<and> e2 \<and> b - a < 2) \<and> \<not> ((e1 \<or> e2) \<and> b - a < 1))"
    by (simp add: refineRangeConsistency_def lh not_less)
  also have "\<dots> = (\<exists>n. (if e1 then a < n else a \<le> n) \<and> (if e2 then n < b else n \<le> b))"
    by (cases e1; cases e2) (auto intro: exI [of _ "a + 1"] exI [of _ a])
  finally show ?thesis by (simp add: lh)
next
  fix a
  assume "lo = Some a" "hi = None"
  then show ?thesis by (auto simp: refineRangeConsistency_def intro: exI [of _ "a + 1"])
next
  fix b
  assume "lo = None" "hi = Some b"
  then show ?thesis by (auto simp: refineRangeConsistency_def intro: exI [of _ "b - 1"])
qed (simp add: refineRangeConsistency_def)

text \<open>The settings of numbers that need not be integers use the same check, and there it refuses ranges
  that have values in them.\<close>

lemma open_unit_range_refused:
  "\<not> number_range_ok \<lparr>minimum = None, maximum = None, exclusiveMinimum = Some 0, exclusiveMaximum = Some 1,
       enumValues = None\<rparr>"
  "enum_in_range \<lparr>minimum = None, maximum = None, exclusiveMinimum = Some 0, exclusiveMaximum = Some 1,
     enumValues = Some [JNum (Fin (1 / 2))]\<rparr>"
  by (simp_all add: number_range_ok_def refineRangeConsistency_def enum_in_range_def)

text \<open>The type \<open>integer\<close> has no entry in the table, so that its settings are never checked.\<close>

lemma integers_never_validated: "validateSchemaByType parse s (Some ''integer'') = None"
  by (simp add: validateSchemaByType_def getTypeValidation_def)

end
