(* ===== verification/Dataset_Metadata.thy ===== *)
theory Dataset_Metadata
  imports Js_String
begin

text \<open>
  The metadata of a dataset and of its documents, \<open>pages/dataset/components/metedata\<close>: the
  conversions of \<open>hooks/use-manage-modal.ts\<close>, the operations that are collected while the table is
  edited, the handlers of the table and what is sent when it is saved.
\<close>

section \<open>Data\<close>

text \<open>
  A row of the table. The setting \<open>restrictDefinedValues\<close> can be absent, \<open>undefined\<close> or a boolean.
\<close>

record row =
  m_field :: string
  m_description :: "string option"
  m_restrict :: "bool option option"
  m_values :: "string list"
  m_type :: string

datatype metadata_type = Manage | UpdateSingle | Setting | SingleFileSetting

definition DEFAULT_VALUE_TYPE :: string where
  "DEFAULT_VALUE_TYPE = ''string''"

datatype summary = Untyped "jsv list list" | Typed string "jsv list list"

record setting_item =
  s_key :: string
  s_description :: "string option"
  s_enum :: "string list option"

record schema_property =
  sp_description :: "string option"
  sp_enum :: "string list option"
  sp_items_enum :: "string list option"

datatype settings = No_Settings | Setting_List "setting_item list" | Setting_Schema "(string \<times> schema_property) list"

section \<open>Conversions\<close>

definition first_text :: "jsv list \<Rightarrow> string js" where
  "first_text vs =
     (let v = (case vs of [] \<Rightarrow> JUndef | v # _ \<Rightarrow> v) in
      if nullish v then Inl (TypeError ''Cannot read properties, reading toString'') else Inr (str_of v))"

definition summary_row :: "string \<Rightarrow> summary \<Rightarrow> row js" where
  "summary_row key value =
     (case value of
        Untyped vs \<Rightarrow>
          js_bind (js_mapM first_text vs) (\<lambda>texts. Inr
            \<lparr>m_field = key, m_description = Some [], m_restrict = None, m_values = texts, m_type = DEFAULT_VALUE_TYPE\<rparr>)
      | Typed type vs \<Rightarrow>
          js_bind (js_mapM first_text vs) (\<lambda>texts. Inr
            \<lparr>m_field = key, m_description = Some [], m_restrict = None, m_values = texts, m_type = type\<rparr>))"

definition changeToMetaDataTableData :: "(string \<times> summary) list \<Rightarrow> row list js" where
  "changeToMetaDataTableData data = js_mapM (\<lambda>(key, value). summary_row key value) data"

definition tableDataToMetaDataJSON :: "row list \<Rightarrow> (string \<times> string list) list" where
  "tableDataToMetaDataJSON data = foldl (\<lambda>pre cur. obj_put (m_field cur) (m_values cur) pre) [] data"

definition tableDataToMetaDataSettingJSON :: "row list \<Rightarrow> setting_item list" where
  "tableDataToMetaDataSettingJSON data =
     map (\<lambda>item. \<lparr>s_key = m_field item, s_description = m_description item, s_enum = Some (m_values item)\<rparr>) data"

definition metaDataSettingJSONToMetaDataTableData :: "settings \<Rightarrow> row list" where
  "metaDataSettingJSONToMetaDataTableData data =
     (case data of
        No_Settings \<Rightarrow> []
      | Setting_List items \<Rightarrow>
          map (\<lambda>item. let xs = (case s_enum item of None \<Rightarrow> [] | Some xs \<Rightarrow> xs) in
            \<lparr>m_field = s_key item, m_description = s_description item, m_restrict = Some (Some (xs \<noteq> [])),
             m_values = xs, m_type = DEFAULT_VALUE_TYPE\<rparr>) items
      | Setting_Schema properties \<Rightarrow>
          map (\<lambda>(key, property).
            let xs = (case sp_enum property of Some xs \<Rightarrow> xs
                      | None \<Rightarrow> (case sp_items_enum property of Some xs \<Rightarrow> xs | None \<Rightarrow> [])) in
            \<lparr>m_field = key, m_description = Some (case sp_description property of None \<Rightarrow> [] | Some d \<Rightarrow> d),
             m_restrict = Some (Some (xs \<noteq> [])), m_values = xs, m_type = ''string''\<rparr>) properties)"

section \<open>The collected operations\<close>

text \<open>A new value: a string, or an array, which is compared by its reference.\<close>

datatype new_value = One string | Many nat "string list"

fun same_value :: "new_value \<Rightarrow> new_value \<Rightarrow> bool" where
  "same_value (One a) (One b) = (a = b)"
| "same_value (Many r xs) (Many r' ys) = (r = r')"
| "same_value _ _ = False"

record update_operation =
  u_key :: string
  u_match :: "string option"
  u_value :: new_value
  u_type :: "string option"

record delete_operation =
  d_key :: string
  d_value :: "string option"

record operations =
  deletes :: "delete_operation list"
  updates :: "update_operation list"

definition resetOperations :: operations where
  "resetOperations = \<lparr>deletes = [], updates = []\<rparr>"

definition addDeleteRow :: "string \<Rightarrow> operations \<Rightarrow> operations" where
  "addDeleteRow key prev = prev\<lparr>deletes := deletes prev @ [\<lparr>d_key = key, d_value = None\<rparr>]\<rparr>"

definition addDeleteBatch :: "string list \<Rightarrow> operations \<Rightarrow> operations" where
  "addDeleteBatch keys prev = prev\<lparr>deletes := deletes prev @ map (\<lambda>key. \<lparr>d_key = key, d_value = None\<rparr>) keys\<rparr>"

definition addDeleteValue :: "string \<Rightarrow> string \<Rightarrow> operations \<Rightarrow> operations" where
  "addDeleteValue key val prev = prev\<lparr>deletes := deletes prev @ [\<lparr>d_key = key, d_value = Some val\<rparr>]\<rparr>"

definition recorded_value :: "new_value \<Rightarrow> string option \<Rightarrow> new_value" where
  "recorded_value newValue type =
     (if type \<noteq> Some ''list''
      then (case newValue of Many r (x # xs) \<Rightarrow> One x | _ \<Rightarrow> newValue) else newValue)"

definition push_update :: "update_operation list \<Rightarrow> update_operation \<Rightarrow> update_operation list" where
  "push_update pre cur =
     (if list_ex (\<lambda>item. u_key item = u_key cur \<and> u_match item = u_match cur
          \<and> same_value (u_value item) (u_value cur)) pre
      then pre else pre @ [cur])"

definition unique_updates :: "update_operation list \<Rightarrow> update_operation list" where
  "unique_updates us = foldl push_update [] us"

definition addUpdateValue ::
  "string \<Rightarrow> string option \<Rightarrow> new_value \<Rightarrow> string option \<Rightarrow> operations \<Rightarrow> operations" where
  "addUpdateValue key originalValue newValue type prev =
     (let newValuesRes = recorded_value newValue type;
          updatedUpdates =
            (case findIdx (\<lambda>update. u_key update = key \<and> u_match update = originalValue
                    \<and> u_match update \<noteq> Some []) (updates prev) of
               Some i \<Rightarrow> (updates prev)[i := \<lparr>u_key = key, u_match = originalValue, u_value = newValuesRes,
                   u_type = Some (case type of None \<Rightarrow> DEFAULT_VALUE_TYPE | Some t \<Rightarrow> t)\<rparr>]
             | None \<Rightarrow> updates prev @ [\<lparr>u_key = key, u_match = originalValue, u_value = newValuesRes, u_type = type\<rparr>])
      in prev\<lparr>updates := unique_updates updatedUpdates\<rparr>)"

section \<open>The table\<close>

record table_state =
  tableData :: "row list"
  ops :: operations

definition opened :: "row list \<Rightarrow> table_state" where
  "opened data = \<lparr>tableData = data, ops = resetOperations\<rparr>"

definition handleDeleteSingleValue :: "string \<Rightarrow> string \<Rightarrow> table_state \<Rightarrow> table_state" where
  "handleDeleteSingleValue fld val s =
     s\<lparr>ops := addDeleteValue fld val (ops s),
       tableData := map (\<lambda>item. if m_field item = fld
         then item\<lparr>m_values := filter (\<lambda>v. v \<noteq> val) (m_values item)\<rparr> else item) (tableData s)\<rparr>"

definition handleDeleteSingleRow :: "string \<Rightarrow> table_state \<Rightarrow> table_state" where
  "handleDeleteSingleRow fld s =
     s\<lparr>ops := addDeleteRow fld (ops s),
       tableData := filter (\<lambda>item. m_field item \<noteq> fld) (tableData s)\<rparr>"

definition handleDeleteBatchRow :: "string list \<Rightarrow> table_state \<Rightarrow> table_state" where
  "handleDeleteBatchRow flds s =
     s\<lparr>ops := addDeleteBatch flds (ops s),
       tableData := filter (\<lambda>item. m_field item \<notin> set flds) (tableData s)\<rparr>"

text \<open>The rows that are selected: by index, or by field when some key is not a number.\<close>

definition selectedIds :: "string list \<Rightarrow> string list \<Rightarrow> string list" where
  "selectedIds selectionKeys ids =
     (if list_all (\<lambda>key. js_Number key \<noteq> NaN) selectionKeys
      then map snd (filter (\<lambda>(idx, x). list_ex (\<lambda>y. js_Number y = Fin (of_nat idx)) selectionKeys) (enumerate 0 ids))
      else filter (\<lambda>id. id \<in> set ids) selectionKeys)"

definition handleDelete_selected :: "string list \<Rightarrow> table_state \<Rightarrow> table_state" where
  "handleDelete_selected selectionKeys s =
     (let ids = map m_field (tableData s);
          deletedKeys = filter (\<lambda>x. x \<in> set ids) (selectedIds selectionKeys ids)
      in handleDeleteBatchRow deletedKeys s)"

text \<open>An edit of a value in its cell (\<open>manage-modal-column.tsx\<close>).\<close>

definition saveEditedValue :: "string \<Rightarrow> string \<Rightarrow> string \<Rightarrow> table_state \<Rightarrow> table_state" where
  "saveEditedValue fld val newValue s =
     s\<lparr>tableData := map (\<lambda>row. if m_field row = fld
        then row\<lparr>m_values := map (\<lambda>v. if v = val then newValue else v) (m_values row)\<rparr> else row) (tableData s)\<rparr>"

text \<open>The row that comes back from the dialog of the values (\<open>manage-modal.tsx\<close>).\<close>

definition merge_row :: "row \<Rightarrow> row \<Rightarrow> row" where
  "merge_row existingItem item =
     item\<lparr>m_restrict := (case m_restrict item of None \<Rightarrow> m_restrict existingItem | r \<Rightarrow> r),
          m_values := nub (m_values existingItem @ m_values item)\<rparr>"

definition add_row :: "(string \<times> row) list \<Rightarrow> row \<Rightarrow> (string \<times> row) list" where
  "add_row fieldMap item =
     (case map_of fieldMap (m_field item) of
        Some existingItem \<Rightarrow> replace_key (m_field item) (merge_row existingItem item) fieldMap
      | None \<Rightarrow> fieldMap @ [(m_field item, item)])"

definition merge_fields :: "row list \<Rightarrow> row list" where
  "merge_fields rows = map snd (foldl add_row [] rows)"

definition handleSaveValues :: "nat \<Rightarrow> row \<Rightarrow> table_state \<Rightarrow> table_state" where
  "handleSaveValues currentValueIndex data s =
     (let prev = tableData s;
          newData = (if currentValueIndex \<ge> length prev then prev @ [data] else prev[currentValueIndex := data])
      in s\<lparr>tableData := merge_fields newData\<rparr>)"

section \<open>Saving\<close>

datatype request =
    Update_Documents "string list option" "update_operation list" "delete_operation list"
  | Update_Settings "setting_item list" "(string \<times> string) list"
  | Update_Document_Config string "setting_item list"

text \<open>What is sent; a document configuration without a document is not sent.\<close>

definition handleSave ::
  "metadata_type \<Rightarrow> string list option \<Rightarrow> string option \<Rightarrow> (string \<times> string) list \<Rightarrow> table_state \<Rightarrow> request option" where
  "handleSave type documentIds documentId builtInMetadata s =
     (case type of
        Setting \<Rightarrow> Some (Update_Settings (tableDataToMetaDataSettingJSON (tableData s)) builtInMetadata)
      | SingleFileSetting \<Rightarrow>
          (case documentId of
             Some d \<Rightarrow> if d \<noteq> [] then Some (Update_Document_Config d (tableDataToMetaDataSettingJSON (tableData s))) else None
           | None \<Rightarrow> None)
      | _ \<Rightarrow> Some (Update_Documents documentIds (updates (ops s)) (deletes (ops s))))"

definition save_answered :: "metadata_type \<Rightarrow> bool \<Rightarrow> table_state \<Rightarrow> table_state" where
  "save_answered type success s =
     (if success \<and> type \<in> {Manage, UpdateSingle} then s\<lparr>ops := resetOperations\<rparr> else s)"

section \<open>Reading the conversions\<close>

definition summary_lists :: "summary \<Rightarrow> jsv list list" where
  "summary_lists value = (case value of Untyped vs \<Rightarrow> vs | Typed type vs \<Rightarrow> vs)"

lemma first_text_returns: "(\<exists>t. first_text vs = Inr t) \<longleftrightarrow> vs \<noteq> [] \<and> \<not> nullish (hd vs)"
  by (cases vs) (auto simp: first_text_def Let_def nullish_def)

lemma summary_row_returns:
  "(\<exists>r. summary_row key v = Inr r) \<longleftrightarrow> (\<exists>ts. js_mapM first_text (summary_lists v) = Inr ts)"
  by (cases v) (auto simp: summary_row_def summary_lists_def js_bind_Inr)

text \<open>
  The rows of a fetched summary are built exactly when every list of a value starts with a value
  that is neither \<open>null\<close> nor \<open>undefined\<close>; otherwise a \<open>TypeError\<close> is thrown.
\<close>

theorem summary_rows_return:
  "(\<exists>rows. changeToMetaDataTableData data = Inr rows) =
     list_all (\<lambda>(key, v). list_all (\<lambda>vs. vs \<noteq> [] \<and> \<not> nullish (hd vs)) (summary_lists v)) data"
  by (simp add: changeToMetaDataTableData_def js_mapM_returns summary_row_returns first_text_returns list_all_iff
      case_prod_beta)

text \<open>
  Saving the settings and reading them back keeps field, description and values of every row;
  the type comes back as \<open>string\<close> and the restriction as whether there are values.
\<close>

theorem settings_round_trip:
  "metaDataSettingJSONToMetaDataTableData (Setting_List (tableDataToMetaDataSettingJSON rows)) =
     map (\<lambda>r. r\<lparr>m_type := ''string'', m_restrict := Some (Some (m_values r \<noteq> []))\<rparr>) rows"
  by (simp add: metaDataSettingJSONToMetaDataTableData_def tableDataToMetaDataSettingJSON_def
      DEFAULT_VALUE_TYPE_def Let_def)

section \<open>Deletions\<close>

text \<open>What a recorded deletion means for the rows.\<close>

definition delete_from :: "row list \<Rightarrow> delete_operation \<Rightarrow> row list" where
  "delete_from rows d =
     (case d_value d of
        None \<Rightarrow> filter (\<lambda>item. m_field item \<noteq> d_key d) rows
      | Some val \<Rightarrow> map (\<lambda>item. if m_field item = d_key d
          then item\<lparr>m_values := filter (\<lambda>v. v \<noteq> val) (m_values item)\<rparr> else item) rows)"

datatype deletion = Delete_Value string string | Delete_Row string | Delete_Rows "string list" | Delete_Selected "string list"

fun perform :: "table_state \<Rightarrow> deletion \<Rightarrow> table_state" where
  "perform s (Delete_Value fld val) = handleDeleteSingleValue fld val s"
| "perform s (Delete_Row fld) = handleDeleteSingleRow fld s"
| "perform s (Delete_Rows flds) = handleDeleteBatchRow flds s"
| "perform s (Delete_Selected keys) = handleDelete_selected keys s"

definition in_step :: "row list \<Rightarrow> table_state \<Rightarrow> bool" where
  "in_step data s = (tableData s = foldl delete_from data (deletes (ops s)) \<and> updates (ops s) = [])"

lemma delete_batch: "foldl delete_from rows (map (\<lambda>key. \<lparr>d_key = key, d_value = None\<rparr>) keys) =
    filter (\<lambda>item. m_field item \<notin> set keys) rows"
  by (induction keys arbitrary: rows) (auto simp: delete_from_def conj_commute)

lemma in_step_perform: "in_step data s \<Longrightarrow> in_step data (perform s a)"
  by (cases a) (simp_all add: in_step_def handleDeleteSingleValue_def addDeleteValue_def handleDeleteSingleRow_def
      addDeleteRow_def handleDeleteBatchRow_def handleDelete_selected_def addDeleteBatch_def delete_batch Let_def,
      simp_all add: delete_from_def)

lemma in_step_run: "in_step data s \<Longrightarrow> in_step data (foldl perform s acts)"
  by (induction acts arbitrary: s) (auto dest: in_step_perform)

text \<open>
  C13. After any deletions of values, of rows, of groups of rows and of the selected rows, the table that
  is shown is the fetched data under the deletions that saving sends.
\<close>

theorem sent_deletions_give_table:
  "\<exists>ds. handleSave Manage documentIds documentId b (foldl perform (opened data) acts) =
       Some (Update_Documents documentIds [] ds)
     \<and> tableData (foldl perform (opened data) acts) = foldl delete_from data ds"
proof -
  have "in_step data (opened data)" by (simp add: in_step_def opened_def resetOperations_def)
  from in_step_run [OF this, of acts] show ?thesis by (simp add: in_step_def handleSave_def)
qed

text \<open>
  An edit of a value in its cell is shown but not recorded: what is sent afterwards is what would
  have been sent without it.
\<close>

theorem cell_edit_is_not_sent:
  assumes "type \<in> {Manage, UpdateSingle}"
  shows "handleSave type documentIds documentId b (saveEditedValue fld val newValue s) =
    handleSave type documentIds documentId b s"
  using assms by (auto simp: handleSave_def saveEditedValue_def)

lemma cell_edit_is_not_sent_witness:
  "handleSave Manage None None [] (saveEditedValue ''author'' ''ann'' ''Ann'' (opened
      [\<lparr>m_field = ''author'', m_description = None, m_restrict = None, m_values = [''ann''], m_type = ''string''\<rparr>])) =
     Some (Update_Documents None [] [])"
  using cell_edit_is_not_sent [of Manage None None "[]" "''author''" "''ann''" "''Ann''"]
  by (simp add: handleSave_def opened_def resetOperations_def)

section \<open>Updates\<close>

text \<open>
  The updates of an operation record as a table: what the value \<open>m\<close> of the field \<open>k\<close> becomes. Updates
  that match the empty string add a value; they are not in the table.
\<close>

definition update_of :: "operations \<Rightarrow> string \<Rightarrow> string option \<Rightarrow> new_value option" where
  "update_of os k m = map_option u_value (find (\<lambda>u. u_key u = k \<and> u_match u = m) (updates os))"

definition update_site :: "update_operation \<Rightarrow> string \<times> string option" where
  "update_site u = (u_key u, u_match u)"

text \<open>At most one update for each value that is matched, and no update twice.\<close>

fun value_id :: "new_value \<Rightarrow> string + nat" where
  "value_id (One s) = Inl s"
| "value_id (Many r xs) = Inr r"

definition update_id :: "update_operation \<Rightarrow> (string \<times> string option) \<times> (string + nat)" where
  "update_id u = (update_site u, value_id (u_value u))"

definition updates_ok :: "operations \<Rightarrow> bool" where
  "updates_ok os =
     (distinct (filter (\<lambda>(k, m). m \<noteq> Some []) (map update_site (updates os)))
      \<and> distinct (map update_id (updates os)))"

lemma same_value_id: "same_value a b \<longleftrightarrow> value_id a = value_id b"
  by (cases a; cases b) auto

lemma push_update_id:
  "push_update pre cur = (if update_id cur \<in> update_id ` set pre then pre else pre @ [cur])"
proof -
  have "list_ex (\<lambda>item. u_key item = u_key cur \<and> u_match item = u_match cur
      \<and> same_value (u_value item) (u_value cur)) pre \<longleftrightarrow> update_id cur \<in> update_id ` set pre"
    by (simp add: list_ex_iff update_id_def update_site_def same_value_id image_iff) metis
  then show ?thesis by (simp add: push_update_def)
qed

lemma unique_updates_distinct: "distinct (map update_id (unique_updates us))"
proof -
  have "distinct (map update_id pre) \<Longrightarrow> distinct (map update_id (foldl push_update pre us))" for pre
    by (induction us arbitrary: pre) (auto simp: push_update_id)
  then show ?thesis by (simp add: unique_updates_def)
qed

lemma unique_updates_sites:
  assumes "distinct (filter P (map update_site us))"
  shows "distinct (filter P (map update_site (unique_updates us)))"
proof -
  have "distinct (filter P (map update_site (pre @ us))) \<Longrightarrow>
      distinct (filter P (map update_site (foldl push_update pre us)))" for pre
  proof (induction us arbitrary: pre)
    case (Cons u us)
    show ?case
    proof (cases "update_id u \<in> update_id ` set pre")
      case True
      have "distinct (filter P (map update_site (pre @ us)))" using Cons.prems by (simp split: if_splits)
      from Cons.IH [OF this] True show ?thesis by (simp add: push_update_id)
    next
      case False
      have "distinct (filter P (map update_site ((pre @ [u]) @ us)))" using Cons.prems by simp
      from Cons.IH [OF this] False show ?thesis by (simp add: push_update_id)
    qed
  qed simp
  from this [of "[]"] assms show ?thesis by (simp add: unique_updates_def)
qed

lemma find_unique_updates:
  assumes "\<And>u v. update_id u = update_id v \<Longrightarrow> p u = p v"
  shows "find p (unique_updates us) = find p us"
proof -
  have "find p (foldl push_update pre us) = find p (pre @ us)" for pre
  proof (induction us arbitrary: pre)
    case (Cons u us)
    show ?case
    proof (cases "update_id u \<in> update_id ` set pre")
      case True
      then obtain v where v: "v \<in> set pre" "p v = p u" using assms by (metis imageE)
      have "find p (pre @ u # us) = find p (pre @ us)"
      proof (cases "find p pre")
        case None
        with v have "\<not> p u" by (auto simp: find_None_iff)
        with None show ?thesis by (simp add: find_append)
      qed (simp add: find_append)
      with True Cons show ?thesis by (simp add: push_update_id)
    next
      case False
      then have "push_update pre u = pre @ [u]" by (simp add: push_update_id)
      then show ?thesis by (simp add: Cons)
    qed
  qed simp
  from this [of "[]"] show ?thesis by (simp add: unique_updates_def)
qed

lemma find_replaced: "findIdx p us = Some i \<Longrightarrow> p u \<Longrightarrow> find p (us[i := u]) = Some u"
  by (induction us arbitrary: i) (auto split: if_splits)

lemma find_other: "i < length us \<Longrightarrow> \<not> p (us ! i) \<Longrightarrow> \<not> p u \<Longrightarrow> find p (us[i := u]) = find p us"
proof (induction us arbitrary: i)
  case (Cons x us)
  then show ?case by (cases i) auto
qed simp

lemma map_update_same: "i < length xs \<Longrightarrow> f x = f (xs ! i) \<Longrightarrow> map f (xs[i := x]) = map f xs"
  by (simp add: map_update list_update_same_conv)

lemma deletes_add_update: "deletes (addUpdateValue k m v t os) = deletes os"
  by (simp add: addUpdateValue_def Let_def)

lemma updates_ok_add: "updates_ok os \<Longrightarrow> updates_ok (addUpdateValue k m v t os)"
proof -
  assume ok: "updates_ok os"
  let ?p = "\<lambda>u. u_key u = k \<and> u_match u = m \<and> u_match u \<noteq> Some []"
  let ?P = "\<lambda>(k, m). m \<noteq> Some []"
  show ?thesis
  proof (cases "findIdx ?p (updates os)")
    case None
    then have "m \<noteq> Some [] \<Longrightarrow> (k, m) \<notin> set (map update_site (updates os))"
      by (auto simp: findIdx_None update_site_def)
    with ok None show ?thesis
      by (auto simp: addUpdateValue_def updates_ok_def unique_updates_distinct update_site_def
          intro!: unique_updates_sites)
  next
    case (Some i)
    then have i: "i < length (updates os)" "?p (updates os ! i)" using findIdx_SomeD [OF Some] by auto
    let ?u = "\<lparr>u_key = k, u_match = m, u_value = recorded_value v t,
        u_type = Some (case t of None \<Rightarrow> DEFAULT_VALUE_TYPE | Some t \<Rightarrow> t)\<rparr>"
    have "map update_site ((updates os)[i := ?u]) = map update_site (updates os)"
      by (rule map_update_same [OF i(1)]) (use i(2) in \<open>simp add: update_site_def\<close>)
    with ok Some show ?thesis
      by (auto simp: addUpdateValue_def updates_ok_def unique_updates_distinct intro!: unique_updates_sites)
  qed
qed

lemma update_of_add:
  assumes "m \<noteq> Some []"
  shows "update_of (addUpdateValue k m v t os) k' m' =
    (if k' = k \<and> m' = m then Some (recorded_value v t) else update_of os k' m')"
proof -
  let ?p = "\<lambda>u. u_key u = k \<and> u_match u = m \<and> u_match u \<noteq> Some []"
  let ?q = "\<lambda>u. u_key u = k' \<and> u_match u = m'"
  have p: "?p = (\<lambda>u. u_key u = k \<and> u_match u = m)" using assms by auto
  have q: "find ?q (unique_updates us) = find ?q us" for us
    by (rule find_unique_updates) (auto simp: update_id_def update_site_def)
  show ?thesis
  proof (cases "findIdx ?p (updates os)")
    case None
    then have "find (\<lambda>u. u_key u = k \<and> u_match u = m) (updates os) = None"
      unfolding p by (simp add: findIdx_find)
    with None show ?thesis
      by (auto simp: update_of_def addUpdateValue_def q find_append split: option.splits)
  next
    case (Some i)
    have i: "i < length (updates os)" "?p (updates os ! i)" using findIdx_SomeD [OF Some] by auto
    show ?thesis
    proof (cases "k' = k \<and> m' = m")
      case True
      let ?u = "\<lparr>u_key = k, u_match = m, u_value = recorded_value v t,
          u_type = Some (case t of None \<Rightarrow> DEFAULT_VALUE_TYPE | Some t \<Rightarrow> t)\<rparr>"
      have "findIdx ?q (updates os) = Some i" using Some True unfolding p by simp
      then have "find ?q (unique_updates ((updates os)[i := ?u])) = Some ?u"
        unfolding q by (rule find_replaced) (use True in simp)
      with Some True show ?thesis by (simp add: update_of_def addUpdateValue_def)
    next
      case False
      let ?u = "\<lparr>u_key = k, u_match = m, u_value = recorded_value v t,
          u_type = Some (case t of None \<Rightarrow> DEFAULT_VALUE_TYPE | Some t \<Rightarrow> t)\<rparr>"
      have "find ?q ((updates os)[i := ?u]) = find ?q (updates os)"
        by (rule find_other [OF i(1)]) (use i(2) False in auto)
      then have "update_of (addUpdateValue k m v t os) k' m' = update_of os k' m'"
        using Some by (simp add: update_of_def addUpdateValue_def q)
      with False show ?thesis by (simp only: if_False)
    qed
  qed
qed

text \<open>
  Recording an update keeps at most one update for every matched value and none twice, and sets in
  the table of updates just the entry of its field and value.
\<close>

theorem add_update_sets_one_entry:
  assumes "updates_ok os" "m \<noteq> Some []"
  shows "updates_ok (addUpdateValue k m v t os)
    \<and> case_prod (update_of (addUpdateValue k m v t os)) = (case_prod (update_of os))((k, m) \<mapsto> recorded_value v t)
    \<and> deletes (addUpdateValue k m v t os) = deletes os"
  using assms by (simp add: updates_ok_add update_of_add fun_eq_iff deletes_add_update)

lemma add_update_sets_one_entry_witness:
  "update_of (addUpdateValue ''author'' (Some ''b'') (One ''c'') None
      (addUpdateValue ''author'' (Some ''a'') (One ''b'') None resetOperations)) ''author'' (Some ''b'') = Some (One ''c'')"
proof -
  have ok: "updates_ok (addUpdateValue ''author'' (Some ''a'') (One ''b'') None resetOperations)"
    by (rule updates_ok_add) (simp add: updates_ok_def resetOperations_def)
  from add_update_sets_one_entry [OF ok, of "Some ''b''" "''author''" "One ''c''" None] show ?thesis
    by (simp add: fun_eq_iff recorded_value_def)
qed

section \<open>The rows after a dialog\<close>

lemma add_row_keys: "map fst (add_row fm r) =
    (if m_field r \<in> set (map fst fm) then map fst fm else map fst fm @ [m_field r])"
proof (cases "map_of fm (m_field r)")
  case None
  then have "m_field r \<notin> set (map fst fm)" by (simp add: map_of_eq_None_iff)
  with None show ?thesis by (simp add: add_row_def)
next
  case (Some e)
  then have "m_field r \<in> set (map fst fm)" by (metis image_set map_of_eq_None_iff option.distinct(1))
  with Some show ?thesis by (simp add: add_row_def keys_replace_key del: set_map)
qed

lemma add_row_map: "map_of (add_row fm r) k =
    (if k = m_field r then Some (case map_of fm k of None \<Rightarrow> r | Some e \<Rightarrow> merge_row e r) else map_of fm k)"
  by (auto simp: add_row_def map_of_replace_key map_add_def split: option.splits)

text \<open>The values the rows have for a field, and what the table of the fields holds after some rows.\<close>

definition values_of :: "string \<Rightarrow> row list \<Rightarrow> string set" where
  "values_of k rows = \<Union> ((\<lambda>r. set (m_values r)) ` {r \<in> set rows. m_field r = k})"

definition filed :: "row list \<Rightarrow> (string \<times> row) list \<Rightarrow> bool" where
  "filed rows fm =
     (distinct (map fst fm) \<and> fst ` set fm = m_field ` set rows
      \<and> (\<forall>k r. map_of fm k = Some r \<longrightarrow> m_field r = k \<and> set (m_values r) = values_of k rows))"

lemma filed_add_row: "filed rows fm \<Longrightarrow> filed (rows @ [r]) (add_row fm r)"
proof -
  assume f: "filed rows fm"
  have keys: "fst ` set (add_row fm r) = insert (m_field r) (fst ` set fm)"
    using arg_cong [OF add_row_keys [of fm r], of set] by (auto split: if_splits)
  have none: "map_of fm k = None \<Longrightarrow> values_of k rows = {}" for k
    using f by (auto simp: filed_def map_of_eq_None_iff values_of_def)
  have vals: "values_of k (rows @ [r]) = values_of k rows \<union> (if k = m_field r then set (m_values r) else {})" for k
    by (auto simp: values_of_def)
  have entry: "m_field s = k \<and> set (m_values s) = values_of k (rows @ [r])"
    if s: "map_of (add_row fm r) k = Some s" for k s
  proof (cases "k = m_field r")
    case False
    with s have "map_of fm k = Some s" by (simp add: add_row_map)
    with f False show ?thesis by (simp add: vals filed_def)
  next
    case True
    show ?thesis
    proof (cases "map_of fm k")
      case None
      with s True have "s = r" by (simp add: add_row_map)
      with True none [OF None] show ?thesis by (simp add: vals)
    next
      case (Some e)
      with s True have "s = merge_row e r" by (simp add: add_row_map)
      moreover from Some f have "set (m_values e) = values_of k rows" by (simp add: filed_def)
      ultimately show ?thesis using True by (simp add: vals merge_row_def)
    qed
  qed
  have "distinct (map fst (add_row fm r))" using f by (simp add: filed_def add_row_keys)
  moreover have "fst ` set (add_row fm r) = m_field ` set (rows @ [r])" using f keys by (simp add: filed_def)
  ultimately show ?thesis unfolding filed_def using entry by blast
qed

lemma filed_rows: "filed rows (foldl add_row [] rows)"
proof (induction rows rule: rev_induct)
  case Nil
  show ?case by (simp add: filed_def)
next
  case (snoc r rows)
  then show ?case by (simp add: filed_add_row)
qed

text \<open>
  Saving a row from the dialog of its values leaves one row for each field, with all values that the
  rows of the field had.
\<close>

theorem saved_rows_have_distinct_fields:
  fixes index data s
  defines "rows \<equiv> (if index \<ge> length (tableData s) then tableData s @ [data] else (tableData s)[index := data])"
  shows "distinct (map m_field (tableData (handleSaveValues index data s)))
    \<and> (\<lambda>r. (m_field r, set (m_values r))) ` set (tableData (handleSaveValues index data s)) =
       (\<lambda>k. (k, values_of k rows)) ` m_field ` set rows"
proof -
  let ?fm = "foldl add_row [] rows"
  have f: "filed rows ?fm" by (rule filed_rows)
  have t: "tableData (handleSaveValues index data s) = map snd ?fm"
    by (simp add: handleSaveValues_def merge_fields_def rows_def Let_def)
  have fld: "m_field r = k \<and> set (m_values r) = values_of k rows" if "(k, r) \<in> set ?fm" for k r
    using that f unfolding filed_def by (meson map_of_is_SomeI)
  then have "map m_field (map snd ?fm) = map fst ?fm" by auto
  with f have "distinct (map m_field (map snd ?fm))" by (simp add: filed_def del: map_map)
  moreover have "(\<lambda>r. (m_field r, set (m_values r))) ` set (map snd ?fm) = (\<lambda>k. (k, values_of k rows)) ` fst ` set ?fm"
    using fld by (force simp: image_iff)
  ultimately show ?thesis using f by (simp add: t filed_def)
qed

end
