(* ===== verification/Metadata_Values.thy ===== *)
theory Metadata_Values
  imports Dataset_Metadata
begin

text \<open>
  The dialog in which the values of one field are edited, \<open>hooks/use-manage-values-modal.ts\<close>: the row
  under edit, the texts of its input boxes, and the operations of the table that it records. A message is
  modelled by whether it is shown. Every index comes from the boxes that are shown.
\<close>

section \<open>State\<close>

record dialog_props =
  dp_data :: row
  isAddValueMode :: bool
  existsKeys :: "string list"
  dp_type :: metadata_type

record dialog =
  metaData :: row
  tempValues :: "string list"
  fieldError :: bool
  valuesError :: bool
  shouldSave :: bool
  recorded :: operations

text \<open>The dialog once the effect on its data has run.\<close>

definition open_dialog :: "dialog_props \<Rightarrow> operations \<Rightarrow> dialog" where
  "open_dialog props os =
     (let data = dp_data props in
      \<lparr>metaData = data\<lparr>m_type := (if m_type data = [] then ''string'' else m_type data)\<rparr>,
       tempValues = m_values data, fieldError = False, valuesError = False, shouldSave = False,
       recorded = os\<rparr>)"

section \<open>Handlers\<close>

datatype change =
    Change_Field string
  | Change_Description string
  | Change_Type string
  | Change_Restrict bool
  | Change_Values "string list"

fun changed_row :: "change \<Rightarrow> row \<Rightarrow> row" where
  "changed_row (Change_Field v) r = r\<lparr>m_field := v\<rparr>"
| "changed_row (Change_Description v) r = r\<lparr>m_description := Some v\<rparr>"
| "changed_row (Change_Type v) r =
     r\<lparr>m_type := (if v = [] then ''string'' else v),
       m_restrict := (case m_restrict r of None \<Rightarrow> Some None | x \<Rightarrow> x)\<rparr>"
| "changed_row (Change_Restrict b) r = r\<lparr>m_restrict := Some (Some b)\<rparr>"
| "changed_row (Change_Values vs) r = r\<lparr>m_values := vs\<rparr>"

definition handleChange :: "dialog_props \<Rightarrow> change \<Rightarrow> dialog \<Rightarrow> dialog" where
  "handleChange props c s =
     (let s' = (case c of Change_Field v \<Rightarrow> s\<lparr>fieldError := v \<in> set (existsKeys props)\<rparr> | _ \<Rightarrow> s)
      in s'\<lparr>metaData := changed_row c (metaData s')\<rparr>)"

definition record_value :: "string list \<Rightarrow> string \<Rightarrow> string \<Rightarrow> operations \<Rightarrow> nat \<times> string \<Rightarrow> operations" where
  "record_value originals fld type os iv =
     (case iv of (index, newValue) \<Rightarrow>
        if index < length originals
        then (if originals ! index \<noteq> newValue
              then addUpdateValue fld (Some (originals ! index)) (One newValue) (Some type) os else os)
        else (if newValue \<noteq> [] then addUpdateValue fld (Some []) (One newValue) (Some type) os else os))"

definition handleValueBlur :: "dialog_props \<Rightarrow> string list option \<Rightarrow> dialog \<Rightarrow> dialog" where
  "handleValueBlur props vs s =
     (let newValues = (case vs of Some vs \<Rightarrow> vs | None \<Rightarrow> tempValues s);
          originals = m_values (dp_data props);
          s' = (if 0 < length originals \<and> \<not> isAddValueMode props
                then s\<lparr>recorded := foldl (record_value originals (m_field (metaData s)) (m_type (metaData s)))
                         (recorded s) (enumerate 0 newValues)\<rparr>
                else s)
      in handleChange props (Change_Values (nub newValues)) s')"

definition handleValueChange :: "dialog_props \<Rightarrow> nat \<Rightarrow> string \<Rightarrow> bool \<Rightarrow> dialog \<Rightarrow> dialog" where
  "handleValueChange props index val isUpdate s =
     (let newValues = (tempValues s)[index := val];
          s1 = s\<lparr>valuesError := val \<in> set (tempValues s)\<rparr>;
          s2 = (if isUpdate then handleValueBlur props (Some newValues) s1 else s1)
      in s2\<lparr>tempValues := newValues\<rparr>)"

definition handleDelete :: "nat \<Rightarrow> dialog \<Rightarrow> dialog" where
  "handleDelete index s =
     s\<lparr>recorded := addDeleteValue (m_field (metaData s)) (tempValues s ! index) (recorded s),
       tempValues := remove_at index (tempValues s),
       metaData := (metaData s)\<lparr>m_values := remove_at index (m_values (metaData s))\<rparr>\<rparr>"

definition handleClearValues :: "bool \<Rightarrow> dialog \<Rightarrow> dialog" where
  "handleClearValues isClearInitialValues s =
     (let vs = (if isClearInitialValues then [] else [[]]) in
      s\<lparr>tempValues := vs, metaData := (metaData s)\<lparr>m_values := vs\<rparr>\<rparr>)"

definition handleAddValue :: "dialog \<Rightarrow> dialog" where
  "handleAddValue s =
     s\<lparr>tempValues := nub (tempValues s @ [[]]),
       metaData := (metaData s)\<lparr>m_values := nub (m_values (metaData s) @ [[]])\<rparr>\<rparr>"

text \<open>The reference of the array of values is drawn from outside.\<close>

definition handleSave_values :: "dialog_props \<Rightarrow> nat \<Rightarrow> dialog \<Rightarrow> dialog" where
  "handleSave_values props ref s =
     (if dp_type props = Setting \<and> fieldError s then s
      else (let s' = (if isAddValueMode props
                      then s\<lparr>recorded := addUpdateValue (m_field (metaData s)) None
                               (Many ref (m_values (metaData s))) (Some (m_type (metaData s))) (recorded s)\<rparr>
                      else s)
            in s'\<lparr>shouldSave := True\<rparr>))"

text \<open>The effect of the time out: the row that is passed to the table.\<close>

definition save_timer :: "dialog \<Rightarrow> row option \<times> dialog" where
  "save_timer s = (if shouldSave s then (Some (metaData s), s\<lparr>shouldSave := False\<rparr>) else (None, s))"

section \<open>What leaving an input box records\<close>

lemma recorded_One [simp]: "recorded_value (One v) t = One v"
  by (simp add: recorded_value_def)

lemma update_of_add_new: "m' \<noteq> Some [] \<Longrightarrow> update_of (addUpdateValue k (Some []) v t os) k' m' = update_of os k' m'"
proof -
  assume m: "m' \<noteq> Some []"
  let ?q = "\<lambda>u. u_key u = k' \<and> u_match u = m'"
  have q: "find ?q (unique_updates us) = find ?q us" for us
    by (rule find_unique_updates) (auto simp: update_id_def update_site_def)
  have "findIdx (\<lambda>u. u_key u = k \<and> u_match u = Some [] \<and> u_match u \<noteq> Some []) (updates os) = None"
    by (simp add: findIdx_None)
  with m show ?thesis
    by (auto simp: update_of_def addUpdateValue_def q find_append split: option.split)
qed

lemma record_values:
  assumes "distinct originals" "j < length originals" "originals ! j \<noteq> []"
  shows "update_of (foldl (record_value originals k t) os (enumerate n xs)) k (Some (originals ! j)) =
    (if n \<le> j \<and> j < n + length xs \<and> xs ! (j - n) \<noteq> originals ! j then Some (One (xs ! (j - n)))
     else update_of os k (Some (originals ! j)))"
proof (induction xs arbitrary: n os)
  case (Cons x xs)
  have one: "update_of (record_value originals k t os (n, x)) k (Some (originals ! j)) =
      (if n = j \<and> x \<noteq> originals ! j then Some (One x) else update_of os k (Some (originals ! j)))"
  proof (cases "n < length originals")
    case True
    show ?thesis
    proof (cases "originals ! n = []")
      case True
      with assms \<open>n < length originals\<close> show ?thesis
        by (auto simp: record_value_def update_of_add_new)
    next
      case False
      with assms \<open>n < length originals\<close> show ?thesis
        by (auto simp: record_value_def update_of_add nth_eq_iff_index_eq)
    qed
  next
    case False
    with assms show ?thesis by (auto simp: record_value_def update_of_add_new)
  qed
  consider "j < n" | "n = j" | i where "j = Suc (n + i)"
    by (metis less_imp_Suc_add linorder_less_linear)
  then show ?case
  proof cases
    case 1
    then show ?thesis by (simp add: Cons.IH one)
  next
    case 2
    then show ?thesis using one by (simp add: Cons.IH)
  next
    case 3
    then have "j - n = Suc i" "j - Suc n = i" "n \<noteq> j" "n \<le> j" "Suc n \<le> j"
      "j < n + length (x # xs) \<longleftrightarrow> j < Suc n + length xs" by simp_all
    then show ?thesis using one by (simp add: Cons.IH)
  qed
qed auto

text \<open>
  Leaving an input box records, for every value that was fetched, just the text that is now in the
  box of its place when the two differ, and keeps what is recorded for it otherwise.
\<close>

theorem blur_records_changed_places:
  assumes "distinct (m_values (dp_data props))" "\<not> isAddValueMode props"
    "j < length (m_values (dp_data props))" "m_values (dp_data props) ! j \<noteq> []"
  shows "update_of (recorded (handleValueBlur props None s)) (m_field (metaData s)) (Some (m_values (dp_data props) ! j)) =
    (if j < length (tempValues s) \<and> tempValues s ! j \<noteq> m_values (dp_data props) ! j
     then Some (One (tempValues s ! j))
     else update_of (recorded s) (m_field (metaData s)) (Some (m_values (dp_data props) ! j)))"
proof -
  have "0 < length (m_values (dp_data props))" using assms(3) by linarith
  with assms show ?thesis
    by (simp add: handleValueBlur_def handleChange_def Let_def record_values)
qed

abbreviation colour_row :: row where
  "colour_row \<equiv> \<lparr>m_field = ''colour'', m_description = None, m_restrict = None,
     m_values = [''red'', ''green'', ''blue''], m_type = ''string''\<rparr>"

abbreviation colour_props :: dialog_props where
  "colour_props \<equiv> \<lparr>dp_data = colour_row, isAddValueMode = False, existsKeys = [''colour''], dp_type = Manage\<rparr>"

lemma blur_records_changed_places_witness:
  "update_of (recorded (handleValueBlur colour_props None
      (handleValueChange colour_props 1 ''lime'' False (open_dialog colour_props resetOperations))))
     ''colour'' (Some ''green'') = Some (One ''lime'')"
  using blur_records_changed_places [of colour_props 1
      "handleValueChange colour_props 1 ''lime'' False (open_dialog colour_props resetOperations)"]
  by (simp add: handleValueChange_def open_dialog_def Let_def)

lemma nth_remove_at: "i \<le> j \<Longrightarrow> Suc j < length xs \<Longrightarrow> remove_at i xs ! j = xs ! Suc j"
  by (simp add: remove_at_def nth_append)

text \<open>
  Deleting a value and then leaving an input box records that each later value becomes the one after
  it: the boxes have moved up by one and are compared with the fetched values place by place.
\<close>

theorem delete_then_blur_shifts_values:
  assumes "distinct (m_values (dp_data props))" "\<not> isAddValueMode props" "i \<le> j"
    "Suc j < length (m_values (dp_data props))" "m_values (dp_data props) ! j \<noteq> []"
  shows "update_of (recorded (handleValueBlur props None (handleDelete i (open_dialog props os))))
      (m_field (dp_data props)) (Some (m_values (dp_data props) ! j)) =
    Some (One (m_values (dp_data props) ! Suc j))"
proof -
  let ?vs = "m_values (dp_data props)"
  let ?s = "handleDelete i (open_dialog props os)"
  have s: "tempValues ?s = remove_at i ?vs" "m_field (metaData ?s) = m_field (dp_data props)"
    by (simp_all add: handleDelete_def open_dialog_def Let_def)
  have "j < length (remove_at i ?vs)" using assms(3,4) by (simp add: length_remove_at)
  moreover have "?vs ! Suc j \<noteq> ?vs ! j" using assms(1,4) by (simp add: nth_eq_iff_index_eq)
  moreover have "0 < length ?vs" using assms(4) by linarith
  ultimately show ?thesis
    using assms s by (simp add: handleValueBlur_def handleChange_def Let_def record_values nth_remove_at)
qed

lemma delete_then_blur_shifts_values_witness:
  "update_of (recorded (handleValueBlur colour_props None (handleDelete 0 (open_dialog colour_props resetOperations))))
     ''colour'' (Some ''green'') = Some (One ''blue'')"
  using delete_then_blur_shifts_values [of colour_props 0 1 resetOperations] by simp

text \<open>
  The boxes and the values of the row drift apart when a text is entered twice: deleting the second box
  then deletes a value that is still shown.
\<close>

lemma duplicate_then_delete_loses_value:
  "let s = handleDelete 1 (handleValueBlur colour_props None
      (handleValueChange colour_props 1 ''red'' False (open_dialog colour_props resetOperations)))
   in tempValues s = [''red'', ''blue''] \<and> m_values (metaData s) = [''red'']"
  by (simp add: Let_def handleDelete_def handleValueBlur_def handleValueChange_def handleChange_def
      open_dialog_def remove_at_def nub_def push_new_def)

end
