(* ===== verification/Llm_Util.thy ===== *)
theory Llm_Util
  imports Js_Json Js_String
begin

text \<open>
  The names of models and the tenant parameters of requests (\<open>utils/llm-util.ts\<close>) and the cache of the
  list of models (\<open>utils/llm-cache.ts\<close>). The url and the cached list stay the same while the data of one
  request is walked; the id of a model is a string, as the type of \<open>getTenantModelId\<close> has it.
\<close>

section \<open>The cache\<close>

text \<open>The entry of the local storage: JSON of a record of data and time, or a text that is not JSON.\<close>

datatype stored = Json_Text jsv | Broken_Text

definition CACHE_DURATION :: rat where
  "CACHE_DURATION = 5 * 60 * 1000"

text \<open>
  What is read, and the entry afterwards. A number is subtracted from the time; anything that does not
  become a number makes the comparison false. \<open>num_of\<close> is the conversion to a number.
\<close>

definition expired :: "rat \<Rightarrow> jsnum \<Rightarrow> bool" where
  "expired now t = (case t of Fin q \<Rightarrow> CACHE_DURATION < now - q | NInf \<Rightarrow> True | _ \<Rightarrow> False)"

definition getCachedLlmList :: "(jsv \<Rightarrow> jsnum) \<Rightarrow> rat \<Rightarrow> stored option \<Rightarrow> jsv \<times> stored option" where
  "getCachedLlmList num_of now cached =
     (case cached of
        None \<Rightarrow> (JNull, None)
      | Some Broken_Text \<Rightarrow> (JNull, None)
      | Some (Json_Text parsed) \<Rightarrow>
          if nullish parsed then (JNull, None)
          else if expired now (num_of (jget parsed ''timestamp'')) then (JNull, None)
          else (jget parsed ''data'', cached))"

definition setCachedLlmList :: "rat \<Rightarrow> jsv \<Rightarrow> stored option" where
  "setCachedLlmList now data =
     Some (Json_Text (json_norm (JObj [(''data'', data), (''timestamp'', JNum (Fin now))])))"

definition clearLlmCache :: "stored option" where
  "clearLlmCache = None"

definition isLlmListCached :: "(jsv \<Rightarrow> jsnum) \<Rightarrow> rat \<Rightarrow> stored option \<Rightarrow> bool" where
  "isLlmListCached num_of now cached = (fst (getCachedLlmList num_of now cached) \<noteq> JNull)"

section \<open>Names of models\<close>

definition at0 :: "string list \<Rightarrow> string" where
  "at0 xs = (case xs of [] \<Rightarrow> [] | x # _ \<Rightarrow> x)"

definition getLLMIconName :: "string \<Rightarrow> string \<Rightarrow> string" where
  "getLLMIconName fid llm_name = (if fid = ''FastEmbed'' then at0 (split_on CHR ''/'' llm_name) else fid)"

text \<open>The second part is \<open>undefined\<close> when there is no separator.\<close>

definition parseModelUuid :: "string \<Rightarrow> string \<times> string option" where
  "parseModelUuid uuid = (let ps = split_on CHR ''@'' uuid in (at0 ps, nth_opt ps 1))"

definition getLlmNameAndFIdByLlmId :: "string option \<Rightarrow> string option \<times> string option" where
  "getLlmNameAndFIdByLlmId llmId =
     (let ps = (case llmId of None \<Rightarrow> [] | Some s \<Rightarrow> split_on CHR ''@'' s) in (nth_opt ps 1, nth_opt ps 0))"

definition getRealModelName :: "string \<Rightarrow> string" where
  "getRealModelName llmName =
     (case index_of llmName ''__'' of None \<Rightarrow> llmName | Some i \<Rightarrow> take i llmName)"

definition buildLlmUuid :: "string \<Rightarrow> string \<Rightarrow> string" where
  "buildLlmUuid llm_name fid = llm_name @ ''@'' @ fid"

section \<open>The tenant id of a model\<close>

definition model_id :: "jsv option \<Rightarrow> jsv option" where
  "model_id model =
     (case model of
        Some m \<Rightarrow> if truthy m \<and> truthy (jget m ''id'') then Some (jget m ''id'') else None
      | None \<Rightarrow> None)"

fun tenant_id_in :: "(string \<times> jsv) list \<Rightarrow> string \<Rightarrow> jsv \<Rightarrow> jsv js" where
  "tenant_id_in [] modelName factoryId = Inr (JStr [])"
| "tenant_id_in ((provider, data) # rest) modelName factoryId =
     js_bind (jprop data ''llm'') (\<lambda>llm.
       case llm of
         JArr ms \<Rightarrow>
           js_bind (js_find (\<lambda>m. js_bind (jprop m ''name'') (\<lambda>n.
               Inr (js_seq n (JStr modelName) \<and> js_seq (JStr provider) factoryId))) ms)
             (\<lambda>model. case model_id model of Some i \<Rightarrow> Inr i | None \<Rightarrow> tenant_id_in rest modelName factoryId)
       | _ \<Rightarrow>
           (case data of
              JArr ms \<Rightarrow>
                js_bind (js_find (\<lambda>m. js_bind (jprop m ''llm_name'') (\<lambda>n.
                    Inr (js_seq n (JStr modelName) \<and> js_seq (jget m ''fid'') factoryId))) ms)
                  (\<lambda>model. case model_id model of Some i \<Rightarrow> Inr i | None \<Rightarrow> tenant_id_in rest modelName factoryId)
            | _ \<Rightarrow> tenant_id_in rest modelName factoryId))"

definition getTenantModelId :: "jsv \<Rightarrow> string \<Rightarrow> jsv \<Rightarrow> jsv js" where
  "getTenantModelId llmList modelName factoryId = tenant_id_in (props_of llmList) modelName factoryId"

section \<open>Tenant parameters\<close>

definition modelParamMap :: "(string \<times> string) list" where
  "modelParamMap = [(''llm_id'', ''tenant_llm_id''), (''embd_id'', ''tenant_embd_id''), (''asr_id'', ''tenant_asr_id''),
     (''tts_id'', ''tenant_tts_id''), (''img2txt_id'', ''tenant_img2txt_id''), (''rerank_id'', ''tenant_rerank_id'')]"

definition API_WHITELIST :: "string list" where
  "API_WHITELIST = [''/api/v1/users/me/models'', ''/api/v1/chats'', ''/v1/canvas/set'', ''/v1/canvas/setting'',
     ''/api/v1/searches/'', ''/api/v1/memories'', ''/api/v1/datasets'', ''/v1/dataflow/set'']"

definition isUrlInWhitelist :: "string \<Rightarrow> bool" where
  "isUrlInWhitelist url = list_ex (\<lambda>endpoint. str_includes url endpoint) API_WHITELIST"

text \<open>The tenant id of the model that a parameter names; errors are caught, and a value that is not a string has none.\<close>

definition tenant_of :: "jsv \<Rightarrow> jsv \<Rightarrow> jsv option" where
  "tenant_of llmList v =
     (case v of
        JStr uuid \<Rightarrow>
          (case parseModelUuid uuid of (modelName, factoryId) \<Rightarrow>
             (case getTenantModelId llmList modelName (case factoryId of None \<Rightarrow> JUndef | Some f \<Rightarrow> JStr f) of
                Inl e \<Rightarrow> None
              | Inr i \<Rightarrow> if truthy i then Some i else None))
      | _ \<Rightarrow> None)"

definition add_tenant :: "jsv \<Rightarrow> props \<Rightarrow> string \<times> string \<Rightarrow> props" where
  "add_tenant llmList newData params =
     (case params of (paramName, tenantParamName) \<Rightarrow>
        if truthy (jget (JObj newData) paramName)
        then (case tenant_of llmList (jget (JObj newData) paramName) of
                Some i \<Rightarrow> obj_put tenantParamName i newData
              | None \<Rightarrow> newData)
        else newData)"

text \<open>The keys for which \<open>modelParamMap[key]\<close> is a value: its own, and those every object inherits.\<close>

definition skipped_keys :: "string list" where
  "skipped_keys = map fst modelParamMap @ [''constructor'', ''hasOwnProperty'', ''isPrototypeOf'',
     ''propertyIsEnumerable'', ''toLocaleString'', ''toString'', ''valueOf'', ''__defineGetter__'',
     ''__defineSetter__'', ''__lookupGetter__'', ''__lookupSetter__'', ''__proto__'']"

definition is_obj :: "jsv \<Rightarrow> bool" where
  "is_obj v = (js_typeof v = ''object'' \<and> v \<noteq> JNull)"

fun add_model_params :: "jsv \<Rightarrow> jsv \<Rightarrow> jsv" where
  "add_model_params llmList (JArr xs) = JArr (map (add_model_params llmList) xs)"
| "add_model_params llmList (JObj ps) =
     (let nested = map (\<lambda>(k, v). (k, add_model_params llmList v)) ps;
          newData = foldl (add_tenant llmList) ps modelParamMap
      in JObj (map (\<lambda>(key, v).
           (key, if is_obj v \<and> key \<notin> set skipped_keys
                 then (case map_of nested key of Some w \<Rightarrow> w | None \<Rightarrow> v) else v)) newData))"
| "add_model_params llmList v = v"

definition addTenantParams :: "jsv \<Rightarrow> string option \<Rightarrow> jsv \<Rightarrow> jsv" where
  "addTenantParams llmList url data =
     (if \<not> is_obj data then data
      else if (case url of None \<Rightarrow> False | Some u \<Rightarrow> u \<noteq> [] \<and> \<not> isUrlInWhitelist u) then data
      else if \<not> truthy llmList then data
      else add_model_params llmList data)"

section \<open>Facts on the cache and the names\<close>

text \<open>
  A list that was cached is read back for five minutes, and after that it is gone from the storage.
\<close>

theorem cached_list_lives_five_minutes:
  assumes "num_of (JNum (Fin t)) = Fin t" "json_norm data = data" "data \<noteq> JNull"
  shows "getCachedLlmList num_of now (setCachedLlmList t data) =
      (if now - t \<le> CACHE_DURATION then (data, setCachedLlmList t data) else (JNull, None))
    \<and> isLlmListCached num_of now (setCachedLlmList t data) = (now - t \<le> CACHE_DURATION)"
proof -
  have "data \<noteq> JUndef" using assms(2) json_norm_defined by metis
  with assms show ?thesis
    by (auto simp: getCachedLlmList_def setCachedLlmList_def isLlmListCached_def expired_def nullish_def)
qed

lemma cached_list_lives_five_minutes_witness:
  "fst (getCachedLlmList (\<lambda>v. case v of JNum n \<Rightarrow> n | _ \<Rightarrow> NaN) 1000 (setCachedLlmList 0 (JObj []))) = JObj []"
  using cached_list_lives_five_minutes [of "\<lambda>v. case v of JNum n \<Rightarrow> n | _ \<Rightarrow> NaN" 0 "JObj []" 1000]
  by (simp add: CACHE_DURATION_def)

text \<open>
  The identifier that is built of a model and its provider gives both back when neither has an
  \<open>@\<close> in it.
\<close>

theorem model_uuid_round_trip:
  assumes "CHR ''@'' \<notin> set name" "CHR ''@'' \<notin> set fid"
  shows "parseModelUuid (buildLlmUuid name fid) = (name, Some fid)
    \<and> getLlmNameAndFIdByLlmId (Some (buildLlmUuid name fid)) = (Some fid, Some name)"
proof -
  have "split_on CHR ''@'' (buildLlmUuid name fid) = [name, fid]"
    using split_on_append [OF assms(1), of fid] by (simp add: buildLlmUuid_def split_on_none [OF assms(2)])
  then show ?thesis by (simp add: parseModelUuid_def getLlmNameAndFIdByLlmId_def at0_def nth_opt_def)
qed

lemma model_uuid_round_trip_witness:
  "parseModelUuid (buildLlmUuid ''qwen'' ''Ollama'') = (''qwen'', Some ''Ollama'')"
  using model_uuid_round_trip [of "''qwen''" "''Ollama''"] by simp

section \<open>What the tenant parameters change\<close>

lemma at_params: "map_of modelParamMap p = Some t \<Longrightarrow> p \<in> set skipped_keys \<and> t \<noteq> p"
  by (auto simp: modelParamMap_def skipped_keys_def split: if_splits)

text \<open>The id that goes under a tenant key: that of the parameter the key belongs to.\<close>

definition tenant_id :: "jsv \<Rightarrow> props \<Rightarrow> string \<Rightarrow> jsv option" where
  "tenant_id llmList ps p =
     (if truthy (jget (JObj ps) p) then tenant_of llmList (jget (JObj ps) p) else None)"

definition new_id :: "(string \<times> string) list \<Rightarrow> jsv \<Rightarrow> props \<Rightarrow> string \<Rightarrow> jsv option" where
  "new_id params llmList ps t =
     (case map_of (map prod.swap params) t of None \<Rightarrow> None | Some p \<Rightarrow> tenant_id llmList ps p)"

lemma add_tenant_id: "add_tenant llmList ps (p, t) = (case tenant_id llmList ps p of Some i \<Rightarrow> obj_put t i ps | None \<Rightarrow> ps)"
  by (simp add: add_tenant_def tenant_id_def)

lemma tenant_id_cong: "map_of ps p = map_of qs p \<Longrightarrow> tenant_id llmList ps p = tenant_id llmList qs p"
  by (simp add: tenant_id_def)

lemma add_tenants_map:
  assumes "distinct (map snd params)" "set (map fst params) \<inter> set (map snd params) = {}"
  shows "map_of (foldl (add_tenant llmList) ps params) k =
    (case new_id params llmList ps k of Some i \<Rightarrow> Some i | None \<Rightarrow> map_of ps k)"
  using assms
proof (induction params arbitrary: ps)
  case Nil
  then show ?case by (simp add: new_id_def)
next
  case (Cons pt params)
  obtain p t where pt: "pt = (p, t)" by (cases pt)
  let ?ps = "add_tenant llmList ps (p, t)"
  have m: "map_of ?ps x = (if x = t then (case tenant_id llmList ps p of Some i \<Rightarrow> Some i | None \<Rightarrow> map_of ps x)
      else map_of ps x)" for x
    by (auto simp: add_tenant_id split: option.split)
  have "tenant_id llmList ?ps q = tenant_id llmList ps q" if "q \<in> set (map fst params)" for q
    using that Cons.prems(2) pt by (intro tenant_id_cong) (auto simp: m)
  moreover have "map_of (map prod.swap params) x = Some q \<Longrightarrow> q \<in> set (map fst params)" for x q
    by (force dest: map_of_SomeD)
  ultimately have same: "new_id params llmList ?ps x = new_id params llmList ps x" for x
    by (auto simp: new_id_def split: option.split)
  have "map_of (map prod.swap params) t = None"
    using Cons.prems(1) pt by (force simp: map_of_eq_None_iff)
  then have here: "new_id params llmList ps t = None" by (simp add: new_id_def)
  have first: "new_id ((p, t) # params) llmList ps k =
      (if k = t then tenant_id llmList ps p else new_id params llmList ps k)"
    by (simp add: new_id_def)
  have "map_of (foldl (add_tenant llmList) ?ps params) k =
      (case new_id params llmList ps k of Some i \<Rightarrow> Some i | None \<Rightarrow> map_of ?ps k)"
    using Cons.IH [of ?ps] Cons.prems by (simp add: pt same)
  then show ?case by (auto simp: pt m first here split: option.splits)
qed

lemma wf_add_tenants: "wf_obj ps \<Longrightarrow> wf_obj (foldl (add_tenant llmList) ps params)"
proof (induction params arbitrary: ps)
  case (Cons pt params)
  then show ?case by (cases pt) (simp add: add_tenant_id split: option.split)
qed simp

lemma params_ok:
  "distinct (map snd modelParamMap)" "set (map fst modelParamMap) \<inter> set (map snd modelParamMap) = {}"
  by (simp_all add: modelParamMap_def)

lemma map_of_map_key: "map_of (map (\<lambda>(k, v). (k, f k v)) ps) k = map_option (f k) (map_of ps k)"
  by (induction ps) auto

text \<open>The ids of models are not objects.\<close>

definition ids_plain :: "jsv \<Rightarrow> bool" where
  "ids_plain llmList = (\<forall>v i. tenant_of llmList v = Some i \<longrightarrow> \<not> is_obj i)"

lemma new_id_plain: "ids_plain llmList \<Longrightarrow> new_id params llmList ps k = Some i \<Longrightarrow> \<not> is_obj i"
  by (auto simp: new_id_def tenant_id_def ids_plain_def split: option.splits if_splits)

lemma add_params_obj:
  assumes "ids_plain llmList"
  shows "map_of (props_of (add_model_params llmList (JObj ps))) k =
    (case new_id modelParamMap llmList ps k of
       Some i \<Rightarrow> Some i
     | None \<Rightarrow> map_option (\<lambda>v. if is_obj v \<and> k \<notin> set skipped_keys then add_model_params llmList v else v) (map_of ps k))"
proof -
  have n: "map_of (map (\<lambda>(k, v). (k, add_model_params llmList v)) ps) k = map_option (add_model_params llmList) (map_of ps k)"
    by (induction ps) auto
  show ?thesis
    using new_id_plain [OF assms, of modelParamMap ps k]
    by (auto simp: Let_def n map_of_map_key [of "\<lambda>key v. if is_obj v \<and> key \<notin> set skipped_keys
          then (case map_of (map (\<lambda>(k, v). (k, add_model_params llmList v)) ps) key of Some w \<Rightarrow> w | None \<Rightarrow> v) else v"]
        add_tenants_map [OF params_ok] split: option.splits)
       (cases "map_of ps k"; simp add: n)
qed

text \<open>
  The tenant parameters of an object: a tenant key gets the id of the model that its parameter
  names, nested objects outside the parameters are treated in the same way, and every other property
  stays.
\<close>

theorem tenant_params_exact:
  assumes "ids_plain llmList" "truthy llmList" "case url of None \<Rightarrow> True | Some u \<Rightarrow> isUrlInWhitelist u"
  shows "map_of (props_of (addTenantParams llmList url (JObj ps))) k =
    (case new_id modelParamMap llmList ps k of
       Some i \<Rightarrow> Some i
     | None \<Rightarrow> map_option (\<lambda>v. if is_obj v \<and> k \<notin> set skipped_keys then addTenantParams llmList url v else v)
         (map_of ps k))"
proof -
  have add: "is_obj v \<Longrightarrow> addTenantParams llmList url v = add_model_params llmList v" for v
    using assms(2,3) by (auto simp: addTenantParams_def split: option.splits)
  have "addTenantParams llmList url (JObj ps) = add_model_params llmList (JObj ps)"
    by (rule add) (simp add: is_obj_def)
  then show ?thesis
    using add_params_obj [OF assms(1), of ps k]
    by (cases "map_of ps k") (simp_all del: add_model_params.simps add: add split: option.split)
qed

definition one_provider :: jsv where
  "one_provider = JObj [(''Ollama'', JObj [(''llm'', JArr [JObj [(''name'', JStr ''qwen''), (''id'', JStr ''t1'')]])])]"

lemma tenant_in_one_provider:
  "tenant_of one_provider v = Some i \<Longrightarrow> i = JStr ''t1''"
  by (auto simp: tenant_of_def one_provider_def getTenantModelId_def jprop_def nullish_def model_id_def
      split: jsv.splits prod.splits sum.splits option.splits if_splits)

lemma one_provider_plain: "ids_plain one_provider"
  by (auto simp: ids_plain_def is_obj_def dest: tenant_in_one_provider)

lemma tenant_params_exact_witness:
  "map_of (props_of (addTenantParams one_provider None (JObj [(''llm_id'', JStr ''qwen@Ollama'')]))) ''tenant_llm_id'' =
     Some (JStr ''t1'')"
proof -
  have "new_id modelParamMap one_provider [(''llm_id'', JStr ''qwen@Ollama'')] ''tenant_llm_id'' = Some (JStr ''t1'')"
    by (simp add: new_id_def modelParamMap_def tenant_id_def tenant_of_def parseModelUuid_def at0_def nth_opt_def
        getTenantModelId_def one_provider_def jprop_def nullish_def model_id_def Let_def)
  then show ?thesis
    using tenant_params_exact [OF one_provider_plain, of None "[(''llm_id'', JStr ''qwen@Ollama'')]" "''tenant_llm_id''"]
    by (simp add: one_provider_def)
qed

section \<open>Adding the parameters again\<close>

text \<open>Objects without repeated keys, all the way down.\<close>

fun deep_wf :: "jsv \<Rightarrow> bool" where
  "deep_wf (JObj ps) = (wf_obj ps \<and> list_all (\<lambda>(k, v). deep_wf v) ps)"
| "deep_wf (JArr xs) = list_all deep_wf xs"
| "deep_wf _ = True"

lemma replace_same: "map_of ps k = Some v \<Longrightarrow> replace_key k v ps = ps"
  by (induction ps) auto

lemma put_same: "map_of ps k = Some v \<Longrightarrow> obj_put k v ps = ps"
  using replace_same [of ps k v] by (auto simp: obj_put_def dest: map_of_SomeD intro: rev_image_eqI)

lemma tenants_settled:
  "(\<And>p t i. (p, t) \<in> set params \<Longrightarrow> tenant_id llmList ps p = Some i \<Longrightarrow> map_of ps t = Some i) \<Longrightarrow>
     foldl (add_tenant llmList) ps params = ps"
proof (induction params)
  case (Cons pt params)
  obtain p t where pt: "pt = (p, t)" by (cases pt)
  have "add_tenant llmList ps (p, t) = ps"
    using Cons.prems [of p t] by (auto simp: pt add_tenant_id put_same split: option.split)
  moreover have "foldl (add_tenant llmList) ps params = ps"
    by (rule Cons.IH) (use Cons.prems in auto)
  ultimately show ?case by (simp add: pt)
qed simp

lemma add_params_is_obj: "is_obj (add_model_params llmList v) = is_obj v"
  by (cases v) (simp_all add: is_obj_def Let_def)

lemma add_params_obj_again:
  assumes plain: "ids_plain llmList" and wf: "wf_obj ps"
    and IH: "\<And>k v. (k, v) \<in> set ps \<Longrightarrow> add_model_params llmList (add_model_params llmList v) = add_model_params llmList v"
  shows "add_model_params llmList (add_model_params llmList (JObj ps)) = add_model_params llmList (JObj ps)"
proof -
  let ?new = "foldl (add_tenant llmList) ps modelParamMap"
  let ?f = "\<lambda>key v. if is_obj v \<and> key \<notin> set skipped_keys then add_model_params llmList v else v"
  obtain rs where rs: "add_model_params llmList (JObj ps) = JObj rs" by (simp add: Let_def)
  have get: "map_of rs k = (case new_id modelParamMap llmList ps k of Some i \<Rightarrow> Some i
      | None \<Rightarrow> map_option (?f k) (map_of ps k))" for k
    using add_params_obj [OF plain, of ps k] by (simp add: rs del: add_model_params.simps)
  have keys: "map fst rs = map fst ?new"
    using rs by (auto simp: Let_def comp_def case_prod_beta)
  have wfr: "wf_obj rs" using wf_add_tenants [OF wf] keys by (simp add: wf_obj_def)
  have param: "map_of rs p = map_of ps p" if "(p, t) \<in> set modelParamMap" for p t
  proof -
    have "new_id modelParamMap llmList ps p = None" "p \<in> set skipped_keys"
      using that by (auto simp: modelParamMap_def new_id_def skipped_keys_def)
    then show ?thesis by (simp add: get option.map_ident)
  qed
  have settled: "foldl (add_tenant llmList) rs modelParamMap = rs"
  proof (rule tenants_settled)
    fix p t i
    assume pt: "(p, t) \<in> set modelParamMap" and i: "tenant_id llmList rs p = Some i"
    then have "tenant_id llmList ps p = Some i" using tenant_id_cong [OF param [OF pt]] by metis
    moreover have "map_of (map prod.swap modelParamMap) t = Some p"
      using pt by (auto simp: modelParamMap_def)
    ultimately show "map_of rs t = Some i" by (simp add: get new_id_def)
  qed
  have again: "(if is_obj v \<and> k \<notin> set skipped_keys
      then (case map_of (map (\<lambda>(k, v). (k, add_model_params llmList v)) rs) k of Some w \<Rightarrow> w | None \<Rightarrow> v) else v) = v"
    if kv: "(k, v) \<in> set rs" for k v
  proof (cases "is_obj v \<and> k \<notin> set skipped_keys")
    case True
    from kv wfr have v: "map_of rs k = Some v" by (simp add: wf_obj_def)
    have "new_id modelParamMap llmList ps k = None"
      using new_id_plain [OF plain] v True by (cases "new_id modelParamMap llmList ps k") (auto simp: get)
    with v obtain u where u: "map_of ps k = Some u" "v = ?f k u" by (auto simp: get)
    with True have "v = add_model_params llmList u" by (auto simp: add_params_is_obj split: if_splits)
    with IH [of k u] u(1) have "add_model_params llmList v = v" by (auto dest: map_of_SomeD)
    then show ?thesis using True v by (simp add: map_of_map_key [of "\<lambda>k. add_model_params llmList"])
  qed auto
  have "map (\<lambda>(k, v). (k, if is_obj v \<and> k \<notin> set skipped_keys
      then (case map_of (map (\<lambda>(k, v). (k, add_model_params llmList v)) rs) k of Some w \<Rightarrow> w | None \<Rightarrow> v) else v)) rs = rs"
    by (rule map_idI) (use again in auto)
  then have "add_model_params llmList (JObj rs) = JObj rs" by (simp add: Let_def settled)
  with rs show ?thesis by (simp only:)
qed

lemma add_params_again: "ids_plain llmList \<Longrightarrow> deep_wf v \<Longrightarrow> add_model_params llmList (add_model_params llmList v) = add_model_params llmList v"
proof (induction v)
  case (JObj ps)
  show ?case
    by (rule add_params_obj_again [OF JObj.prems(1)]) (use JObj in \<open>fastforce simp: list_all_iff\<close>)+
next
  case (JArr xs)
  then show ?case by (simp add: list_all_iff)
qed simp_all

text \<open>
  Adding the tenant parameters to data that has them changes nothing.
\<close>

theorem tenant_params_idempotent:
  assumes "ids_plain llmList" "deep_wf data"
  shows "addTenantParams llmList url (addTenantParams llmList url data) = addTenantParams llmList url data"
  using add_params_again [OF assms] add_params_is_obj [of llmList data] by (auto simp: addTenantParams_def)

lemma tenant_params_idempotent_witness:
  "addTenantParams one_provider None (addTenantParams one_provider None (JObj [(''llm_id'', JStr ''qwen@Ollama'')])) =
     addTenantParams one_provider None (JObj [(''llm_id'', JStr ''qwen@Ollama'')])"
  by (rule tenant_params_idempotent [OF one_provider_plain]) (simp add: wf_obj_def)

end
