(* ===== verification/Text_Units.thy ===== *)
theory Text_Units
  imports Prelude Js_Value "HOL-Library.Word"
begin

text \<open>
  Functions that read texts by their UTF-16 code units: citation markers (\<open>utils/citation-utils.ts\<close>,
  \<open>components/markdown-content/reference-utils.ts\<close>), the direction of a text
  (\<open>utils/text-direction.ts\<close>) and the byte arrays of \<open>utils/common-util.ts\<close>. A text is a list of
  16-bit words here.
\<close>

type_synonym units = "16 word list"

definition unit :: "char \<Rightarrow> 16 word" where
  "unit c = of_nat (of_char c)"

definition text_units :: "string \<Rightarrow> units" where
  "text_units s = map unit s"

section \<open>Citation markers\<close>

definition in_range :: "16 word \<Rightarrow> 16 word \<Rightarrow> 16 word \<Rightarrow> bool" where
  "in_range lo hi u = (lo \<le> u \<and> u \<le> hi)"

definition ascii_digit :: "16 word \<Rightarrow> bool" where
  "ascii_digit u = in_range 0x30 0x39 u"

definition any_digit :: "16 word \<Rightarrow> bool" where
  "any_digit u = (ascii_digit u \<or> in_range 0x660 0x669 u \<or> in_range 0x6f0 0x6f9 u)"

definition normalize_unit :: "16 word \<Rightarrow> 16 word" where
  "normalize_unit code =
     (if in_range 0x660 0x669 code then code - 0x660 + 0x30
      else if in_range 0x6f0 0x6f9 code then code - 0x6f0 + 0x30
      else code)"

definition normalizeCitationDigits :: "units \<Rightarrow> units" where
  "normalizeCitationDigits text = map normalize_unit text"

text \<open>
  A marker at the head of a text: \<open>[\<close>, perhaps \<open>ID:\<close>, digits and \<open>]\<close>; its digits and its length.
\<close>

definition marker_at :: "(16 word \<Rightarrow> bool) \<Rightarrow> units \<Rightarrow> (units \<times> nat) option" where
  "marker_at dig s =
     (case s of
        [] \<Rightarrow> None
      | u # r \<Rightarrow>
          if u \<noteq> 0x5b then None
          else (let skip = (if take 3 r = [0x49, 0x44, 0x3a] then 3 else 0);
                    ds = takeWhile dig (drop skip r);
                    rest = drop (skip + length ds) r
                in if ds \<noteq> [] \<and> rest \<noteq> [] \<and> hd rest = 0x5d then Some (ds, skip + length ds + 2) else None))"

fun first_marker :: "(16 word \<Rightarrow> bool) \<Rightarrow> units \<Rightarrow> (units \<times> nat) option" where
  "first_marker dig [] = None"
| "first_marker dig (u # s) =
     (case marker_at dig (u # s) of Some m \<Rightarrow> Some m | None \<Rightarrow> first_marker dig s)"

text \<open>The number of a text of digits; \<open>None\<close> stands for \<open>NaN\<close>. Rounding beyond 53 bits is left out.\<close>

definition number_of_digits :: "units \<Rightarrow> nat" where
  "number_of_digits ds = foldl (\<lambda>n u. 10 * n + unat (u - 0x30)) 0 ds"

definition parseCitationIndex :: "units \<Rightarrow> nat option" where
  "parseCitationIndex value =
     (let normalized = normalizeCitationDigits value in
      case first_marker ascii_digit normalized of
        Some (ds, _) \<Rightarrow> Some (number_of_digits ds)
      | None \<Rightarrow> if normalized \<noteq> [] \<and> list_all ascii_digit normalized
                then Some (number_of_digits normalized) else None)"

section \<open>References in a text\<close>

record reference_match =
  r_id :: units
  r_fullMatch :: units
  r_start :: nat
  r_end :: nat

text \<open>The loop over \<open>exec\<close>: the search goes on behind a match.\<close>

lemma marker_length: "marker_at dig s = Some (ds, n) \<Longrightarrow> 0 < n \<and> n \<le> length s"
proof (cases s)
  case (Cons u r)
  assume m: "marker_at dig s = Some (ds, n)"
  define skip where "skip = (if take 3 r = [0x49, 0x44, 0x3a] then 3 else 0 :: nat)"
  from m have "n = skip + length (takeWhile dig (drop skip r)) + 2"
    "drop (skip + length (takeWhile dig (drop skip r))) r \<noteq> []"
    by (auto simp: marker_at_def Cons Let_def skip_def split: if_splits)
  then show ?thesis by (simp add: Cons)
qed (simp add: marker_at_def)

function reference_matches :: "nat \<Rightarrow> units \<Rightarrow> reference_match list" where
  "reference_matches pos s =
     (case s of
        [] \<Rightarrow> []
      | u # r \<Rightarrow>
          (case marker_at any_digit s of
             Some (ds, n) \<Rightarrow>
               \<lparr>r_id = normalizeCitationDigits ds, r_fullMatch = take n s, r_start = pos, r_end = pos + n\<rparr>
               # reference_matches (pos + n) (drop n s)
           | None \<Rightarrow> reference_matches (pos + 1) r))"
  by pat_completeness auto
termination
  by (relation "measure (\<lambda>(pos, s). length s)") (auto dest: marker_length)

declare reference_matches.simps [simp del]

definition findAllReferenceMatches :: "units \<Rightarrow> reference_match list" where
  "findAllReferenceMatches text = reference_matches 0 text"

fun group_from :: "reference_match list \<Rightarrow> reference_match list \<Rightarrow> reference_match list list" where
  "group_from currentGroup [] = [currentGroup]"
| "group_from currentGroup (m # ms) =
     (if r_start m = r_end (last currentGroup) then group_from (currentGroup @ [m]) ms
      else currentGroup # group_from [m] ms)"

definition groupConsecutiveReferences :: "units \<Rightarrow> reference_match list list" where
  "groupConsecutiveReferences text =
     (case findAllReferenceMatches text of [] \<Rightarrow> [] | m # ms \<Rightarrow> group_from [m] ms)"

definition showImage :: "string option \<Rightarrow> bool" where
  "showImage field = (field = Some ''image'' \<or> field = Some ''table'')"

text \<open>The type of the document of each chunk; a chunk that is not there shows no image.\<close>

definition shouldShowCarousel :: "reference_match list \<Rightarrow> string option list \<Rightarrow> bool" where
  "shouldShowCarousel grp chunks =
     (if length grp < 2 then False
      else list_all (\<lambda>ref. let chunkIndex = number_of_digits (r_id ref) in
             chunkIndex < length chunks \<and> showImage (chunks ! chunkIndex)) grp)"

section \<open>Direction\<close>

definition RTL_RANGES :: "(16 word \<times> 16 word) list" where
  "RTL_RANGES = [(0x0600, 0x06ff), (0x0750, 0x077f), (0x08a0, 0x08ff), (0xfb50, 0xfdff), (0xfe70, 0xfeff),
     (0x0590, 0x05ff), (0xfb1d, 0xfb4f), (0x0700, 0x074f), (0x0780, 0x07bf), (0x0840, 0x085f), (0x0860, 0x086f)]"

definition isRTLCharCode :: "16 word \<Rightarrow> bool" where
  "isRTLCharCode charCode = list_ex (\<lambda>(start, end). start \<le> charCode \<and> charCode \<le> end) RTL_RANGES"

text \<open>The first code unit of every code point, which \<open>for (const char of text)\<close> with \<open>charCodeAt(0)\<close> reads.\<close>

fun leading_units :: "units \<Rightarrow> units" where
  "leading_units [] = []"
| "leading_units [u] = [u]"
| "leading_units (u # v # s) =
     (if in_range 0xd800 0xdbff u \<and> in_range 0xdc00 0xdfff v then u # leading_units s
      else u # leading_units (v # s))"

datatype direction = Rtl | Ltr | Neutral

definition skipped_unit :: "16 word \<Rightarrow> bool" where
  "skipped_unit code = (code \<le> 0x40 \<or> in_range 0x5b 0x60 code \<or> in_range 0x7b 0x7f code)"

definition ltr_unit :: "16 word \<Rightarrow> bool" where
  "ltr_unit code = (in_range 0x41 0x5a code \<or> in_range 0x61 0x7a code \<or> in_range 0x00c0 0x024f code
     \<or> in_range 0x0370 0x03ff code \<or> in_range 0x0400 0x04ff code)"

fun direction_of :: "units \<Rightarrow> direction" where
  "direction_of [] = Neutral"
| "direction_of (code # rest) =
     (if skipped_unit code then direction_of rest
      else if isRTLCharCode code then Rtl
      else if ltr_unit code then Ltr
      else direction_of rest)"

definition getTextDirection :: "units \<Rightarrow> direction" where
  "getTextDirection text = direction_of (leading_units text)"

definition containsRTL :: "units \<Rightarrow> bool" where
  "containsRTL text = list_ex isRTLCharCode (leading_units text)"

definition isRTL :: "units \<Rightarrow> bool" where
  "isRTL text = (getTextDirection text = Rtl)"

definition getDirAttribute :: "units \<Rightarrow> string" where
  "getDirAttribute text =
     (case getTextDirection text of Neutral \<Rightarrow> ''auto'' | Rtl \<Rightarrow> ''rtl'' | Ltr \<Rightarrow> ''ltr'')"

section \<open>Bytes\<close>

definition stringToUint8Array :: "units \<Rightarrow> 8 word list" where
  "stringToUint8Array str = map ucast (butlast (drop 2 str))"

definition hex_digit :: "16 word \<Rightarrow> nat option" where
  "hex_digit u =
     (if in_range 0x30 0x39 u then Some (unat (u - 0x30))
      else if in_range 0x61 0x66 u then Some (unat (u - 0x61) + 10)
      else if in_range 0x41 0x46 u then Some (unat (u - 0x41) + 10)
      else None)"

definition is_hex :: "16 word \<Rightarrow> bool" where
  "is_hex u = (hex_digit u \<noteq> None)"

definition is_space_unit :: "16 word \<Rightarrow> bool" where
  "is_space_unit u = (in_range 0x09 0x0d u \<or> u \<in> set [0x20, 0xa0, 0x1680, 0x2028, 0x2029, 0x202f, 0x205f, 0x3000, 0xfeff]
     \<or> in_range 0x2000 0x200a u)"

text \<open>\<open>parseInt(s, 16)\<close>, with \<open>None\<close> for \<open>NaN\<close>.\<close>

definition parseInt16 :: "units \<Rightarrow> int option" where
  "parseInt16 s =
     (let t = dropWhile is_space_unit s;
          neg = (t \<noteq> [] \<and> hd t = 0x2d);
          u = (if t \<noteq> [] \<and> (hd t = 0x2d \<or> hd t = 0x2b) then tl t else t);
          v = (if take 2 u = [0x30, 0x78] \<or> take 2 u = [0x30, 0x58] then drop 2 u else u);
          ds = takeWhile is_hex v
      in if ds = [] then None
         else Some ((if neg then - 1 else 1) * int (foldl (\<lambda>n d. 16 * n + the (hex_digit d)) 0 ds)))"

text \<open>What is stored in a \<open>Uint8Array\<close>.\<close>

definition to_uint8 :: "int option \<Rightarrow> 8 word" where
  "to_uint8 n = (case n of None \<Rightarrow> 0 | Some k \<Rightarrow> word_of_int k)"

text \<open>\<open>hex.match(/[\da-f]{2}/gi)\<close>: \<open>None\<close> is \<open>undefined\<close>, for a text without a pair.\<close>

fun hex_pairs :: "units \<Rightarrow> units list" where
  "hex_pairs (u # v # s) = (if is_hex u \<and> is_hex v then [u, v] # hex_pairs s else hex_pairs (v # s))"
| "hex_pairs _ = []"

definition hexStringToUint8Array :: "units \<Rightarrow> 8 word list option" where
  "hexStringToUint8Array hex =
     (if hex_pairs hex = [] then None else Some (map (\<lambda>h. to_uint8 (parseInt16 h)) (hex_pairs hex)))"

text \<open>An argument is a text or something else.\<close>

fun pairs :: "units \<Rightarrow> units list" where
  "pairs (u # v # s) = [u, v] # pairs s"
| "pairs _ = []"

definition hexToArrayBuffer :: "units option \<Rightarrow> 8 word list js" where
  "hexToArrayBuffer input =
     (case input of
        None \<Rightarrow> Inl (TypeError ''Expected input to be a string'')
      | Some s \<Rightarrow>
          if odd (length s) then Inl (RangeError ''Expected string to be an even number of characters'')
          else Inr (map (\<lambda>h. to_uint8 (parseInt16 h)) (pairs s)))"

section \<open>The groups of references\<close>

definition touches :: "reference_match \<Rightarrow> reference_match \<Rightarrow> bool" where
  "touches a b = (r_start b = r_end a)"

lemma group_from_spec:
  assumes "cur \<noteq> []" "successively touches cur"
  shows "concat (group_from cur ms) = cur @ ms \<and> [] \<notin> set (group_from cur ms)
    \<and> list_all (successively touches) (group_from cur ms)
    \<and> successively (\<lambda>g h. \<not> touches (last g) (hd h)) (group_from cur ms)
    \<and> hd (hd (group_from cur ms)) = hd cur \<and> group_from cur ms \<noteq> []"
  using assms
proof (induction ms arbitrary: cur)
  case (Cons m ms)
  show ?case
  proof (cases "r_start m = r_end (last cur)")
    case True
    then have "successively touches (cur @ [m])"
      using Cons.prems by (simp add: successively_append_iff touches_def)
    from Cons.IH [OF _ this] True Cons.prems(1) show ?thesis by simp
  next
    case False
    from Cons.IH [of "[m]"] have IH: "concat (group_from [m] ms) = m # ms" "[] \<notin> set (group_from [m] ms)"
      "list_all (successively touches) (group_from [m] ms)"
      "successively (\<lambda>g h. \<not> touches (last g) (hd h)) (group_from [m] ms)"
      "hd (hd (group_from [m] ms)) = m" "group_from [m] ms \<noteq> []" by simp_all
    moreover have "\<not> touches (last cur) m" using False by (simp add: touches_def)
    ultimately show ?thesis using False Cons.prems by (auto simp: successively_Cons)
  qed
qed simp

text \<open>
  The groups of the references of a text are its references in their order, cut exactly where one
  does not start at the end of the one before.
\<close>

theorem reference_groups_exact:
  "concat (groupConsecutiveReferences text) = findAllReferenceMatches text
   \<and> [] \<notin> set (groupConsecutiveReferences text)
   \<and> list_all (successively touches) (groupConsecutiveReferences text)
   \<and> successively (\<lambda>g h. \<not> touches (last g) (hd h)) (groupConsecutiveReferences text)"
proof (cases "findAllReferenceMatches text")
  case Nil
  then show ?thesis by (simp add: groupConsecutiveReferences_def)
next
  case (Cons m ms)
  then show ?thesis using group_from_spec [of "[m]" ms] by (simp add: groupConsecutiveReferences_def)
qed

section \<open>The index of a reference\<close>

lemma normalize_digit: "any_digit u \<Longrightarrow> ascii_digit (normalize_unit u)"
proof -
  assume "any_digit u"
  then have "0x30 \<le> uint u \<and> uint u \<le> 0x39 \<or> 0x660 \<le> uint u \<and> uint u \<le> 0x669 \<or> 0x6f0 \<le> uint u \<and> uint u \<le> 0x6f9"
    by (simp add: any_digit_def ascii_digit_def in_range_def word_le_def)
  then show ?thesis
    by (auto simp: normalize_unit_def ascii_digit_def in_range_def word_le_def uint_word_ariths)
qed

lemma normalize_other: "\<not> any_digit u \<Longrightarrow> normalize_unit u = u"
  by (auto simp: normalize_unit_def any_digit_def)

lemma ascii_normalized: "ascii_digit (normalize_unit u) = any_digit u"
  using normalize_digit normalize_other by (metis any_digit_def)

lemma normalized_is: "\<not> ascii_digit c \<Longrightarrow> \<not> any_digit c \<Longrightarrow> normalize_unit u = c \<longleftrightarrow> u = c"
  using normalize_digit normalize_other by metis

lemma marker_iff:
  assumes "\<not> dig 0x49" "\<not> dig 0x5d"
  shows "marker_at dig s = Some (ds, n) \<longleftrightarrow>
    (\<exists>pre rest. s = 0x5b # pre @ ds @ 0x5d # rest \<and> (pre = [] \<or> pre = [0x49, 0x44, 0x3a])
       \<and> ds \<noteq> [] \<and> list_all dig ds \<and> n = length pre + length ds + 2)"
proof
  assume m: "marker_at dig s = Some (ds, n)"
  then obtain u r where s: "s = u # r" by (cases s) (auto simp: marker_at_def)
  define skip where "skip = (if take 3 r = [0x49, 0x44, 0x3a] then 3 else 0 :: nat)"
  from m have u: "u = 0x5b" and ds: "ds = takeWhile dig (drop skip r)" "ds \<noteq> []" "n = skip + length ds + 2"
    and rest: "drop (skip + length ds) r \<noteq> []" "hd (drop (skip + length ds) r) = 0x5d"
    by (auto simp: marker_at_def s Let_def skip_def split: if_splits)
  have "drop skip r = ds @ drop (length ds) (drop skip r)"
    unfolding ds(1) dropWhile_eq_drop [symmetric] by simp
  moreover have "drop (length ds) (drop skip r) = 0x5d # tl (drop (skip + length ds) r)"
    using rest by (cases "drop (skip + length ds) r") (simp_all add: add.commute)
  ultimately have "drop skip r = ds @ 0x5d # tl (drop (skip + length ds) r)" by (simp only:)
  then have r: "take skip r @ ds @ 0x5d # tl (drop (skip + length ds) r) = r"
    using append_take_drop_id [of skip r] by (simp only:)
  have pre: "take skip r = [] \<or> take skip r = [0x49, 0x44, 0x3a]" by (simp add: skip_def)
  have "length (take skip r) = skip"
  proof (cases "take 3 r = [0x49, 0x44, 0x3a]")
    case True
    then have l3: "length (take 3 r) = 3" by (simp only: list.size)
    have s3: "skip = 3" unfolding skip_def using True by (rule if_P)
    show ?thesis unfolding s3 by (rule l3)
  qed (simp add: skip_def)
  then have n: "n = length (take skip r) + length ds + 2" by (simp only: ds(3))
  have "list_all dig ds" unfolding ds(1) list_all_iff by (blast dest: set_takeWhileD)
  with pre n ds(2) show "\<exists>pre rest. s = 0x5b # pre @ ds @ 0x5d # rest \<and> (pre = [] \<or> pre = [0x49, 0x44, 0x3a])
       \<and> ds \<noteq> [] \<and> list_all dig ds \<and> n = length pre + length ds + 2"
    unfolding s u
    by - (rule exI [of _ "take skip r"], rule exI [of _ "tl (drop (skip + length ds) r)"], simp add: r)
next
  assume "\<exists>pre rest. s = 0x5b # pre @ ds @ 0x5d # rest \<and> (pre = [] \<or> pre = [0x49, 0x44, 0x3a])
       \<and> ds \<noteq> [] \<and> list_all dig ds \<and> n = length pre + length ds + 2"
  then obtain pre rest where s: "s = 0x5b # pre @ ds @ 0x5d # rest" "pre = [] \<or> pre = [0x49, 0x44, 0x3a]"
    "ds \<noteq> []" "list_all dig ds" "n = length pre + length ds + 2" by blast
  have "takeWhile dig (ds @ 0x5d # rest) = ds"
    using s(4) assms(2) by (induction ds) auto
  moreover have "take 3 (ds @ 0x5d # rest) \<noteq> [0x49, 0x44, 0x3a]"
    using s(3,4) assms(1) by (cases ds) auto
  ultimately show "marker_at dig s = Some (ds, n)"
    using s by (auto simp: marker_at_def Let_def)
qed

lemma no_digits: "\<not> any_digit 0x49" "\<not> any_digit 0x5d" "\<not> ascii_digit 0x49" "\<not> ascii_digit 0x5d"
  by (simp_all add: any_digit_def ascii_digit_def in_range_def)

text \<open>A marker is read back from its own text.\<close>

lemma parse_marker:
  assumes "marker_at any_digit s = Some (ds, n)"
  shows "parseCitationIndex (take n s) = Some (number_of_digits (normalizeCitationDigits ds))"
proof -
  from assms obtain pre rest where s: "s = 0x5b # pre @ ds @ 0x5d # rest" "pre = [] \<or> pre = [0x49, 0x44, 0x3a]"
    "ds \<noteq> []" "list_all any_digit ds" "n = length pre + length ds + 2"
    unfolding marker_iff [of any_digit, OF no_digits(1,2)] by blast
  have t: "take n s = 0x5b # pre @ ds @ [0x5d]" by (simp add: s)
  have same: "normalize_unit 0x5b = 0x5b" "normalize_unit 0x5d = 0x5d" "map normalize_unit pre = pre"
    using s(2) by (auto simp: normalize_unit_def in_range_def)
  have "list_all ascii_digit (normalizeCitationDigits ds)"
    using s(4) by (simp add: normalizeCitationDigits_def list_all_iff ascii_normalized)
  with s have "marker_at ascii_digit (normalizeCitationDigits (take n s)) = Some (normalizeCitationDigits ds, n)"
    unfolding marker_iff [of ascii_digit, OF no_digits(3,4)] t
    by - (rule exI [of _ pre], rule exI [of _ "[]"], simp add: normalizeCitationDigits_def same)
  moreover have "normalizeCitationDigits (take n s) \<noteq> []" by (simp add: t normalizeCitationDigits_def)
  ultimately show ?thesis
    by (cases "normalizeCitationDigits (take n s)") (simp_all add: parseCitationIndex_def)
qed

lemma reference_matches_located:
  "m \<in> set (reference_matches pos s) \<Longrightarrow>
     pos \<le> r_start m \<and> r_start m < r_end m \<and> r_end m \<le> pos + length s
     \<and> r_fullMatch m = take (r_end m - r_start m) (drop (r_start m - pos) s)
     \<and> parseCitationIndex (r_fullMatch m) = Some (number_of_digits (r_id m))"
proof (induction pos s rule: reference_matches.induct)
  case (1 pos s)
  show ?case
  proof (cases s)
    case Nil
    with "1.prems" show ?thesis by (subst (asm) reference_matches.simps) simp
  next
    case (Cons u r)
    show ?thesis
    proof (cases "marker_at any_digit s")
      case None
      with "1.prems" Cons have m: "m \<in> set (reference_matches (pos + 1) r)"
        by (subst (asm) reference_matches.simps) simp
      from "1.IH"(1) [OF Cons None m] Cons show ?thesis
        by (auto simp: Suc_diff_le drop_Cons' Suc_le_eq)
    next
      case (Some dn)
      obtain ds n where dn: "dn = (ds, n)" by (cases dn)
      have n: "0 < n" "n \<le> length s" using marker_length Some dn by auto
      let ?m = "\<lparr>r_id = normalizeCitationDigits ds, r_fullMatch = take n s, r_start = pos, r_end = pos + n\<rparr>"
      from "1.prems" Cons Some dn have "m = ?m \<or> m \<in> set (reference_matches (pos + n) (drop n s))"
        by (subst (asm) reference_matches.simps) auto
      then show ?thesis
      proof
        assume "m = ?m"
        then show ?thesis using n parse_marker Some dn by simp
      next
        assume m: "m \<in> set (reference_matches (pos + n) (drop n s))"
        from "1.IH"(2) [OF Cons Some dn [symmetric] m] n show ?thesis by (auto simp: add.commute)
      qed
    qed
  qed
qed

text \<open>No marker begins inside a marker, so the search meets every one.\<close>

lemma no_inner_marker:
  assumes "marker_at any_digit s = Some (ds, n)" "0 < p" "p < n"
  shows "marker_at any_digit (drop p s) = None"
proof -
  from assms(1) obtain pre rest where s: "s = 0x5b # pre @ ds @ 0x5d # rest" "pre = [] \<or> pre = [0x49, 0x44, 0x3a]"
    "list_all any_digit ds" "n = length pre + length ds + 2"
    unfolding marker_iff [of any_digit, OF no_digits(1,2)] by blast
  have "s ! p = (pre @ ds @ [0x5d]) ! (p - 1)"
    using assms(2,3) s(1,4) by (simp add: nth_Cons' nth_append)
  moreover have "(pre @ ds @ [0x5d]) ! (p - 1) \<in> set (pre @ ds @ [0x5d])"
    using assms(2,3) s(4) by (intro nth_mem) simp
  moreover have "0x5b \<notin> set (pre @ ds @ [0x5d :: 16 word])"
    using s(2,3) by (auto simp: list_all_iff any_digit_def ascii_digit_def in_range_def)
  ultimately have "s ! p \<noteq> 0x5b" by metis
  moreover have "p < length s" using assms(3) s(1,4) by simp
  then have "drop p s = s ! p # drop (Suc p) s" by (rule Cons_nth_drop_Suc [symmetric])
  ultimately show ?thesis by (simp add: marker_at_def)
qed

lemma reference_starts:
  "map r_start (reference_matches pos s) =
     map ((+) pos) (filter (\<lambda>p. marker_at any_digit (drop p s) \<noteq> None) [0..<length s])"
proof (induction pos s rule: reference_matches.induct)
  case (1 pos s)
  let ?P = "\<lambda>p. marker_at any_digit (drop p s) \<noteq> None"
  show ?case
  proof (cases s)
    case Nil
    then show ?thesis by (subst reference_matches.simps) simp
  next
    case (Cons u r)
    show ?thesis
    proof (cases "marker_at any_digit s")
      case None
      have "filter ?P [0..<length s] = map Suc (filter (\<lambda>p. marker_at any_digit (drop p r) \<noteq> None) [0..<length r])"
        using None Cons by (simp add: upt_conv_Cons map_Suc_upt [symmetric] filter_map comp_def del: upt_Suc)
      with "1.IH"(1) [OF Cons None] None Cons show ?thesis
        by (subst reference_matches.simps) (simp add: comp_def)
    next
      case (Some dn)
      obtain ds n where dn: "dn = (ds, n)" by (cases dn)
      have n: "0 < n" "n \<le> length s" using marker_length Some dn by auto
      have "filter ?P [0..<n] = [0]"
        using n(1) no_inner_marker [OF Some [unfolded dn]] Some
        by (simp add: upt_conv_Cons filter_empty_conv del: upt_Suc)
      moreover have "[0..<length s] = [0..<n] @ map ((+) n) [0..<length s - n]"
        using n(2) upt_add_eq_append [of 0 n "length s - n"] map_add_upt [of n "length s - n"]
        by (simp add: add.commute [of _ n])
      ultimately have "filter ?P [0..<length s] =
          0 # map ((+) n) (filter (\<lambda>p. marker_at any_digit (drop p (drop n s)) \<noteq> None) [0..<length (drop n s)])"
        by (simp add: filter_map comp_def add.commute)
      with "1.IH"(2) [OF Cons Some dn [symmetric]] Some dn Cons show ?thesis
        by (subst reference_matches.simps) (simp add: comp_def add.assoc)
    qed
  qed
qed

text \<open>
  C18. The references that are found are the markers of the text, each once and in order; every one lies
  in the text where it says, and its index is the one that is read from its marker, whatever script
  its digits are in.
\<close>

theorem references_located_and_indexed:
  "map r_start (findAllReferenceMatches body) = filter (\<lambda>p. marker_at any_digit (drop p body) \<noteq> None) [0..<length body]
   \<and> list_all (\<lambda>m. r_start m < r_end m \<and> r_end m \<le> length body
        \<and> r_fullMatch m = take (r_end m - r_start m) (drop (r_start m) body)
        \<and> parseCitationIndex (r_fullMatch m) = Some (number_of_digits (r_id m))) (findAllReferenceMatches body)"
proof
  show "map r_start (findAllReferenceMatches body) = filter (\<lambda>p. marker_at any_digit (drop p body) \<noteq> None) [0..<length body]"
    using reference_starts [of 0 body] by (simp add: findAllReferenceMatches_def map_idI)
  show "list_all (\<lambda>m. r_start m < r_end m \<and> r_end m \<le> length body
        \<and> r_fullMatch m = take (r_end m - r_start m) (drop (r_start m) body)
        \<and> parseCitationIndex (r_fullMatch m) = Some (number_of_digits (r_id m))) (findAllReferenceMatches body)"
    using reference_matches_located [of _ 0 body, unfolded diff_zero add_0]
    unfolding findAllReferenceMatches_def list_all_iff by blast
qed

definition sample_reply :: units where
  "sample_reply = text_units ''ok [ID:1'' @ [0x662] @ text_units '']''"

lemma sample_references:
  "findAllReferenceMatches sample_reply =
     [\<lparr>r_id = [0x31, 0x32], r_fullMatch = drop 3 sample_reply, r_start = 3, r_end = 10\<rparr>]"
  by (simp add: findAllReferenceMatches_def sample_reply_def text_units_def unit_def reference_matches.simps
      marker_at_def any_digit_def ascii_digit_def in_range_def normalizeCitationDigits_def normalize_unit_def)

section \<open>Direction of a text\<close>

text \<open>
  The direction is that of the first unit that is a letter of a known script: what comes before is
  neither.
\<close>

lemma direction_first_strong:
  "direction_of us =
     (case find (\<lambda>u. \<not> skipped_unit u \<and> (isRTLCharCode u \<or> ltr_unit u)) us of
        None \<Rightarrow> Neutral
      | Some u \<Rightarrow> if isRTLCharCode u then Rtl else Ltr)"
  by (induction us) auto

lemma right_to_left_contains: "isRTL s \<Longrightarrow> containsRTL s"
  by (auto simp: isRTL_def getTextDirection_def containsRTL_def direction_first_strong list_ex_iff
      split: option.splits if_splits dest: find_SomeD)

section \<open>Hexadecimal texts\<close>

definition hex_unit :: "nat \<Rightarrow> 16 word" where
  "hex_unit n = (if n < 10 then 0x30 + of_nat n else 0x57 + of_nat n)"

definition byte_units :: "8 word \<Rightarrow> units" where
  "byte_units b = [hex_unit (unat b div 16), hex_unit (unat b mod 16)]"

lemma hex_units: "n < 16 \<Longrightarrow> hex_digit (hex_unit n) = Some n \<and> \<not> is_space_unit (hex_unit n)
    \<and> hex_unit n \<noteq> 0x2d \<and> hex_unit n \<noteq> 0x2b \<and> hex_unit n \<noteq> 0x78 \<and> hex_unit n \<noteq> 0x58"
proof -
  have "list_all (\<lambda>n. hex_digit (hex_unit n) = Some n \<and> \<not> is_space_unit (hex_unit n)
    \<and> hex_unit n \<noteq> 0x2d \<and> hex_unit n \<noteq> 0x2b \<and> hex_unit n \<noteq> 0x78 \<and> hex_unit n \<noteq> 0x58) [0..<16]"
    by (simp add: upt_conv_Cons hex_unit_def hex_digit_def in_range_def is_space_unit_def)
  then show "n < 16 \<Longrightarrow> ?thesis" by (simp add: list_all_iff)
qed

lemma parse_byte: "to_uint8 (parseInt16 (byte_units b)) = b"
proof -
  let ?h = "unat b div 16" and ?l = "unat b mod 16"
  have h: "?h < 16" using unsigned_less [of b, where ?'a = nat] by simp
  have l: "?l < 16" by simp
  have "parseInt16 (byte_units b) = Some (int (16 * ?h + ?l))"
    using hex_units [OF h] hex_units [OF l]
    by (simp add: parseInt16_def byte_units_def is_hex_def Let_def)
  then show ?thesis by (simp add: to_uint8_def)
qed

lemma pairs_bytes: "pairs (concat (map byte_units bs)) = map byte_units bs"
  by (induction bs) (simp_all add: byte_units_def)

lemma hex_pairs_bytes: "hex_pairs (concat (map byte_units bs)) = map byte_units bs"
proof (induction bs)
  case (Cons b bs)
  have "unat b div 16 < 16" using unsigned_less [of b, where ?'a = nat] by simp
  with hex_units [of "unat b div 16"] hex_units [of "unat b mod 16"] Cons show ?case
    by (simp add: byte_units_def is_hex_def)
qed simp

text \<open>
  The bytes of a buffer come back from their hexadecimal text, by both functions that read one.
\<close>

theorem hex_round_trip:
  "hexToArrayBuffer (Some (concat (map byte_units bs))) = Inr bs
   \<and> hexStringToUint8Array (concat (map byte_units bs)) = (if bs = [] then None else Some bs)"
proof -
  have "length (concat (map byte_units bs)) = 2 * length bs" by (induction bs) (simp_all add: byte_units_def)
  then show ?thesis
    by (simp add: hexToArrayBuffer_def hexStringToUint8Array_def pairs_bytes hex_pairs_bytes comp_def parse_byte)
qed

lemma length_pairs: "length (pairs s) = length s div 2"
  by (induction s rule: pairs.induct) auto

text \<open>
  Reading a hexadecimal buffer throws a \<open>TypeError\<close> exactly on an argument that is no text and a
  \<open>RangeError\<close> exactly on a text of odd length; any other text gives a buffer of half its length,
  whatever its characters are.
\<close>

theorem hex_buffer_errors:
  "(\<exists>m. hexToArrayBuffer input = Inl (TypeError m)) = (input = None)
   \<and> (\<exists>m. hexToArrayBuffer input = Inl (RangeError m)) = (\<exists>s. input = Some s \<and> odd (length s))
   \<and> (\<exists>bs. hexToArrayBuffer input = Inr bs \<and> 2 * length bs = n) = (\<exists>s. input = Some s \<and> length s = n \<and> even n)"
  by (cases input) (auto simp: hexToArrayBuffer_def length_pairs)

text \<open>Characters that are no hexadecimal digits are not refused: they give zero bytes.\<close>

lemma no_hex_gives_zero: "hexToArrayBuffer (Some (text_units ''zz'')) = Inr [0]"
  by (simp add: hexToArrayBuffer_def text_units_def unit_def parseInt16_def is_hex_def hex_digit_def
      in_range_def is_space_unit_def to_uint8_def)

end
