(* ===== verification/Variable_Options.thy ===== *)
theory Variable_Options
  imports Agent_Store Graph_Walk
begin

text \<open>
  The variables a node can refer to: the outputs of the nodes above it (\<open>utils/canvas-util.tsx\<close>), the
  inputs of the begin node, the globals and the conversation variables
  (\<open>pages/agent/hooks/use-get-begin-query.tsx\<close>), and the fields of the structured output of an agent
  (\<open>pages/agent/hooks/use-build-structured-output.ts\<close>). The translated labels and the DSL that was
  fetched are arguments, icons are left out. \<open>get\<close> of lodash is \<open>lget_ref\<close>, which is what \<open>lget_laws\<close>
  says of it. Outputs, inputs and globals are objects.
\<close>

section \<open>Outputs of nodes\<close>

definition AgentStructuredOutputField :: string where
  "AgentStructuredOutputField = ''structured''"

definition isAgentStructured :: "string \<Rightarrow> string \<Rightarrow> bool" where
  "isAgentStructured i lbl = (lbl = AgentStructuredOutputField \<and> starts_with i (op_str OpAgent @ '':''))"

definition filterChildNodeIds :: "agent_node list \<Rightarrow> string option \<Rightarrow> string list" where
  "filterChildNodeIds nodes nodeId = map nid (filter (\<lambda>x. parentId x = nodeId) nodes)"

definition buildVariableValue :: "string \<Rightarrow> string \<Rightarrow> string" where
  "buildVariableValue val nodeId = nodeId @ ''@'' @ val"

record variable_option =
  vo_label :: jsv
  vo_value :: string
  vo_parent :: string
  vo_type :: jsv

record option_group =
  og_title :: string
  og_value :: "string option"
  og_options :: "variable_option list"

definition buildSecondaryOutputOptions :: "props \<Rightarrow> string \<Rightarrow> string \<Rightarrow> variable_option list" where
  "buildSecondaryOutputOptions outputs nodeId parentLabel =
     map (\<lambda>x. \<lparr>vo_label = JStr x, vo_value = buildVariableValue x nodeId, vo_parent = parentLabel,
       vo_type = (if isAgentStructured nodeId x then JStr ''object'' else jget (jget (JObj outputs) x) ''type'')\<rparr>)
       (obj_keys outputs)"

definition getNodeOutputs :: "agent_node \<Rightarrow> props" where
  "getNodeOutputs x =
     (let outputs = props_of (js_coalesce (jget (node_form x) ''outputs'') (JObj []))
      in if \<not> is_op OpCode (node_label x) then outputs
         else props_of (js_object [Spread (JObj outputs), Prop ''content''
                (js_coalesce (jget (JObj outputs) ''content'')
                   (JObj [(''type'', JStr ''string''), (''value'', JStr [])]))]))"

definition buildOutputOptions :: "agent_node \<Rightarrow> option_group" where
  "buildOutputOptions x =
     \<lparr>og_title = node_name x, og_value = Some (nid x),
      og_options = buildSecondaryOutputOptions (getNodeOutputs x) (nid x) (node_name x)\<rparr>"

definition buildNodeOutputOptions :: "agent_node list \<Rightarrow> string list \<Rightarrow> option_group list" where
  "buildNodeOutputOptions nodes nodeIds =
     map buildOutputOptions (filter (\<lambda>x. list_ex (\<lambda>y. y = nid x) nodeIds \<and> getNodeOutputs x \<noteq> []) nodes)"

definition buildUpstreamNodeOutputOptions ::
  "agent_node list \<Rightarrow> edge list \<Rightarrow> string option \<Rightarrow> option_group list option" where
  "buildUpstreamNodeOutputOptions nodes edges nodeId =
     (case nodeId of
        None \<Rightarrow> Some []
      | Some i \<Rightarrow>
          if i = [] then Some []
          else map_option (buildNodeOutputOptions nodes) (filterAllUpstreamNodeIds edges [i]))"

definition buildChildOutputOptions :: "agent_node list \<Rightarrow> string option \<Rightarrow> option_group list" where
  "buildChildOutputOptions nodes nodeId =
     map buildOutputOptions (filter (\<lambda>x. parentId x = nodeId \<and> getNodeOutputs x \<noteq> []) nodes)"

definition getStructuredDatatype :: "jsv \<Rightarrow> jsv \<times> jsv" where
  "getStructuredDatatype val =
     (let dataType = lget_ref val [''type''] JUndef;
          arrayItemsType = lget_ref val [''items'', ''type''] (JStr ''string'')
      in (dataType, if dataType = JStr ''array'' then JStr (''array<'' @ str_of arrayItemsType @ ''>'') else dataType))"

section \<open>Inputs, globals and conversation variables\<close>

definition BeginId :: string where
  "BeginId = ''begin''"

definition buildBeginInputListFromObject :: "jsv \<Rightarrow> jsv list" where
  "buildBeginInputListFromObject inputs =
     map (\<lambda>(key, val). js_object [Spread (js_or val (JObj [])), Prop ''key'' (JStr key)])
       (props_of (js_or inputs (JObj [])))"

definition selectBeginNodeDataInputs :: "rf_state \<Rightarrow> jsv list" where
  "selectBeginNodeDataInputs s =
     buildBeginInputListFromObject
       (case getNode s (Some BeginId) of
          None \<Rightarrow> JObj [] | Some n \<Rightarrow> js_coalesce (jget (node_form n) ''inputs'') (JObj []))"

definition isTaskMode :: "bool option \<Rightarrow> rf_state \<Rightarrow> bool" where
  "isTaskMode isTask s =
     (case isTask of
        Some b \<Rightarrow> b
      | None \<Rightarrow> (case getNode s (Some BeginId) of
                   None \<Rightarrow> False | Some n \<Rightarrow> jget (node_form n) ''mode'' = JStr ''task''))"

definition beginNodeDataQueryIsSafe :: "rf_state \<Rightarrow> bool" where
  "beginNodeDataQueryIsSafe s =
     (\<not> list_ex (\<lambda>q. \<not> truthy (jget q ''optional'') \<and> jget q ''type'' = JStr ''file'') (selectBeginNodeDataInputs s))"

definition transferToVariableType :: "jsv \<Rightarrow> jsv" where
  "transferToVariableType type =
     (if type \<in> set [JStr ''line'', JStr ''paragraph'', JStr ''options''] then JStr ''string'' else type)"

definition beginDynamicVariableOptions :: "(string \<Rightarrow> string) \<Rightarrow> rf_state \<Rightarrow> option_group" where
  "beginDynamicVariableOptions tr s =
     \<lparr>og_title = tr ''flow.beginInput'', og_value = None,
      og_options = map (\<lambda>x. \<lparr>vo_label = jget x ''name'', vo_value = ''begin@'' @ str_of (jget x ''key''),
         vo_parent = tr ''flow.beginInput'', vo_type = transferToVariableType (jget x ''type'')\<rparr>)
         (selectBeginNodeDataInputs s)\<rparr>"

definition Env :: string where
  "Env = ''env.''"

definition globalWithBeginVariableOptions :: "(string \<Rightarrow> string) \<Rightarrow> jsv \<Rightarrow> rf_state \<Rightarrow> option_group" where
  "globalWithBeginVariableOptions tr dsl s =
     (let globals = props_of (js_coalesce (jget dsl ''globals'') (JObj []));
          globalOptions = map (\<lambda>(key, val). \<lparr>vo_label = JStr key, vo_value = key, vo_parent = tr ''flow.beginInput'',
            vo_type = JStr (case val of
                JArr _ \<Rightarrow> ''array'' @ (if key = ''sys.files'' then ''<file>'' else [])
              | _ \<Rightarrow> js_typeof val)\<rparr>)
            (filter (\<lambda>(key, val). \<not> starts_with key Env) globals);
          g = beginDynamicVariableOptions tr s
      in g\<lparr>og_options := og_options g @ globalOptions\<rparr>)"

definition conversationVariableOptions :: "(string \<Rightarrow> string) \<Rightarrow> jsv \<Rightarrow> option_group" where
  "conversationVariableOptions tr dsl =
     \<lparr>og_title = tr ''flow.conversationVariable'', og_value = None,
      og_options = map (\<lambda>(key, val). \<lparr>vo_label = JStr (Env @ key), vo_value = Env @ key,
         vo_parent = tr ''flow.conversationVariable'', vo_type = jget val ''type''\<rparr>)
         (props_of (js_coalesce (jget dsl ''variables'') (JObj [])))\<rparr>"

section \<open>All variables of a node\<close>

definition buildParentOutputOptions :: "rf_state \<Rightarrow> string option \<Rightarrow> option_group list" where
  "buildParentOutputOptions s parent =
     (case getNode s parent of
        Some n \<Rightarrow> if is_op OpLoop (node_label n) then [buildOutputOptions n] else []
      | None \<Rightarrow> [])"

definition buildVariableOptions :: "rf_state \<Rightarrow> string option \<Rightarrow> string option \<Rightarrow> option_group list option" where
  "buildVariableOptions s nodeId parent =
     (case (buildUpstreamNodeOutputOptions (st_nodes s) (st_edges s) nodeId,
            buildUpstreamNodeOutputOptions (st_nodes s) (st_edges s) parent) of
        (Some up, Some parentUp) \<Rightarrow> Some (up @ buildParentOutputOptions s parent @ parentUp)
      | _ \<Rightarrow> None)"

definition splitOperatorOutputValue :: "string \<Rightarrow> string option \<times> string option" where
  "splitOperatorOutputValue val =
     (if val = [] then (None, None)
      else (let ps = split_on CHR ''@'' val in (nth_opt ps 0, nth_opt ps 1)))"

definition filterDocGeneratorDownloadOutputOptions :: "rf_state \<Rightarrow> bool \<Rightarrow> option_group list \<Rightarrow> option_group list" where
  "filterDocGeneratorDownloadOutputOptions s allow groups =
     map (\<lambda>g. g\<lparr>og_options := filter (\<lambda>opt.
         case splitOperatorOutputValue (vo_value opt) of (nodeId, output) \<Rightarrow>
           if output = Some ''download'' \<and> getOperatorTypeFromId s nodeId = Some (op_str OpDocGenerator)
           then allow else True) (og_options g)\<rparr>) groups"

datatype agent_variable_type = Variable_Begin | Variable_Conversation

definition buildQueryVariableOptions ::
  "(string \<Rightarrow> string) \<Rightarrow> jsv \<Rightarrow> rf_state \<Rightarrow> agent_node option \<Rightarrow> string list \<Rightarrow> agent_variable_type list
   \<Rightarrow> option_group list option" where
  "buildQueryVariableOptions tr dsl s node nodeIds others =
     (let begins = globalWithBeginVariableOptions tr dsl s;
          conversation = conversationVariableOptions tr dsl;
          allow = (case node of Some n \<Rightarrow> is_op OpMessage (node_label n) | None \<Rightarrow> False)
      in case buildVariableOptions s (map_option nid node) (Option.bind node parentId) of
           None \<Rightarrow> None
         | Some options \<Rightarrow>
             Some (filterDocGeneratorDownloadOutputOptions s allow
               (if nodeIds \<noteq> [] \<or> others \<noteq> []
                then map (\<lambda>x. case x of Variable_Begin \<Rightarrow> begins | Variable_Conversation \<Rightarrow> conversation) others
                     @ buildNodeOutputOptions (st_nodes s) nodeIds
                else begins # conversation # options)))"

definition lower_text :: "jsv \<Rightarrow> string" where
  "lower_text v = (if nullish v then [] else to_lower (str_of v))"

definition type_wanted :: "string list \<Rightarrow> jsv \<Rightarrow> bool" where
  "type_wanted types type =
     list_ex (\<lambda>x. if starts_with (to_lower x) ''array'' then str_includes (lower_text type) (to_lower x)
                 else lower_text type = to_lower x) types"

definition filterQueryVariableOptionsByTypes :: "string list \<Rightarrow> option_group list \<Rightarrow> option_group list" where
  "filterQueryVariableOptionsByTypes types groups =
     (if types = [] then groups
      else map (\<lambda>g. g\<lparr>og_options := filter (\<lambda>y. type_wanted types (vo_type y)
          \<or> isAgentStructured (vo_value y)
              (drop (length (vo_value y) - length AgentStructuredOutputField) (vo_value y))) (og_options g)\<rparr>) groups)"

definition flatOptions :: "option_group list \<Rightarrow> variable_option list" where
  "flatOptions groups = foldl (\<lambda>pre cur. pre @ og_options cur) [] groups"

section \<open>Components\<close>

definition ExcludedNodes :: "operator list" where
  "ExcludedNodes = [OpCategorize, OpBegin, OpNote]"

definition same_parent_or_external :: "string option \<Rightarrow> agent_node \<Rightarrow> bool" where
  "same_parent_or_external parent node =
     (case parent of
        Some p \<Rightarrow> if p \<noteq> [] then (parentId node = Some p \<or> parentId node = None) \<and> nid node \<noteq> p
                  else parentId node = None
      | None \<Rightarrow> parentId node = None)"

definition buildComponentIdOptions :: "rf_state \<Rightarrow> string option \<Rightarrow> string option \<Rightarrow> option_group" where
  "buildComponentIdOptions s nodeId parent =
     \<lparr>og_title = ''Component Output'', og_value = None,
      og_options = map (\<lambda>x. \<lparr>vo_label = JStr (node_name x), vo_value = nid x, vo_parent = [], vo_type = JUndef\<rparr>)
        (filter (\<lambda>x. Some (nid x) \<noteq> nodeId \<and> \<not> list_ex (\<lambda>y. is_op y (node_label x)) ExcludedNodes
                    \<and> same_parent_or_external parent x) (st_nodes s))\<rparr>"

definition buildComponentIdAndBeginOptions ::
  "(string \<Rightarrow> string) \<Rightarrow> rf_state \<Rightarrow> string option \<Rightarrow> string option \<Rightarrow> option_group list" where
  "buildComponentIdAndBeginOptions tr s nodeId parent =
     [beginDynamicVariableOptions tr s, buildComponentIdOptions s nodeId parent]"

definition getComponentLabelByValue :: "(string \<Rightarrow> string) \<Rightarrow> rf_state \<Rightarrow> string \<Rightarrow> string \<Rightarrow> jsv" where
  "getComponentLabelByValue tr s nodeId val =
     (case find (\<lambda>x. vo_value x = val) (flatOptions (buildComponentIdAndBeginOptions tr s (Some nodeId) None)) of
        Some x \<Rightarrow> vo_label x | None \<Rightarrow> JUndef)"

section \<open>Structured outputs\<close>

definition splitValue :: "string option \<Rightarrow> string list" where
  "splitValue val = (case val of Some v \<Rightarrow> split_on CHR ''@'' v | None \<Rightarrow> [])"

definition getNodeId :: "string \<Rightarrow> string option" where
  "getNodeId val = nth_opt (splitValue (Some val)) 0"

definition showSecondaryMenu :: "rf_state \<Rightarrow> string \<Rightarrow> string \<Rightarrow> bool" where
  "showSecondaryMenu s val outputLabel =
     (getOperatorTypeFromId s (getNodeId val) = Some (op_str OpAgent) \<and> outputLabel = AgentStructuredOutputField)"

definition getStructuredOutput :: "rf_state \<Rightarrow> string \<Rightarrow> jsv" where
  "getStructuredOutput s val =
     (case getNode s (getNodeId val) of
        Some n \<Rightarrow> lget_ref (node_form n) [''outputs'', AgentStructuredOutputField] JUndef
      | None \<Rightarrow> JUndef)"

text \<open>The second part of a value that names a field of the structured output of an agent.\<close>

definition structured_field :: "rf_state \<Rightarrow> string \<Rightarrow> string option" where
  "structured_field s val =
     (let fields = splitValue (Some val) in
      if getOperatorTypeFromId s (nth_opt fields 0) = Some (op_str OpAgent)
      then (case nth_opt fields 1 of
              Some f \<Rightarrow> if starts_with f AgentStructuredOutputField then Some f else None
            | None \<Rightarrow> None)
      else None)"

definition findAgentStructuredOutputLabel :: "rf_state \<Rightarrow> string \<Rightarrow> (string \<times> string) list \<Rightarrow> (string \<times> string) option" where
  "findAgentStructuredOutputLabel s val options =
     map_option (\<lambda>f. ((case find (\<lambda>(lbl, v). str_includes val v) options of Some (lbl, v) \<Rightarrow> lbl | None \<Rightarrow> [])
         @ drop (length AgentStructuredOutputField) f, val))
       (structured_field s val)"

definition child_properties :: "jsv \<Rightarrow> jsv" where
  "child_properties vals = js_or (lget_ref vals [''properties''] JUndef) (lget_ref vals [''items'', ''properties''] JUndef)"

definition is_composite :: "jsv \<Rightarrow> bool" where
  "is_composite dataType = (dataType = JStr ''object'' \<or> dataType = JStr ''array'')"

lemma no_index: "\<not> is_index_key ''properties''"
  by (simp add: is_index_key_def digit_def)

lemma child_properties_smaller:
  "child_properties (JObj qs) = JUndef \<or> size (child_properties (JObj qs)) < size (JObj qs)"
proof -
  have p: "jget v ''properties'' = JUndef \<or> size (jget v ''properties'') < size v" for v
    by (cases v) (use size_jget no_index in \<open>auto simp del: jget.simps(1)\<close>)
  have "lget_ref (JObj qs) [''properties''] JUndef = jget (JObj qs) ''properties''"
    "lget_ref (JObj qs) [''items'', ''properties''] JUndef = jget (jget (JObj qs) ''items'') ''properties''"
    by (simp_all add: lget_ref_def get_path_def del: jget.simps)
  moreover have "jget (JObj qs) ''items'' = JUndef \<or> size (jget (JObj qs) ''items'') < size (JObj qs)"
    using size_jget by blast
  ultimately show ?thesis
    using p [of "JObj qs"] p [of "jget (JObj qs) ''items''"]
    by (auto simp: child_properties_def js_or_def simp del: jget.simps(1))
qed

text \<open>
  The search for the type under a path of names: \<open>findTypeByValue\<close> and its loop over the properties.
\<close>

definition next_path :: "string \<Rightarrow> string \<Rightarrow> string" where
  "next_path path key = (if path \<noteq> [] then path @ ''.'' @ key else key)"

function (sequential) findTypeByValue :: "jsv \<Rightarrow> string \<Rightarrow> string \<Rightarrow> jsv"
  and find_in_properties :: "props \<Rightarrow> string \<Rightarrow> string \<Rightarrow> jsv" where
  "findTypeByValue (JObj qs) goal path =
     (if truthy (child_properties (JObj qs))
      then find_in_properties (props_of (child_properties (JObj qs))) goal path else JUndef)"
| "findTypeByValue vals goal path = JUndef"
| "find_in_properties [] goal path = JUndef"
| "find_in_properties ((key, val) # rest) goal path =
     (case getStructuredDatatype val of (dataType, compositeDataType) \<Rightarrow>
        if next_path path key = goal then compositeDataType
        else if is_composite dataType
        then (let type = findTypeByValue val goal (next_path path key) in
              if truthy type then type else find_in_properties rest goal path)
        else find_in_properties rest goal path)"
  by pat_completeness auto

termination
proof (relation "measure (case_sum (\<lambda>(v, t, p). size v) (\<lambda>(ps, t, p). size_list (size_prod (\<lambda>x. 0) size) ps))")
  fix qs and goal path :: string
  assume "truthy (child_properties (JObj qs))"
  then have "size (child_properties (JObj qs)) < size (JObj qs)" using child_properties_smaller [of qs] by auto
  then have "size_list (size_prod (\<lambda>x. 0) size) (props_of (child_properties (JObj qs))) < size (JObj qs)"
    by (cases "child_properties (JObj qs)") (simp_all add: props_of_def)
  then show "(Inr (props_of (child_properties (JObj qs)), goal, path), Inl (JObj qs, goal, path))
      \<in> measure (case_sum (\<lambda>(v, t, p). size v) (\<lambda>(ps, t, p). size_list (size_prod (\<lambda>x. 0) size) ps))"
    by simp
qed auto

definition findAgentStructuredOutputTypeByValue :: "rf_state \<Rightarrow> string \<Rightarrow> jsv" where
  "findAgentStructuredOutputTypeByValue s val =
     (if val = [] then JUndef
      else (case structured_field s val of
              None \<Rightarrow> JUndef
            | Some f \<Rightarrow>
                (let jsonSchemaFields = drop (length AgentStructuredOutputField + 1) f
                 in if jsonSchemaFields \<noteq> [] then findTypeByValue (getStructuredOutput s val) jsonSchemaFields [] else JUndef)))"

definition findAgentStructuredOutputLabelByValue :: "rf_state \<Rightarrow> string \<Rightarrow> string" where
  "findAgentStructuredOutputLabelByValue s val =
     (if val = [] then []
      else (case getNode s (getNodeId val) of
              None \<Rightarrow> []
            | Some n \<Rightarrow>
                if node_name n = [] then []
                else node_name n @ '' / ''
                  @ (case nth_opt (splitValue (Some val)) 1 of Some f \<Rightarrow> f | None \<Rightarrow> ''undefined'')))"

section \<open>Labels and types of variables\<close>

definition getItem :: "option_group list \<Rightarrow> string \<Rightarrow> variable_option option" where
  "getItem groups val = find (\<lambda>x. vo_value x = val) (flatOptions groups)"

definition getLabel :: "rf_state \<Rightarrow> option_group list \<Rightarrow> string \<Rightarrow> string" where
  "getLabel s groups val =
     (case getItem groups val of
        Some item \<Rightarrow> vo_parent item @ '' / '' @ str_of (vo_label item)
      | None \<Rightarrow> findAgentStructuredOutputLabelByValue s val)"

definition BeginQueryTypeMap :: "(string \<times> string) list" where
  "BeginQueryTypeMap = [(''line'', ''string''), (''paragraph'', ''string''), (''options'', ''array<string>''),
     (''file'', ''File''), (''integer'', ''number''), (''boolean'', ''boolean'')]"

definition getType :: "rf_state \<Rightarrow> option_group list \<Rightarrow> string \<Rightarrow> jsv" where
  "getType s groups val =
     (let currentType = js_or (case getItem groups val of Some item \<Rightarrow> vo_type item | None \<Rightarrow> JUndef)
            (findAgentStructuredOutputTypeByValue s val)
      in if truthy currentType
         then (case map_of BeginQueryTypeMap (str_of currentType) of Some t \<Rightarrow> JStr t | None \<Rightarrow> currentType)
         else currentType)"

section \<open>Which variables are offered\<close>

lemma keys_secondary: "map vo_value (buildSecondaryOutputOptions ps i lbl) = map (\<lambda>k. i @ ''@'' @ k) (obj_keys ps)"
  by (simp add: buildSecondaryOutputOptions_def buildVariableValue_def)

definition group_values :: "option_group list \<Rightarrow> string set" where
  "group_values gs = {vo_value x |x g. g \<in> set gs \<and> x \<in> set (og_options g)}"

lemma group_values_simps [simp]:
  "group_values [] = {}" "group_values (gs @ hs) = group_values gs \<union> group_values hs"
  "group_values (g # gs) = vo_value ` set (og_options g) \<union> group_values gs"
  by (auto simp: group_values_def)

definition output_values :: "agent_node \<Rightarrow> string set" where
  "output_values n = {nid n @ ''@'' @ k |k. k \<in> fst ` set (getNodeOutputs n)}"

lemma buildOutputOptions_values: "vo_value ` set (og_options (buildOutputOptions n)) = output_values n"
proof -
  have "vo_value ` set (og_options (buildOutputOptions n)) =
      set (map vo_value (buildSecondaryOutputOptions (getNodeOutputs n) (nid n) (node_name n)))"
    by (simp add: buildOutputOptions_def)
  then show ?thesis unfolding keys_secondary by (auto simp: output_values_def obj_keys_def)
qed

lemma node_outputs_values:
  "group_values (buildNodeOutputOptions nodes ids) = (\<Union>n\<in>{n \<in> set nodes. nid n \<in> set ids}. output_values n)"
proof -
  have "group_values (map buildOutputOptions ns) = (\<Union>n\<in>set ns. output_values n)" for ns
    by (induction ns) (simp_all add: buildOutputOptions_values)
  moreover have "output_values n = {}" if "getNodeOutputs n = []" for n using that by (simp add: output_values_def)
  ultimately show ?thesis by (auto simp: buildNodeOutputOptions_def list_ex_iff)
qed

lemma upstream_values:
  assumes "buildUpstreamNodeOutputOptions nodes edges (Some i) = Some gs" "i \<noteq> []"
  shows "group_values gs =
    (\<Union>n\<in>{n \<in> set nodes. (nid n, i) \<in> (edge_rel edges (\<lambda>_. True))\<^sup>+}. output_values n)"
proof -
  from assms obtain ids where ids: "filterAllUpstreamNodeIds edges [i] = Some ids"
    "gs = buildNodeOutputOptions nodes ids"
    by (auto simp: buildUpstreamNodeOutputOptions_def)
  from filterAllUpstream_Some [OF ids(1)] show ?thesis by (simp add: ids(2) node_outputs_values)
qed

lemma parent_values:
  assumes "distinct (node_ids (st_nodes s))"
  shows "group_values (buildParentOutputOptions s parent) =
    (\<Union>n\<in>{n \<in> set (st_nodes s). Some (nid n) = parent \<and> is_op OpLoop (node_label n)}. output_values n)"
proof (cases "getNode s parent")
  case None
  then have "\<forall>n\<in>set (st_nodes s). Some (nid n) \<noteq> parent" by (auto simp: getNode_def find_None_iff)
  with None show ?thesis by (auto simp: buildParentOutputOptions_def)
next
  case (Some p)
  then have p: "p \<in> set (st_nodes s)" "Some (nid p) = parent"
    unfolding getNode_def by (blast dest: find_SomeD)+
  have inj: "inj_on nid (set (st_nodes s))" using assms by (simp add: node_ids_def distinct_map)
  have par: "parent = Some (nid p)" using p(2) by simp
  have uniq: "n = p" if "n \<in> set (st_nodes s)" "nid n = nid p" for n
    using inj_onD [OF inj that(2) that(1) p(1)] .
  have eq: "{n \<in> set (st_nodes s). Some (nid n) = parent \<and> is_op OpLoop (node_label n)}
      = {n. n = p \<and> is_op OpLoop (node_label p)}"
    unfolding par option.inject using uniq p(1) by blast
  show ?thesis unfolding eq using Some by (simp add: buildParentOutputOptions_def buildOutputOptions_values)
qed

text \<open>
  C29. The variables offered to a node of the canvas are exactly the outputs of the nodes from which a
  path of edges leads to it; for a node inside a loop or an iteration, also those of the loop itself and
  of the nodes above it. The list is built exactly when no cycle lies above the two.
\<close>

theorem offered_variables_exact:
  assumes "i \<noteq> []" "parent \<noteq> Some []" "distinct (node_ids (st_nodes s))"
  shows "case buildVariableOptions s (Some i) parent of
      Some gs \<Rightarrow> group_values gs = (\<Union>n\<in>{n \<in> set (st_nodes s).
          (\<exists>t\<in>{i} \<union> set_option parent. (nid n, t) \<in> (edge_rel (st_edges s) (\<lambda>_. True))\<^sup>+)
          \<or> (Some (nid n) = parent \<and> is_op OpLoop (node_label n))}. output_values n)
        \<and> \<not> (\<exists>t\<in>{i} \<union> set_option parent. \<exists>z. (z, t) \<in> (edge_rel (st_edges s) (\<lambda>_. True))\<^sup>*
            \<and> (z, z) \<in> (edge_rel (st_edges s) (\<lambda>_. True))\<^sup>+)
    | None \<Rightarrow> \<exists>t\<in>{i} \<union> set_option parent. \<exists>z. (z, t) \<in> (edge_rel (st_edges s) (\<lambda>_. True))\<^sup>*
        \<and> (z, z) \<in> (edge_rel (st_edges s) (\<lambda>_. True))\<^sup>+"
proof (cases "buildVariableOptions s (Some i) parent")
  case None
  have "\<exists>z. (z, t) \<in> (edge_rel (st_edges s) (\<lambda>_. True))\<^sup>* \<and> (z, z) \<in> (edge_rel (st_edges s) (\<lambda>_. True))\<^sup>+"
    if "buildUpstreamNodeOutputOptions (st_nodes s) (st_edges s) (Some t) = None" for t
    using that filterAllUpstream_None [of "st_edges s" "[t]"]
    by (auto simp: buildUpstreamNodeOutputOptions_def split: if_splits)
  moreover have "buildUpstreamNodeOutputOptions (st_nodes s) (st_edges s) (Some i) = None
      \<or> (\<exists>t. parent = Some t \<and> buildUpstreamNodeOutputOptions (st_nodes s) (st_edges s) (Some t) = None)"
    using None by (cases parent) (auto simp: buildVariableOptions_def buildUpstreamNodeOutputOptions_def
        split: option.splits if_splits)
  ultimately show ?thesis using None by fastforce
next
  case (Some gs)
  then obtain up parentUp where up: "buildUpstreamNodeOutputOptions (st_nodes s) (st_edges s) (Some i) = Some up"
    "buildUpstreamNodeOutputOptions (st_nodes s) (st_edges s) parent = Some parentUp"
    "gs = up @ buildParentOutputOptions s parent @ parentUp"
    by (auto simp: buildVariableOptions_def split: option.splits)
  have "group_values parentUp = (\<Union>n\<in>{n \<in> set (st_nodes s).
      \<exists>t\<in>set_option parent. (nid n, t) \<in> (edge_rel (st_edges s) (\<lambda>_. True))\<^sup>+}. output_values n)"
  proof (cases parent)
    case None
    with up(2) show ?thesis by (simp add: buildUpstreamNodeOutputOptions_def)
  next
    case (Some t)
    with up(2) upstream_values [of "st_nodes s" "st_edges s" t parentUp] assms(2) show ?thesis by simp
  qed
  with upstream_values [OF up(1) assms(1)] parent_values [OF assms(3), of parent]
  have "group_values gs = (\<Union>n\<in>{n \<in> set (st_nodes s).
      (\<exists>t\<in>{i} \<union> set_option parent. (nid n, t) \<in> (edge_rel (st_edges s) (\<lambda>_. True))\<^sup>+)
      \<or> (Some (nid n) = parent \<and> is_op OpLoop (node_label n))}. output_values n)"
    by (simp add: up(3)) blast
  moreover have "\<not> (\<exists>z. (z, t) \<in> (edge_rel (st_edges s) (\<lambda>_. True))\<^sup>* \<and> (z, z) \<in> (edge_rel (st_edges s) (\<lambda>_. True))\<^sup>+)"
    if "t \<in> {i} \<union> set_option parent" for t
  proof -
    from that assms(1,2) have "t \<noteq> []" by (cases parent) auto
    moreover have "buildUpstreamNodeOutputOptions (st_nodes s) (st_edges s) (Some t) \<noteq> None"
      using that up(1,2) by (cases parent) auto
    ultimately have "filterAllUpstreamNodeIds (st_edges s) [t] \<noteq> None"
      by (simp add: buildUpstreamNodeOutputOptions_def)
    then show ?thesis unfolding filterAllUpstream_None by simp
  qed
  ultimately show ?thesis unfolding Some by (simp only: option.case) blast
qed

text \<open>A message inside a loop that a code node leads to.\<close>

definition loop_canvas :: rf_state where
  "loop_canvas = mk_state
     [mk_node ''a'' OpRetrieval None (JObj [(''outputs'', JObj [(''json'', JObj [])])]),
      mk_node ''l'' OpLoop None (JObj [(''outputs'', JObj [(''total'', JObj [])])]),
      mk_node ''x'' OpMessage (Some ''l'') (JObj [])]
     [mk_edge ''e'' ''a'' ''l'' Handle_Start]"

lemma loop_canvas_options:
  "map_option (map vo_value) (map_option flatOptions (buildVariableOptions loop_canvas (Some ''x'') (Some ''l''))) =
     Some [''l@total'', ''a@json'']"
  by code_simp

theorem offered_variables_exact_witness:
  "case buildVariableOptions loop_canvas (Some ''x'') (Some ''l'') of
      Some gs \<Rightarrow> map vo_value (flatOptions gs) = [''l@total'', ''a@json'']
        \<and> group_values gs = (\<Union>n\<in>{n \<in> set (st_nodes loop_canvas).
          (\<exists>t\<in>{''x''} \<union> set_option (Some ''l''). (nid n, t) \<in> (edge_rel (st_edges loop_canvas) (\<lambda>_. True))\<^sup>+)
          \<or> (Some (nid n) = Some ''l'' \<and> is_op OpLoop (node_label n))}. output_values n)
    | None \<Rightarrow> False"
proof -
  obtain gs where gs: "buildVariableOptions loop_canvas (Some ''x'') (Some ''l'') = Some gs"
    "map vo_value (flatOptions gs) = [''l@total'', ''a@json'']"
    using loop_canvas_options unfolding map_option_eq_Some by metis
  have "distinct (node_ids (st_nodes loop_canvas))" by code_simp
  from offered_variables_exact [of "''x''" "Some ''l''" loop_canvas, OF _ _ this] gs show ?thesis
    by (simp only: option.case option.inject list.distinct not_False_eq_True simp_thms)
qed

text \<open>A value is taken apart into the node and the output it was built from.\<close>

lemma split_variable_value:
  assumes "CHR ''@'' \<notin> set i" "CHR ''@'' \<notin> set k" "i \<noteq> []"
  shows "splitOperatorOutputValue (buildVariableValue k i) = (Some i, Some k)"
  using assms by (simp add: splitOperatorOutputValue_def buildVariableValue_def split_on_append split_on_none nth_opt_def)

section \<open>The declared type under a path\<close>

text \<open>The type a schema declares under a path of names: one property for each name.\<close>

definition prop_at :: "jsv \<Rightarrow> string \<Rightarrow> jsv option" where
  "prop_at vals key =
     (case vals of JObj qs \<Rightarrow> if truthy (child_properties vals) then map_of (props_of (child_properties vals)) key else None
      | _ \<Rightarrow> None)"

fun declared_type :: "jsv \<Rightarrow> string list \<Rightarrow> jsv" where
  "declared_type vals [] = JUndef"
| "declared_type vals [key] =
     (case prop_at vals key of None \<Rightarrow> JUndef | Some v \<Rightarrow> snd (getStructuredDatatype v))"
| "declared_type vals (key # path) =
     (case prop_at vals key of
        None \<Rightarrow> JUndef
      | Some v \<Rightarrow> if is_composite (fst (getStructuredDatatype v)) then declared_type v path else JUndef)"

definition plain_key :: "string \<Rightarrow> bool" where
  "plain_key k = (k \<noteq> [] \<and> CHR ''.'' \<notin> set k)"

lemma child_property_measure:
  assumes "truthy (child_properties (JObj qs))" "z \<in> set (props_of (child_properties (JObj qs)))" "(k, v) = z"
  shows "(v, JObj qs) \<in> measure size"
proof -
  from assms(1) have "size (child_properties (JObj qs)) < size (JObj qs)" using child_properties_smaller [of qs] by auto
  moreover have "size v < size (child_properties (JObj qs))"
    using assms(2,3) size_prop [of k v] by (cases "child_properties (JObj qs)") (auto simp: props_of_def)
  ultimately show ?thesis by simp
qed

text \<open>Every property of the schema, at any depth, has a name without a dot, and no name comes twice.\<close>

function (sequential) plain_schema :: "jsv \<Rightarrow> bool" where
  "plain_schema (JObj qs) =
     (truthy (child_properties (JObj qs)) \<longrightarrow>
        distinct (map fst (props_of (child_properties (JObj qs))))
        \<and> list_all (\<lambda>(k, v). plain_key k \<and> plain_schema v) (props_of (child_properties (JObj qs))))"
| "plain_schema v = True"
  by pat_completeness auto

termination
  by (relation "measure size") (simp, erule child_property_measure, assumption+)


lemma join_Cons: "join_with c (k # ks) = (if ks = [] then k else k @ c @ join_with c ks)"
  by (cases ks) simp_all

lemma before_dot: "plain_key k \<Longrightarrow> takeWhile (\<lambda>c. c \<noteq> CHR ''.'') (k @ ''.'' @ r) = k"
  by (auto simp: plain_key_def takeWhile_append)

lemma goal_head:
  assumes "plain_key k" "plain_key key" "join_with ''.'' (k # ks) = key \<or> starts_with (join_with ''.'' (k # ks)) (key @ ''.'')"
  shows "key = k"
proof -
  have alone: "takeWhile (\<lambda>c. c \<noteq> CHR ''.'') x = x" if "plain_key x" for x
    using that by (auto simp: plain_key_def takeWhile_eq_all_conv)
  have "takeWhile (\<lambda>c. c \<noteq> CHR ''.'') (join_with ''.'' (k # ks)) = k"
    by (simp only: join_Cons before_dot [OF assms(1)] alone [OF assms(1)] split: if_splits) simp
  moreover from assms(3) have "takeWhile (\<lambda>c. c \<noteq> CHR ''.'') (join_with ''.'' (k # ks)) = key"
  proof
    assume "join_with ''.'' (k # ks) = key"
    then show ?thesis by (simp only: alone [OF assms(2)])
  next
    assume "starts_with (join_with ''.'' (k # ks)) (key @ ''.'')"
    then obtain r where "join_with ''.'' (k # ks) = key @ ''.'' @ r" by (auto simp only: starts_with_iff append_assoc)
    then show ?thesis by (simp only: before_dot [OF assms(2)])
  qed
  ultimately show ?thesis by simp
qed

text \<open>A path that the wanted one does not start with leads to nothing.\<close>

lemma search_off_path:
  "path \<noteq> [] \<Longrightarrow> \<not> starts_with goal (path @ ''.'') \<Longrightarrow> findTypeByValue v goal path = JUndef"
  "path \<noteq> [] \<Longrightarrow> \<not> starts_with goal (path @ ''.'') \<Longrightarrow> find_in_properties ps goal path = JUndef"
proof (induction v goal path and ps goal path rule: findTypeByValue_find_in_properties.induct)
  case (4 key val rest goal path)
  have "next_path path key \<noteq> goal" using 4(5) \<open>path \<noteq> []\<close> by (auto simp: next_path_def starts_with_iff)
  moreover have "\<not> starts_with goal (next_path path key @ ''.'')" "next_path path key \<noteq> []"
    using 4(4,5) by (auto simp: next_path_def starts_with_iff)
  ultimately show ?case
    using 4 by (cases "getStructuredDatatype val") (simp add: Let_def)
qed simp_all

lemma next_path_inject [simp]: "next_path path x = next_path path y \<longleftrightarrow> x = y"
  by (simp add: next_path_def)

lemma next_path_starts:
  "starts_with (next_path path x) (next_path path y @ z) \<longleftrightarrow> starts_with x (y @ z)"
  by (simp add: next_path_def starts_with_iff)

text \<open>Only the property with the first name of the wanted path can contribute.\<close>

lemma search_other_key:
  assumes "plain_key k" "plain_key key" "key \<noteq> k"
  shows "find_in_properties ((key, val) # rest) (next_path path (join_with ''.'' (k # ks))) path
    = find_in_properties rest (next_path path (join_with ''.'' (k # ks))) path"
proof -
  have "key \<noteq> join_with ''.'' (k # ks)" "\<not> starts_with (join_with ''.'' (k # ks)) (key @ ''.'')"
    using goal_head [OF assms(1,2)] assms(3) by blast+
  moreover have "next_path path key \<noteq> []" using assms(2) by (simp add: next_path_def plain_key_def)
  ultimately have "findTypeByValue val (next_path path (join_with ''.'' (k # ks))) (next_path path key) = JUndef"
    by (intro search_off_path) (simp_all only: next_path_starts not_False_eq_True)
  with \<open>key \<noteq> join_with ''.'' (k # ks)\<close> show ?thesis
    by (cases "getStructuredDatatype val") (simp add: Let_def)
qed

lemma search_absent_key:
  assumes "plain_key k" "list_all (\<lambda>(x, v). plain_key x) ps" "k \<notin> fst ` set ps"
  shows "find_in_properties ps (next_path path (join_with ''.'' (k # ks))) path = JUndef"
  using assms(2,3)
proof (induction ps)
  case (Cons p ps)
  then show ?case using search_other_key [OF assms(1)] by (cases p) auto
qed simp

lemma search_present_key:
  assumes "plain_key k" "list_all (\<lambda>(x, v). plain_key x) ps" "distinct (map fst ps)" "map_of ps k = Some v"
  shows "js_or (find_in_properties ps (next_path path (join_with ''.'' (k # ks))) path) JUndef =
    js_or (if ks = [] then snd (getStructuredDatatype v)
           else if is_composite (fst (getStructuredDatatype v))
           then findTypeByValue v (next_path (next_path path k) (join_with ''.'' ks)) (next_path path k) else JUndef) JUndef"
  using assms(2-4)
proof (induction ps)
  case (Cons p ps)
  obtain key val where p: "p = (key, val)" by (cases p)
  show ?case
  proof (cases "key = k")
    case False
    with Cons p search_other_key [OF assms(1), of key] show ?thesis by simp
  next
    case True
    have step: "next_path path (join_with ''.'' (k # ks)) = next_path (next_path path k) (join_with ''.'' ks)" if "ks \<noteq> []"
      using that assms(1) by (auto simp: next_path_def join_Cons plain_key_def)
    have rest: "find_in_properties ps (next_path path (join_with ''.'' (k # ks))) path = JUndef"
      using search_absent_key [OF assms(1), of ps] Cons.prems p True by simp
    have v: "val = v" using Cons.prems(3) p True by simp
    obtain a b where ab: "getStructuredDatatype v = (a, b)" by (cases "getStructuredDatatype v")
    show ?thesis
    proof (cases "ks = []")
      case True
      then show ?thesis by (simp add: p \<open>key = k\<close> v ab)
    next
      case False
      then have "next_path path k \<noteq> next_path path (join_with ''.'' (k # ks))" by (simp add: join_Cons)
      then have "find_in_properties (p # ps) (next_path path (join_with ''.'' (k # ks))) path =
          (if is_composite a
           then js_or (findTypeByValue v (next_path path (join_with ''.'' (k # ks))) (next_path path k)) JUndef
           else JUndef)"
        by (simp add: p \<open>key = k\<close> v ab rest js_or_def Let_def)
      then show ?thesis using False by (simp add: ab step js_or_def)
    qed
  qed
qed simp

text \<open>
  C30. In a schema whose properties have distinct, non-empty names without dots, the search for the type
  of a field of a structured output finds what following the names one property at a time finds: the
  search returns at the first match, goes on with the next property when a nested search comes back
  empty, and compares whole paths, and still no other property of the schema can answer.
\<close>

theorem type_search_follows_path:
  assumes "plain_schema v" "list_all plain_key keys" "keys \<noteq> []"
  shows "js_or (findTypeByValue v (join_with ''.'' keys) []) JUndef = js_or (declared_type v keys) JUndef"
proof -
  have "js_or (findTypeByValue v (next_path path (join_with ''.'' keys)) path) JUndef
      = js_or (declared_type v keys) JUndef" for path
    using assms
  proof (induction keys arbitrary: v path)
    case (Cons k ks)
    show ?case
    proof (cases "prop_at v k")
      case None
      have "findTypeByValue v (next_path path (join_with ''.'' (k # ks))) path = JUndef"
      proof (cases v)
        case (JObj qs)
        let ?ps = "props_of (child_properties v)"
        show ?thesis
        proof (cases "truthy (child_properties v)")
          case True
          with Cons.prems(1) JObj have "list_all (\<lambda>(x, u). plain_key x) ?ps" by (auto simp: list_all_iff)
          moreover have "k \<notin> fst ` set ?ps" using None True JObj by (simp add: prop_at_def map_of_eq_None_iff)
          ultimately show ?thesis
            using search_absent_key [where k = k and ps = ?ps and ks = ks and path = path] True JObj Cons.prems(2) by simp
        qed (simp add: JObj)
      qed simp_all
      with None show ?thesis by (cases ks) simp_all
    next
      case (Some w)
      then obtain qs where v: "v = JObj qs" "truthy (child_properties v)"
        "map_of (props_of (child_properties v)) k = Some w"
        by (cases v) (simp_all add: prop_at_def split: if_splits)
      let ?ps = "props_of (child_properties v)"
      have ps: "list_all (\<lambda>(x, u). plain_key x) ?ps" "distinct (map fst ?ps)" "plain_schema w"
        using Cons.prems(1) v map_of_SomeD [OF v(3)] by (auto simp: list_all_iff)
      have nested: "js_or (findTypeByValue w (next_path (next_path path k) (join_with ''.'' ks)) (next_path path k)) JUndef
          = js_or (declared_type w ks) JUndef" if "ks \<noteq> []"
        using Cons.IH [OF ps(3), of "next_path path k"] Cons.prems(2) that by simp
      have "findTypeByValue v (next_path path (join_with ''.'' (k # ks))) path
          = find_in_properties ?ps (next_path path (join_with ''.'' (k # ks))) path"
        using v(1,2) by simp
      moreover have "declared_type v (k # ks) =
          (if ks = [] then snd (getStructuredDatatype w)
           else if is_composite (fst (getStructuredDatatype w)) then declared_type w ks else JUndef)"
        using Some by (cases ks) simp_all
      ultimately show ?thesis
        using search_present_key [OF _ ps(1,2) v(3), where ks = ks and path = path] Cons.prems(2) nested by simp
    qed
  qed simp
  from this [of "[]"] show ?thesis by (simp add: next_path_def)
qed

definition two_fields :: jsv where
  "two_fields = JObj [(''properties'', JObj [(''a'', JObj [(''type'', JStr ''object'')]),
     (''b'', JObj [(''type'', JStr ''object''), (''properties'', JObj [(''a'', JObj [(''type'', JStr ''number'')])])])])]"

theorem type_search_follows_path_witness:
  "js_or (findTypeByValue two_fields ''b.a'' []) JUndef = JStr ''number''"
proof -
  have "plain_schema two_fields" by code_simp
  moreover have "js_or (declared_type two_fields [''b'', ''a'']) JUndef = JStr ''number''" by code_simp
  ultimately show ?thesis
    using type_search_follows_path [of two_fields "[''b'', ''a'']"] by (simp add: plain_key_def del: js_or_def)
qed

end
