(* ===== verification/File_Upload.thy ===== *)
theory File_Upload
  imports Js_String "HOL-Library.AList"
begin

text \<open>
  The upload of files, \<open>components/file-upload.tsx\<close>: the store with its reducer, the check of chosen
  files, and the upload with its callbacks. A file is compared by its reference; what is called back is
  kept in lists. Frames and time-outs are steps of their own.
\<close>

section \<open>The store\<close>

record upload_file =
  fl_ref :: nat
  fl_name :: string
  fl_type :: string
  fl_size :: nat

datatype file_status = St_Idle | St_Uploading | St_Error | St_Success

record file_state =
  fs_file :: upload_file
  fs_progress :: rat
  fs_error :: "string option"
  fs_status :: file_status

record store_state =
  s_files :: "(upload_file \<times> file_state) list"
  s_dragOver :: bool
  s_invalid :: bool
  s_urls :: "(upload_file \<times> string) list"
  s_changes :: "upload_file list list"
  s_revoked :: "string list"

datatype store_action =
    ADD_FILES "upload_file list"
  | SET_FILES "upload_file list"
  | SET_PROGRESS upload_file rat
  | SET_SUCCESS upload_file
  | SET_ERROR upload_file string
  | REMOVE_FILE upload_file
  | SET_DRAG_OVER bool
  | SET_INVALID bool
  | CLEAR

definition idle :: "upload_file \<Rightarrow> file_state" where
  "idle f = \<lparr>fs_file = f, fs_progress = 0, fs_error = None, fs_status = St_Idle\<rparr>"

text \<open>\<open>Map.set\<close> is \<open>AList.update\<close>: it keeps the place of a key and adds a new one at the end.\<close>

definition change_file :: "upload_file \<Rightarrow> (file_state \<Rightarrow> file_state) \<Rightarrow> store_state \<Rightarrow> store_state" where
  "change_file f g s =
     (case map_of (s_files s) f of Some st \<Rightarrow> s\<lparr>s_files := AList.update f (g st) (s_files s)\<rparr> | None \<Rightarrow> s)"

definition file_list :: "store_state \<Rightarrow> upload_file list" where
  "file_list s = map (fs_file \<circ> snd) (s_files s)"

definition notify :: "bool \<Rightarrow> store_state \<Rightarrow> store_state" where
  "notify onValueChange s = (if onValueChange then s\<lparr>s_changes := s_changes s @ [file_list s]\<rparr> else s)"

definition revoke :: "upload_file \<Rightarrow> store_state \<Rightarrow> store_state" where
  "revoke f s =
     (case map_of (s_urls s) f of
        Some url \<Rightarrow> if url \<noteq> []
          then s\<lparr>s_revoked := s_revoked s @ [url], s_urls := filter (\<lambda>p. fst p \<noteq> f) (s_urls s)\<rparr> else s
      | None \<Rightarrow> s)"

fun reducer :: "bool \<Rightarrow> store_state \<Rightarrow> store_action \<Rightarrow> store_state" where
  "reducer onValueChange s (ADD_FILES fs) =
     notify onValueChange (s\<lparr>s_files := foldl (\<lambda>m f. AList.update f (idle f) m) (s_files s) fs\<rparr>)"
| "reducer onValueChange s (SET_FILES fs) =
     s\<lparr>s_files := foldl (\<lambda>m f. if map_of m f = None then AList.update f (idle f) m else m)
         (filter (\<lambda>p. fst p \<in> set fs) (s_files s)) fs\<rparr>"
| "reducer onValueChange s (SET_PROGRESS f p) =
     change_file f (\<lambda>st. st\<lparr>fs_progress := p, fs_status := St_Uploading\<rparr>) s"
| "reducer onValueChange s (SET_SUCCESS f) =
     change_file f (\<lambda>st. st\<lparr>fs_progress := 100, fs_status := St_Success\<rparr>) s"
| "reducer onValueChange s (SET_ERROR f e) =
     change_file f (\<lambda>st. st\<lparr>fs_error := Some e, fs_status := St_Error\<rparr>) s"
| "reducer onValueChange s (REMOVE_FILE f) =
     (let s1 = revoke f s
      in notify onValueChange (s1\<lparr>s_files := filter (\<lambda>p. fst p \<noteq> f) (s_files s1)\<rparr>))"
| "reducer onValueChange s (SET_DRAG_OVER b) = s\<lparr>s_dragOver := b\<rparr>"
| "reducer onValueChange s (SET_INVALID b) = s\<lparr>s_invalid := b\<rparr>"
| "reducer onValueChange s CLEAR =
     (let s1 = foldl (\<lambda>s f. revoke f s) s (map fst (s_files s))
      in notify onValueChange (s1\<lparr>s_files := [], s_invalid := False\<rparr>))"

section \<open>Checking the chosen files\<close>

text \<open>A limit of zero is no limit; a validator that is not given finds nothing.\<close>

record upload_props =
  disabled :: bool
  maxFiles :: nat
  maxSize :: nat
  acceptTypes :: "string list option"
  onFileValidate :: "upload_file \<Rightarrow> string option"
  isControlled :: bool
  defaultValue :: "upload_file list"
  hasChange :: bool
  hasUpload :: bool

definition validation_message :: "upload_props \<Rightarrow> upload_file \<Rightarrow> string option" where
  "validation_message props f =
     (case onFileValidate props f of Some m \<Rightarrow> if m \<noteq> [] then Some m else None | None \<Rightarrow> None)"

definition parse_accept :: "string \<Rightarrow> string list" where
  "parse_accept accept = map js_trim (split_on CHR '','' accept)"

definition file_extension :: "upload_file \<Rightarrow> string" where
  "file_extension f = ''.'' @ last (split_on CHR ''.'' (fl_name f))"

text \<open>\<open>type.replace('/*', '/')\<close>, the first occurrence.\<close>

definition mime_prefix :: "string \<Rightarrow> string" where
  "mime_prefix type = (case index_of type ''/*'' of None \<Rightarrow> type | Some i \<Rightarrow> take i type @ ''/'' @ drop (i + 2) type)"

definition type_accepted :: "string list \<Rightarrow> upload_file \<Rightarrow> bool" where
  "type_accepted types f =
     list_ex (\<lambda>type. type = fl_type f \<or> type = file_extension f
       \<or> (str_includes type ''/*'' \<and> starts_with (fl_type f) (mime_prefix type))) types"

text \<open>The messages with which a file is rejected, none when it is accepted.\<close>

definition check_file :: "upload_props \<Rightarrow> upload_file \<Rightarrow> string list" where
  "check_file props f =
     (case validation_message props f of
        Some m \<Rightarrow> [m]
      | None \<Rightarrow>
          (case acceptTypes props of
             Some types \<Rightarrow> if type_accepted types f then [] else [''File type not accepted'']
           | None \<Rightarrow> [])
          @ (if maxSize props \<noteq> 0 \<and> maxSize props < fl_size f then [''File too large''] else []))"

definition limit_message :: "upload_props \<Rightarrow> upload_file \<Rightarrow> string" where
  "limit_message props f =
     (case validation_message props f of
        Some m \<Rightarrow> m | None \<Rightarrow> ''Maximum '' @ nat_str (maxFiles props) @ '' files allowed'')"

section \<open>The component\<close>

text \<open>
  The time-outs that will take back the mark of invalid files, the groups of files whose upload starts
  with the next frame, and the progress that the next frame will show.
\<close>

record uploader =
  up_store :: store_state
  up_timers :: nat
  up_starting :: "upload_file list list"
  up_progress :: "(upload_file \<times> rat) option"
  up_rejected :: "(upload_file \<times> string) list"
  up_accepted :: "upload_file list list"

definition new_uploader :: "bool \<Rightarrow> uploader" where
  "new_uploader invalid =
     \<lparr>up_store = \<lparr>s_files = [], s_dragOver = False, s_invalid = invalid, s_urls = [], s_changes = [], s_revoked = []\<rparr>,
      up_timers = 0, up_starting = [], up_progress = None, up_rejected = [], up_accepted = []\<rparr>"

definition dispatch :: "upload_props \<Rightarrow> store_action \<Rightarrow> uploader \<Rightarrow> uploader" where
  "dispatch props a u = u\<lparr>up_store := reducer (hasChange props) (up_store u) a\<rparr>"

definition free_slots :: "upload_props \<Rightarrow> uploader \<Rightarrow> upload_file list \<Rightarrow> nat" where
  "free_slots props u fs =
     (if maxFiles props \<noteq> 0 then min (length fs) (maxFiles props - length (s_files (up_store u))) else length fs)"

definition accepted_files :: "upload_props \<Rightarrow> uploader \<Rightarrow> upload_file list \<Rightarrow> upload_file list" where
  "accepted_files props u fs = filter (\<lambda>f. check_file props f = []) (take (free_slots props u fs) fs)"

definition rejections :: "upload_props \<Rightarrow> uploader \<Rightarrow> upload_file list \<Rightarrow> (upload_file \<times> string) list" where
  "rejections props u fs =
     map (\<lambda>f. (f, limit_message props f)) (drop (free_slots props u fs) fs)
     @ concat (map (\<lambda>f. map (Pair f) (check_file props f)) (take (free_slots props u fs) fs))"

definition onFilesChange :: "upload_props \<Rightarrow> upload_file list \<Rightarrow> uploader \<Rightarrow> uploader" where
  "onFilesChange props fs u =
     (if disabled props then u
      else (let acceptedFiles = accepted_files props u fs;
                rejected = rejections props u fs;
                u1 = u\<lparr>up_rejected := up_rejected u @ rejected\<rparr>;
                u2 = (if rejected \<noteq> [] then (dispatch props (SET_INVALID True) u1)\<lparr>up_timers := up_timers u1 + 1\<rparr> else u1)
            in if acceptedFiles = [] then u2
               else (let u3 = dispatch props (ADD_FILES acceptedFiles) u2;
                         u4 = (if isControlled props then u3\<lparr>up_store := notify (hasChange props) (up_store u3)\<rparr> else u3);
                         u5 = u4\<lparr>up_accepted := up_accepted u4 @ [acceptedFiles]\<rparr>
                     in if hasUpload props then u5\<lparr>up_starting := up_starting u5 @ [acceptedFiles]\<rparr> else u5)))"

definition start_upload :: "upload_props \<Rightarrow> upload_file list \<Rightarrow> uploader \<Rightarrow> uploader" where
  "start_upload props fs u =
     (let u1 = foldl (\<lambda>u f. dispatch props (SET_PROGRESS f 0) u) u fs
      in if hasUpload props then u1 else foldl (\<lambda>u f. dispatch props (SET_SUCCESS f) u) u1 fs)"

definition upload_failed :: "upload_props \<Rightarrow> upload_file list \<Rightarrow> string \<Rightarrow> uploader \<Rightarrow> uploader" where
  "upload_failed props fs message u = foldl (\<lambda>u f. dispatch props (SET_ERROR f message) u) u fs"

definition clamp :: "rat \<Rightarrow> rat" where
  "clamp progress = min (max 0 progress) 100"

definition onProgress :: "upload_file \<Rightarrow> rat \<Rightarrow> uploader \<Rightarrow> uploader" where
  "onProgress f progress u = (if up_progress u \<noteq> None then u else u\<lparr>up_progress := Some (f, progress)\<rparr>)"

definition progress_frame :: "upload_props \<Rightarrow> uploader \<Rightarrow> uploader" where
  "progress_frame props u =
     (case up_progress u of
        None \<Rightarrow> u
      | Some (f, progress) \<Rightarrow> dispatch props (SET_PROGRESS f (clamp progress)) (u\<lparr>up_progress := None\<rparr>))"

text \<open>The effect on \<open>value\<close> and \<open>defaultValue\<close>.\<close>

definition value_effect :: "upload_props \<Rightarrow> upload_file list \<Rightarrow> uploader \<Rightarrow> uploader" where
  "value_effect props val u =
     (if isControlled props then dispatch props (SET_FILES val) u
      else if defaultValue props \<noteq> [] \<and> s_files (up_store u) = []
      then dispatch props (SET_FILES (defaultValue props)) u else u)"

text \<open>The preview of an image asks for a url once.\<close>

definition onPreviewRender :: "string \<Rightarrow> upload_file \<Rightarrow> uploader \<Rightarrow> uploader" where
  "onPreviewRender url f u =
     (let s = up_store u in
      if map_of (s_files s) f \<noteq> None \<and> starts_with (fl_type f) ''image/''
         \<and> (case map_of (s_urls s) f of None \<Rightarrow> True | Some old \<Rightarrow> old = [])
      then u\<lparr>up_store := s\<lparr>s_urls := (f, url) # filter (\<lambda>p. fst p \<noteq> f) (s_urls s)\<rparr>\<rparr> else u)"

definition delete_file :: "upload_props \<Rightarrow> upload_file \<Rightarrow> uploader \<Rightarrow> uploader" where
  "delete_file props f u =
     (case map_of (s_files (up_store u)) f of
        Some st \<Rightarrow> dispatch props (REMOVE_FILE (fs_file st)) u | None \<Rightarrow> u)"

definition clear_files :: "upload_props \<Rightarrow> uploader \<Rightarrow> uploader" where
  "clear_files props u = (if disabled props \<or> s_files (up_store u) = [] then u else dispatch props CLEAR u)"

definition status_text :: "file_state \<Rightarrow> string" where
  "status_text st =
     (case fs_error st of
        Some (c # cs) \<Rightarrow> ''Error: '' @ c # cs
      | _ \<Rightarrow>
          (if fs_status st = St_Uploading then ''Uploading: '' @ num_str (Fin (fs_progress st)) @ ''% complete''
           else if fs_status st = St_Success then ''Upload complete'' else ''Ready to upload''))"

datatype icon = Video_Icon | Audio_Icon | Text_Icon | Code_Icon | Archive_Icon | Cog_Icon | File_Icon

definition getFileIcon :: "upload_file \<Rightarrow> icon" where
  "getFileIcon f =
     (let type = fl_type f; extension = to_lower (last (split_on CHR ''.'' (fl_name f))) in
      if starts_with type ''video/'' then Video_Icon
      else if starts_with type ''audio/'' then Audio_Icon
      else if starts_with type ''text/'' \<or> extension \<in> set [''txt'', ''md'', ''mdx'', ''rtf'', ''pdf''] then Text_Icon
      else if extension \<in> set [''html'', ''css'', ''js'', ''jsx'', ''ts'', ''tsx'', ''json'', ''xml'', ''php'', ''py'',
                ''rb'', ''java'', ''c'', ''cpp'', ''cs''] then Code_Icon
      else if extension \<in> set [''zip'', ''rar'', ''7z'', ''tar'', ''gz'', ''bz2''] then Archive_Icon
      else if extension \<in> set [''exe'', ''msi'', ''app'', ''apk'', ''deb'', ''rpm''] \<or> starts_with type ''application/''
      then Cog_Icon else File_Icon)"

section \<open>Steps\<close>

datatype upload_event =
    Choose "upload_file list"
  | Drag bool
  | Invalid_Timeout
  | Upload_Frame
  | Progress upload_file rat
  | Progress_Frame
  | Succeed upload_file
  | Fail upload_file "string option"
  | Upload_Throws "upload_file list" "string option"
  | Value_Effect "upload_file list"
  | Preview upload_file string
  | Delete upload_file
  | Clear_All

definition message_of :: "string option \<Rightarrow> string" where
  "message_of m = (case m of Some t \<Rightarrow> t | None \<Rightarrow> ''Upload failed'')"

fun upload_step :: "upload_props \<Rightarrow> uploader \<Rightarrow> upload_event \<Rightarrow> uploader" where
  "upload_step props u (Choose fs) = onFilesChange props fs u"
| "upload_step props u (Drag b) = dispatch props (SET_DRAG_OVER b) u"
| "upload_step props u Invalid_Timeout =
     (if 0 < up_timers u then dispatch props (SET_INVALID False) (u\<lparr>up_timers := up_timers u - 1\<rparr>) else u)"
| "upload_step props u Upload_Frame =
     (case up_starting u of [] \<Rightarrow> u | fs # rest \<Rightarrow> start_upload props fs (u\<lparr>up_starting := rest\<rparr>))"
| "upload_step props u (Progress f p) = onProgress f p u"
| "upload_step props u Progress_Frame = progress_frame props u"
| "upload_step props u (Succeed f) = dispatch props (SET_SUCCESS f) u"
| "upload_step props u (Fail f m) = dispatch props (SET_ERROR f (message_of m)) u"
| "upload_step props u (Upload_Throws fs m) = upload_failed props fs (message_of m) u"
| "upload_step props u (Value_Effect val) = value_effect props val u"
| "upload_step props u (Preview f url) = onPreviewRender url f u"
| "upload_step props u (Delete f) = delete_file props f u"
| "upload_step props u Clear_All = clear_files props u"

abbreviation upload_run :: "upload_props \<Rightarrow> uploader \<Rightarrow> upload_event list \<Rightarrow> uploader" where
  "upload_run props u steps \<equiv> foldl (upload_step props) u steps"

section \<open>What the store keeps\<close>

definition entry_ok :: "upload_file \<Rightarrow> file_state \<Rightarrow> bool" where
  "entry_ok f st \<longleftrightarrow> fs_file st = f \<and> 0 \<le> fs_progress st \<and> fs_progress st \<le> 100
     \<and> (fs_status st = St_Success \<longrightarrow> fs_progress st = 100) \<and> (fs_status st = St_Error \<longrightarrow> fs_error st \<noteq> None)"

definition files_ok :: "(upload_file \<times> file_state) list \<Rightarrow> bool" where
  "files_ok m \<longleftrightarrow> distinct (map fst m) \<and> list_all (\<lambda>(f, st). entry_ok f st) m"

lemma set_update: "set (AList.update k v m) \<subseteq> insert (k, v) (set m)"
  by (induction m) auto

lemma length_update: "length (AList.update k v m) = (if map_of m k = None then Suc (length m) else length m)"
  by (induction m) auto

lemma files_ok_Nil [simp]: "files_ok []"
  by (simp add: files_ok_def)

lemma files_ok_update: "files_ok m \<Longrightarrow> entry_ok f st \<Longrightarrow> files_ok (AList.update f st m)"
  using set_update [of f st m] by (auto simp: files_ok_def list_all_iff distinct_update)

lemma files_ok_filter: "files_ok m \<Longrightarrow> files_ok (filter P m)"
  by (auto simp: files_ok_def list_all_iff distinct_map_filter)

lemma files_ok_get: "files_ok m \<Longrightarrow> map_of m f = Some st \<Longrightarrow> entry_ok f st"
  by (auto simp: files_ok_def list_all_iff dest: map_of_SomeD)

lemma idle_ok [simp]: "entry_ok f (idle f)"
  by (simp add: entry_ok_def idle_def)

lemma files_ok_add: "files_ok m \<Longrightarrow> files_ok (foldl (\<lambda>m f. AList.update f (idle f) m) m fs)"
  by (induction fs arbitrary: m) (simp_all add: files_ok_update)

lemma files_ok_set:
  "files_ok m \<Longrightarrow> files_ok (foldl (\<lambda>m f. if map_of m f = None then AList.update f (idle f) m else m) m fs)"
  by (induction fs arbitrary: m) (simp_all add: files_ok_update)

lemma length_add: "length (foldl (\<lambda>m f. AList.update f (idle f) m) m fs) \<le> length m + length fs"
proof (induction fs arbitrary: m)
  case (Cons f fs)
  from Cons [of "AList.update f (idle f) m"] show ?case by (simp add: length_update split: if_splits)
qed simp

lemma keys_add:
  "fst ` set (foldl (\<lambda>m f. AList.update f (idle f) m) m fs) = fst ` set m \<union> set fs"
  by (induction fs arbitrary: m) (auto simp: dom_update)

lemma length_set:
  "length (foldl (\<lambda>m f. if map_of m f = None then AList.update f (idle f) m else m) m fs) \<le> length m + length fs"
proof (induction fs arbitrary: m)
  case (Cons f fs)
  show ?case
    using Cons [of m] Cons [of "AList.update f (idle f) m"] by (cases "map_of m f") (simp_all add: length_update)
qed simp

lemma revoke_keeps [simp]: "s_files (revoke f s) = s_files s"
  by (simp add: revoke_def split: option.split)

lemma revoke_all_keeps [simp]: "s_files (foldl (\<lambda>s f. revoke f s) s fs) = s_files s"
  by (induction fs arbitrary: s) simp_all

lemma notify_keeps [simp]: "s_files (notify b s) = s_files s"
  by (simp add: notify_def)

lemma change_file_ok:
  assumes "files_ok (s_files s)" "\<And>st. entry_ok f st \<Longrightarrow> entry_ok f (g st)"
  shows "files_ok (s_files (change_file f g s)) \<and> length (s_files (change_file f g s)) = length (s_files s)"
  using assms files_ok_get [OF assms(1), of f]
  by (auto simp: change_file_def length_update files_ok_update split: option.split)

fun action_ok :: "store_action \<Rightarrow> bool" where
  "action_ok (SET_PROGRESS f p) = (0 \<le> p \<and> p \<le> 100)"
| "action_ok a = True"

lemma reducer_ok: "files_ok (s_files s) \<Longrightarrow> action_ok a \<Longrightarrow> files_ok (s_files (reducer b s a))"
  by (cases a)
    (auto simp: files_ok_add files_ok_set files_ok_filter Let_def intro!: change_file_ok [THEN conjunct1],
     auto simp: entry_ok_def)

fun adds_nothing :: "store_action \<Rightarrow> bool" where
  "adds_nothing (ADD_FILES fs) = False"
| "adds_nothing (SET_FILES fs) = False"
| "adds_nothing a = True"

lemma change_file_length [simp]: "length (s_files (change_file f g s)) = length (s_files s)"
  by (auto simp: change_file_def length_update split: option.split)

lemma reducer_length: "adds_nothing a \<Longrightarrow> length (s_files (reducer b s a)) \<le> length (s_files s)"
  by (cases a) (simp_all add: Let_def)

section \<open>The invariant of the component\<close>

definition upload_inv :: "upload_props \<Rightarrow> uploader \<Rightarrow> bool" where
  "upload_inv props u \<longleftrightarrow> files_ok (s_files (up_store u))
     \<and> (maxFiles props \<noteq> 0 \<longrightarrow> length (s_files (up_store u)) \<le> maxFiles props)"

lemma dispatch_inv: "upload_inv props u \<Longrightarrow> action_ok a \<Longrightarrow> adds_nothing a \<Longrightarrow> upload_inv props (dispatch props a u)"
  using reducer_ok reducer_length [of a "hasChange props" "up_store u"] by (auto simp: upload_inv_def dispatch_def)

lemma dispatch_all_inv:
  assumes "upload_inv props u" "\<And>f. action_ok (a f) \<and> adds_nothing (a f)"
  shows "upload_inv props (foldl (\<lambda>u f. dispatch props (a f) u) u fs)"
  using assms(1) by (induction fs arbitrary: u) (simp_all add: dispatch_inv assms(2))

lemma clamp_bounds: "0 \<le> clamp p" "clamp p \<le> 100"
  by (simp_all add: clamp_def)

lemma upload_inv_same [simp]:
  "upload_inv props (u\<lparr>up_timers := a\<rparr>) = upload_inv props u" "upload_inv props (u\<lparr>up_starting := b\<rparr>) = upload_inv props u"
  "upload_inv props (u\<lparr>up_progress := c\<rparr>) = upload_inv props u" "upload_inv props (u\<lparr>up_rejected := d\<rparr>) = upload_inv props u"
  "upload_inv props (u\<lparr>up_accepted := e\<rparr>) = upload_inv props u"
  by (simp_all add: upload_inv_def)

lemma accepted_fit: "maxFiles props \<noteq> 0 \<Longrightarrow> length (s_files (up_store u)) \<le> maxFiles props
    \<Longrightarrow> length (accepted_files props u fs) + length (s_files (up_store u)) \<le> maxFiles props"
proof -
  assume "maxFiles props \<noteq> 0" "length (s_files (up_store u)) \<le> maxFiles props"
  moreover have "length (accepted_files props u fs) \<le> free_slots props u fs"
    unfolding accepted_files_def by (rule order_trans [OF length_filter_le]) simp
  ultimately show ?thesis unfolding free_slots_def by simp arith
qed

lemma add_files_inv:
  assumes "upload_inv props u" "maxFiles props \<noteq> 0 \<longrightarrow> length fs + length (s_files (up_store u)) \<le> maxFiles props"
  shows "upload_inv props (dispatch props (ADD_FILES fs) u)"
  using assms length_add [of "s_files (up_store u)" fs] by (auto simp: upload_inv_def dispatch_def files_ok_add)

lemma invalid_files [simp]: "s_files (up_store (dispatch props (SET_INVALID b) u)) = s_files (up_store u)"
  by (simp add: dispatch_def)

lemma choose_inv: "upload_inv props u \<Longrightarrow> upload_inv props (onFilesChange props fs u)"
proof -
  assume inv: "upload_inv props u"
  let ?r = "u\<lparr>up_rejected := up_rejected u @ rejections props u fs\<rparr>"
  let ?u2 = "if rejections props u fs \<noteq> [] then (dispatch props (SET_INVALID True) ?r)\<lparr>up_timers := up_timers ?r + 1\<rparr> else ?r"
  have u2: "upload_inv props ?u2" using inv by (simp add: dispatch_inv)
  have "s_files (up_store ?u2) = s_files (up_store u)" by simp
  then have "maxFiles props \<noteq> 0 \<longrightarrow> length (accepted_files props u fs) + length (s_files (up_store ?u2)) \<le> maxFiles props"
    using inv accepted_fit [of props u fs] by (simp only: upload_inv_def) blast
  from add_files_inv [OF u2 this] u2 inv show ?thesis
    by (auto simp: onFilesChange_def Let_def upload_inv_def)
qed

lemma step_inv:
  assumes "upload_inv props u" "\<not> isControlled props" "maxFiles props \<noteq> 0 \<longrightarrow> length (defaultValue props) \<le> maxFiles props"
  shows "upload_inv props (upload_step props u e)"
proof (cases e)
  case (Choose fs)
  then show ?thesis using choose_inv [OF assms(1)] by simp
next
  case Upload_Frame
  have "upload_inv props (start_upload props fs v)" if "upload_inv props v" for fs v
    using that by (simp add: start_upload_def Let_def dispatch_all_inv)
  with Upload_Frame assms(1) show ?thesis by (simp split: list.split)
next
  case (Value_Effect val)
  with assms show ?thesis
    using length_set [of "[]" "defaultValue props"]
    by (auto simp: value_effect_def upload_inv_def dispatch_def files_ok_set)
next
  case (Upload_Throws fs m)
  then show ?thesis using assms(1) by (simp add: upload_failed_def dispatch_all_inv)
next
  case (Preview f url)
  then show ?thesis using assms(1) by (simp add: onPreviewRender_def Let_def upload_inv_def)
qed (use assms(1) in \<open>auto simp: dispatch_inv onProgress_def progress_frame_def clamp_bounds delete_file_def
       clear_files_def split: option.split\<close>)


text \<open>Two files without a limit on their number; the second is of a type that is not accepted.\<close>

definition text_props :: upload_props where
  "text_props = \<lparr>disabled = False, maxFiles = 2, maxSize = 10, acceptTypes = Some (parse_accept ''.txt, image/*''),
     onFileValidate = (\<lambda>_. None), isControlled = False, defaultValue = [], hasChange = True, hasUpload = True\<rparr>"

definition notes_file :: upload_file where
  "notes_file = \<lparr>fl_ref = 1, fl_name = ''notes.txt'', fl_type = ''text/plain'', fl_size = 5\<rparr>"

definition movie_file :: upload_file where
  "movie_file = \<lparr>fl_ref = 2, fl_name = ''film.mov'', fl_type = ''video/mov'', fl_size = 50\<rparr>"


section \<open>What happens to the chosen files\<close>

lemma rejected_files:
  "fst ` set (rejections props u fs) =
     set (drop (free_slots props u fs) fs) \<union> {f \<in> set (take (free_slots props u fs) fs). check_file props f \<noteq> []}"
proof -
  have "fst ` set (concat (map (\<lambda>f. map (Pair f) (g f)) xs)) = {f \<in> set xs. g f \<noteq> []}" for g :: "upload_file \<Rightarrow> string list" and xs
    by (auto simp: image_UN image_image image_constant_conv)
  then show ?thesis by (simp add: rejections_def image_Un image_image)
qed

lemma change_file_keys [simp]: "map fst (s_files (change_file f g s)) = map fst (s_files s)"
  by (auto simp: change_file_def update_keys map_of_eq_None_iff split: option.split)

lemma rejections_none_all_accepted:
  "set fs = set (accepted_files props u fs) \<union> fst ` set (rejections props u fs)"
proof -
  have "set fs = set (take (free_slots props u fs) fs) \<union> set (drop (free_slots props u fs) fs)"
    by (metis append_take_drop_id set_append)
  then show ?thesis unfolding rejected_files by (auto simp: accepted_files_def)
qed

text \<open>
  C28. Every file that is chosen is accounted for: it is either accepted, and then kept by the store and
  handed to the callback and to the upload, or rejected with at least one message, and never both; what
  was there before stays. A rejection marks the component as invalid.
\<close>

theorem chosen_files_accounted_for:
  assumes "\<not> disabled props" "distinct fs"
  shows "let u' = onFilesChange props fs u; ok = accepted_files props u fs; bad = rejections props u fs in
    set fs = set ok \<union> fst ` set bad \<and> set ok \<inter> fst ` set bad = {}
    \<and> fst ` set (s_files (up_store u')) = fst ` set (s_files (up_store u)) \<union> set ok
    \<and> up_rejected u' = up_rejected u @ bad
    \<and> up_accepted u' = up_accepted u @ (if ok = [] then [] else [ok])
    \<and> up_starting u' = up_starting u @ (if ok = [] \<or> \<not> hasUpload props then [] else [ok])
    \<and> (bad \<noteq> [] \<longrightarrow> s_invalid (up_store u'))"
proof -
  let ?n = "free_slots props u fs" and ?ok = "accepted_files props u fs" and ?bad = "rejections props u fs"
  have parts: "set (take ?n fs) \<inter> set (drop ?n fs) = {}"
    using assms(2) by (metis append_take_drop_id distinct_append)
  have split: "set fs = set ?ok \<union> fst ` set ?bad" by (rule rejections_none_all_accepted)
  have apart: "set ?ok \<inter> fst ` set ?bad = {}"
    using parts unfolding rejected_files accepted_files_def by auto
  have inv: "s_invalid (notify b s) = s_invalid s" for b s by (simp add: notify_def)
  let ?u' = "onFilesChange props fs u"
  have "fst ` set (s_files (up_store ?u')) = fst ` set (s_files (up_store u)) \<union> set ?ok"
    using assms(1) by (simp add: Let_def onFilesChange_def dispatch_def keys_add)
  moreover have "up_rejected ?u' = up_rejected u @ ?bad
      \<and> up_accepted ?u' = up_accepted u @ (if ?ok = [] then [] else [?ok])
      \<and> up_starting ?u' = up_starting u @ (if ?ok = [] \<or> \<not> hasUpload props then [] else [?ok])"
    using assms(1) by (simp add: Let_def onFilesChange_def dispatch_def)
  moreover have "?bad \<noteq> [] \<longrightarrow> s_invalid (up_store ?u')"
    using assms(1) by (simp add: Let_def onFilesChange_def dispatch_def inv)
  ultimately show ?thesis using split apart unfolding Let_def by blast
qed

theorem chosen_files_accounted_for_witness:
  "up_rejected (onFilesChange text_props [notes_file, movie_file] (new_uploader False)) =
     [(movie_file, ''File type not accepted''), (movie_file, ''File too large'')]"
proof -
  have "rejections text_props (new_uploader False) [notes_file, movie_file] =
      [(movie_file, ''File type not accepted''), (movie_file, ''File too large'')]"
    by (simp add: rejections_def free_slots_def new_uploader_def check_file_def validation_message_def type_accepted_def
        parse_accept_def file_extension_def mime_prefix_def js_trim_def is_space_def starts_with_def str_includes_def
        text_props_def notes_file_def movie_file_def)
  moreover have "\<not> disabled text_props" "distinct [notes_file, movie_file]"
    by (simp_all add: text_props_def notes_file_def movie_file_def)
  ultimately show ?thesis
    using chosen_files_accounted_for [of text_props "[notes_file, movie_file]" "new_uploader False"]
    unfolding Let_def by (simp add: new_uploader_def)
qed

section \<open>Late progress and old errors\<close>

lemma dispatch_change:
  "up_store (dispatch props (SET_SUCCESS f) u) =
     change_file f (\<lambda>st. st\<lparr>fs_progress := 100, fs_status := St_Success\<rparr>) (up_store u)"
  "up_store (dispatch props (SET_ERROR f e) u) =
     change_file f (\<lambda>st. st\<lparr>fs_error := Some e, fs_status := St_Error\<rparr>) (up_store u)"
  "up_store (dispatch props (SET_PROGRESS f p) u) =
     change_file f (\<lambda>st. st\<lparr>fs_progress := p, fs_status := St_Uploading\<rparr>) (up_store u)"
  by (simp_all add: dispatch_def)

lemma map_of_change_file:
  "map_of (s_files (change_file f g s)) f = map_option g (map_of (s_files s) f)"
  by (auto simp: change_file_def update_conv' split: option.split)

text \<open>
  The progress of a file waits for the next frame: when the file succeeds before that frame, the frame
  marks it as uploading again, and it stays so.
\<close>

theorem late_progress_undoes_success:
  assumes "map_of (s_files (up_store u)) f = Some st" "up_progress u = None"
  shows "map_of (s_files (up_store (upload_run props u [Progress f 100, Succeed f, Progress_Frame]))) f =
    Some (st\<lparr>fs_progress := 100, fs_status := St_Uploading\<rparr>)"
  using assms
  by (simp add: onProgress_def progress_frame_def dispatch_def map_of_change_file clamp_def)

text \<open>While the progress of one file waits, that of another one is dropped.\<close>

theorem progress_of_other_file_is_dropped:
  assumes "up_progress u = None"
  shows "upload_run props u [Progress f p, Progress g q] = upload_run props u [Progress f p]"
  using assms by (simp add: onProgress_def)

text \<open>The message of an earlier error stays: a file that succeeds after it is still shown as failed.\<close>

theorem old_error_hides_success:
  assumes "map_of (s_files (up_store u)) f = Some st" "m \<noteq> []"
  shows "\<exists>st'. map_of (s_files (up_store (upload_run props u [Fail f (Some m), Succeed f]))) f = Some st'
    \<and> fs_status st' = St_Success \<and> status_text st' = ''Error: '' @ m"
  using assms
  by (cases m) (simp_all add: dispatch_def map_of_change_file message_of_def status_text_def)

end
