(* ===== verification/Prompt_Editor.thy ===== *)
theory Prompt_Editor
  imports Variable_Options
begin

text \<open>
  The prompt editor (\<open>pages/agent/form/components/prompt-editor\<close>): the nodes a prompt is shown as, the
  text they are saved as, the merge of a path typed behind a variable, the menu of variables, and the
  display of a prompt on the canvas (\<open>canvas/node/variable-display.tsx\<close>). The paragraph of the editor is
  a list of nodes; the content of a text node and of a line break is what the editor package says it is.
\<close>

section \<open>Nodes and options\<close>

text \<open>The label of the parent is \<open>None\<close> when it is missing or an element, not a string.\<close>

record picker_option =
  po_label :: string
  po_value :: string
  po_parent :: "string option"

datatype prompt_node =
    Text_Node string
  | Line_Break
  | Variable_Node string string "string option"

fun getTextContent :: "prompt_node \<Rightarrow> string" where
  "getTextContent (Text_Node t) = t"
| "getTextContent Line_Break = ''\<newline>''"
| "getTextContent (Variable_Node v lbl parent) = ''{'' @ v @ ''}''"

definition root_text :: "prompt_node list \<Rightarrow> string" where
  "root_text ns = concat (map getTextContent ns)"

section \<open>Paths behind a variable\<close>

definition splitPromptVariablePath :: "string \<Rightarrow> string \<times> string" where
  "splitPromptVariablePath val =
     (let ps = split_on CHR ''@'' val; nodeId = hd ps; variable = (case nth_opt ps 1 of Some x \<Rightarrow> x | None \<Rightarrow> []) in
      if nodeId = [] \<or> variable = [] then (val, [])
      else (case index_of variable ''.'' of
              None \<Rightarrow> (val, [])
            | Some dotIndex \<Rightarrow> (nodeId @ ''@'' @ take dotIndex variable, drop dotIndex variable)))"

definition ident_start :: "char \<Rightarrow> bool" where
  "ident_start c = (let n = (of_char c :: nat) in (65 \<le> n \<and> n \<le> 90) \<or> (97 \<le> n \<and> n \<le> 122) \<or> n = 95)"

definition ident_char :: "char \<Rightarrow> bool" where
  "ident_char c = (ident_start c \<or> digit c)"

text \<open>One segment of \<open>PromptVariableLeadingPathRegex\<close>: a dot and a number or a name.\<close>

definition path_segment :: "string \<Rightarrow> string" where
  "path_segment s =
     (case s of
        d # c # r \<Rightarrow>
          if d = CHR ''.'' then
            (if digit c then d # takeWhile digit (c # r)
             else if ident_start c then d # takeWhile ident_char (c # r) else [])
          else []
      | _ \<Rightarrow> [])"

function leading_path :: "string \<Rightarrow> string" where
  "leading_path s =
     (let seg = path_segment s in if seg = [] then [] else seg @ leading_path (drop (length seg) s))"
  by pat_completeness auto

termination
proof (relation "measure length")
  fix s seg
  assume "seg = path_segment s" "seg \<noteq> []"
  then have "s \<noteq> []" "0 < length seg" by (auto simp: path_segment_def)
  then show "(drop (length seg) s, s) \<in> measure length" by simp
qed simp

declare leading_path.simps [simp del]

definition extractLeadingPromptVariablePath :: "string \<Rightarrow> (string \<times> string) option" where
  "extractLeadingPromptVariablePath txts =
     (let pathSuffix = leading_path txts in
      if pathSuffix = [] then None else Some (pathSuffix, drop (length pathSuffix) txts))"

definition appendPromptVariablePath :: "picker_option \<Rightarrow> string \<Rightarrow> picker_option" where
  "appendPromptVariablePath option pathSuffix =
     (if pathSuffix = [] then option
      else option\<lparr>po_value := po_value option @ pathSuffix, po_label := po_label option @ pathSuffix\<rparr>)"

definition resolvePromptVariableOption :: "string \<Rightarrow> picker_option list \<Rightarrow> picker_option option" where
  "resolvePromptVariableOption val options =
     (case find (\<lambda>option. po_value option = val) options of
        Some exactMatch \<Rightarrow> Some exactMatch
      | None \<Rightarrow>
          (case splitPromptVariablePath val of (rootValue, pathSuffix) \<Rightarrow>
             if pathSuffix = [] then None
             else map_option (\<lambda>rootOption. appendPromptVariablePath rootOption pathSuffix)
                    (find (\<lambda>option. po_value option = rootValue) options)))"

text \<open>The transform of text nodes: the text node at a place, behind a variable node.\<close>

definition mergeLeadingVariablePathTextNode :: "nat \<Rightarrow> prompt_node list \<Rightarrow> prompt_node list" where
  "mergeLeadingVariablePathTextNode i ns =
     (if 0 < i \<and> i < length ns then
        (case (ns ! (i - 1), ns ! i) of
           (Variable_Node v lbl parent, Text_Node t) \<Rightarrow>
             (case extractLeadingPromptVariablePath t of
                None \<Rightarrow> ns
              | Some (pathSuffix, remainingText) \<Rightarrow>
                  (let nextVariable = appendPromptVariablePath \<lparr>po_label = lbl, po_value = v, po_parent = parent\<rparr> pathSuffix
                   in ns[i - 1 := Variable_Node (po_value nextVariable) (po_label nextVariable) (po_parent nextVariable),
                         i := Text_Node remainingText]))
         | _ \<Rightarrow> ns)
      else ns)"

section \<open>From a text to nodes\<close>

text \<open>The next match of \<open>VariableRegex\<close>: what is before it, its group, and what is behind it.\<close>

definition not_brace :: "char \<Rightarrow> bool" where
  "not_brace c = (c \<noteq> CHR ''{'' \<and> c \<noteq> CHR ''}'')"

definition brace_content :: "string \<Rightarrow> (string \<times> string) option" where
  "brace_content s =
     (case dropWhile not_brace s of
        c # rest \<Rightarrow> if c = CHR ''}'' then Some (takeWhile not_brace s, rest) else None
      | [] \<Rightarrow> None)"

fun next_variable :: "string \<Rightarrow> (string \<times> string \<times> string) option" where
  "next_variable [] = None"
| "next_variable (c # s) =
     (case (if c = CHR ''{'' then brace_content s else None) of
        Some (content, rest) \<Rightarrow> Some ([], content, rest)
      | None \<Rightarrow> map_option (\<lambda>(before, content, rest). (c # before, content, rest)) (next_variable s))"

lemma brace_content_text: "brace_content s = Some (v, r) \<Longrightarrow> s = v @ ''}'' @ r \<and> list_all not_brace v"
proof -
  assume "brace_content s = Some (v, r)"
  then have v: "v = takeWhile not_brace s" and d: "dropWhile not_brace s = CHR ''}'' # r"
    by (auto simp: brace_content_def split: list.splits if_splits)
  have "s = takeWhile not_brace s @ dropWhile not_brace s" by simp
  with v d show ?thesis by (auto simp: list_all_iff dest: set_takeWhileD)
qed

lemma next_variable_text:
  "next_variable s = Some (b, v, r) \<Longrightarrow> s = b @ ''{'' @ v @ ''}'' @ r \<and> list_all not_brace v"
proof (induction s arbitrary: b)
  case (Cons c s)
  show ?case
  proof (cases "if c = CHR ''{'' then brace_content s else None")
    case None
    with Cons obtain b' where "next_variable s = Some (b', v, r)" "b = c # b'" by auto
    with Cons.IH show ?thesis by simp
  next
    case (Some p)
    with Cons.prems have "b = []" "c = CHR ''{''" "brace_content s = Some (v, r)"
      by (auto split: if_splits prod.splits)
    then show ?thesis using brace_content_text by simp
  qed
qed simp

function parseLineContent :: "(string \<Rightarrow> picker_option option) \<Rightarrow> string \<Rightarrow> prompt_node list" where
  "parseLineContent findItem line =
     (case next_variable line of
        None \<Rightarrow> if line = [] then [] else [Text_Node line]
      | Some (before, content, rest) \<Rightarrow>
          (if before = [] then [] else [Text_Node before])
          @ (case findItem content of
               Some nodeItem \<Rightarrow> Variable_Node content (po_label nodeItem) (po_parent nodeItem)
             | None \<Rightarrow> Text_Node (''{'' @ content @ ''}''))
          # parseLineContent findItem rest)"
  by pat_completeness auto

termination
  by (relation "measure (length \<circ> snd)") (auto dest: next_variable_text)

declare parseLineContent.simps [simp del]

fun parse_lines :: "(string \<Rightarrow> picker_option option) \<Rightarrow> string list \<Rightarrow> prompt_node list" where
  "parse_lines findItem [] = []"
| "parse_lines findItem [line] = parseLineContent findItem line"
| "parse_lines findItem (line # rest) = parseLineContent findItem line @ Line_Break # parse_lines findItem rest"

definition parseTextToVariableNodes :: "(string \<Rightarrow> picker_option option) \<Rightarrow> string \<Rightarrow> prompt_node list" where
  "parseTextToVariableNodes findItem txts = parse_lines findItem (split_on CHR ''\<newline>'' txts)"

definition findItemByValue :: "rf_state \<Rightarrow> picker_option list \<Rightarrow> string \<Rightarrow> picker_option option" where
  "findItemByValue s children val =
     (case findAgentStructuredOutputLabel s val (map (\<lambda>x. (po_label x, po_value x)) children) of
        Some (lbl, v) \<Rightarrow>
          Some \<lparr>po_label = lbl, po_value = v,
                po_parent = Option.bind (find (\<lambda>x. str_includes val (po_value x)) children) po_parent\<rparr>
      | None \<Rightarrow> resolvePromptVariableOption val children)"

text \<open>The text of a prompt that is pasted, when it has more than one line, and the enter key.\<close>

fun paste_lines :: "string list \<Rightarrow> prompt_node list" where
  "paste_lines [] = []"
| "paste_lines [line] = (if line = [] then [] else [Text_Node line])"
| "paste_lines (line # rest) = (if line = [] then [] else [Text_Node line]) @ Line_Break # paste_lines rest"

definition pasted_nodes :: "string \<Rightarrow> prompt_node list option" where
  "pasted_nodes txts =
     (if CHR ''\<newline>'' \<in> set txts then Some (paste_lines (split_on CHR ''\<newline>'' txts)) else None)"

definition enter_nodes :: "bool \<Rightarrow> prompt_node list option" where
  "enter_nodes shiftKey = (if shiftKey then None else Some [Line_Break])"

section \<open>The menu\<close>

text \<open>
  The trigger \<open>/(^|\s|\()([/]((?:[^/\s\()])*))$/\<close>: the offset of the last slash, the query behind it and
  both together. The query has no slash, so the slash is the last one of the text.
\<close>

definition query_char :: "char \<Rightarrow> bool" where
  "query_char c = (c \<noteq> CHR ''/'' \<and> \<not> is_space c \<and> c \<noteq> CHR ''('' \<and> c \<noteq> CHR '')'')"

definition testTriggerFn :: "string \<Rightarrow> (nat \<times> string \<times> string) option" where
  "testTriggerFn txts =
     (let query = rev (takeWhile query_char (rev txts));
          before = take (length txts - length query) txts in
      if before \<noteq> [] \<and> last before = CHR ''/''
         \<and> (butlast before = [] \<or> is_space (last (butlast before)) \<or> last (butlast before) = CHR ''('')
      then Some (length before - 1, query, ''/'' @ query) else None)"

definition option_matches :: "string \<Rightarrow> picker_option \<Rightarrow> bool" where
  "option_matches queryString y =
     (if queryString = [] then True
      else (let parentLabel = (case po_parent y of Some p \<Rightarrow> to_lower p @ ''.'' | None \<Rightarrow> []) in
            str_includes (parentLabel @ to_lower (po_label y)) queryString
            \<or> str_includes (parentLabel @ to_lower (po_value y)) queryString))"

definition unifiedOptions :: "string \<Rightarrow> (string \<times> picker_option list) list \<Rightarrow> (string \<times> picker_option list) list" where
  "unifiedOptions queryString groups =
     filter (\<lambda>(title, options). options \<noteq> [])
       (map (\<lambda>(title, options). (title, filter (option_matches queryString) options)) groups)"

definition flattened :: "string \<Rightarrow> (string \<times> picker_option list) list \<Rightarrow> picker_option list" where
  "flattened queryString groups = concat (map snd (unifiedOptions queryString groups))"

definition PromptIdentity :: string where
  "PromptIdentity = ''RAGFlow-Prompt''"

text \<open>What choosing an option inserts.\<close>

definition onSelectOption :: "picker_option \<Rightarrow> prompt_node" where
  "onSelectOption x =
     (if po_parent x = Some PromptIdentity then Text_Node (po_value x)
      else Variable_Node (po_value x) (po_label x) (po_parent x))"

text \<open>The prompts of the framework, offered by the form of an agent; their names are ASCII.\<close>

definition upper_ascii :: "char \<Rightarrow> char" where
  "upper_ascii c = (let n = (of_char c :: nat) in if 97 \<le> n \<and> n \<le> 122 then char_of (n - 32) else c)"

definition wrapPromptWithTag :: "string \<Rightarrow> string \<Rightarrow> string" where
  "wrapPromptWithTag txts tag =
     (let capitalTag = map upper_ascii tag in
      ''<'' @ capitalTag @ ''>\<newline>  '' @ txts @ ''\<newline></'' @ capitalTag @ ''>'')"

definition buildPromptExtraPromptOptions ::
  "(string \<times> string) list \<Rightarrow> edge list \<Rightarrow> string option \<Rightarrow> picker_option list" where
  "buildPromptExtraPromptOptions prompts edges nodeId =
     filter (\<lambda>x. if \<not> hasSubAgentOrTool edges nodeId then po_label x = ''citation_guidelines'' else True)
       (map (\<lambda>(key, val). \<lparr>po_label = key, po_value = wrapPromptWithTag val key, po_parent = None\<rparr>) prompts)"

section \<open>The display on the canvas\<close>

datatype display_part = Display_Text string | Display_Variable string

function display_parts :: "(string \<Rightarrow> string) \<Rightarrow> string \<Rightarrow> display_part list" where
  "display_parts label_of content =
     (case next_variable content of
        None \<Rightarrow> if content = [] then [] else [Display_Text content]
      | Some (before, variableValue, rest) \<Rightarrow>
          (if before = [] then [] else [Display_Text before])
          @ (let lbl = label_of variableValue in
             if lbl \<noteq> [] \<and> lbl \<noteq> variableValue then Display_Variable lbl
             else Display_Text (''{'' @ variableValue @ ''}''))
          # display_parts label_of rest)"
  by pat_completeness auto

termination
  by (relation "measure (length \<circ> snd)") (auto dest: next_variable_text)

declare display_parts.simps [simp del]

section \<open>Text and nodes\<close>

lemma root_text_simps [simp]:
  "root_text [] = []" "root_text (n # ns) = getTextContent n @ root_text ns"
  "root_text (ns @ ms) = root_text ns @ root_text ms"
  by (simp_all add: root_text_def)

lemma parse_line_text: "root_text (parseLineContent findItem line) = line"
proof (induction findItem line rule: parseLineContent.induct)
  case (1 findItem line)
  show ?case
  proof (cases "next_variable line")
    case None
    then show ?thesis by (simp add: parseLineContent.simps [of findItem line])
  next
    case (Some p)
    obtain b v r where p: "p = (b, v, r)" by (cases p)
    have ih: "root_text (parseLineContent findItem r) = r" by (rule 1 [OF Some p [symmetric] refl])
    have "line = b @ ''{'' @ v @ ''}'' @ r" using next_variable_text [of line b v r] Some p by simp
    moreover have "root_text (parseLineContent findItem line) = b @ ''{'' @ v @ ''}'' @ r"
      using Some p ih by (simp add: parseLineContent.simps [of findItem line] split: option.split)
    ultimately show ?thesis by metis
  qed
qed

lemma parse_lines_text: "root_text (parse_lines findItem ls) = join_with ''\<newline>'' ls"
  by (induction findItem ls rule: parse_lines.induct) (simp_all add: parse_line_text)

lemma paste_lines_text: "root_text (paste_lines ls) = join_with ''\<newline>'' ls"
  by (induction ls rule: paste_lines.induct) simp_all

text \<open>
  C34. Whatever the variables are, the nodes a prompt is shown as have the prompt as their text, and so do
  the nodes that a pasted text of several lines is turned into.
\<close>

theorem prompt_round_trip:
  "root_text (parseTextToVariableNodes findItem t) = t
   \<and> (case pasted_nodes t of Some ns \<Rightarrow> root_text ns = t | None \<Rightarrow> CHR ''\<newline>'' \<notin> set t)"
  by (simp add: parseTextToVariableNodes_def pasted_nodes_def parse_lines_text paste_lines_text join_split)

section \<open>Reading a merged variable back\<close>

lemma path_segment_prefix: "\<exists>r. s = path_segment s @ r"
proof -
  have tw: "\<exists>r. x = takeWhile P x @ r" for P :: "char \<Rightarrow> bool" and x by (metis takeWhile_dropWhile_id)
  show ?thesis
    by (cases s; cases "tl s") (auto simp: path_segment_def tw simp del: takeWhile.simps)
qed

lemma path_segment_chars: "c \<in> set (path_segment s) \<Longrightarrow> c = CHR ''.'' \<or> ident_char c"
  by (auto simp: path_segment_def ident_char_def split: list.splits if_splits dest: set_takeWhileD)

lemma leading_path_facts:
  "(\<exists>r. s = leading_path s @ r) \<and> (\<forall>c\<in>set (leading_path s). c = CHR ''.'' \<or> ident_char c)
   \<and> (leading_path s = [] \<or> hd (leading_path s) = CHR ''.'')"
proof (induction s rule: leading_path.induct)
  case (1 s)
  let ?seg = "path_segment s"
  obtain q where q: "s = ?seg @ q" using path_segment_prefix by blast
  show ?case
  proof (cases "?seg = []")
    case True
    then show ?thesis by (simp add: leading_path.simps [of s])
  next
    case False
    have "drop (length ?seg) s = q" by (subst q) simp
    with 1 [OF refl False] obtain r where r: "q = leading_path q @ r"
      and c: "\<forall>c\<in>set (leading_path q). c = CHR ''.'' \<or> ident_char c" by auto
    have l: "leading_path s = ?seg @ leading_path q"
      using False \<open>drop (length ?seg) s = q\<close> by (simp add: leading_path.simps [of s] Let_def)
    have "hd ?seg = CHR ''.''" using False by (auto simp: path_segment_def split: list.splits if_splits)
    moreover have "s = leading_path s @ r" unfolding l using q r by simp
    moreover have "\<forall>c\<in>set (leading_path s). c = CHR ''.'' \<or> ident_char c"
      unfolding l set_append using c path_segment_chars [of _ s] by blast
    ultimately show ?thesis using False unfolding l by (metis hd_append2)
  qed
qed

lemma ident_char_plain: "ident_char c \<Longrightarrow> not_brace c \<and> c \<noteq> CHR ''\<newline>'' \<and> c \<noteq> CHR ''@'' \<and> c \<noteq> CHR ''.''"
  by (auto simp: ident_char_def ident_start_def digit_def not_brace_def)

lemma index_of_first: "c \<notin> set x \<Longrightarrow> index_of (x @ c # r) [c] = Some (length x)"
  by (induction x) (auto simp: starts_with_def)

lemma parse_variable:
  assumes "list_all not_brace v" "findItem v = Some item"
  shows "parseLineContent findItem (''{'' @ v @ ''}'') = [Variable_Node v (po_label item) (po_parent item)]"
proof -
  have "dropWhile not_brace (v @ ''}'') = ''}''" "takeWhile not_brace (v @ ''}'') = v"
    using assms(1) by (simp_all add: list_all_iff dropWhile_append2 takeWhile_append2 not_brace_def)
  then have nv: "next_variable (CHR ''{'' # v @ ''}'') = Some ([], v, [])" by (simp add: brace_content_def)
  have "parseLineContent findItem [] = []" by (subst parseLineContent.simps) simp
  with nv assms(2) show ?thesis
    by (simp only: append.simps) (subst parseLineContent.simps, simp del: next_variable.simps)
qed

text \<open>
  A path typed behind a variable is merged into it, and the merged variable survives saving and
  loading: its text holds the variable with the path, and reading that text gives the same node again,
  with the label of the variable and the path behind it. The variable must be offered, its value made of a
  node and an output without a dot; the value with the path must not be offered itself.
\<close>

theorem merged_path_reads_back:
  assumes "find (\<lambda>x. po_value x = n @ ''@'' @ x0) opts = Some item"
    "CHR ''@'' \<notin> set n" "CHR ''@'' \<notin> set x0" "CHR ''.'' \<notin> set x0" "n \<noteq> []"
    "list_all (\<lambda>c. not_brace c \<and> c \<noteq> CHR ''\<newline>'') (n @ ''@'' @ x0)"
    "leading_path t \<noteq> []" "find (\<lambda>x. po_value x = n @ ''@'' @ x0 @ leading_path t) opts = None"
    "structured_field s (n @ ''@'' @ x0 @ leading_path t) = None"
  shows "let merged = mergeLeadingVariablePathTextNode 1
           [Variable_Node (n @ ''@'' @ x0) (po_label item) (po_parent item), Text_Node t];
         saved = ''{'' @ n @ ''@'' @ x0 @ leading_path t @ ''}'' in
    root_text merged = saved @ drop (length (leading_path t)) t
    \<and> parseTextToVariableNodes (findItemByValue s opts) saved = [hd merged]"
proof -
  let ?v = "n @ ''@'' @ x0" and ?p = "leading_path t"
  have chars: "\<forall>c\<in>set ?p. c = CHR ''.'' \<or> ident_char c" and dot: "hd ?p = CHR ''.''"
    using leading_path_facts [of t] assms(7) by auto
  then obtain p' where p': "?p = CHR ''.'' # p'" using assms(7) by (cases ?p) auto
  have at: "CHR ''@'' \<notin> set ?p"
  proof
    assume "CHR ''@'' \<in> set ?p"
    from bspec [OF chars this] have "CHR ''@'' = CHR ''.'' \<or> ident_char CHR ''@''" .
    then show False using ident_char_plain [of "CHR ''@''"] by simp
  qed
  have "not_brace c \<and> c \<noteq> CHR ''\<newline>''" if "c \<in> set ?p" for c
  proof (cases "c = CHR ''.''")
    case False
    with bspec [OF chars that] have "ident_char c" by simp
    from ident_char_plain [OF this] show ?thesis by simp
  qed (simp add: not_brace_def)
  then have "list_all (\<lambda>c. not_brace c \<and> c \<noteq> CHR ''\<newline>'') ?p" by (simp add: list_all_iff)
  with assms(6) have plain: "list_all (\<lambda>c. not_brace c \<and> c \<noteq> CHR ''\<newline>'') (n @ ''@'' @ x0 @ ?p)"
    by (simp only: list_all_append)
  have "split_on CHR ''@'' (n @ ''@'' @ x0 @ ?p) = [n, x0 @ ?p]"
    using assms(2,3) at split_on_append [of "CHR ''@''" n "x0 @ ?p"] split_on_none [of "CHR ''@''" "x0 @ ?p"] by simp
  moreover have "index_of (x0 @ ?p) ''.'' = Some (length x0)"
    unfolding p' by (rule index_of_first) (rule assms(4))
  ultimately have "splitPromptVariablePath (n @ ''@'' @ x0 @ ?p) = (?v, ?p)"
    using assms(5,7) by (simp add: splitPromptVariablePath_def nth_opt_def Let_def)
  then have "findItemByValue s opts (n @ ''@'' @ x0 @ ?p) = Some (appendPromptVariablePath item ?p)"
    using assms(1,7,8,9)
    by (simp add: findItemByValue_def findAgentStructuredOutputLabel_def resolvePromptVariableOption_def)
  moreover have "list_all not_brace (n @ ''@'' @ x0 @ ?p)" using plain by (auto simp: list_all_iff)
  ultimately have "parseLineContent (findItemByValue s opts) (''{'' @ (n @ ''@'' @ x0 @ ?p) @ ''}'')
      = [Variable_Node (n @ ''@'' @ x0 @ ?p) (po_label (appendPromptVariablePath item ?p))
          (po_parent (appendPromptVariablePath item ?p))]"
    by (intro parse_variable)
  then have "parseLineContent (findItemByValue s opts) (''{'' @ (n @ ''@'' @ x0 @ ?p) @ ''}'')
      = [Variable_Node (n @ ''@'' @ x0 @ ?p) (po_label item @ ?p) (po_parent item)]"
    using assms(7) by (simp add: appendPromptVariablePath_def)
  moreover have "split_on CHR ''\<newline>'' (''{'' @ (n @ ''@'' @ x0 @ ?p) @ ''}'') = [''{'' @ (n @ ''@'' @ x0 @ ?p) @ ''}'']"
    by (rule split_on_none) (use plain in \<open>auto simp: list_all_iff\<close>)
  moreover have "mergeLeadingVariablePathTextNode 1 [Variable_Node ?v (po_label item) (po_parent item), Text_Node t]
      = [Variable_Node (n @ ''@'' @ x0 @ ?p) (po_label item @ ?p) (po_parent item), Text_Node (drop (length ?p) t)]"
    using assms(7)
    by (simp add: mergeLeadingVariablePathTextNode_def extractLeadingPromptVariablePath_def
        appendPromptVariablePath_def Let_def)
  ultimately show ?thesis by (simp add: parseTextToVariableNodes_def)
qed

definition query_option :: picker_option where
  "query_option = \<lparr>po_label = ''json'', po_value = ''a@json'', po_parent = Some ''Retrieval''\<rparr>"

theorem merged_path_reads_back_witness:
  "parseTextToVariableNodes (findItemByValue (mk_state [] []) [query_option]) ''{a@json.0.name}'' =
     [Variable_Node ''a@json.0.name'' ''json.0.name'' (Some ''Retrieval'')]"
proof -
  have path: "leading_path ''.0.name, please'' = ''.0.name''" by code_simp
  have "structured_field (mk_state [] []) ''a@json.0.name'' = None" by code_simp
  then have "let merged = mergeLeadingVariablePathTextNode 1
           [Variable_Node ''a@json'' ''json'' (Some ''Retrieval''), Text_Node ''.0.name, please''] in
    parseTextToVariableNodes (findItemByValue (mk_state [] []) [query_option]) ''{a@json.0.name}'' = [hd merged]"
    using merged_path_reads_back [of "''a''" "''json''" "[query_option]" query_option "''.0.name, please''" "mk_state [] []"]
    by (simp add: path query_option_def not_brace_def Let_def)
  moreover have "hd (mergeLeadingVariablePathTextNode 1
           [Variable_Node ''a@json'' ''json'' (Some ''Retrieval''), Text_Node ''.0.name, please'']) =
      Variable_Node ''a@json.0.name'' ''json.0.name'' (Some ''Retrieval'')"
    by code_simp
  ultimately show ?thesis by (simp only: Let_def)
qed

section \<open>What opens the menu\<close>

lemma last_part:
  "rev (takeWhile P (rev t)) = q \<longleftrightarrow> (\<exists>b. t = b @ q \<and> list_all P q \<and> (b = [] \<or> \<not> P (last b)))"
proof
  assume q: "rev (takeWhile P (rev t)) = q"
  have "t = rev (dropWhile P (rev t)) @ q"
    by (metis q rev_append rev_rev_ident takeWhile_dropWhile_id)
  moreover have "list_all P q" unfolding q [symmetric] by (auto simp: list_all_iff dest: set_takeWhileD)
  moreover have "\<not> P (last (rev (dropWhile P (rev t))))" if "dropWhile P (rev t) \<noteq> []"
    using that by (metis hd_dropWhile last_rev)
  ultimately show "\<exists>b. t = b @ q \<and> list_all P q \<and> (b = [] \<or> \<not> P (last b))" by fastforce
next
  assume "\<exists>b. t = b @ q \<and> list_all P q \<and> (b = [] \<or> \<not> P (last b))"
  then obtain b where b: "t = b @ q" "list_all P q" "b = [] \<or> \<not> P (last b)" by blast
  have "takeWhile P (rev b) = []" using b(3) by (cases b rule: rev_cases) simp_all
  with b show "rev (takeWhile P (rev t)) = q" by (simp add: takeWhile_append list_all_iff)
qed

text \<open>
  The menu opens exactly on a text that ends with a slash and a query without slash, white space or
  parenthesis, where the slash is the first character or stands behind white space or an opening
  parenthesis; the offset is the place of the slash.
\<close>

theorem menu_trigger_exact:
  "testTriggerFn t = Some (i, q, r) \<longleftrightarrow>
     r = ''/'' @ q \<and> t = take i t @ r \<and> i < length t \<and> list_all query_char q
     \<and> (i = 0 \<or> is_space (t ! (i - 1)) \<or> t ! (i - 1) = CHR ''('')"
proof -
  define query where "query = rev (takeWhile query_char (rev t))"
  obtain b where b: "t = b @ query" "list_all query_char query" "b = [] \<or> \<not> query_char (last b)"
    using last_part [of query_char t query] query_def by blast
  have uniq: "q = query" if "t = b' @ ''/'' @ q" "list_all query_char q" for b' q
    using last_part [of query_char t q] that query_def by (auto simp: query_char_def intro: exI [of _ "b' @ ''/''"])
  have "take (length t - length query) t = b" using b(1) by simp
  then have t: "testTriggerFn t =
      (if b \<noteq> [] \<and> last b = CHR ''/''
          \<and> (butlast b = [] \<or> is_space (last (butlast b)) \<or> last (butlast b) = CHR ''('')
       then Some (length b - 1, query, ''/'' @ query) else None)"
    unfolding testTriggerFn_def query_def [symmetric] Let_def by (simp only:)
  show ?thesis
  proof (cases "b \<noteq> [] \<and> last b = CHR ''/''")
    case False
    have "\<not> (r = ''/'' @ q \<and> t = take i t @ r \<and> list_all query_char q)"
    proof
      assume *: "r = ''/'' @ q \<and> t = take i t @ r \<and> list_all query_char q"
      then have "q = query" using uniq by blast
      with * b(1) have "b = take i t @ ''/''" by (metis append_assoc append_same_eq)
      with False show False by simp
    qed
    with False show ?thesis by (auto simp: t)
  next
    case True
    then obtain a where a: "b = a @ ''/''" by (cases b rule: rev_cases) auto
    have ta: "t = a @ ''/'' @ query" using a b(1) by simp
    have res: "testTriggerFn t =
        (if a = [] \<or> is_space (last a) \<or> last a = CHR ''('' then Some (length a, query, ''/'' @ query) else None)"
      by (simp add: t a)
    have key: "r = ''/'' @ q \<and> t = take i t @ r \<and> i < length t \<and> list_all query_char q
        \<longleftrightarrow> i = length a \<and> q = query \<and> r = ''/'' @ query"
    proof
      assume *: "r = ''/'' @ q \<and> t = take i t @ r \<and> i < length t \<and> list_all query_char q"
      then have q: "q = query" using uniq by blast
      with * ta have "take i t = a" by (metis append_assoc append_same_eq)
      then have "length (take i t) = length a" by (rule arg_cong)
      with * have "i = length a" by simp
      with q * show "i = length a \<and> q = query \<and> r = ''/'' @ query" by simp
    qed (use ta b(2) in simp)
    have "t ! (length a - 1) = last a" if "a \<noteq> []"
      using that by (simp add: ta nth_append last_conv_nth)
    with key show ?thesis unfolding res by (cases "a = []") auto
  qed
qed

section \<open>Prompts of the framework\<close>

text \<open>
  The options of the framework's prompts have no parent label, so choosing one never takes the branch that
  inserts its text: it becomes a variable, and its text is saved in braces.
\<close>

theorem framework_prompt_saved_in_braces:
  "list_all (\<lambda>x. getTextContent (onSelectOption x) = ''{'' @ po_value x @ ''}'')
     (buildPromptExtraPromptOptions prompts edges nodeId)"
  by (auto simp: list_all_iff buildPromptExtraPromptOptions_def onSelectOption_def)

end
