(* ===== verification/Title_Chunker.thy ===== *)
theory Title_Chunker
  imports Dsl_Params
begin

text \<open>
  The form of the title chunker (\<open>pages/agent/form/title-chunker-form\<close>): reading what the server sends into
  the form, the levels that can be chosen, and the switch between the two methods, each of which keeps its
  values. \<open>emp\<close> is lodash's \<open>isEmpty\<close>, \<open>rules0\<close> the initial rules.
\<close>

section \<open>From the parameters to the form\<close>

text \<open>\<open>expression && expression.trim() !== ''\<close>.\<close>

definition has_text :: "jsv \<Rightarrow> bool js" where
  "has_text expression =
     (if \<not> truthy expression then Inr False
      else (case expression of
              JStr e \<Rightarrow> Inr (js_trim e \<noteq> [])
            | _ \<Rightarrow> Inl (TypeError ''expression.trim is not a function'')))"

definition rule_of_group :: "jsv \<Rightarrow> jsv option js" where
  "rule_of_group levelGroup =
     (case levelGroup of
        JArr es \<Rightarrow>
          js_bind (js_filter has_text es) (\<lambda>filteredExpressions.
            if filteredExpressions = [] then Inr None
            else Inr (Some (JObj [(''levels'',
              JArr (map (\<lambda>expression. JObj [(''expression'', expression)]) filteredExpressions))])))
      | _ \<Rightarrow> Inr (Some (JObj [(''levels'', JArr [JObj [(''expression'', JStr [])]])])))"

definition somes :: "'a option list \<Rightarrow> 'a list" where
  "somes xs = map the (filter (\<lambda>x. x \<noteq> None) xs)"

definition transformLevelsToRules :: "jsv \<Rightarrow> jsv \<Rightarrow> jsv js" where
  "transformLevelsToRules rules0 levels =
     (case levels of
        JArr groups \<Rightarrow> js_bind (js_mapM rule_of_group groups) (\<lambda>rules. Inr (JArr (somes rules)))
      | _ \<Rightarrow> Inr rules0)"

definition filled_rule :: "jsv \<Rightarrow> jsv option js" where
  "filled_rule rule =
     (case jget rule ''levels'' of
        JArr ls \<Rightarrow>
          js_bind (js_filter (\<lambda>level. js_bind (jprop level ''expression'') has_text) ls) (\<lambda>filteredLevels.
            Inr (if filteredLevels = [] then None else Some (JObj [(''levels'', JArr filteredLevels)])))
      | _ \<Rightarrow> Inr None)"

definition filterEmptyRules :: "jsv \<Rightarrow> jsv js" where
  "filterEmptyRules rules =
     (case rules of
        JArr rs \<Rightarrow> js_bind (js_mapM filled_rule rs) (\<lambda>ys. Inr (JArr (somes ys)))
      | _ \<Rightarrow> Inr (JArr []))"

definition transformApiResponseToForm :: "empty_fn \<Rightarrow> jsv \<Rightarrow> jsv \<Rightarrow> jsv js" where
  "transformApiResponseToForm emp rules0 apiData =
     (if \<not> truthy apiData \<or> emp apiData then Inr apiData
      else (let meth = jget apiData ''method'';
                h1 = (case jget apiData ''hierarchy'' of JNum n \<Rightarrow> JStr (num_str n) | h \<Rightarrow> h);
                hierarchy = (if meth = JStr ''group'' \<and> \<not> truthy h1 then JStr ''0'' else h1);
                rules = jget apiData ''rules''
            in js_bind (if is_array (jget apiData ''levels'') then transformLevelsToRules rules0 (jget apiData ''levels'')
                        else if is_array rules then filterEmptyRules rules else Inr rules) (\<lambda>rules.
               Inr (JObj [(''method'', meth), (''hierarchy'', hierarchy),
                 (''include_heading_content'', JBool (truthy (jget apiData ''include_heading_content''))),
                 (''root_chunk_as_heading'', JBool (truthy (jget apiData ''root_chunk_as_heading''))),
                 (''rules'', rules)]))))"

section \<open>The levels that can be chosen\<close>

definition getDynamicHierarchyOptions :: "nat \<Rightarrow> (string \<times> string) list" where
  "getDynamicHierarchyOptions maxLevel =
     map (\<lambda>i. (''H'' @ nat_str (i + 1), nat_str (i + 1))) [0..<(if maxLevel < 1 then 1 else maxLevel)]"

text \<open>A rule is the list of its expressions.\<close>

definition calculateMaxLevelCount :: "string list list option \<Rightarrow> nat" where
  "calculateMaxLevelCount rules =
     (case rules of None \<Rightarrow> 1 | Some rs \<Rightarrow> if rs = [] then 1 else foldl max 1 (map length rs))"

definition hierarchyOptions :: "string \<Rightarrow> string \<Rightarrow> string list list option \<Rightarrow> (string \<times> string) list" where
  "hierarchyOptions automatic meth rules =
     (let options = getDynamicHierarchyOptions (calculateMaxLevelCount rules)
      in if meth = ''group'' then (automatic, ''0'') # options else options)"

text \<open>\<open><\<close> on strings: by code units from the left.\<close>

fun str_less :: "string \<Rightarrow> string \<Rightarrow> bool" where
  "str_less xs [] = False"
| "str_less [] (y # ys) = True"
| "str_less (x # xs) (y # ys) = ((of_char x :: nat) < of_char y \<or> (x = y \<and> str_less xs ys))"

definition hierarchy_effect :: "(string \<times> string) list \<Rightarrow> string option \<Rightarrow> string option" where
  "hierarchy_effect options currentHierarchy =
     (case currentHierarchy of
        None \<Rightarrow> None
      | Some h \<Rightarrow>
          if h = [] then Some h
          else (case last_opt options of
                  Some (lbl, maxOptionValue) \<Rightarrow>
                    if maxOptionValue \<noteq> [] \<and> str_less maxOptionValue h then Some maxOptionValue else Some h
                | None \<Rightarrow> Some h))"

section \<open>The switch between the methods\<close>

record mode_values =
  mv_hierarchy :: "string option"
  mv_include :: "bool option"
  mv_root :: "bool option"
  mv_rules :: "string list list"

record chunker =
  ch_method :: string
  ch_values :: mode_values
  ch_hierarchy_kept :: "mode_values option"
  ch_group_kept :: "mode_values option"
  ch_initial :: "string option"

definition Hierarchy_H3 :: string where
  "Hierarchy_H3 = ''3''"

text \<open>The effect on \<open>[method, form]\<close>; the first run only notes the method.\<close>

definition method_effect :: "string list list \<Rightarrow> chunker \<Rightarrow> chunker" where
  "method_effect rules0 c =
     (case ch_initial c of
        None \<Rightarrow> c\<lparr>ch_initial := Some (ch_method c)\<rparr>
      | Some currentMode \<Rightarrow>
          if ch_method c = currentMode then c
          else
            (let c1 = (if currentMode = ''hierarchy'' then c\<lparr>ch_hierarchy_kept := Some (ch_values c)\<rparr>
                       else if currentMode = ''group'' then c\<lparr>ch_group_kept := Some (ch_values c)\<rparr> else c);
                 c2 = c1\<lparr>ch_initial := Some (ch_method c)\<rparr>
             in c2\<lparr>ch_values :=
               (if ch_method c = ''group'' then
                  \<lparr>mv_hierarchy = (case ch_group_kept c2 of
                       Some m \<Rightarrow> (case mv_hierarchy m of Some h \<Rightarrow> Some h | None \<Rightarrow> Some ''0'') | None \<Rightarrow> Some ''0''),
                   mv_include = Some False, mv_root = Some False,
                   mv_rules = (case ch_group_kept c2 of Some m \<Rightarrow> mv_rules m | None \<Rightarrow> rules0)\<rparr>
                else (case ch_hierarchy_kept c2 of
                   Some m \<Rightarrow>
                     \<lparr>mv_hierarchy = (case mv_hierarchy m of
                          Some h \<Rightarrow> if h \<noteq> [] then Some h else Some Hierarchy_H3 | None \<Rightarrow> Some Hierarchy_H3),
                      mv_include = Some (mv_include m = Some True), mv_root = Some (mv_root m = Some True),
                      mv_rules = mv_rules m\<rparr>
                 | None \<Rightarrow>
                     \<lparr>mv_hierarchy = Some Hierarchy_H3, mv_include = Some False, mv_root = Some False, mv_rules = rules0\<rparr>))\<rparr>))"

definition switch_method :: "string list list \<Rightarrow> string \<Rightarrow> chunker \<Rightarrow> chunker" where
  "switch_method rules0 m c = method_effect rules0 (c\<lparr>ch_method := m\<rparr>)"

section \<open>Saving and reading back\<close>

definition form_rules :: "string list list \<Rightarrow> jsv" where
  "form_rules ess =
     JArr (map (\<lambda>es. JObj [(''levels'', JArr (map (\<lambda>e. JObj [(''expression'', JStr e)]) es))]) ess)"

definition chunker_form :: "string \<Rightarrow> nat \<Rightarrow> bool \<Rightarrow> bool \<Rightarrow> string list list \<Rightarrow> jsv" where
  "chunker_form m k a b ess = JObj [(''method'', JStr m), (''hierarchy'', JStr (nat_str k)),
     (''include_heading_content'', JBool a), (''root_chunk_as_heading'', JBool b), (''rules'', form_rules ess)]"

text \<open>Without blank expressions, and without rules that have no other.\<close>

definition clean_rules :: "string list list \<Rightarrow> string list list" where
  "clean_rules ess = filter (\<lambda>es. es \<noteq> []) (map (filter (\<lambda>e. js_trim e \<noteq> [])) ess)"

lemma trim_Nil [simp]: "js_trim [] = []"
  by (simp add: js_trim_def)

lemma has_text_JStr [simp]: "has_text (JStr e) = Inr (js_trim e \<noteq> [])"
  by (cases e) (simp_all add: has_text_def)

lemma filter_texts:
  "js_filter has_text (filter (\<lambda>y. y \<noteq> JStr []) (map JStr es)) = Inr (map JStr (filter (\<lambda>e. js_trim e \<noteq> []) es))"
  by (induction es) auto

lemma rule_of_sent_group:
  "rule_of_group (JArr (filter (\<lambda>y. y \<noteq> JStr []) (map JStr es))) =
    Inr (let fs = filter (\<lambda>e. js_trim e \<noteq> []) es in
         if fs = [] then None else Some (JObj [(''levels'', JArr (map (\<lambda>e. JObj [(''expression'', JStr e)]) fs))]))"
  by (simp add: rule_of_group_def filter_texts Let_def comp_def)

lemma rules_of_sent_levels:
  "transformLevelsToRules rules0 (JArr (map (\<lambda>es. JArr (filter (\<lambda>y. y \<noteq> JStr []) (map JStr es))) ess))
    = Inr (form_rules (clean_rules ess))"
proof -
  have "js_mapM rule_of_group (map (\<lambda>es. JArr (filter (\<lambda>y. y \<noteq> JStr []) (map JStr es))) ess) =
      Inr (map (\<lambda>es. let fs = filter (\<lambda>e. js_trim e \<noteq> []) es in
         if fs = [] then None else Some (JObj [(''levels'', JArr (map (\<lambda>e. JObj [(''expression'', JStr e)]) fs))])) ess)"
    by (induction ess) (simp_all only: list.map js_mapM.simps rule_of_sent_group js_bind_simps)
  moreover have "somes (map (\<lambda>es. let fs = filter (\<lambda>e. js_trim e \<noteq> []) es in
         if fs = [] then None else Some (JObj [(''levels'', JArr (map (\<lambda>e. JObj [(''expression'', JStr e)]) fs))])) ess)
      = map (\<lambda>es. JObj [(''levels'', JArr (map (\<lambda>e. JObj [(''expression'', JStr e)]) es))]) (clean_rules ess)"
    by (induction ess) (simp_all add: somes_def clean_rules_def Let_def)
  ultimately show ?thesis by (simp add: transformLevelsToRules_def form_rules_def)
qed

lemma sent_levels:
  assumes "\<And>e. emp (JStr e) = (e = [])"
  shows "js_mapM (\<lambda>rule. js_bind (jprop rule ''levels'')
      (\<lambda>ls. transformObjectArrayToPureArray emp ls ''expression''))
      (map (\<lambda>es. JObj [(''levels'', JArr (map (\<lambda>e. JObj [(''expression'', JStr e)]) es))]) ess)
    = Inr (map (\<lambda>es. JArr (filter (\<lambda>y. y \<noteq> JStr []) (map JStr es))) ess)"
proof -
  have "js_mapM (\<lambda>x. jprop x ''expression'') (map (\<lambda>e. JObj [(''expression'', JStr e)]) es) = Inr (map JStr es)" for es
    by (induction es) (simp_all add: jprop_def nullish_def)
  moreover have "filter (\<lambda>y. \<not> emp y) (map JStr es) = filter (\<lambda>y. y \<noteq> JStr []) (map JStr es)" for es
    by (induction es) (simp_all add: assms)
  ultimately show ?thesis
    by (induction ess) (simp_all add: jprop_def nullish_def transformObjectArrayToPureArray_def)
qed

text \<open>
  C35. Reading back what is sent for a title chunker gives the form it was made from, with blank expressions
  left out and rules without any other left out, for both methods; a form without blank expressions comes
  back as it was.
\<close>

theorem chunker_round_trip:
  assumes "\<And>e. emp (JStr e) = (e = [])" "\<And>ps. emp (JObj ps) = (ps = [])"
  shows "js_bind (transformTitleChunkerParams emp (chunker_form m k a b ess)) (transformApiResponseToForm emp rules0)
    = Inr (chunker_form m k a b (clean_rules ess))"
proof -
  have "transformTitleChunkerParams emp (chunker_form m k a b ess) = Inr (JObj
      [(''method'', JStr m), (''hierarchy'', JNum (Fin (of_nat k))), (''include_heading_content'', JBool a),
       (''root_chunk_as_heading'', JBool b),
       (''levels'', JArr (map (\<lambda>es. JArr (filter (\<lambda>y. y \<noteq> JStr []) (map JStr es))) ess))])"
    using sent_levels [OF assms(1), of ess]
    by (simp add: transformTitleChunkerParams_def chunker_form_def form_rules_def js_or_def)
  moreover have "num_str (Fin (of_nat k)) = nat_str k"
    using num_str_of_int [of "int k"] by simp
  ultimately show ?thesis
    by (simp add: transformApiResponseToForm_def assms(2) rules_of_sent_levels chunker_form_def Let_def del: num_str.simps)
qed

definition jsv_empty :: empty_fn where
  "jsv_empty v = (v = JStr [] \<or> v = JObj [])"

theorem chunker_round_trip_witness:
  "js_bind (transformTitleChunkerParams jsv_empty (chunker_form ''group'' 0 True False [[''^#'', ''  '', []], [[]]]))
     (transformApiResponseToForm jsv_empty JUndef)
   = Inr (chunker_form ''group'' 0 True False [[''^#'']])"
proof -
  have "clean_rules [[''^#'', ''  '', []], [[]]] = [[''^#'']]" by code_simp
  moreover have "jsv_empty (JStr e) = (e = [])" "jsv_empty (JObj ps) = (ps = [])" for e ps
    by (simp_all add: jsv_empty_def)
  note chunker_round_trip [OF this, of "''group''" 0 True False "[[''^#'', ''  '', []], [[]]]" JUndef]
  ultimately show ?thesis by (simp only:)
qed

section \<open>The chosen level\<close>

lemma last_option:
  "last_opt (hierarchyOptions automatic m rules) =
     Some (''H'' @ nat_str (calculateMaxLevelCount rules), nat_str (calculateMaxLevelCount rules))"
proof -
  have "1 \<le> calculateMaxLevelCount rules"
  proof -
    have "(x::nat) \<le> foldl max x ys" for x ys
    proof (induction ys arbitrary: x)
      case (Cons y ys)
      from Cons.IH [of "max x y"] show ?case by simp
    qed simp
    then show ?thesis by (auto simp: calculateMaxLevelCount_def split: option.split)
  qed
  then obtain n where "calculateMaxLevelCount rules = Suc n" by (cases "calculateMaxLevelCount rules") auto
  then show ?thesis by (simp add: hierarchyOptions_def getDynamicHierarchyOptions_def last_opt_def Let_def)
qed

lemma str_less_digit: "j < 10 \<Longrightarrow> k < 10 \<Longrightarrow> str_less (nat_str j) (nat_str k) \<longleftrightarrow> j < k"
  by (simp add: nat_str.simps [of j] nat_str.simps [of k] digit_char_def)

text \<open>
  As long as no rule has more than nine expressions, the effect keeps the chosen level within the levels
  that can be chosen and leaves a level that can be chosen alone.
\<close>

theorem chosen_level_within_options:
  assumes "calculateMaxLevelCount rules < 10" "k < 10"
  shows "hierarchy_effect (hierarchyOptions automatic m rules) (Some (nat_str k))
    = Some (nat_str (min k (calculateMaxLevelCount rules)))"
  using str_less_digit [OF assms] by (simp add: hierarchy_effect_def last_option min_def)

theorem chosen_level_within_options_witness:
  "hierarchy_effect (hierarchyOptions ''Automatic'' ''group'' (Some [[''a'', ''b''], [''c'']])) (Some (nat_str 3))
    = Some (nat_str 2)"
  using chosen_level_within_options [of "Some [[''a'', ''b''], [''c'']]" 3 "''Automatic''" "''group''"]
  by (simp add: calculateMaxLevelCount_def)

text \<open>With ten expressions the levels are compared as texts, and level nine becomes level ten.\<close>

theorem ninth_level_becomes_tenth:
  "hierarchy_effect (hierarchyOptions automatic m (Some [replicate 10 e])) (Some ''9'') = Some ''10''"
proof -
  have "nat_str 10 = ''10''" by code_simp
  then show ?thesis by (simp add: hierarchy_effect_def last_option calculateMaxLevelCount_def)
qed

section \<open>Switching there and back\<close>

text \<open>
  Whatever is edited under the other method, switching there and back gives the values of the hierarchy
  method back; for the group method the level and the rules.
\<close>

theorem switch_back_restores:
  assumes "ch_initial c = Some (ch_method c)" "ch_method c = ''hierarchy''" "mv_hierarchy (ch_values c) = Some h" "h \<noteq> []"
    "mv_include (ch_values c) = Some a" "mv_root (ch_values c) = Some b"
  shows "ch_values (switch_method rules0 ''hierarchy'' ((switch_method rules0 ''group'' c)\<lparr>ch_values := v\<rparr>)) = ch_values c"
  using assms by (simp add: switch_method_def method_effect_def Let_def)

text \<open>The two flags of the group method are reset by the switch, although they were kept.\<close>

theorem group_flags_are_lost:
  assumes "ch_initial c = Some ''group''" "ch_method c = ''group''" "mv_hierarchy (ch_values c) = Some h"
  shows "ch_values (switch_method rules0 ''group'' ((switch_method rules0 ''hierarchy'' c)\<lparr>ch_values := v\<rparr>)) =
    (ch_values c)\<lparr>mv_include := Some False, mv_root := Some False\<rparr>"
  using assms by (simp add: switch_method_def method_effect_def Let_def)

end
