(* ===== verification/Llm_Settings.thy ===== *)
theory Llm_Settings
  imports Llm_Util
begin

text \<open>
  The models of a tenant: the options of the model selectors and the mutations of the model settings
  (\<open>hooks/use-llm-request.tsx\<close>), and the dialogs that add a provider
  (\<open>pages/user-setting/setting-model/hooks.tsx\<close>). A request and its answer are two steps; the queries a
  mutation makes stale are listed. Icons and translated messages are left out.
\<close>

section \<open>Options of the selectors\<close>

record llm_model =
  lm_fid :: string
  lm_name :: string
  lm_type :: string
  lm_available :: bool
  lm_status :: string
  lm_tags :: "string option"
  lm_is_tools :: bool

record llm_option =
  lo_icon :: string
  lo_label :: string
  lo_value :: string
  lo_disabled :: bool
  lo_is_tools :: bool

type_synonym llm_groups = "(string \<times> llm_option list) list"

datatype model_type = Embedding | Chat | Image2text | Speech2text | Rerank | TTS | Ocr

fun type_str :: "model_type \<Rightarrow> string" where
  "type_str Embedding = ''embedding''"
| "type_str Chat = ''chat''"
| "type_str Image2text = ''image2text''"
| "type_str Speech2text = ''speech2text''"
| "type_str Rerank = ''rerank''"
| "type_str TTS = ''tts''"
| "type_str Ocr = ''ocr''"

definition flatLlmList :: "(string \<times> llm_model list) list \<Rightarrow> (llm_model \<times> string) list" where
  "flatLlmList llmList =
     foldl (\<lambda>pre (key, cur). pre @ map (\<lambda>x. (x, buildLlmUuid (lm_name x) (lm_fid x))) cur) [] llmList"

definition findLlmByUuid :: "(string \<times> llm_model list) list \<Rightarrow> string \<Rightarrow> (llm_model \<times> string) option" where
  "findLlmByUuid llmList uuid = find (\<lambda>x. snd x = uuid) (flatLlmList llmList)"

definition buildLlmOptionsWithIcon :: "llm_model \<Rightarrow> llm_option" where
  "buildLlmOptionsWithIcon x =
     \<lparr>lo_icon = getLLMIconName (lm_fid x) (lm_name x), lo_label = getRealModelName (lm_name x),
      lo_value = lm_name x @ ''@'' @ lm_fid x, lo_disabled = (\<not> lm_available x), lo_is_tools = lm_is_tools x\<rparr>"

definition groupImage2TextOptions :: "(string \<times> llm_model list) list \<Rightarrow> llm_groups" where
  "groupImage2TextOptions llmInfo =
     filter (\<lambda>(lbl, options). options \<noteq> [])
       (map (\<lambda>(key, ms). (key, map buildLlmOptionsWithIcon
          (filter (\<lambda>x. (str_includes (lm_type x) (type_str Image2text)
               \<or> (case lm_tags x of Some tags \<Rightarrow> tags \<noteq> [] \<and> str_includes tags ''IMAGE2TEXT'' | None \<Rightarrow> False))
             \<and> lm_available x \<and> lm_status x = ''1'') ms))) llmInfo)"

definition groupOptionsByModelType :: "(string \<times> llm_model list) list \<Rightarrow> model_type \<Rightarrow> llm_groups" where
  "groupOptionsByModelType llmInfo t =
     filter (\<lambda>(lbl, options). options \<noteq> [])
       (map (\<lambda>(key, ms). (key, map buildLlmOptionsWithIcon
            (filter (\<lambda>x. str_includes (lm_type x) (type_str t) \<and> lm_available x) ms)))
         (filter (\<lambda>(key, ms). list_ex (\<lambda>x. str_includes (lm_type x) (type_str t)) ms) llmInfo))"

definition llmOptionsByModelType :: "(string \<times> llm_model list) list \<Rightarrow> model_type \<Rightarrow> llm_groups" where
  "llmOptionsByModelType llmInfo t =
     (case t of Image2text \<Rightarrow> groupImage2TextOptions llmInfo | _ \<Rightarrow> groupOptionsByModelType llmInfo t)"

text \<open>\<open>item.options.push(y)\<close> for what is not there yet, in the first group with the label.\<close>

definition push_options :: "llm_option list \<Rightarrow> llm_option list \<Rightarrow> llm_option list" where
  "push_options ys options = foldl (\<lambda>os y. if list_ex (\<lambda>z. lo_value z = lo_value y) os then os else os @ [y]) options ys"

fun merge_group :: "string \<times> llm_option list \<Rightarrow> llm_groups \<Rightarrow> llm_groups" where
  "merge_group (lbl, ys) [] = [(lbl, ys)]"
| "merge_group (lbl, ys) ((lbl', options) # pre) =
     (if lbl' = lbl then (lbl', push_options ys options) # pre else (lbl', options) # merge_group (lbl, ys) pre)"

definition composeLlmOptionsByModelTypes :: "(string \<times> llm_model list) list \<Rightarrow> model_type list \<Rightarrow> llm_groups" where
  "composeLlmOptionsByModelTypes llmInfo modelTypes =
     foldl (\<lambda>pre cur. foldl (\<lambda>pre x. merge_group x pre) pre (llmOptionsByModelType llmInfo cur)) [] modelTypes"

text \<open>The providers of the tenant, and those that are not used yet.\<close>

record factory =
  fa_name :: string
  fa_logo :: string

definition nextMyLlmList :: "(string \<times> jsv) list \<Rightarrow> factory list \<Rightarrow> jsv list" where
  "nextMyLlmList myLlmList factoryList =
     map (\<lambda>(key, val). js_object
        [Prop ''name'' (JStr key),
         Prop ''logo'' (JStr (case find (\<lambda>x. fa_name x = key) factoryList of Some x \<Rightarrow> fa_logo x | None \<Rightarrow> [])),
         Spread val, Prop ''llm'' (jget val ''llm'')]) myLlmList"

definition nextFactoryList :: "(string \<times> jsv) list \<Rightarrow> factory list \<Rightarrow> factory list" where
  "nextFactoryList myLlmList factoryList =
     filter (\<lambda>x. list_all (\<lambda>y. y \<noteq> fa_name x) (obj_keys myLlmList)) factoryList"

section \<open>Mutations\<close>

datatype llm_query = LlmList | MyLlmList | MyLlmListDetailed | FactoryList

definition answered_ok :: "jsv \<Rightarrow> bool" where
  "answered_ok ret = (jget ret ''code'' = JInt 0)"

definition saveApiKey_stale :: "jsv \<Rightarrow> llm_query list" where
  "saveApiKey_stale ret = (if answered_ok ret then [MyLlmList, MyLlmListDetailed, FactoryList] else [])"

definition addLlm_stale :: "bool \<Rightarrow> jsv \<Rightarrow> llm_query list" where
  "addLlm_stale verify ret =
     (if answered_ok ret \<and> \<not> verify then [MyLlmList, MyLlmListDetailed, FactoryList, LlmList] else [])"

definition deleteLlm_stale :: "jsv \<Rightarrow> llm_query list" where
  "deleteLlm_stale ret = (if answered_ok ret then [MyLlmList, MyLlmListDetailed, FactoryList] else [])"

definition enableLlm_request :: "jsv \<Rightarrow> jsv" where
  "enableLlm_request params =
     JObj (obj_del ''enable'' (props_of (js_object
       [Spread params, Prop ''status'' (JInt (if truthy (jget params ''enable'') then 1 else 0))])))"

definition enableLlm_stale :: "jsv \<Rightarrow> llm_query list" where
  "enableLlm_stale ret = (if answered_ok ret then [MyLlmList, MyLlmListDetailed, FactoryList] else [])"

definition deleteFactory_stale :: "jsv \<Rightarrow> llm_query list" where
  "deleteFactory_stale ret =
     (if answered_ok ret then [MyLlmList, MyLlmListDetailed, FactoryList, LlmList] else [])"

section \<open>The dialog of a provider\<close>

text \<open>
  The state of a dialog: whether it is saving and shown, whether it edits an entry, what it was opened
  with, the requests that wait for their answer, each with whether it only verifies, and the queries made
  stale so far.
\<close>

record dialog_state =
  ds_loading :: bool
  ds_visible :: bool
  ds_edit :: bool
  ds_params :: jsv
  ds_waiting :: "(bool \<times> jsv) list"
  ds_stale :: "llm_query list"

datatype dialog_result = No_Result | Verified bool jsv | Returned bool

definition start_request :: "bool \<Rightarrow> jsv \<Rightarrow> dialog_state \<Rightarrow> dialog_state" where
  "start_request isVerify req st =
     st\<lparr>ds_loading := (if isVerify then ds_loading st else True),
        ds_waiting := ds_waiting st @ [(isVerify, req)]\<rparr>"

definition verify_result :: "jsv \<Rightarrow> dialog_result" where
  "verify_result ret =
     (if truthy (jget (jget ret ''data'') ''success'') then Verified True (jget (jget ret ''data'') ''message'')
      else Verified False (jget (jget ret ''data'') ''message''))"

definition close_dialog :: "dialog_state \<Rightarrow> dialog_state" where
  "close_dialog st = st\<lparr>ds_visible := False\<rparr>"

text \<open>The answer of the request at a place, for a dialog that adds a model.\<close>

definition add_answered :: "(dialog_state \<Rightarrow> dialog_state) \<Rightarrow> nat \<Rightarrow> jsv \<Rightarrow> dialog_state \<Rightarrow> dialog_state \<times> dialog_result" where
  "add_answered close i ret st =
     (if i < length (ds_waiting st) then
        (let isVerify = fst (ds_waiting st ! i);
             st1 = st\<lparr>ds_waiting := remove_at i (ds_waiting st), ds_stale := ds_stale st @ addLlm_stale isVerify ret\<rparr>
         in if isVerify then (st1, verify_result ret)
            else (let st2 = st1\<lparr>ds_loading := False\<rparr>
                  in (if answered_ok ret then close st2 else st2, No_Result)))
      else (st, No_Result))"

subsection \<open>Key of a provider\<close>

definition onShowApiKeyModal :: "jsv \<Rightarrow> bool \<Rightarrow> dialog_state \<Rightarrow> dialog_state" where
  "onShowApiKeyModal savingParams isEdit st = st\<lparr>ds_params := savingParams, ds_edit := isEdit, ds_visible := True\<rparr>"

text \<open>\<open>hostname\<close> is the host of a URL as \<open>new URL\<close> gives it, \<open>None\<close> where that throws.\<close>

definition siliconflow_source :: "(string \<Rightarrow> string option) \<Rightarrow> jsv \<Rightarrow> string" where
  "siliconflow_source hostname postBody =
     (if truthy (jget postBody ''base_url'') then
        (case hostname (str_of (jget postBody ''base_url'')) of
           None \<Rightarrow> ''SILICONFLOW''
         | Some h \<Rightarrow>
             (let host = to_lower h in
              if host = ''api.siliconflow.com'' \<or> ends_with host ''.api.siliconflow.com''
              then ''siliconflow_intl'' else ''SILICONFLOW''))
      else ''SILICONFLOW'')"

definition api_key_payload :: "(string \<Rightarrow> string option) \<Rightarrow> jsv \<Rightarrow> jsv \<Rightarrow> bool \<Rightarrow> jsv" where
  "api_key_payload hostname savingParams postBody isVerify =
     (let payload = js_object [Spread savingParams, Spread postBody, Prop ''verify'' (JBool isVerify)] in
      if jget savingParams ''llm_factory'' = JStr ''SILICONFLOW''
      then jset payload ''source_fid'' (JStr (siliconflow_source hostname postBody)) else payload)"

definition onApiKeySavingOk :: "(string \<Rightarrow> string option) \<Rightarrow> jsv \<Rightarrow> bool \<Rightarrow> dialog_state \<Rightarrow> dialog_state" where
  "onApiKeySavingOk hostname postBody isVerify st =
     start_request isVerify (api_key_payload hostname (ds_params st) postBody isVerify) st"

definition api_key_answered :: "nat \<Rightarrow> jsv \<Rightarrow> dialog_state \<Rightarrow> (dialog_state \<times> dialog_result) js" where
  "api_key_answered i ret st =
     (if i < length (ds_waiting st) then
        (let isVerify = fst (ds_waiting st ! i);
             st1 = st\<lparr>ds_waiting := remove_at i (ds_waiting st), ds_stale := ds_stale st @ saveApiKey_stale ret\<rparr>
         in if isVerify then
              (if truthy (jget (jget ret ''data'') ''success'') then Inr (st1, verify_result ret)
               else js_bind (jprop (jget ret ''data'') ''message'') (\<lambda>m. Inr (st1, Verified False m)))
            else (let st2 = st1\<lparr>ds_loading := False\<rparr>
                  in Inr (if answered_ok ret
                          then (st2\<lparr>ds_stale := ds_stale st2 @ [LlmList], ds_visible := False, ds_edit := False\<rparr>)
                          else st2, No_Result)))
      else Inr (st, No_Result))"

subsection \<open>Ollama and the like\<close>

definition ollama_payload :: "jsv \<Rightarrow> jsv" where
  "ollama_payload payload =
     (case jget payload ''api_key'' of
        JStr k \<Rightarrow> if js_trim k = [] then JObj (obj_del ''api_key'' (props_of payload)) else payload
      | v \<Rightarrow> if truthy v then payload else JObj (obj_del ''api_key'' (props_of payload)))"

definition with_verify :: "jsv \<Rightarrow> bool \<Rightarrow> jsv" where
  "with_verify payload isVerify = js_object [Spread payload, Prop ''verify'' (JBool isVerify)]"

definition onLlmAddingOk :: "jsv \<Rightarrow> bool \<Rightarrow> dialog_state \<Rightarrow> dialog_state" where
  "onLlmAddingOk payload isVerify st = start_request isVerify (with_verify (ollama_payload payload) isVerify) st"

definition llm_adding_answered :: "nat \<Rightarrow> jsv \<Rightarrow> dialog_state \<Rightarrow> dialog_state \<times> dialog_result" where
  "llm_adding_answered = add_answered (\<lambda>st. (close_dialog st)\<lparr>ds_edit := False, ds_params := JUndef\<rparr>)"

definition handleShowLlmAddingModal :: "bool \<Rightarrow> jsv \<Rightarrow> dialog_state \<Rightarrow> dialog_state" where
  "handleShowLlmAddingModal isEdit detailedData st =
     st\<lparr>ds_edit := isEdit, ds_visible := True,
        ds_params := (if isEdit \<and> truthy detailedData then
          JObj [(''llm_name'', JStr (getRealModelName (str_of (jget detailedData ''name'')))),
                (''model_type'', jget detailedData ''type''),
                (''api_base'', js_or (jget detailedData ''api_base'') (JStr [])),
                (''max_tokens'', js_or (jget detailedData ''max_tokens'') (JInt 8192)),
                (''api_key'', JStr [])]
          else JUndef)\<rparr>"

subsection \<open>Providers that send what they are given\<close>

definition onVolcAddingOk :: "jsv \<Rightarrow> bool \<Rightarrow> dialog_state \<Rightarrow> dialog_state" where
  "onVolcAddingOk payload isVerify st = start_request isVerify (with_verify payload isVerify) st"

definition volc_answered :: "nat \<Rightarrow> jsv \<Rightarrow> dialog_state \<Rightarrow> dialog_state \<times> dialog_result" where
  "volc_answered = add_answered close_dialog"

text \<open>The hooks of seven more providers are the same function with other names.\<close>

definition onTencentCloudAddingOk :: "jsv \<Rightarrow> bool \<Rightarrow> dialog_state \<Rightarrow> dialog_state" where
  "onTencentCloudAddingOk = onVolcAddingOk"

definition onSparkAddingOk :: "jsv \<Rightarrow> bool \<Rightarrow> dialog_state \<Rightarrow> dialog_state" where
  "onSparkAddingOk = onVolcAddingOk"

definition onyiyanAddingOk :: "jsv \<Rightarrow> bool \<Rightarrow> dialog_state \<Rightarrow> dialog_state" where
  "onyiyanAddingOk = onVolcAddingOk"

definition onFishAudioAddingOk :: "jsv \<Rightarrow> bool \<Rightarrow> dialog_state \<Rightarrow> dialog_state" where
  "onFishAudioAddingOk = onVolcAddingOk"

definition onGoogleAddingOk :: "jsv \<Rightarrow> bool \<Rightarrow> dialog_state \<Rightarrow> dialog_state" where
  "onGoogleAddingOk = onVolcAddingOk"

definition onBedrockAddingOk :: "jsv \<Rightarrow> bool \<Rightarrow> dialog_state \<Rightarrow> dialog_state" where
  "onBedrockAddingOk = onVolcAddingOk"

definition onAzureAddingOk :: "jsv \<Rightarrow> bool \<Rightarrow> dialog_state \<Rightarrow> dialog_state" where
  "onAzureAddingOk = onVolcAddingOk"

subsection \<open>Readers of documents\<close>

definition ocr_request :: "string \<Rightarrow> jsv \<Rightarrow> jsv \<Rightarrow> jsv" where
  "ocr_request llm_factory llm_name cfg =
     JObj [(''llm_factory'', JStr llm_factory), (''llm_name'', llm_name), (''model_type'', JStr ''ocr''),
           (''api_key'', cfg), (''api_base'', JStr []), (''max_tokens'', JInt 0)]"

definition mineru_config :: "jsv \<Rightarrow> jsv" where
  "mineru_config payload =
     (let cfg = js_object [Spread payload,
          Prop ''mineru_delete_output''
            (JStr (if truthy (js_coalesce (jget payload ''mineru_delete_output'') (JBool True)) then ''1'' else ''0''))]
      in if jget payload ''mineru_backend'' \<noteq> JStr ''vlm-http-client''
         then JObj (obj_del ''mineru_server_url'' (props_of cfg)) else cfg)"

definition onMineruOk :: "jsv \<Rightarrow> bool \<Rightarrow> dialog_state \<Rightarrow> dialog_state" where
  "onMineruOk payload isVerify st =
     start_request isVerify
       (with_verify (ocr_request ''MinerU'' (jget payload ''llm_name'') (mineru_config payload)) isVerify) st"

definition onPaddleOCROk :: "jsv \<Rightarrow> bool \<Rightarrow> dialog_state \<Rightarrow> dialog_state" where
  "onPaddleOCROk payload isVerify st =
     start_request isVerify
       (with_verify (ocr_request ''PaddleOCR'' (jget payload ''llm_name'') (js_object [Spread payload])) isVerify) st"

definition onOpenDataLoaderOk :: "jsv \<Rightarrow> bool \<Rightarrow> dialog_state \<Rightarrow> dialog_state" where
  "onOpenDataLoaderOk payload isVerify st =
     start_request isVerify
       (with_verify (ocr_request ''OpenDataLoader'' (jget payload ''llm_name'') (js_object [Spread payload])) isVerify) st"

text \<open>The dialogs of PaddleOCR and OpenDataLoader also say whether the save went well.\<close>

definition ocr_answered :: "nat \<Rightarrow> jsv \<Rightarrow> dialog_state \<Rightarrow> dialog_state \<times> dialog_result" where
  "ocr_answered i ret st =
     (case add_answered close_dialog i ret st of
        (st', No_Result) \<Rightarrow> (st', Returned (answered_ok ret))
      | r \<Rightarrow> r)"

section \<open>What can be selected\<close>

definition offered :: "llm_groups \<Rightarrow> (string \<times> string) set" where
  "offered gs = {(l, lo_value x) |l xs x. (l, xs) \<in> set gs \<and> x \<in> set xs}"

lemma offered_simps [simp]:
  "offered [] = {}" "offered ((l, xs) # gs) = Pair l ` lo_value ` set xs \<union> offered gs"
  by (auto simp: offered_def)

lemma push_options_values: "lo_value ` set (push_options ys xs) = lo_value ` set xs \<union> lo_value ` set ys"
proof -
  have "lo_value ` set (foldl (\<lambda>os y. if list_ex (\<lambda>z. lo_value z = lo_value y) os then os else os @ [y]) xs ys)
      = lo_value ` set xs \<union> lo_value ` set ys"
  proof (induction ys arbitrary: xs)
    case (Cons y ys)
    have "lo_value ` set (if list_ex (\<lambda>z. lo_value z = lo_value y) xs then xs else xs @ [y])
        = insert (lo_value y) (lo_value ` set xs)"
      by (auto simp: list_ex_iff intro: rev_image_eqI)
    then show ?case by (simp only: foldl.simps Cons.IH) simp
  qed simp
  then show ?thesis by (simp add: push_options_def)
qed

lemma merge_group_offered: "offered (merge_group (l, ys) pre) = offered pre \<union> Pair l ` lo_value ` set ys"
  by (induction "(l, ys)" pre rule: merge_group.induct) (auto simp: push_options_values image_Un)

lemma merge_group_labels: "set (map fst (merge_group (l, ys) pre)) = insert l (set (map fst pre))"
  by (induction "(l, ys)" pre rule: merge_group.induct) auto

lemma merge_group_distinct: "distinct (map fst pre) \<Longrightarrow> distinct (map fst (merge_group (l, ys) pre))"
proof (induction "(l, ys)" pre rule: merge_group.induct)
  case (2 l' options pre)
  then show ?case using merge_group_labels [of l ys pre] by (cases "l' = l") auto
qed simp

lemma merge_groups:
  "offered (foldl (\<lambda>pre x. merge_group x pre) pre gs) = offered pre \<union> offered gs"
  "distinct (map fst pre) \<Longrightarrow> distinct (map fst (foldl (\<lambda>pre x. merge_group x pre) pre gs))"
proof -
  show "offered (foldl (\<lambda>pre x. merge_group x pre) pre gs) = offered pre \<union> offered gs"
  proof (induction gs arbitrary: pre)
    case (Cons g gs)
    obtain l xs where g: "g = (l, xs)" by (cases g)
    show ?case by (simp add: g Cons.IH merge_group_offered Un_assoc)
  qed simp
  show "distinct (map fst pre) \<Longrightarrow> distinct (map fst (foldl (\<lambda>pre x. merge_group x pre) pre gs))"
  proof (induction gs arbitrary: pre)
    case (Cons g gs)
    obtain l xs where g: "g = (l, xs)" by (cases g)
    from Cons.IH [OF merge_group_distinct [OF Cons.prems]] show ?case by (simp add: g)
  qed simp
qed

text \<open>A model that a selector for a type may offer.\<close>

definition suits :: "model_type \<Rightarrow> llm_model \<Rightarrow> bool" where
  "suits t x = (lm_available x
     \<and> (if t = Image2text
        then lm_status x = ''1'' \<and> (str_includes (lm_type x) ''image2text''
               \<or> (\<exists>tags. lm_tags x = Some tags \<and> str_includes tags ''IMAGE2TEXT''))
        else str_includes (lm_type x) (type_str t)))"

lemma offered_filter: "offered (filter (\<lambda>(lbl, options). options \<noteq> []) gs) = offered gs"
proof (induction gs)
  case (Cons g gs)
  obtain l xs where "g = (l, xs)" by (cases g)
  with Cons show ?case by (cases "xs = []") simp_all
qed simp

definition models_with :: "(llm_model \<Rightarrow> bool) \<Rightarrow> (string \<times> llm_model list) list \<Rightarrow> (string \<times> string) set" where
  "models_with P info =
    {(key, buildLlmUuid (lm_name x) (lm_fid x)) |key ms x. (key, ms) \<in> set info \<and> x \<in> set ms \<and> P x}"

lemma models_with_Cons [simp]:
  "models_with P [] = {}"
  "models_with P ((key, ms) # info) =
     Pair key ` (\<lambda>x. buildLlmUuid (lm_name x) (lm_fid x)) ` {x \<in> set ms. P x} \<union> models_with P info"
proof -
  show "models_with P [] = {}" by (simp add: models_with_def)
  show "models_with P ((key, ms) # info) =
     Pair key ` (\<lambda>x. buildLlmUuid (lm_name x) (lm_fid x)) ` {x \<in> set ms. P x} \<union> models_with P info"
    unfolding models_with_def image_image by (simp only: set_simps insert_iff) blast
qed

lemma offered_map:
  "offered (map (\<lambda>(key, ms). (key, map buildLlmOptionsWithIcon (filter P ms))) info) = models_with P info"
proof (induction info)
  case (Cons p info)
  obtain key ms where p: "p = (key, ms)" by (cases p)
  have "lo_value (buildLlmOptionsWithIcon x) = buildLlmUuid (lm_name x) (lm_fid x)" for x
    by (simp add: buildLlmOptionsWithIcon_def buildLlmUuid_def)
  then have "lo_value ` set (map buildLlmOptionsWithIcon (filter P ms))
      = (\<lambda>x. buildLlmUuid (lm_name x) (lm_fid x)) ` {x \<in> set ms. P x}"
    by (simp add: image_image)
  with Cons show ?case by (simp add: p del: set_map)
qed simp

lemma models_with_filter: "models_with P (filter (\<lambda>(key, ms). list_ex Q ms) info) = models_with P info"
  if "\<And>x. P x \<Longrightarrow> Q x"
proof (induction info)
  case (Cons p info)
  obtain key ms where p: "p = (key, ms)" by (cases p)
  show ?case
  proof (cases "list_ex Q ms")
    case False
    then have none: "{x \<in> set ms. P x} = {}" using that by (auto simp: list_ex_iff)
    show ?thesis unfolding p models_with_Cons none using False Cons by simp
  qed (use Cons p in simp)
qed simp

lemma includes_nonempty: "str_includes [] ''IMAGE2TEXT'' = False"
  by (simp add: str_includes_def)

lemma offered_of_type: "offered (llmOptionsByModelType info t) = models_with (suits t) info"
proof (cases "t = Image2text")
  case True
  have "(\<lambda>x. (str_includes (lm_type x) (type_str Image2text)
         \<or> (case lm_tags x of Some tags \<Rightarrow> tags \<noteq> [] \<and> str_includes tags ''IMAGE2TEXT'' | None \<Rightarrow> False))
       \<and> lm_available x \<and> lm_status x = ''1'') = suits Image2text"
    using includes_nonempty by (auto simp: fun_eq_iff suits_def split: option.splits)
  then show ?thesis
    by (simp only: True llmOptionsByModelType_def groupImage2TextOptions_def model_type.case offered_filter offered_map)
next
  case False
  then have "llmOptionsByModelType info t = groupOptionsByModelType info t"
    by (simp add: llmOptionsByModelType_def split: model_type.split)
  moreover have "(\<lambda>x. str_includes (lm_type x) (type_str t) \<and> lm_available x) = suits t"
    using False by (auto simp: fun_eq_iff suits_def)
  ultimately show ?thesis
    by (simp only: groupOptionsByModelType_def offered_filter offered_map)
      (rule models_with_filter, use False in \<open>simp add: suits_def\<close>)
qed

text \<open>
  C36. A selector for several types of models has one group for each provider and offers under it exactly the
  available models of that provider that suit one of the types, whatever the order of the types.
\<close>

theorem selectable_models_exact:
  "distinct (map fst (composeLlmOptionsByModelTypes info ts))
   \<and> offered (composeLlmOptionsByModelTypes info ts) =
     {(key, buildLlmUuid (lm_name x) (lm_fid x)) |key ms x t.
        (key, ms) \<in> set info \<and> x \<in> set ms \<and> t \<in> set ts \<and> suits t x}"
proof -
  let ?step = "\<lambda>pre cur. foldl (\<lambda>pre x. merge_group x pre) pre (llmOptionsByModelType info cur)"
  have "offered (foldl ?step pre ts) = offered pre \<union> (\<Union>t\<in>set ts. offered (llmOptionsByModelType info t))" for pre
    by (induction ts arbitrary: pre) (simp_all add: merge_groups(1) Un_assoc)
  moreover have "distinct (map fst pre) \<Longrightarrow> distinct (map fst (foldl ?step pre ts))" for pre
    by (induction ts arbitrary: pre) (simp_all add: merge_groups(2))
  ultimately show ?thesis
    by (simp add: composeLlmOptionsByModelTypes_def offered_of_type models_with_def) blast
qed

section \<open>What a dialog does\<close>

datatype dialog_event = Submit jsv bool | Answer nat jsv | Show_Dialog | Hide_Dialog

definition new_dialog :: dialog_state where
  "new_dialog = \<lparr>ds_loading = False, ds_visible = False, ds_edit = False, ds_params = JUndef, ds_waiting = [], ds_stale = []\<rparr>"

text \<open>The button that saves is disabled while the dialog is saving.\<close>

fun dialog_step :: "dialog_state \<Rightarrow> dialog_event \<Rightarrow> dialog_state" where
  "dialog_step st (Submit payload isVerify) =
     (if \<not> isVerify \<and> ds_loading st then st else onVolcAddingOk payload isVerify st)"
| "dialog_step st (Answer i ret) = fst (volc_answered i ret st)"
| "dialog_step st Show_Dialog = st\<lparr>ds_visible := True\<rparr>"
| "dialog_step st Hide_Dialog = st\<lparr>ds_visible := False\<rparr>"

abbreviation saves :: "dialog_state \<Rightarrow> (bool \<times> jsv) list" where
  "saves st \<equiv> filter (\<lambda>(v, r). \<not> v) (ds_waiting st)"

lemma filter_remove_at:
  "i < length xs \<Longrightarrow> length (filter P (remove_at i xs)) = length (filter P xs) - (if P (xs ! i) then 1 else 0)"
  using arg_cong [OF id_take_nth_drop [of i xs], of "\<lambda>ys. length (filter P ys)"] by (simp add: remove_at_def)

lemma dialog_step_flag:
  assumes "length (saves st) = (if ds_loading st then 1 else 0)"
  shows "length (saves (dialog_step st e)) = (if ds_loading (dialog_step st e) then 1 else 0)"
proof (cases e)
  case (Submit payload isVerify)
  then show ?thesis using assms by (auto simp: onVolcAddingOk_def start_request_def)
next
  case (Answer i ret)
  show ?thesis
  proof (cases "i < length (ds_waiting st)")
    case True
    let ?e = "ds_waiting st ! i"
    have n: "length (filter (\<lambda>(v, r). \<not> v) (remove_at i (ds_waiting st))) = length (saves st) - (if fst ?e then 0 else 1)"
      using filter_remove_at [OF True, of "\<lambda>(v, r). \<not> v"] by (cases ?e) simp
    have "?e \<in> set (ds_waiting st)" using True by (rule nth_mem)
    then have "\<not> fst ?e \<Longrightarrow> ?e \<in> set (saves st)" by (simp add: case_prod_unfold)
    then have "\<not> fst ?e \<Longrightarrow> ds_loading st" using assms by (cases "saves st") (auto split: if_splits)
    with n assms True show ?thesis
      by (auto simp: Answer volc_answered_def add_answered_def close_dialog_def Let_def)
  next
    case False
    with assms show ?thesis by (simp add: Answer volc_answered_def add_answered_def)
  qed
qed (use assms in simp_all)

text \<open>
  Whatever is submitted, verified, answered, shown and hidden in any order, the dialog of a provider is
  marked as saving exactly while one save waits for its answer; so the mark goes away with that answer, and
  verifications never touch it.
\<close>

theorem saving_mark_exact:
  "length (saves (foldl dialog_step new_dialog events)) = (if ds_loading (foldl dialog_step new_dialog events) then 1 else 0)"
proof -
  have "length (saves st) = (if ds_loading st then 1 else 0) \<Longrightarrow>
      length (saves (foldl dialog_step st events)) = (if ds_loading (foldl dialog_step st events) then 1 else 0)" for st
  proof (induction events arbitrary: st)
    case (Cons e events)
    from Cons.IH [OF dialog_step_flag [OF Cons.prems, of e]] show ?case by simp
  qed simp
  then show ?thesis by (simp add: new_dialog_def)
qed

text \<open>A failed verification without data throws in the dialog of a key, and is a result in the others.\<close>

theorem verification_without_data:
  assumes "ds_waiting st = [(True, req)]"
  shows "(\<exists>e. api_key_answered 0 (JObj [(''code'', JInt 102)]) st = Inl e)
    \<and> snd (volc_answered 0 (JObj [(''code'', JInt 102)]) st) = Verified False JUndef"
  using assms
  by (simp add: api_key_answered_def volc_answered_def add_answered_def verify_result_def jprop_def nullish_def Let_def)

text \<open>
  Adding a model and removing a provider make the list of models for the selectors stale; removing and
  disabling a model do not.
\<close>

theorem list_of_selectors_not_refreshed:
  "LlmList \<in> set (addLlm_stale False (JObj [(''code'', JInt 0)]))
   \<and> LlmList \<in> set (deleteFactory_stale (JObj [(''code'', JInt 0)]))
   \<and> LlmList \<notin> set (deleteLlm_stale ret) \<and> LlmList \<notin> set (enableLlm_stale ret)"
  by (simp add: addLlm_stale_def deleteFactory_stale_def deleteLlm_stale_def enableLlm_stale_def answered_ok_def)

end
