(* ===== verification/Sse_Answer.thy ===== *)
theory Sse_Answer
  imports Js_String
begin

text \<open>
  The answer that a stream of server-sent events builds up (\<open>useSendMessageWithSse\<close> and
  \<open>useSetDoneRecord\<close> of \<open>hooks/logic-hooks.ts\<close>): the text of the answer, whether it is done, for one chat
  or for each box of several, and the timer that clears the answer a second after the end of a stream.
  A stream is the sequence of what its reader delivers; each delivery is a step.
\<close>

section \<open>The text of an answer\<close>

definition text_or_empty :: "jsv \<Rightarrow> string" where
  "text_or_empty v = str_of (js_or v (JStr []))"

definition extend_text :: "string \<Rightarrow> string \<Rightarrow> string" where
  "extend_text prevAnswer currentAnswer =
     (if prevAnswer \<noteq> [] \<and> starts_with currentAnswer prevAnswer then currentAnswer else prevAnswer @ currentAnswer)"

definition next_text :: "string \<Rightarrow> jsv \<Rightarrow> string" where
  "next_text prevAnswer d =
     (let currentAnswer = (if truthy (jget d ''final'') then [] else text_or_empty (jget d ''answer''));
          t = extend_text prevAnswer currentAnswer;
          t1 = (if jget d ''start_to_think'' = JBool True then t @ ''<think>'' else t)
      in if jget d ''end_to_think'' = JBool True then t1 @ ''</think>'' else t1)"

definition next_answer :: "jsv \<Rightarrow> jsv \<Rightarrow> jsv \<Rightarrow> jsv" where
  "next_answer body d prev =
     js_object [Spread d, Prop ''answer'' (JStr (next_text (text_or_empty (jget prev ''answer'')) d)),
       Prop ''conversationId'' (js_coalesce (jget body ''session_id'') (jget body ''conversation_id'')),
       Prop ''chatBoxId'' (jget body ''chatBoxId'')]"

section \<open>State and steps\<close>

record sse =
  sse_answer :: jsv
  sse_done :: bool
  sse_record :: "(string \<times> bool) list"
  sse_timer :: bool
  sse_active :: "jsv list"
  sse_crashed :: bool

definition no_answer :: jsv where
  "no_answer = JObj []"

definition new_sse :: sse where
  "new_sse = \<lparr>sse_answer = no_answer, sse_done = True, sse_record = [], sse_timer = False, sse_active = [],
     sse_crashed = False\<rparr>"

definition allDone :: "sse \<Rightarrow> bool" where
  "allDone s = list_all snd (sse_record s)"

text \<open>The record of the boxes, with the effect that empties it when all of them are done.\<close>

definition setDoneRecordById :: "string \<Rightarrow> bool \<Rightarrow> sse \<Rightarrow> sse" where
  "setDoneRecordById i val s = s\<lparr>sse_record := obj_put i val (sse_record s)\<rparr>"

definition clear_effect :: "sse \<Rightarrow> sse" where
  "clear_effect s = (if sse_record s \<noteq> [] \<and> allDone s then s\<lparr>sse_record := []\<rparr> else s)"

definition setDoneValue :: "jsv \<Rightarrow> bool \<Rightarrow> sse \<Rightarrow> sse" where
  "setDoneValue body val s =
     (if ''chatBoxId'' \<in> fst ` set (props_of body)
      then clear_effect (setDoneRecordById (str_of (jget body ''chatBoxId'')) val s) else s\<lparr>sse_done := val\<rparr>)"

definition resetAnswer :: "sse \<Rightarrow> sse" where
  "resetAnswer s = s\<lparr>sse_timer := True\<rparr>"

definition reset_timeout :: "sse \<Rightarrow> sse" where
  "reset_timeout s = (if sse_timer s then s\<lparr>sse_answer := no_answer, sse_timer := False\<rparr> else s)"

definition start_send :: "jsv \<Rightarrow> sse \<Rightarrow> sse" where
  "start_send body s = (setDoneValue body False s)\<lparr>sse_active := sse_active s @ [body]\<rparr>"

text \<open>
  What the reader delivers: the data of an event, or no data when its text does not parse or is a boolean;
  the end; an abort; another error; or nothing, when there is no body. An event without data makes the
  update of the answer throw while the page is drawn.
\<close>

datatype delivery = Event "jsv option" | Stream_End | Stream_Abort | Read_Error | No_Body

definition end_send :: "nat \<Rightarrow> sse \<Rightarrow> sse" where
  "end_send i s =
     (if i < length (sse_active s) then
        resetAnswer ((setDoneValue (sse_active s ! i) True s)\<lparr>sse_active := remove_at i (sse_active s)\<rparr>)
      else s)"

definition deliver :: "nat \<Rightarrow> delivery \<Rightarrow> sse \<Rightarrow> sse" where
  "deliver i d s =
     (if i < length (sse_active s) then
        (case d of
           Event (Some v) \<Rightarrow>
             (if nullish v then s\<lparr>sse_crashed := True\<rparr>
              else s\<lparr>sse_answer := next_answer (sse_active s ! i) v (sse_answer s)\<rparr>)
         | Event None \<Rightarrow> s
         | Stream_End \<Rightarrow> end_send i (resetAnswer s)
         | Stream_Abort \<Rightarrow> end_send i s
         | Read_Error \<Rightarrow> s
         | No_Body \<Rightarrow> s)
      else s)"

text \<open>A request that does not reach the server.\<close>

definition send_failed :: "nat \<Rightarrow> sse \<Rightarrow> sse" where
  "send_failed i s = end_send i s"

section \<open>The text of a whole stream\<close>

definition stream_text :: "string list \<Rightarrow> string" where
  "stream_text ts = foldl extend_text [] ts"

definition piece :: "string \<Rightarrow> jsv" where
  "piece t = JObj [(''answer'', JStr t)]"

lemma text_or_empty_JStr [simp]: "text_or_empty (JStr t) = t"
  by (cases t) (simp_all add: text_or_empty_def js_or_def str_of_def)

lemma piece_not_nullish [simp]: "\<not> nullish (piece t)"
  by (simp add: piece_def nullish_def)

lemma next_text_piece [simp]: "next_text p (piece t) = extend_text p t"
  by (simp add: next_text_def piece_def Let_def)

lemma next_answer_text [simp]:
  "jget (next_answer body d prev) ''answer'' = JStr (next_text (text_or_empty (jget prev ''answer'')) d)"
proof -
  have "jget (js_object (parts @ [Prop k v, Prop k1 v1, Prop k2 v2])) k = v"
    if "k1 \<noteq> k" "k2 \<noteq> k" for parts :: "obj_part list" and k v k1 v1 k2 v2
    using that by (simp add: js_object_def obj_of_def obj_assign_def)
  from this [where parts = "[Spread d]" and k = "''answer''" and ?k1.0 = "''conversationId''" and ?k2.0 = "''chatBoxId''"]
  show ?thesis by (simp add: next_answer_def)
qed

lemma deliver_pieces:
  assumes "i < length (sse_active s)"
  shows "let s' = foldl (\<lambda>s t. deliver i (Event (Some (piece t))) s) s ts in
    text_or_empty (jget (sse_answer s') ''answer'') = foldl extend_text (text_or_empty (jget (sse_answer s) ''answer'')) ts
    \<and> sse_active s' = sse_active s \<and> sse_done s' = sse_done s \<and> sse_timer s' = sse_timer s \<and> sse_record s' = sse_record s"
  using assms
proof (induction ts arbitrary: s)
  case (Cons t ts)
  let ?s = "deliver i (Event (Some (piece t))) s"
  have "sse_active ?s = sse_active s" "sse_done ?s = sse_done s" "sse_timer ?s = sse_timer s"
    "sse_record ?s = sse_record s"
    "text_or_empty (jget (sse_answer ?s) ''answer'') = extend_text (text_or_empty (jget (sse_answer s) ''answer'')) t"
    using Cons.prems by (simp_all add: deliver_def del: jget.simps)
  with Cons.IH [of ?s] Cons.prems show ?case by (simp add: Let_def del: jget.simps)
qed simp

lemma extend_by_delta: "\<not> (p \<noteq> [] \<and> starts_with t p) \<Longrightarrow> extend_text p t = p @ t"
  by (simp add: extend_text_def)

text \<open>
  C33. Both ways a server can stream a text give the same answer: pieces that are put one behind the other,
  as long as no piece begins with all the text before it, and pieces that each repeat the text so far.
\<close>

theorem stream_text_exact:
  assumes "(\<forall>i<length ts. concat (take i ts) \<noteq> [] \<longrightarrow> \<not> starts_with (ts ! i) (concat (take i ts))) \<and> t = concat ts
    \<or> ts \<noteq> [] \<and> sorted_wrt (\<lambda>a b. starts_with b a) ts \<and> t = last ts"
  shows "stream_text ts = t"
  using assms
proof
  assume *: "(\<forall>i<length ts. concat (take i ts) \<noteq> [] \<longrightarrow> \<not> starts_with (ts ! i) (concat (take i ts))) \<and> t = concat ts"
  have "foldl extend_text [] us = concat us"
    if "\<forall>i<length us. concat (take i us) \<noteq> [] \<longrightarrow> \<not> starts_with (us ! i) (concat (take i us))" for us
    using that
  proof (induction us rule: rev_induct)
    case (snoc u us)
    have "\<forall>i<length us. concat (take i us) \<noteq> [] \<longrightarrow> \<not> starts_with (us ! i) (concat (take i us))"
    proof (intro allI impI)
      fix i
      assume "i < length us" "concat (take i us) \<noteq> []"
      with snoc.prems [rule_format, of i] show "\<not> starts_with (us ! i) (concat (take i us))"
        by (simp add: nth_append)
    qed
    with snoc.IH snoc.prems [rule_format, of "length us"] show ?case
      by (cases "concat us = []") (simp_all add: extend_text_def del: concat_eq_Nil_conv)
  qed simp
  with * show ?thesis by (simp add: stream_text_def)
next
  assume *: "ts \<noteq> [] \<and> sorted_wrt (\<lambda>a b. starts_with b a) ts \<and> t = last ts"
  have "foldl extend_text [] us = last us" if "us \<noteq> []" "sorted_wrt (\<lambda>a b. starts_with b a) us" for us
    using that
  proof (induction us rule: rev_induct)
    case (snoc u us)
    show ?case
    proof (cases "us = []")
      case False
      with snoc.IH snoc.prems(2) have "foldl extend_text [] us = last us" by (simp add: sorted_wrt_append)
      moreover have "starts_with u (last us)" using snoc.prems(2) False by (simp add: sorted_wrt_append)
      then have "extend_text (last us) u = u" by (cases "last us = []") (simp_all add: extend_text_def)
      ultimately show ?thesis by simp
    qed (simp add: extend_text_def)
  qed simp
  with * show ?thesis by (simp add: stream_text_def)
qed

theorem stream_text_exact_witness:
  "stream_text [''He'', ''llo'', ''!''] = ''Hello!'' \<and> stream_text [''He'', ''Hello'', ''Hello!''] = ''Hello!''"
  using stream_text_exact [of "[''He'', ''llo'', ''!'']" "''Hello!''"]
    stream_text_exact [of "[''He'', ''Hello'', ''Hello!'']" "''Hello!''"]
  by (simp add: starts_with_def less_Suc_eq nth_Cons')

text \<open>A piece that begins with all the text before it swallows that text: a first word said twice is said once.\<close>

theorem repeated_piece_is_lost: "stream_text [t, t] = t"
  by (auto simp: stream_text_def extend_text_def starts_with_def)

section \<open>The end of a stream\<close>

text \<open>
  Without a box, \<open>done\<close> says whether the last stream is over; an answer that is there stays until the timer
  clears it.
\<close>

lemma end_send_done:
  assumes "i < length (sse_active s)" "''chatBoxId'' \<notin> fst ` set (props_of (sse_active s ! i))"
  shows "sse_done (end_send i s) \<and> sse_timer (end_send i s) \<and> sse_answer (end_send i s) = sse_answer s
    \<and> sse_active (end_send i s) = remove_at i (sse_active s)"
  using assms by (simp add: end_send_def setDoneValue_def resetAnswer_def)

text \<open>
  An error of the reader that is no abort is caught inside the loop, so the loop goes on: as long as the
  reader fails, the answer is never done.
\<close>

theorem broken_stream_is_never_done:
  "foldl (\<lambda>s d. deliver i d s) s (replicate n Read_Error) = s
   \<and> foldl (\<lambda>s d. deliver i d s) s (replicate n No_Body) = s"
  by (induction n arbitrary: s) (simp_all add: deliver_def)

text \<open>A request of a single chat names no box.\<close>

definition no_box :: "jsv \<Rightarrow> bool" where
  "no_box body = (''chatBoxId'' \<notin> fst ` set (props_of body))"

section \<open>Several boxes\<close>

text \<open>The keys of the record are the boxes that wait or have answered since the record was empty.\<close>

definition box_body :: "string \<Rightarrow> jsv \<Rightarrow> bool" where
  "box_body i body = (jget body ''chatBoxId'' = JStr i \<and> ''chatBoxId'' \<in> fst ` set (props_of body))"

lemma setDone_box: "box_body i body \<Longrightarrow> setDoneValue body val s = clear_effect (setDoneRecordById i val s)"
  by (simp add: setDoneValue_def box_body_def str_of_def)

end
