(* ===== verification/Dialog_Chat.thy ===== *)
theory Dialog_Chat
  imports Chat_Messages Sse_Answer
begin

text \<open>
  The chat with a dialog (\<open>pages/next-chats/hooks\<close>): asking a question in the chat itself
  (\<open>use-send-chat-message.ts\<close>), in one of several boxes (\<open>use-send-single-message.ts\<close>) and in a shared
  page (\<open>use-send-shared-message.ts\<close>), the conversation made for a first question (\<open>use-chat-url.ts\<close>) and
  the files put to a question (\<open>use-upload-file.ts\<close>), over the list of messages (\<open>Chat_Messages\<close>) and the
  stream of the answer (\<open>Sse_Answer\<close>). The answers of the server are arguments of the steps.
\<close>

section \<open>State\<close>

text \<open>An uploaded file is an object of its own; its number stands for its identity.\<close>

type_synonym upload = "nat \<times> jsv"

record dialog_chat =
  dc_value :: string
  dc_uploads :: "upload list"
  dc_file_map :: "(nat \<times> upload) list"
  dc_messages :: "jsv list"
  dc_conversation :: string
  dc_new :: bool
  dc_error :: bool
  dc_stream :: sse

definition empty_dialog :: "string \<Rightarrow> dialog_chat" where
  "empty_dialog conversationId = \<lparr>dc_value = [], dc_uploads = [], dc_file_map = [], dc_messages = [],
     dc_conversation = conversationId, dc_new = False, dc_error = False, dc_stream = new_sse\<rparr>"

definition dc_files :: "dialog_chat \<Rightarrow> jsv" where
  "dc_files c = JArr (map snd (dc_uploads c))"

section \<open>Files\<close>

definition uploads_answered :: "nat \<Rightarrow> nat \<Rightarrow> jsv \<Rightarrow> dialog_chat \<Rightarrow> dialog_chat" where
  "uploads_answered f u ret c =
     (if js_seq (jget ret ''code'') (JInt 0)
      then c\<lparr>dc_uploads := dc_uploads c @ [(u, jget ret ''data'')],
             dc_file_map := (f, (u, jget ret ''data'')) # dc_file_map c\<rparr>
      else c)"

definition clearFiles :: "dialog_chat \<Rightarrow> dialog_chat" where
  "clearFiles c = c\<lparr>dc_uploads := [], dc_file_map := []\<rparr>"

definition dialog_removeFile :: "bool \<Rightarrow> nat \<Rightarrow> dialog_chat \<Rightarrow> dialog_chat" where
  "dialog_removeFile loading f c =
     (if loading then c
      else (case map_of (dc_file_map c) f of
              Some (u, d) \<Rightarrow> if truthy d then c\<lparr>dc_uploads := filter (\<lambda>x. fst x \<noteq> u) (dc_uploads c)\<rparr> else c
            | None \<Rightarrow> c))"

text \<open>The conversation that the files are sent to, when they are sent: one made for them, or none named.\<close>

definition createConversationBeforeUploadFile ::
  "nat \<Rightarrow> jsv \<Rightarrow> dialog_chat \<Rightarrow> dialog_chat \<times> jsv option" where
  "createConversationBeforeUploadFile files data c =
     (if (dc_conversation c = [] \<or> dc_new c) \<and> files \<noteq> 0 then
        (if js_seq (jget data ''code'') (JInt 0)
         then (c\<lparr>dc_conversation := str_of (jget (jget data ''data'') ''id''), dc_new := False\<rparr>,
               Some (jget (jget data ''data'') ''id''))
         else (c, None))
      else (c, if files = 0 then None else Some JUndef))"

section \<open>Asking\<close>

definition createConversationBeforeSendMessage ::
  "jsv \<Rightarrow> dialog_chat \<Rightarrow> dialog_chat \<times> (string \<times> jsv) option" where
  "createConversationBeforeSendMessage data c =
     (if dc_conversation c = [] \<or> dc_new c then
        (if \<not> truthy data \<or> \<not> js_seq (jget data ''code'') (JInt 0) then (c, None)
         else (let backendConvId = str_of (jget (jget data ''data'') ''id'')
               in (c\<lparr>dc_conversation := backendConvId, dc_new := False\<rparr>,
                   Some (backendConvId, jget (jget data ''data'') ''messages''))))
      else (c, Some (dc_conversation c, JArr [])))"

definition older_messages :: "jsv \<Rightarrow> jsv list \<Rightarrow> jsv list" where
  "older_messages messages derived =
     (case messages of JArr (m # ms) \<Rightarrow> m # ms | _ \<Rightarrow> derived)"

definition completion_body ::
  "string \<Rightarrow> string \<Rightarrow> jsv list \<Rightarrow> jsv \<Rightarrow> jsv \<Rightarrow> jsv \<Rightarrow> props \<Rightarrow> jsv" where
  "completion_body chatId sessionId older message enableThinking enableInternet params =
     js_object [Prop ''chat_id'' (JStr chatId), Prop ''session_id'' (JStr sessionId),
       Prop ''messages'' (JArr (older @ [message])), Prop ''reasoning'' enableThinking,
       Prop ''internet'' enableInternet, Spread (JObj params)]"

definition send_body :: "jsv \<Rightarrow> dialog_chat \<Rightarrow> dialog_chat" where
  "send_body body c = c\<lparr>dc_stream := start_send body (dc_stream c)\<rparr>"

definition question_message :: "string \<Rightarrow> jsv \<Rightarrow> string \<Rightarrow> string \<Rightarrow> jsv" where
  "question_message content files i conversationId =
     JObj [(''content'', JStr content), (''files'', files), (''id'', JStr i), (''role'', JStr ''user''),
       (''conversationId'', JStr conversationId)]"

definition sent_message :: "string \<Rightarrow> jsv \<Rightarrow> string \<Rightarrow> string \<Rightarrow> jsv" where
  "sent_message content files i conversationId =
     JObj [(''id'', JStr i), (''content'', JStr content), (''role'', JStr ''user''), (''files'', files),
       (''conversationId'', JStr conversationId)]"

definition add_question :: "string \<Rightarrow> string \<Rightarrow> jsv \<Rightarrow> dialog_chat \<Rightarrow> dialog_chat" where
  "add_question u u' m c = c\<lparr>dc_messages := addNewestQuestion u u' m [] (dc_messages c)\<rparr>"

text \<open>
  One question: it is shown with a place for its answer, and sent when no answer is running. The list sent
  along is the one before the question. The ids that stay unused are those of \<open>buildMessageUuid\<close>.
\<close>

definition ask ::
  "string \<Rightarrow> jsv \<Rightarrow> jsv \<Rightarrow> props \<Rightarrow> string \<Rightarrow> string \<Rightarrow> jsv \<Rightarrow> dialog_chat \<Rightarrow> dialog_chat" where
  "ask chatId thinking internet params i tgt messages c =
     (let c1 = add_question i i (question_message (dc_value c) (dc_files c) i tgt) c;
          c2 = (if sse_done (dc_stream c) then
                  send_body (completion_body chatId tgt (older_messages messages (dc_messages c))
                      (sent_message (js_trim (dc_value c)) (dc_files c) i tgt) thinking internet params)
                    (c1\<lparr>dc_value := []\<rparr>)
                else c1)
      in clearFiles c2)"

definition press_enter :: "string \<Rightarrow> bool \<Rightarrow> bool \<Rightarrow> string \<Rightarrow> jsv \<Rightarrow> dialog_chat \<Rightarrow> dialog_chat" where
  "press_enter chatId thinking internet i created c =
     (if js_trim (dc_value c) = [] then c
      else (case createConversationBeforeSendMessage created c of
              (c1, None) \<Rightarrow> c1
            | (c1, Some (tgt, messages)) \<Rightarrow> ask chatId (JBool thinking) (JBool internet) [] i tgt messages c1))"

text \<open>In one of several boxes: the conversation is made by the page that has the boxes.\<close>

definition box_press_enter ::
  "string \<Rightarrow> jsv \<Rightarrow> jsv \<Rightarrow> props \<Rightarrow> string \<Rightarrow> string \<Rightarrow> jsv \<Rightarrow> dialog_chat \<Rightarrow> dialog_chat" where
  "box_press_enter = ask"

text \<open>In a shared page.\<close>

definition shared_body :: "jsv \<Rightarrow> string \<Rightarrow> dialog_chat \<Rightarrow> bool \<Rightarrow> bool \<Rightarrow> jsv" where
  "shared_body conversationId question c thinking internet =
     JObj [(''conversation_id'', conversationId), (''quote'', JBool True), (''question'', JStr question),
       (''session_id'', jget (jget (JArr (dc_messages c)) ''0'') ''session_id''), (''reasoning'', JBool thinking),
       (''internet'', JBool internet)]"

definition shared_press_enter :: "bool \<Rightarrow> bool \<Rightarrow> string \<Rightarrow> string \<Rightarrow> dialog_chat \<Rightarrow> dialog_chat" where
  "shared_press_enter thinking internet u i c =
     (if js_trim (dc_value c) = [] \<or> \<not> sse_done (dc_stream c) then c
      else send_body (shared_body (JStr (dc_conversation c)) (js_trim (dc_value c)) c thinking internet)
        (add_question i i
           (JObj [(''content'', JStr (dc_value c)), (''doc_ids'', JArr []), (''id'', JStr i), (''role'', JStr ''user'')])
           (c\<lparr>dc_value := []\<rparr>)))"

definition fetchSessionId :: "jsv \<Rightarrow> dialog_chat \<Rightarrow> dialog_chat" where
  "fetchSessionId data c = send_body (js_object [Spread (JObj [(''question'', JStr [])]), Spread data]) c"

section \<open>Answers\<close>

text \<open>What the request gives: the status and the parsed body; nothing when the body is a stream of events.\<close>

definition isCompletionError :: "(int \<times> jsv) option \<Rightarrow> bool" where
  "isCompletionError res =
     (case res of None \<Rightarrow> False
      | Some (status, data) \<Rightarrow> status \<noteq> 200 \<or> \<not> js_seq (jget data ''code'') (JInt 0))"

definition request_answered :: "jsv \<Rightarrow> (int \<times> jsv) option \<Rightarrow> dialog_chat \<Rightarrow> dialog_chat" where
  "request_answered message res c =
     (if isCompletionError res
      then c\<lparr>dc_value := str_of (jget message ''content''), dc_messages := removeLatestMessage (dc_messages c)\<rparr>
      else c)"

definition session_fetched :: "(int \<times> jsv) option \<Rightarrow> dialog_chat \<Rightarrow> dialog_chat" where
  "session_fetched res c = (if isCompletionError res then c\<lparr>dc_error := True\<rparr> else c)"

definition answer_effect :: "omit_fn \<Rightarrow> string \<Rightarrow> dialog_chat \<Rightarrow> dialog_chat" where
  "answer_effect om u c =
     (if truthy (jget (sse_answer (dc_stream c)) ''answer'') \<and> dc_conversation c \<noteq> [] \<and> \<not> dc_new c
      then c\<lparr>dc_messages := addNewestAnswer om u (sse_answer (dc_stream c)) (dc_messages c)\<rparr> else c)"

definition box_answer_effect :: "omit_fn \<Rightarrow> string \<Rightarrow> dialog_chat \<Rightarrow> dialog_chat" where
  "box_answer_effect om u c =
     (if truthy (jget (sse_answer (dc_stream c)) ''answer'')
      then c\<lparr>dc_messages := addNewestAnswer om u (sse_answer (dc_stream c)) (dc_messages c)\<rparr> else c)"

definition event_arrives :: "omit_fn \<Rightarrow> string \<Rightarrow> nat \<Rightarrow> jsv \<Rightarrow> dialog_chat \<Rightarrow> dialog_chat" where
  "event_arrives om u i v c = answer_effect om u (c\<lparr>dc_stream := deliver i (Event (Some v)) (dc_stream c)\<rparr>)"

definition stream_ends :: "nat \<Rightarrow> dialog_chat \<Rightarrow> dialog_chat" where
  "stream_ends i c = c\<lparr>dc_stream := deliver i Stream_End (dc_stream c)\<rparr>"

definition answer_timeout :: "dialog_chat \<Rightarrow> dialog_chat" where
  "answer_timeout c = c\<lparr>dc_stream := reset_timeout (dc_stream c)\<rparr>"

text \<open>Asking a question of the list again.\<close>

definition regenerate_answer :: "string \<Rightarrow> string \<Rightarrow> jsv \<Rightarrow> dialog_chat \<Rightarrow> dialog_chat" where
  "regenerate_answer chatId u message c =
     (case regenerateMessage u message (dc_messages c) of
        (ms, None) \<Rightarrow> c\<lparr>dc_messages := ms\<rparr>
      | (ms, Some r) \<Rightarrow>
          send_body (completion_body chatId (dc_conversation c)
              (older_messages (case rg_messages r of None \<Rightarrow> JUndef | Some xs \<Rightarrow> JArr xs) (dc_messages c))
              (rg_message r) JUndef JUndef [])
            (c\<lparr>dc_messages := ms\<rparr>))"

section \<open>Properties\<close>

lemma no_box_completion [simp]: "no_box (completion_body chatId sid older m th net [])"
  by (simp add: no_box_def completion_body_def js_object_def obj_of_def)

text \<open>A turn: the question, the pieces of the answer and the end of the stream.\<close>

definition pieces_arrive :: "omit_fn \<Rightarrow> string \<Rightarrow> string list \<Rightarrow> dialog_chat \<Rightarrow> dialog_chat" where
  "pieces_arrive om u ts c = foldl (\<lambda>c t. event_arrives om u 0 (piece t) c) c ts"

definition chat_turn :: "omit_fn \<Rightarrow> string \<Rightarrow> string \<Rightarrow> string \<Rightarrow> string list \<Rightarrow> dialog_chat \<Rightarrow> dialog_chat" where
  "chat_turn om chatId i u ts c =
     stream_ends 0 (pieces_arrive om u ts (press_enter chatId False False i JUndef c))"

definition ready :: "dialog_chat \<Rightarrow> bool" where
  "ready c = (dc_conversation c \<noteq> [] \<and> \<not> dc_new c \<and> sse_done (dc_stream c) \<and> sse_active (dc_stream c) = [])"

definition shown_text :: "dialog_chat \<Rightarrow> string" where
  "shown_text c = text_or_empty (jget (sse_answer (dc_stream c)) ''answer'')"

lemma extend_text_Nil: "extend_text p t = [] \<Longrightarrow> p = []"
  by (auto simp: extend_text_def starts_with_def split: if_splits)

lemma piece_answer_keys:
  "fst ` set (props_of (next_answer body (piece t) prev)) = {''answer'', ''conversationId'', ''chatBoxId''}"
  by (auto simp: next_answer_def js_object_def obj_of_def piece_def)

lemma piece_answer_message:
  assumes "omit_laws om"
  shows "jget (answer_message om u (next_answer body (piece t) prev)) ''content''
    = JStr (extend_text (text_or_empty (jget prev ''answer'')) t)"
proof -
  let ?a = "next_answer body (piece t) prev"
  obtain ps where ps: "?a = JObj ps" "wf_obj ps"
    unfolding next_answer_def using js_object_wf by blast
  have "''content'' \<notin> fst ` set ps"
    using piece_answer_keys [of body t prev] by (simp add: ps(1))
  then have "map_of ps ''content'' = None" by (simp add: map_of_eq_None_iff)
  then have "jget (answer_message om u (JObj ps)) ''content'' = jget (JObj ps) ''answer''"
    by (rule answer_message_content [OF assms ps(2)])
  also have "\<dots> = JStr (extend_text (text_or_empty (jget prev ''answer'')) t)"
    using next_answer_text [of body "piece t" prev] by (simp only: ps(1) next_text_piece)
  finally show ?thesis by (simp only: ps(1))
qed

lemma event_shown:
  assumes "omit_laws om" "dc_conversation c \<noteq> []" "\<not> dc_new c" "sse_active (dc_stream c) = [body]"
    and "dc_messages c = old @ [m]" "shown_text c = [] \<longrightarrow> jget m ''content'' = JStr []"
  shows "\<exists>m'. dc_messages (event_arrives om u 0 (piece t) c) = old @ [m']
    \<and> jget m' ''content'' = JStr (extend_text (shown_text c) t)
    \<and> shown_text (event_arrives om u 0 (piece t) c) = extend_text (shown_text c) t"
proof -
  let ?a = "next_answer body (piece t) (sse_answer (dc_stream c))"
  let ?c = "c\<lparr>dc_stream := deliver 0 (Event (Some (piece t))) (dc_stream c)\<rparr>"
  have d: "sse_answer (dc_stream ?c) = ?a" using assms(4) by (simp add: deliver_def)
  have n: "jget ?a ''answer'' = JStr (extend_text (shown_text c) t)"
    by (simp only: next_answer_text next_text_piece shown_text_def)
  have s: "shown_text (event_arrives om u 0 (piece t) c) = extend_text (shown_text c) t"
    using d n by (simp add: event_arrives_def answer_effect_def shown_text_def del: next_answer_text)
  show ?thesis
  proof (cases "extend_text (shown_text c) t = []")
    case True
    then have "dc_messages (event_arrives om u 0 (piece t) c) = dc_messages c"
      unfolding event_arrives_def answer_effect_def d n by simp
    with True s assms(5,6) extend_text_Nil [OF True] show ?thesis by simp
  next
    case False
    then have "dc_messages (event_arrives om u 0 (piece t) c) = old @ [answer_message om u ?a]"
      unfolding event_arrives_def answer_effect_def d n using assms(2,3,5) by (simp add: addNewestAnswer_def)
    with s piece_answer_message [OF assms(1)] show ?thesis by (simp add: shown_text_def)
  qed
qed

lemma event_keeps [simp]:
  "dc_value (event_arrives om u i v c) = dc_value c"
  "dc_uploads (event_arrives om u i v c) = dc_uploads c"
  "dc_conversation (event_arrives om u i v c) = dc_conversation c"
  "dc_new (event_arrives om u i v c) = dc_new c"
  "sse_active (dc_stream (event_arrives om u i v c)) = sse_active (dc_stream c)"
  by (simp_all add: event_arrives_def answer_effect_def deliver_def split: delivery.split)

lemma pieces_shown:
  assumes "omit_laws om" "dc_conversation c \<noteq> []" "\<not> dc_new c" "sse_active (dc_stream c) = [body]"
    and "dc_messages c = old @ [m]" "shown_text c = [] \<longrightarrow> jget m ''content'' = JStr []"
    and "ts = [] \<longrightarrow> jget m ''content'' = JStr (shown_text c)"
  shows "\<exists>m'. dc_messages (pieces_arrive om u ts c) = old @ [m']
    \<and> jget m' ''content'' = JStr (foldl extend_text (shown_text c) ts)
    \<and> shown_text (pieces_arrive om u ts c) = foldl extend_text (shown_text c) ts"
  using assms(2-)
proof (induction ts arbitrary: c m)
  case (Cons t ts)
  from event_shown [OF assms(1) Cons.prems(1-5)] obtain m' where m':
    "dc_messages (event_arrives om u 0 (piece t) c) = old @ [m']"
    "jget m' ''content'' = JStr (extend_text (shown_text c) t)"
    "shown_text (event_arrives om u 0 (piece t) c) = extend_text (shown_text c) t" by blast
  from Cons.IH [of "event_arrives om u 0 (piece t) c" m'] Cons.prems m'
  show ?case by (simp add: pieces_arrive_def del: jget.simps)
qed (simp add: pieces_arrive_def)

lemma pieces_keep [simp]:
  "dc_value (pieces_arrive om u ts c) = dc_value c"
  "dc_uploads (pieces_arrive om u ts c) = dc_uploads c"
  "sse_active (dc_stream (pieces_arrive om u ts c)) = sse_active (dc_stream c)"
  by (induction ts arbitrary: c) (simp_all add: pieces_arrive_def)

lemma press_enter_ready:
  assumes "ready c" "js_trim (dc_value c) \<noteq> []"
  shows "press_enter chatId th net i data c =
    ask chatId (JBool th) (JBool net) [] i (dc_conversation c) (JArr []) c"
  using assms by (simp add: press_enter_def createConversationBeforeSendMessage_def ready_def)

lemma ask_ready:
  assumes "ready c" "i \<noteq> []"
  shows "\<exists>q m. dc_messages (ask chatId th net [] i tgt ms c) = dc_messages c @ [q, m]
      \<and> jget q ''content'' = JStr (dc_value c) \<and> jget q ''id'' = JStr i \<and> jget m ''content'' = JStr []"
    and "dc_value (ask chatId th net [] i tgt ms c) = []" "dc_uploads (ask chatId th net [] i tgt ms c) = []"
    and "dc_conversation (ask chatId th net [] i tgt ms c) = dc_conversation c"
    and "dc_new (ask chatId th net [] i tgt ms c) = dc_new c"
    and "\<exists>body. sse_active (dc_stream (ask chatId th net [] i tgt ms c)) = [body] \<and> no_box body"
    and "sse_answer (dc_stream (ask chatId th net [] i tgt ms c)) = sse_answer (dc_stream c)"
proof -
  note d = ask_def clearFiles_def send_body_def start_send_def add_question_def Let_def
  show "dc_value (ask chatId th net [] i tgt ms c) = []" "dc_uploads (ask chatId th net [] i tgt ms c) = []"
    "dc_conversation (ask chatId th net [] i tgt ms c) = dc_conversation c"
    "dc_new (ask chatId th net [] i tgt ms c) = dc_new c"
    using assms(1) by (simp_all add: d ready_def)
  show "\<exists>body. sse_active (dc_stream (ask chatId th net [] i tgt ms c)) = [body] \<and> no_box body"
    using assms(1) by (simp add: d ready_def setDoneValue_def no_box_completion [unfolded no_box_def])
  show "sse_answer (dc_stream (ask chatId th net [] i tgt ms c)) = sse_answer (dc_stream c)"
    using assms(1) by (simp add: d ready_def setDoneValue_def no_box_completion [unfolded no_box_def])
  have "dc_messages (ask chatId th net [] i tgt ms c) =
      addNewestQuestion i i (question_message (dc_value c) (dc_files c) i tgt) [] (dc_messages c)"
    using assms(1) by (simp add: d ready_def)
  then show "\<exists>q m. dc_messages (ask chatId th net [] i tgt ms c) = dc_messages c @ [q, m]
      \<and> jget q ''content'' = JStr (dc_value c) \<and> jget q ''id'' = JStr i \<and> jget m ''content'' = JStr []"
    using assms(2) by (simp add: addNewestQuestion_def question_message_def buildMessageUuid_def js_object_def
        obj_of_def)
qed

lemma chat_turn_text:
  assumes "omit_laws om" "ready c" "js_trim (dc_value c) \<noteq> []" "i \<noteq> []" "ts = [] \<longrightarrow> shown_text c = []"
  shows "\<exists>q a. dc_messages (chat_turn om chatId i u ts c) = dc_messages c @ [q, a]
    \<and> jget q ''content'' = JStr (dc_value c)
    \<and> jget a ''content'' = JStr (foldl extend_text (shown_text c) ts)
    \<and> shown_text (chat_turn om chatId i u ts c) = foldl extend_text (shown_text c) ts
    \<and> dc_value (chat_turn om chatId i u ts c) = []
    \<and> sse_done (dc_stream (chat_turn om chatId i u ts c))
    \<and> sse_active (dc_stream (chat_turn om chatId i u ts c)) = []"
proof -
  let ?c = "ask chatId (JBool False) (JBool False) [] i (dc_conversation c) (JArr []) c"
  note ask = ask_ready [OF assms(2,4), where chatId = chatId and th = "JBool False" and net = "JBool False"
      and tgt = "dc_conversation c" and ms = "JArr []"]
  from ask(1) obtain q m where qm: "dc_messages ?c = (dc_messages c @ [q]) @ [m]"
    "jget q ''content'' = JStr (dc_value c)" "jget m ''content'' = JStr []" by auto
  have s: "shown_text ?c = shown_text c" using ask(7) by (simp add: shown_text_def)
  from ask(6) obtain body where b: "sse_active (dc_stream ?c) = [body]" "no_box body" by blast
  have r: "dc_conversation ?c \<noteq> []" "\<not> dc_new ?c" using assms(2) ask(4,5) by (simp_all add: ready_def)
  have "ts = [] \<longrightarrow> jget m ''content'' = JStr (shown_text ?c)" using assms(5) s qm(3) by simp
  from pieces_shown [OF assms(1) r b(1) qm(1) _ this, of u] qm(3) s obtain a where
    a: "dc_messages (pieces_arrive om u ts ?c) = (dc_messages c @ [q]) @ [a]"
    "jget a ''content'' = JStr (foldl extend_text (shown_text c) ts)"
    "shown_text (pieces_arrive om u ts ?c) = foldl extend_text (shown_text c) ts" by auto
  have e: "chat_turn om chatId i u ts c = stream_ends 0 (pieces_arrive om u ts ?c)"
    using press_enter_ready [OF assms(2,3)] by (simp add: chat_turn_def)
  show ?thesis
    using a qm(2) b ask(2)
    by (auto simp: e stream_ends_def deliver_def end_send_def setDoneValue_def no_box_def resetAnswer_def
        remove_at_def shown_text_def)
qed

text \<open>
  C31. A turn of the chat: when no answer runs and none is left over, asking a question and streaming the
  answer to its end puts exactly two messages behind those shown before, the question as it was typed and
  the text the stream has built up, empties the input and is done.
\<close>

theorem chat_turn_shown:
  assumes "omit_laws om" "ready c" "shown_text c = []" "js_trim (dc_value c) \<noteq> []" "i \<noteq> []"
  shows "\<exists>q a. dc_messages (chat_turn om chatId i u ts c) = dc_messages c @ [q, a]
    \<and> jget q ''content'' = JStr (dc_value c) \<and> jget a ''content'' = JStr (stream_text ts)
    \<and> dc_value (chat_turn om chatId i u ts c) = [] \<and> sse_done (dc_stream (chat_turn om chatId i u ts c))
    \<and> sse_active (dc_stream (chat_turn om chatId i u ts c)) = []"
  using chat_turn_text [OF assms(1,2,4,5), of ts chatId u] assms(3) by (auto simp: stream_text_def)

theorem chat_turn_shown_witness:
  "\<exists>q a. dc_messages (chat_turn omit_ref ''d'' ''1'' ''2'' [''He'', ''llo''] ((empty_dialog ''s'')\<lparr>dc_value := ''hi''\<rparr>))
     = [q, a] \<and> jget a ''content'' = JStr ''Hello''"
proof -
  let ?c = "(empty_dialog ''s'')\<lparr>dc_value := ''hi''\<rparr>"
  have "ready ?c" "shown_text ?c = []" "js_trim (dc_value ?c) \<noteq> []" "dc_messages ?c = []"
    by (simp_all add: empty_dialog_def ready_def new_sse_def shown_text_def no_answer_def text_or_empty_def
        js_or_def str_of_def js_trim_def is_space_def)
  moreover have "stream_text [''He'', ''llo''] = ''Hello''"
    by (simp add: stream_text_def extend_text_def starts_with_def)
  ultimately show ?thesis
    using chat_turn_shown [OF omit_ref_laws, of ?c "''1''" "''d''" "''2''" "[''He'', ''llo'']"] by auto
qed

lemma remove_latest [simp]: "removeLatestMessage (ms @ [a, b]) = ms"
  by (simp add: removeLatestMessage_def slice_to_def)

text \<open>
  C32. A refused question leaves nothing in the list of messages: when the server answers with an error instead of a
  stream, the question and the place for its answer are taken away again, the input has the question's text
  without the blanks around it, and a new question can be asked; the files of the question are gone.
\<close>

theorem refused_turn_restored:
  assumes "ready c" "js_trim (dc_value c) \<noteq> []" "i \<noteq> []" "isCompletionError res"
    and "c' = request_answered (sent_message (js_trim (dc_value c)) (dc_files c) i (dc_conversation c)) res
        (stream_ends 0 (press_enter chatId th net i data c))"
  shows "dc_messages c' = dc_messages c \<and> dc_value c' = js_trim (dc_value c) \<and> ready c' \<and> dc_uploads c' = []
    \<and> shown_text c' = shown_text c"
proof -
  let ?c = "ask chatId (JBool th) (JBool net) [] i (dc_conversation c) (JArr []) c"
  note ask = ask_ready [OF assms(1,3), where chatId = chatId and th = "JBool th" and net = "JBool net"
      and tgt = "dc_conversation c" and ms = "JArr []"]
  from ask(1) obtain q m where qm: "dc_messages ?c = dc_messages c @ [q, m]" by blast
  from ask(6) obtain body where b: "sse_active (dc_stream ?c) = [body]" "no_box body" by blast
  have e: "c' = request_answered (sent_message (js_trim (dc_value c)) (dc_files c) i (dc_conversation c)) res
      (stream_ends 0 ?c)"
    using assms(5) press_enter_ready [OF assms(1,2)] by simp
  have m: "dc_messages (stream_ends 0 ?c) = dc_messages c @ [q, m]" using qm by (simp add: stream_ends_def)
  have v: "str_of (jget (sent_message v f i s) ''content'') = v" for v f s
    by (simp add: sent_message_def str_of_def)
  show ?thesis
    using b ask(2-5,7) assms(1,4)
    by (simp add: e request_answered_def m v)
      (simp add: stream_ends_def deliver_def end_send_def setDoneValue_def no_box_def resetAnswer_def
        remove_at_def shown_text_def ready_def)
qed

theorem refused_turn_restored_witness:
  "dc_value (request_answered (sent_message ''hi'' (JArr []) ''1'' ''s'') (Some (200, JObj [(''code'', JInt 102)]))
     (stream_ends 0 (press_enter ''d'' False False ''1'' JUndef ((empty_dialog ''s'')\<lparr>dc_value := '' hi''\<rparr>)))) = ''hi''"
proof -
  let ?c = "(empty_dialog ''s'')\<lparr>dc_value := '' hi''\<rparr>"
  have t: "js_trim '' hi'' = ''hi''" by (simp add: js_trim_def is_space_def)
  have "ready ?c" "js_trim (dc_value ?c) \<noteq> []" "isCompletionError (Some (200, JObj [(''code'', JInt 102)]))"
    by (simp_all add: empty_dialog_def ready_def new_sse_def t isCompletionError_def)
  from refused_turn_restored [OF this(1,2) _ this(3) refl, of "''1''" "''d''" False False JUndef]
  show ?thesis by (simp add: empty_dialog_def dc_files_def t)
qed

text \<open>
  The answer of a turn stays until a second after its end, and the next question does not clear it: a
  question asked before that is answered by the old answer with the new one behind it.
\<close>

theorem quick_question_repeats_the_answer:
  assumes "omit_laws om" "ready c" "js_trim (dc_value c) \<noteq> []" "i \<noteq> []"
    and "shown_text c \<noteq> []" "\<not> starts_with t (shown_text c)"
  shows "jget (last (dc_messages (chat_turn om chatId i u [t] c))) ''content'' = JStr (shown_text c @ t)"
  using chat_turn_text [OF assms(1-4), of "[t]" chatId u] assms(5,6) by (auto simp: extend_text_def)

text \<open>A question asked while an answer runs is shown, but never sent: the running answer is put in its place.\<close>

theorem question_while_answering_not_sent:
  assumes "dc_conversation c \<noteq> []" "\<not> dc_new c" "\<not> sse_done (dc_stream c)" "js_trim (dc_value c) \<noteq> []"
  shows "dc_stream (press_enter chatId th net i data c) = dc_stream c
    \<and> length (dc_messages (press_enter chatId th net i data c)) = length (dc_messages c) + 2
    \<and> dc_value (press_enter chatId th net i data c) = dc_value c"
  using assms
  by (simp add: press_enter_def createConversationBeforeSendMessage_def ask_def add_question_def clearFiles_def
      addNewestQuestion_def Let_def)

text \<open>
  Asking the first message again sends the whole conversation along, its old answer too: an empty list of
  earlier messages counts as no list.
\<close>

theorem first_message_again_sends_all:
  assumes "dc_messages c = m # ms" "jget m ''id'' = JStr i" "i \<noteq> []"
  shows "sse_active (dc_stream (regenerate_answer chatId u m c)) = sse_active (dc_stream c)
    @ [completion_body chatId (dc_conversation c) (m # ms) (js_object [Spread m, Prop ''id'' (JStr u)]) JUndef JUndef []]"
proof -
  have "findIdx (\<lambda>x. same_id x (JStr i)) (m # ms) = Some 0" using assms(2) by (simp add: same_id_def)
  then show ?thesis
    using assms by (simp add: regenerate_answer_def regenerateMessage_def older_messages_def send_body_def
        start_send_def setDoneValue_def no_box_completion [unfolded no_box_def])
qed

end
