(* ===== verification/Graph_Combos.thy ===== *)
theory Graph_Combos
  imports Js_String
begin

text \<open>
  The groups of the nodes of a knowledge graph (\<open>pages/dataset/knowledge-graph/util.ts\<close>): by the edges,
  with one letter for each group (\<open>Converter\<close>), and by the first community of each node
  (\<open>buildNodesAndCombos\<close>). The ids that the \<open>uuid\<close> package returns are an argument.
\<close>

section \<open>Groups by edges\<close>

text \<open>
  The dictionary from nodes to letters; \<open>None\<close> is the \<open>undefined\<close> that stands behind the last letter.
\<close>

record converter =
  cv_idx :: nat
  cv_dict :: "(string \<times> string option) list"

definition new_converter :: converter where
  "new_converter = \<lparr>cv_idx = 0, cv_dict = []\<rparr>"

definition combo_chars :: "string list" where
  "combo_chars = map (\<lambda>i. [char_of (97 + i :: nat)]) [0..<26]"

definition generateKey :: "converter \<Rightarrow> string option \<times> converter" where
  "generateKey c = (nth_opt combo_chars (cv_idx c), c\<lparr>cv_idx := Suc (cv_idx c)\<rparr>)"

definition combo_of :: "converter \<Rightarrow> string \<Rightarrow> string option" where
  "combo_of c n = (case map_of (cv_dict c) n of Some k \<Rightarrow> k | None \<Rightarrow> None)"

definition put_combo :: "string \<Rightarrow> string option \<Rightarrow> converter \<Rightarrow> converter" where
  "put_combo n k c = c\<lparr>cv_dict := obj_put n k (cv_dict c)\<rparr>"

definition build_edge :: "string \<times> string \<Rightarrow> converter \<Rightarrow> converter" where
  "build_edge e c =
     (case (combo_of c (fst e), combo_of c (snd e)) of
        (Some k, None) \<Rightarrow> put_combo (snd e) (Some k) c
      | (None, Some k) \<Rightarrow> put_combo (fst e) (Some k) c
      | (None, None) \<Rightarrow>
          (case generateKey c of (k, c') \<Rightarrow> put_combo (fst e) k (put_combo (snd e) k c'))
      | (Some _, Some _) \<Rightarrow> c)"

definition buildDict :: "(string \<times> string) list \<Rightarrow> converter \<Rightarrow> converter" where
  "buildDict edges c = foldl (\<lambda>c e. build_edge e c) c edges"

definition combo_entry :: "string option \<Rightarrow> jsv" where
  "combo_entry k = JObj
     [(''id'', case k of Some s \<Rightarrow> JStr s | None \<Rightarrow> JUndef),
      (''data'', JObj [(''label'', JStr (''Combo '' @ (case k of Some s \<Rightarrow> s | None \<Rightarrow> ''undefined'')))])]"

definition converter_nodes_and_combos ::
  "jsv list \<Rightarrow> (string \<times> string) list \<Rightarrow> converter \<Rightarrow> jsv list \<times> jsv list" where
  "converter_nodes_and_combos nodes edges c =
     (let c' = buildDict edges c in
      (map (\<lambda>x. js_object [Spread x, Prop ''combo''
              (case combo_of c' (str_of (jget x ''id'')) of Some k \<Rightarrow> JStr k | None \<Rightarrow> JUndef)]) nodes,
       map combo_entry (nub (map snd (cv_dict c')))))"

section \<open>Groups by communities\<close>

definition defaultComboLabel :: string where
  "defaultComboLabel = ''defaultCombo''"

definition findCombo :: "jsv \<Rightarrow> jsv" where
  "findCombo communities = (case communities of JArr (c # _) \<Rightarrow> c | _ \<Rightarrow> JUndef)"

text \<open>A group is its id and its label; the fresh id of the \<open>n\<close>-th group is \<open>uuid n\<close>.\<close>

definition add_combo :: "(nat \<Rightarrow> string) \<Rightarrow> (string \<times> jsv) list \<Rightarrow> jsv \<Rightarrow> (string \<times> jsv) list" where
  "add_combo uuid combos x =
     (let combo = findCombo (jget x ''communities'') in
      if truthy combo \<and> list_all (\<lambda>y. \<not> js_seq (snd y) combo) combos
      then combos @ [(uuid (length combos), combo)] else combos)"

definition node_combo :: "(string \<times> jsv) list \<Rightarrow> jsv \<Rightarrow> jsv" where
  "node_combo combos x =
     (case find (\<lambda>y. js_seq (snd y) (findCombo (jget x ''communities''))) combos of
        Some y \<Rightarrow> JStr (fst y) | None \<Rightarrow> JUndef)"

definition combos_of :: "(nat \<Rightarrow> string) \<Rightarrow> jsv list \<Rightarrow> (string \<times> jsv) list" where
  "combos_of uuid nodes = foldl (add_combo uuid) [] nodes"

definition buildNodesAndCombos :: "(nat \<Rightarrow> string) \<Rightarrow> jsv list \<Rightarrow> jsv list \<times> jsv list" where
  "buildNodesAndCombos uuid nodes =
     (let combos = combos_of uuid nodes in
      (map (\<lambda>x. js_object [Spread x, Prop ''combo'' (node_combo combos x)]) nodes,
       if combos = [] then
         [JObj [(''id'', JStr (uuid 0)), (''label'', JStr defaultComboLabel),
                (''data'', JObj [(''label'', JStr defaultComboLabel)])]]
       else map (\<lambda>(i, l). JObj [(''isCombo'', JBool True), (''id'', JStr i), (''data'', JObj [(''label'', l)])]) combos))"

definition isDataExist :: "(jsv \<Rightarrow> bool) \<Rightarrow> jsv \<Rightarrow> bool" where
  "isDataExist emp d =
     (truthy (jget d ''data'') \<and> js_typeof (jget d ''data'') \<noteq> ''boolean''
      \<and> \<not> emp (jget (jget d ''data'') ''graph''))"

section \<open>Nodes of one group are connected\<close>

definition linked :: "(string \<times> string) list \<Rightarrow> (string \<times> string) set" where
  "linked edges = (set edges \<union> (set edges)\<inverse>)\<^sup>*"

lemma linked_mono: "set es \<subseteq> set es' \<Longrightarrow> linked es \<subseteq> linked es'"
  unfolding linked_def by (rule rtrancl_mono) auto

lemma linked_sym: "(a, b) \<in> linked es \<Longrightarrow> (b, a) \<in> linked es"
proof -
  have "sym (set es \<union> (set es)\<inverse>)" by (rule symI) auto
  then show "(a, b) \<in> linked es \<Longrightarrow> (b, a) \<in> linked es"
    unfolding linked_def by (meson sym_rtrancl symE)
qed

lemma linked_trans: "(a, b) \<in> linked es \<Longrightarrow> (b, c) \<in> linked es \<Longrightarrow> (a, c) \<in> linked es"
  unfolding linked_def by simp

lemma linked_edge: "e \<in> set es \<Longrightarrow> (fst e, snd e) \<in> linked es"
  unfolding linked_def by (cases e) auto

lemma combo_of_put [simp]: "combo_of (put_combo n k c) m = (if m = n then k else combo_of c m)"
  by (simp add: combo_of_def put_combo_def)

lemma cv_idx_put [simp]: "cv_idx (put_combo n k c) = cv_idx c"
  by (simp add: put_combo_def)

lemma combo_of_key [simp]: "combo_of (c\<lparr>cv_idx := i\<rparr>) n = combo_of c n"
  by (simp add: combo_of_def)

definition letters_below :: "converter \<Rightarrow> bool" where
  "letters_below c = (\<forall>n k. combo_of c n = Some k \<longrightarrow> (\<exists>i<cv_idx c. nth_opt combo_chars i = Some k))"

lemma combo_chars_distinct: "distinct combo_chars"
proof -
  have "inj_on (\<lambda>i. [char_of (97 + i :: nat)]) {0..<26}"
  proof (rule inj_onI)
    fix i j :: nat
    assume "i \<in> {0..<26}" "j \<in> {0..<26}" "[char_of (97 + i)] = [char_of (97 + j)]"
    then have "of_char (char_of (97 + i)) = (of_char (char_of (97 + j)) :: nat)" by (simp only: list.inject)
    with \<open>i \<in> _\<close> \<open>j \<in> _\<close> show "i = j" by (simp del: char_of_eq_iff)
  qed
  then show ?thesis by (simp add: combo_chars_def distinct_map)
qed

lemma letters_fresh:
  assumes "letters_below c" "nth_opt combo_chars (cv_idx c) = Some k"
  shows "combo_of c n \<noteq> Some k"
proof
  assume "combo_of c n = Some k"
  with assms(1) obtain i where "i < cv_idx c" "nth_opt combo_chars i = Some k"
    by (auto simp: letters_below_def)
  with assms(2) combo_chars_distinct show False
    by (auto simp: nth_opt_def distinct_conv_nth split: if_splits)
qed

lemma letters_below_put:
  "letters_below c \<Longrightarrow> combo_of c m = Some k \<Longrightarrow> letters_below (put_combo n (Some k) c)"
  by (auto simp: letters_below_def put_combo_def combo_of_def)

definition sound_combos :: "(string \<times> string) list \<Rightarrow> converter \<Rightarrow> bool" where
  "sound_combos es c =
     (letters_below c \<and> (\<forall>n m k. combo_of c n = Some k \<longrightarrow> combo_of c m = Some k \<longrightarrow> (n, m) \<in> linked es))"

lemma sound_put:
  assumes "sound_combos es c" "combo_of c m = Some k" "(n, m) \<in> linked es"
  shows "sound_combos es (put_combo n (Some k) c)"
proof -
  have "(a, b) \<in> linked es"
    if "combo_of (put_combo n (Some k) c) a = Some j" "combo_of (put_combo n (Some k) c) b = Some j" for a b j
  proof -
    have x: "(x, m) \<in> linked es" if "combo_of (put_combo n (Some k) c) x = Some k" for x
      using that assms by (auto simp: sound_combos_def split: if_splits)
    show ?thesis
    proof (cases "j = k")
      case True
      with that show ?thesis using linked_trans [OF x linked_sym [OF x]] by blast
    next
      case False
      with that have "combo_of c a = Some j" "combo_of c b = Some j" by (auto split: if_splits)
      with assms(1) show ?thesis by (auto simp: sound_combos_def)
    qed
  qed
  with assms letters_below_put show ?thesis unfolding sound_combos_def by blast
qed

lemma sound_new:
  assumes "sound_combos es c" "combo_of c a = None" "combo_of c b = None" "(a, b) \<in> linked es"
  shows "sound_combos es (put_combo a (fst (generateKey c)) (put_combo b (fst (generateKey c)) (snd (generateKey c))))"
proof (cases "nth_opt combo_chars (cv_idx c)")
  case None
  then show ?thesis
    using assms(1) by (auto simp: sound_combos_def generateKey_def letters_below_def less_Suc_eq) blast
next
  case (Some k)
  note f = letters_fresh [OF _ Some]
  let ?c = "put_combo a (Some k) (put_combo b (Some k) (c\<lparr>cv_idx := Suc (cv_idx c)\<rparr>))"
  have l: "letters_below c" using assms(1) by (simp add: sound_combos_def)
  have "letters_below ?c"
    unfolding letters_below_def
  proof (intro allI impI)
    fix n j
    assume "combo_of ?c n = Some j"
    then consider "j = k" | "combo_of c n = Some j" by (metis combo_of_key combo_of_put option.inject)
    then show "\<exists>i<cv_idx ?c. nth_opt combo_chars i = Some j"
    proof cases
      case 1
      with Some show ?thesis by (intro exI [of _ "cv_idx c"]) simp
    next
      case 2
      with l obtain i where "i < cv_idx c" "nth_opt combo_chars i = Some j" by (auto simp: letters_below_def)
      then show ?thesis by (intro exI [of _ i]) simp
    qed
  qed
  moreover have "(n, m) \<in> linked es" if "combo_of ?c n = Some j" "combo_of ?c m = Some j" for n m j
    using that assms f [OF l] linked_sym [OF assms(4)]
    by (auto simp: sound_combos_def linked_def split: if_splits)
  ultimately show ?thesis by (simp add: sound_combos_def generateKey_def Some)
qed

lemma sound_edge:
  assumes "sound_combos es c" "e \<in> set es"
  shows "sound_combos es (build_edge e c)"
proof -
  note l = linked_edge [OF assms(2)] linked_sym [OF linked_edge [OF assms(2)]]
  show ?thesis
  proof (cases "combo_of c (fst e)")
    case None
    then show ?thesis
      using assms(1) sound_put [OF assms(1) _ l(1)] sound_new [OF assms(1) None _ l(1)]
      by (cases "combo_of c (snd e)") (simp_all add: build_edge_def case_prod_unfold)
  next
    case (Some k)
    then show ?thesis
      using assms(1) sound_put [OF assms(1) Some l(2)]
      by (cases "combo_of c (snd e)") (simp_all add: build_edge_def)
  qed
qed

text \<open>
  Whatever the edges are, two nodes that the converter puts into one group are connected by edges.
\<close>

theorem grouped_nodes_are_connected:
  assumes "combo_of (buildDict edges new_converter) n = Some k"
    and "combo_of (buildDict edges new_converter) m = Some k"
  shows "(n, m) \<in> linked edges"
proof -
  have "sound_combos es c \<Longrightarrow> set us \<subseteq> set es \<Longrightarrow> sound_combos es (buildDict us c)" for es us c
    by (induction us arbitrary: c) (simp_all add: buildDict_def sound_edge)
  moreover have "sound_combos edges new_converter"
    by (simp add: sound_combos_def letters_below_def new_converter_def combo_of_def)
  ultimately have "sound_combos edges (buildDict edges new_converter)" by blast
  with assms show ?thesis by (auto simp: sound_combos_def)
qed

theorem grouped_nodes_are_connected_witness: "(''a'', ''c'') \<in> linked [(''a'', ''b''), (''b'', ''c'')]"
  by (rule grouped_nodes_are_connected [where k = "''a''"])
    (simp_all add: buildDict_def build_edge_def new_converter_def generateKey_def combo_of_def nth_opt_def
      combo_chars_def put_combo_def obj_put_def key_before_def is_index_key_def digit_def upt_rec char_of_def bit_Suc_0_iff)

text \<open>
  The converse fails: groups are never merged, so an edge between two groups that exist leaves connected
  nodes in different groups.
\<close>

theorem groups_are_not_merged:
  "combo_of (buildDict [(''a'', ''b''), (''c'', ''d''), (''b'', ''c'')] new_converter) ''b''
   \<noteq> combo_of (buildDict [(''a'', ''b''), (''c'', ''d''), (''b'', ''c'')] new_converter) ''c''"
  by (simp add: buildDict_def build_edge_def new_converter_def generateKey_def combo_of_def nth_opt_def
      combo_chars_def put_combo_def obj_put_def key_before_def is_index_key_def digit_def upt_rec char_of_def bit_Suc_0_iff)

section \<open>Groups by communities\<close>

definition textual :: "jsv \<Rightarrow> bool" where
  "textual x = (truthy (findCombo (jget x ''communities'')) \<longrightarrow> is_string (findCombo (jget x ''communities'')))"

abbreviation community :: "jsv \<Rightarrow> jsv" where
  "community x \<equiv> findCombo (jget x ''communities'')"

definition combos_ok :: "(nat \<Rightarrow> string) \<Rightarrow> (string \<times> jsv) list \<Rightarrow> bool" where
  "combos_ok uuid cs =
     (map fst cs = map uuid [0..<length cs] \<and> distinct (map snd cs) \<and> list_all (\<lambda>y. is_string (snd y)) cs)"

lemma is_string_seq: "is_string v \<Longrightarrow> js_seq v w \<longleftrightarrow> v = w"
  by (cases v) auto

lemma add_combo_ok:
  assumes "combos_ok uuid cs" "textual x"
  shows "combos_ok uuid (add_combo uuid cs x)
    \<and> snd ` set (add_combo uuid cs x) = snd ` set cs \<union> (if truthy (community x) then {community x} else {})"
proof -
  have "js_seq (snd y) (community x) \<longleftrightarrow> snd y = community x" if "y \<in> set cs" for y
    using that assms(1) by (intro is_string_seq) (auto simp: combos_ok_def list_all_iff)
  then have "list_all (\<lambda>y. \<not> js_seq (snd y) (community x)) cs = list_all (\<lambda>y. snd y \<noteq> community x) cs"
    by (intro list.pred_cong) simp_all
  also have "\<dots> \<longleftrightarrow> community x \<notin> snd ` set cs"
    by (induction cs) auto
  finally have a: "add_combo uuid cs x =
      (if truthy (community x) \<and> community x \<notin> snd ` set cs then cs @ [(uuid (length cs), community x)] else cs)"
    by (simp add: add_combo_def Let_def)
  show ?thesis
  proof (cases "truthy (community x) \<and> community x \<notin> snd ` set cs")
    case True
    then show ?thesis using assms by (simp add: a combos_ok_def textual_def)
  next
    case False
    then show ?thesis using assms by (auto simp add: a insert_absorb)
  qed
qed

lemma distinct_snd_eq: "distinct (map snd cs) \<Longrightarrow> (i, l) \<in> set cs \<Longrightarrow> (j, l) \<in> set cs \<Longrightarrow> i = j"
  by (metis distinct_map fst_conv inj_onD snd_conv)

lemma combos_of_ok:
  assumes "\<forall>x\<in>set nodes. textual x"
  shows "combos_ok uuid (combos_of uuid nodes)
    \<and> snd ` set (combos_of uuid nodes) = community ` {x \<in> set nodes. truthy (community x)}"
  using assms unfolding combos_of_def
proof (induction nodes rule: rev_induct)
  case Nil
  then show ?case by (simp add: combos_ok_def)
next
  case (snoc x xs)
  with add_combo_ok [of uuid "foldl (add_combo uuid) [] xs" x] show ?case by auto
qed

lemma node_combo_unique:
  assumes "combos_ok uuid cs" "inj uuid" "(i, l) \<in> set cs" "l = community x"
  shows "node_combo cs x = JStr i"
proof -
  have s: "js_seq (snd y) (community x) \<longleftrightarrow> snd y = l" if "y \<in> set cs" for y
    using that assms(1,4) by (subst is_string_seq) (auto simp: combos_ok_def list_all_iff)
  have "find (\<lambda>y. js_seq (snd y) (community x)) cs = find (\<lambda>y. snd y = l) cs"
    using s by (intro find_cong) auto
  moreover have "find (\<lambda>y. snd y = l) cs = Some (i, l)"
  proof -
    obtain y where y: "find (\<lambda>y. snd y = l) cs = Some y"
      using assms(3) by (cases "find (\<lambda>y. snd y = l) cs") (auto simp: find_None_iff)
    then have "y \<in> set cs" "snd y = l" using find_SomeD by fastforce+
    with assms(1,3) have "y = (i, l)"
      using distinct_snd_eq [of cs "fst y" l i] by (cases y) (auto simp: combos_ok_def)
    with y show ?thesis by simp
  qed
  ultimately show ?thesis by (simp add: node_combo_def)
qed

text \<open>
  The groups of the graph have distinct ids, and two nodes with a community are drawn in the same group
  exactly when their first communities are the same; every node with a community is in a group that exists.
\<close>

theorem communities_group_nodes:
  assumes "inj uuid" "\<forall>x\<in>set nodes. textual x" "x \<in> set nodes" "y \<in> set nodes"
    and "truthy (community x)" "truthy (community y)"
  shows "distinct (map fst (combos_of uuid nodes)) \<and> (\<exists>i l. (i, l) \<in> set (combos_of uuid nodes)
      \<and> node_combo (combos_of uuid nodes) x = JStr i \<and> l = community x)
    \<and> (node_combo (combos_of uuid nodes) x = node_combo (combos_of uuid nodes) y \<longleftrightarrow> community x = community y)"
proof -
  let ?cs = "combos_of uuid nodes"
  from combos_of_ok [OF assms(2), of uuid]
  have ok: "combos_ok uuid ?cs" and labels: "snd ` set ?cs = community ` {x \<in> set nodes. truthy (community x)}"
    by auto
  have ids: "distinct (map fst ?cs)"
    using ok assms(1) by (simp add: combos_ok_def distinct_map inj_on_def)
  have "\<exists>i. (i, community z) \<in> set ?cs \<and> node_combo ?cs z = JStr i"
    if "z \<in> set nodes" "truthy (community z)" for z
  proof -
    from that have "community z \<in> snd ` set ?cs" unfolding labels by blast
    then obtain i where "(i, community z) \<in> set ?cs" by auto
    with node_combo_unique [OF ok assms(1)] show ?thesis by blast
  qed
  with assms(3-6) obtain i j where ij: "(i, community x) \<in> set ?cs" "node_combo ?cs x = JStr i"
    "(j, community y) \<in> set ?cs" "node_combo ?cs y = JStr j" by metis
  have "i = j \<longleftrightarrow> community x = community y"
    using ij(1,3) ok eq_key_imp_eq_value [OF ids] distinct_snd_eq [of ?cs]
    unfolding combos_ok_def by metis
  with ij ids show ?thesis by auto
qed

theorem communities_group_nodes_witness:
  "node_combo (combos_of nat_str [JObj [(''communities'', JArr [JStr ''a''])], JObj [(''communities'', JArr [JStr ''b''])]])
       (JObj [(''communities'', JArr [JStr ''a''])])
   \<noteq> node_combo (combos_of nat_str [JObj [(''communities'', JArr [JStr ''a''])], JObj [(''communities'', JArr [JStr ''b''])]])
       (JObj [(''communities'', JArr [JStr ''b''])])"
proof -
  let ?x = "JObj [(''communities'', JArr [JStr ''a''])]" and ?y = "JObj [(''communities'', JArr [JStr ''b''])]"
  have "inj nat_str" by (rule injI) simp
  moreover have "\<forall>z\<in>set [?x, ?y]. textual z" by (simp add: textual_def findCombo_def)
  ultimately show ?thesis
    using communities_group_nodes [of nat_str "[?x, ?y]" ?x ?y] by (simp add: findCombo_def)
qed

end
