(* ===== verification/Time_Picker.thy ===== *)
theory Time_Picker
  imports Js_String
begin

text \<open>
  The time picker (\<open>components/ui/time-picker.tsx\<close>): the text a time is shown as, the time a typed text is
  read as, the lists of hours, minutes and seconds, and what choosing in them does to the time. A date is
  its day and its second of the day in the local zone, without changes between summer and winter time;
  milliseconds are left out.
\<close>

section \<open>Dates\<close>

record date =
  dt_day :: int
  dt_secs :: int

definition getHours :: "date \<Rightarrow> int" where
  "getHours d = dt_secs d div 3600"

definition getMinutes :: "date \<Rightarrow> int" where
  "getMinutes d = dt_secs d div 60 mod 60"

definition getSeconds :: "date \<Rightarrow> int" where
  "getSeconds d = dt_secs d mod 60"

definition wf_date :: "date \<Rightarrow> bool" where
  "wf_date d = (0 \<le> dt_secs d \<and> dt_secs d < 86400)"

text \<open>\<open>setHours(h, m, s)\<close> carries what is out of range over to the day.\<close>

definition set_time :: "int \<Rightarrow> int \<Rightarrow> int \<Rightarrow> date \<Rightarrow> date" where
  "set_time h m s d =
     (let t = 3600 * h + 60 * m + s in \<lparr>dt_day = dt_day d + t div 86400, dt_secs = t mod 86400\<rparr>)"

definition setHours :: "int \<Rightarrow> date \<Rightarrow> date" where
  "setHours h d = set_time h (getMinutes d) (getSeconds d) d"

definition setMinutes :: "int \<Rightarrow> date \<Rightarrow> date" where
  "setMinutes m d = set_time (getHours d) m (getSeconds d) d"

definition setSeconds :: "int \<Rightarrow> date \<Rightarrow> date" where
  "setSeconds s d = set_time (getHours d) (getMinutes d) s d"

lemma hours_of_minutes: "dt_secs d div 3600 = dt_secs d div 60 div 60"
  using zdiv_zmult2_eq [of 60 "dt_secs d" 60] by simp

lemma time_parts:
  assumes "wf_date d"
  shows "dt_secs d = 3600 * getHours d + 60 * getMinutes d + getSeconds d"
    and "0 \<le> getHours d" "getHours d < 24" "0 \<le> getMinutes d" "getMinutes d < 60"
    and "0 \<le> getSeconds d" "getSeconds d < 60"
proof -
  have "60 * (dt_secs d div 60) + dt_secs d mod 60 = dt_secs d"
    "60 * (dt_secs d div 60 div 60) + dt_secs d div 60 mod 60 = dt_secs d div 60"
    by (rule mult_div_mod_eq)+
  then show "dt_secs d = 3600 * getHours d + 60 * getMinutes d + getSeconds d"
    unfolding getHours_def getMinutes_def getSeconds_def hours_of_minutes by linarith
  show "0 \<le> getHours d" "getHours d < 24"
    using assms by (simp_all add: wf_date_def getHours_def pos_imp_zdiv_nonneg_iff) linarith
  show "0 \<le> getMinutes d" "getMinutes d < 60" "0 \<le> getSeconds d" "getSeconds d < 60"
    by (simp_all add: getMinutes_def getSeconds_def)
qed

lemma set_time_parts:
  assumes "0 \<le> h" "h < 24" "0 \<le> m" "m < 60" "0 \<le> s" "s < 60"
  shows "getHours (set_time h m s d) = h" "getMinutes (set_time h m s d) = m" "getSeconds (set_time h m s d) = s"
    and "dt_day (set_time h m s d) = dt_day d" "wf_date (set_time h m s d)"
proof -
  define t where "t = 3600 * h + 60 * m + s"
  have t: "0 \<le> t" "t < 86400" using assms by (simp_all add: t_def)
  then have e: "set_time h m s d = \<lparr>dt_day = dt_day d, dt_secs = t\<rparr>"
    by (simp add: set_time_def Let_def t_def [symmetric])
  have "t = s + 60 * (60 * h + m)" by (simp add: t_def)
  then have q: "t div 60 = 60 * h + m" "t mod 60 = s" using assms(5,6) by (simp_all only: div_mult_self2 mod_mult_self2) simp_all
  have "60 * h + m = m + 60 * h" by simp
  then have "(60 * h + m) div 60 = h" "(60 * h + m) mod 60 = m"
    using assms(3,4) by (simp_all only: div_mult_self2 mod_mult_self2) simp_all
  with q show "getHours (set_time h m s d) = h" "getMinutes (set_time h m s d) = m" "getSeconds (set_time h m s d) = s"
    unfolding e getHours_def getMinutes_def getSeconds_def hours_of_minutes by simp_all
  show "dt_day (set_time h m s d) = dt_day d" "wf_date (set_time h m s d)"
    using t by (simp_all add: e wf_date_def)
qed

lemma set_time_wf [simp]: "wf_date (set_time h m s d)"
  by (simp add: set_time_def wf_date_def Let_def)

section \<open>Text\<close>

text \<open>\<open>String(n).padStart(2, '0')\<close>.\<close>

definition pad2 :: "int \<Rightarrow> string" where
  "pad2 n = (let s = int_str n in replicate (2 - length s) CHR ''0'' @ s)"

definition has_part :: "string \<Rightarrow> string \<Rightarrow> bool" where
  "has_part fmt p = str_includes (to_lower fmt) p"

definition display_hour :: "int \<Rightarrow> int" where
  "display_hour h = (if h mod 12 = 0 then 12 else h mod 12)"

text \<open>
  The text of a time. The second test of \<open>format.toLowerCase()\<close>, for a capital letter, never holds.
\<close>

definition formatted :: "bool \<Rightarrow> string \<Rightarrow> date \<Rightarrow> string" where
  "formatted use12Hours fmt d =
     (let mm = (if has_part fmt ''mm'' then '':'' @ pad2 (getMinutes d) else []);
          ss = (if has_part fmt ''ss'' then '':'' @ pad2 (getSeconds d) else [])
      in if use12Hours then
           pad2 (display_hour (getHours d)) @ mm @ ss
           @ (if has_part fmt ''a'' then '' '' @ (if getHours d \<ge> 12 then ''PM'' else ''AM'')
              else if has_part fmt ''A'' then '' '' @ (if getHours d \<ge> 12 then ''pm'' else ''am'') else [])
         else pad2 (getHours d) @ mm @ ss)"

text \<open>A typed time: the groups of the expression that the format selects.\<close>

definition digits12 :: "string \<Rightarrow> bool" where
  "digits12 s = (list_all digit s \<and> (length s = 1 \<or> length s = 2))"

definition meridiem :: "string \<Rightarrow> (string \<times> string option) option" where
  "meridiem s =
     (let ds = takeWhile digit s; r = dropWhile is_space (dropWhile digit s) in
      if r = [] then Some (ds, None)
      else if r \<in> {''AM'', ''PM'', ''am'', ''pm''} then Some (ds, Some r) else None)"

definition match_time :: "bool \<Rightarrow> bool \<Rightarrow> string \<Rightarrow> string option list option" where
  "match_time use12H withSeconds s =
     (let parts = split_on CHR '':'' s;
          n = (if withSeconds then 3 else 2)
      in if length parts \<noteq> n then None
         else (case (if use12H then meridiem (last parts) else Some (last parts, None)) of
                 None \<Rightarrow> None
               | Some (l, ap) \<Rightarrow>
                   if list_all digits12 (butlast parts @ [l])
                   then Some (Some s # map Some (butlast parts @ [l]) @ (if use12H then [ap] else [])) else None))"

text \<open>
  \<open>const [hourStr, minuteStr, secondStr, ampmStr] = match\<close> reads the whole match as the hour and each group
  one place too late; \<open>parseInt\<close> of the whole match still gives the hour.
\<close>

definition group_at :: "nat \<Rightarrow> string option list \<Rightarrow> string option" where
  "group_at i m = (case nth_opt m i of Some g \<Rightarrow> g | None \<Rightarrow> None)"

definition int_prefix :: "string \<Rightarrow> int" where
  "int_prefix s = int (nat_of_digits (takeWhile digit s))"

definition parseTimeInput :: "bool \<Rightarrow> string \<Rightarrow> date option \<Rightarrow> date \<Rightarrow> string \<Rightarrow> date option" where
  "parseTimeInput use12H fmt val now input =
     (case match_time use12H (has_part fmt ''ss'') (js_trim input) of
        None \<Rightarrow> None
      | Some m \<Rightarrow>
          (let hour = (case group_at 0 m of Some g \<Rightarrow> int_prefix g | None \<Rightarrow> 0);
               minute = (case group_at 1 m of Some g \<Rightarrow> int_prefix g | None \<Rightarrow> 0);
               second = (case group_at 2 m of Some g \<Rightarrow> int_prefix g | None \<Rightarrow> 0);
               base = (case val of Some d \<Rightarrow> d | None \<Rightarrow> now)
           in if minute \<ge> 60 \<or> second \<ge> 60 then None
              else (case (use12H, group_at 3 m) of
                      (True, Some ampm) \<Rightarrow>
                        if hour < 1 \<or> hour > 12 then None
                        else Some (set_time
                          (if to_lower ampm = ''pm'' \<and> hour \<noteq> 12 then hour + 12
                           else if to_lower ampm \<noteq> ''pm'' \<and> hour = 12 then 0 else hour) minute second base)
                    | (True, None) \<Rightarrow> Some (set_time hour minute second base)
                    | (False, _) \<Rightarrow> if hour > 23 then None else Some (set_time hour minute second base))))"

section \<open>Lists of options\<close>

text \<open>
  The options of a list: \<open>0\<close>, \<open>step\<close>, \<open>2 * step\<close> up to the last one. The loop of a step that is not
  positive does not end.
\<close>

partial_function (option) steps_from :: "int \<Rightarrow> int \<Rightarrow> int \<Rightarrow> int list option" where
  "steps_from step maximum i =
     (if i \<le> maximum then Option.bind (steps_from step maximum (i + step)) (\<lambda>xs. Some (i # xs)) else Some [])"

definition generateTimeOptions ::
  "bool \<Rightarrow> int \<Rightarrow> int \<Rightarrow> int list \<Rightarrow> int list option \<Rightarrow> string list option" where
  "generateTimeOptions hideDisabledOptions step maximum disabledOptions customOptions =
     map_option (\<lambda>options. map pad2
         (if hideDisabledOptions then filter (\<lambda>n. n \<notin> set disabledOptions) options else options))
       (case customOptions of
          Some (c # cs) \<Rightarrow> Some (c # cs)
        | _ \<Rightarrow> steps_from step maximum 0)"

definition hour_options :: "bool \<Rightarrow> bool \<Rightarrow> int \<Rightarrow> int list \<Rightarrow> string list option" where
  "hour_options use12Hours hideDisabled hourStep disabledHours =
     (if use12Hours then generateTimeOptions hideDisabled hourStep 11 (filter (\<lambda>h. h \<le> 11) disabledHours) None
      else generateTimeOptions hideDisabled hourStep 23 disabledHours None)"

section \<open>Choosing\<close>

definition hourValue :: "bool \<Rightarrow> date option \<Rightarrow> string" where
  "hourValue use12Hours val =
     (case val of None \<Rightarrow> ''00''
      | Some d \<Rightarrow> pad2 (if use12Hours then display_hour (getHours d) else getHours d))"

definition minuteValue :: "date option \<Rightarrow> string" where
  "minuteValue val = (case val of None \<Rightarrow> ''00'' | Some d \<Rightarrow> pad2 (getMinutes d))"

definition secondValue :: "date option \<Rightarrow> string" where
  "secondValue val = (case val of None \<Rightarrow> ''00'' | Some d \<Rightarrow> pad2 (getSeconds d))"

definition ampmValue :: "bool \<Rightarrow> date option \<Rightarrow> string" where
  "ampmValue use12Hours val =
     (case val of None \<Rightarrow> ''AM'' | Some d \<Rightarrow> if use12Hours \<and> getHours d \<ge> 12 then ''PM'' else ''AM'')"

definition base_date :: "date option \<Rightarrow> date \<Rightarrow> date" where
  "base_date val now = (case val of Some d \<Rightarrow> d | None \<Rightarrow> now)"

definition handleHourChange :: "bool \<Rightarrow> date option \<Rightarrow> date \<Rightarrow> string \<Rightarrow> date" where
  "handleHourChange use12Hours val now hourStr =
     (let hour = int_prefix hourStr;
          isAM = (case val of Some d \<Rightarrow> getHours d < 12 | None \<Rightarrow> True);
          hour' = (if use12Hours then
                     (if hour = 12 then (if isAM then 0 else 12) else if isAM then hour else hour + 12)
                   else hour)
      in setHours hour' (base_date val now))"

definition handleMinuteChange :: "date option \<Rightarrow> date \<Rightarrow> string \<Rightarrow> date" where
  "handleMinuteChange val now minuteStr = setMinutes (int_prefix minuteStr) (base_date val now)"

definition handleSecondChange :: "date option \<Rightarrow> date \<Rightarrow> string \<Rightarrow> date" where
  "handleSecondChange val now secondStr = setSeconds (int_prefix secondStr) (base_date val now)"

definition handleAmPmChange :: "bool \<Rightarrow> date option \<Rightarrow> string \<Rightarrow> date option" where
  "handleAmPmChange use12Hours val ampm =
     (case val of
        None \<Rightarrow> None
      | Some d \<Rightarrow>
          if \<not> use12Hours then None
          else if ampm = ''AM'' \<and> getHours d \<ge> 12 then Some (setHours (getHours d - 12) d)
          else if ampm = ''PM'' \<and> getHours d < 12 then Some (setHours (getHours d + 12) d)
          else Some d)"

text \<open>What typing into the input hands on: a time, nothing, or \<open>undefined\<close> for an empty input.\<close>

definition handleTimeInput :: "bool \<Rightarrow> string \<Rightarrow> date option \<Rightarrow> date \<Rightarrow> string \<Rightarrow> date option option" where
  "handleTimeInput use12H fmt val now newValue =
     (if newValue = [] then Some None
      else (case parseTimeInput use12H fmt val now newValue of Some d \<Rightarrow> Some (Some d) | None \<Rightarrow> None))"

section \<open>Properties\<close>

lemma steps_from_fuel:
  assumes "0 < step"
  shows "\<exists>xs. steps_from step maximum i = Some xs \<and> set xs = {n. i \<le> n \<and> n \<le> maximum \<and> step dvd n - i} \<and> sorted_wrt (<) xs"
proof (induction "nat (maximum + 1 - i)" arbitrary: i rule: less_induct)
  case less
  show ?case
  proof (cases "i \<le> maximum")
    case False
    then show ?thesis by (subst steps_from.simps) auto
  next
    case True
    with assms have "nat (maximum + 1 - (i + step)) < nat (maximum + 1 - i)" by simp
    from less [OF this] obtain xs where xs: "steps_from step maximum (i + step) = Some xs"
      "set xs = {n. i + step \<le> n \<and> n \<le> maximum \<and> step dvd n - (i + step)}" "sorted_wrt (<) xs" by blast
    have dvd: "step dvd n - i \<longleftrightarrow> step dvd n - (i + step)" for n
    proof -
      have "n - i = n - (i + step) + step" by simp
      then show ?thesis using dvd_add_triv_right_iff [of step "n - (i + step)"] by simp
    qed
    have next_le: "i + step \<le> n" if "i < n" "step dvd n - i" for n
      using that zdvd_imp_le [of step "n - i"] by simp
    have "set (i # xs) = {n. i \<le> n \<and> n \<le> maximum \<and> step dvd n - i}"
    proof (rule set_eqI)
      fix n
      show "n \<in> set (i # xs) \<longleftrightarrow> n \<in> {n. i \<le> n \<and> n \<le> maximum \<and> step dvd n - i}"
      proof (cases "i < n")
        case True
        then show ?thesis using next_le [OF True] dvd [of n] by (auto simp: xs(2))
      next
        case False
        then show ?thesis using \<open>i \<le> maximum\<close> assms by (auto simp: xs(2))
      qed
    qed
    moreover have "sorted_wrt (<) (i # xs)" using xs(2,3) assms by auto
    moreover have "steps_from step maximum i = Some (i # xs)"
      using xs(1) True by (subst steps_from.simps) simp
    ultimately show ?thesis by blast
  qed
qed

lemma steps_from_stuck: "step \<le> 0 \<Longrightarrow> i \<le> maximum \<Longrightarrow> steps_from step maximum i = None"
proof (rule ccontr)
  assume h: "step \<le> 0" "i \<le> maximum" and "steps_from step maximum i \<noteq> None"
  then obtain xs where "steps_from step maximum i = Some xs" by blast
  then have "step \<le> 0 \<longrightarrow> maximum < i"
  proof (rule steps_from.raw_induct [rotated])
    fix f :: "int \<Rightarrow> int \<Rightarrow> int \<Rightarrow> int list option" and step maximum i :: int and xs
    assume IH: "\<And>s m i xs. f s m i = Some xs \<Longrightarrow> s \<le> 0 \<longrightarrow> m < i"
      and eq: "(if i \<le> maximum then Option.bind (f step maximum (i + step)) (\<lambda>xs. Some (i # xs)) else Some []) = Some xs"
    show "step \<le> 0 \<longrightarrow> maximum < (i::int)"
    proof (cases "i \<le> maximum")
      case True
      with eq obtain ys where "f step maximum (i + step) = Some ys" by (auto simp: bind_eq_Some_conv)
      with IH [OF this] True show ?thesis by auto
    qed simp
  qed
  with h show False by simp
qed

text \<open>
  The list of options of a step comes back exactly when the step is positive, and then it has, in
  order, the multiples of the step up to the last one, without the disabled ones where these are hidden.
\<close>

theorem time_options_exact:
  assumes "0 \<le> maximum"
  shows "(case generateTimeOptions hide step maximum disabledOptions None of
      None \<Rightarrow> step \<le> 0
    | Some opts \<Rightarrow> 0 < step \<and> (\<exists>ns. opts = map pad2 ns \<and> sorted_wrt (<) ns
        \<and> set ns = {n. 0 \<le> n \<and> n \<le> maximum \<and> step dvd n \<and> \<not> (hide \<and> n \<in> set disabledOptions)}))"
proof (cases "0 < step")
  case False
  then have "steps_from step maximum 0 = None" using steps_from_stuck assms by simp
  with False show ?thesis by (simp add: generateTimeOptions_def)
next
  case True
  from steps_from_fuel [OF True, of maximum 0] obtain xs where xs: "steps_from step maximum 0 = Some xs"
    "set xs = {n. 0 \<le> n \<and> n \<le> maximum \<and> step dvd n - 0}" "sorted_wrt (<) xs" by blast
  let ?ns = "if hide then filter (\<lambda>n. n \<notin> set disabledOptions) xs else xs"
  have "generateTimeOptions hide step maximum disabledOptions None = Some (map pad2 ?ns)"
    by (simp add: generateTimeOptions_def xs(1))
  moreover have "sorted_wrt (<) ?ns" using xs(3) by (simp add: sorted_wrt_filter)
  moreover have "set ?ns = {n. 0 \<le> n \<and> n \<le> maximum \<and> step dvd n \<and> \<not> (hide \<and> n \<in> set disabledOptions)}"
    using xs(2) by auto
  ultimately show ?thesis using True by auto
qed

theorem time_options_exact_witness: "generateTimeOptions False 0 59 [] None = None"
  using time_options_exact [where maximum = 59 and hide = False and step = 0 and disabledOptions = "[]"] by (auto split: option.splits)

lemma pad2_digits: "0 \<le> n \<Longrightarrow> list_all digit (pad2 n)"
  by (simp add: pad2_def int_str_def Let_def) (simp add: list_all_iff digit_def)

lemma nat_str_two: "n < 100 \<Longrightarrow> length (nat_str n) = (if n < 10 then 1 else 2)"
  by (subst nat_str.simps) (auto simp: nat_str.simps [of "n div 10"])

lemma pad2_length: "0 \<le> n \<Longrightarrow> n < 100 \<Longrightarrow> length (pad2 n) = 2"
  using nat_str_two [of "nat n"] by (auto simp: pad2_def int_str_def Let_def)

lemma nat_of_digits_zeros: "nat_of_digits (replicate k CHR ''0'' @ s) = nat_of_digits s"
proof (induction k)
  case (Suc k)
  then show ?case by (simp add: nat_of_digits_def digit_val_def)
qed simp

lemma pad2_value: "0 \<le> n \<Longrightarrow> int (nat_of_digits (pad2 n)) = n"
  by (simp add: pad2_def int_str_def Let_def nat_of_digits_zeros)

lemma int_prefix_digits: "list_all digit s \<Longrightarrow> int_prefix s = int (nat_of_digits s)"
  by (simp add: int_prefix_def takeWhile_digits)

lemma int_prefix_pad2 [simp]: "0 \<le> n \<Longrightarrow> int_prefix (pad2 n) = n"
  by (simp add: int_prefix_digits pad2_digits pad2_value)

subsection \<open>Choosing\<close>

lemma base_hours: "wf_date d \<Longrightarrow> 0 \<le> h \<Longrightarrow> h < 24 \<Longrightarrow> getHours (setHours h d) = h \<and> getMinutes (setHours h d) = getMinutes d
    \<and> getSeconds (setHours h d) = getSeconds d \<and> dt_day (setHours h d) = dt_day d"
  using set_time_parts time_parts unfolding setHours_def by presburger

text \<open>
  Choosing an hour, a minute or a second that a list offers sets exactly this part of the time and keeps
  the day and the other parts; with twelve hours the chosen hour is shown and the half of the day is kept.
\<close>

theorem choosing_sets_one_part:
  assumes "wf_date (base_date val now)" "0 \<le> h" "h < (if use12 then 12 else 24)" "0 \<le> n" "n < 60"
  shows "let d = base_date val now; dh = handleHourChange use12 val now (pad2 h);
      dm = handleMinuteChange val now (pad2 n); ds = handleSecondChange val now (pad2 n) in
      getHours dh = (if use12 \<and> val \<noteq> None \<and> 12 \<le> getHours d then h + 12 else h)
    \<and> getMinutes dh = getMinutes d \<and> getSeconds dh = getSeconds d \<and> dt_day dh = dt_day d
    \<and> getMinutes dm = n \<and> getHours dm = getHours d \<and> getSeconds dm = getSeconds d \<and> dt_day dm = dt_day d
    \<and> getSeconds ds = n \<and> getHours ds = getHours d \<and> getMinutes ds = getMinutes d \<and> dt_day ds = dt_day d"
proof -
  let ?d = "base_date val now"
  let ?h = "if use12 \<and> val \<noteq> None \<and> 12 \<le> getHours ?d then h + 12 else h"
  note p = time_parts [OF assms(1)]
  have "handleHourChange use12 val now (pad2 h) = setHours ?h ?d"
    using assms(2,3) by (auto simp: handleHourChange_def base_date_def Let_def split: option.split)
  moreover have "0 \<le> ?h" "?h < 24" using assms(2,3) by (auto split: if_splits)
  ultimately have "let dh = handleHourChange use12 val now (pad2 h) in getHours dh = ?h
      \<and> getMinutes dh = getMinutes ?d \<and> getSeconds dh = getSeconds ?d \<and> dt_day dh = dt_day ?d"
    using base_hours [OF assms(1), of ?h] by (simp add: Let_def)
  moreover have "let dm = handleMinuteChange val now (pad2 n) in
      getMinutes dm = n \<and> getHours dm = getHours ?d \<and> getSeconds dm = getSeconds ?d \<and> dt_day dm = dt_day ?d"
    using set_time_parts [OF p(2,3) assms(4,5) p(6,7)] assms(4) by (simp add: handleMinuteChange_def setMinutes_def Let_def)
  moreover have "let ds = handleSecondChange val now (pad2 n) in
      getSeconds ds = n \<and> getHours ds = getHours ?d \<and> getMinutes ds = getMinutes ?d \<and> dt_day ds = dt_day ?d"
    using set_time_parts [OF p(2-5) assms(4,5)] assms(4) by (simp add: handleSecondChange_def setSeconds_def Let_def)
  ultimately show ?thesis unfolding Let_def by blast
qed

theorem choosing_sets_one_part_witness:
  "getHours (handleHourChange True (Some \<lparr>dt_day = 0, dt_secs = 50000\<rparr>) \<lparr>dt_day = 0, dt_secs = 0\<rparr> (pad2 4)) = 16"
  using choosing_sets_one_part [of "Some \<lparr>dt_day = 0, dt_secs = 50000\<rparr>" "\<lparr>dt_day = 0, dt_secs = 0\<rparr>" 4 True 0]
  by (simp add: base_date_def wf_date_def getHours_def Let_def)

text \<open>Switching between the halves of the day keeps the day, the minutes and the shown hour.\<close>

lemma switching_half_of_day:
  assumes "wf_date d" "ampm = ''AM'' \<or> ampm = ''PM''" "handleAmPmChange True (Some d) ampm = Some d'"
  shows "ampmValue True (Some d') = ampm \<and> hourValue True (Some d') = hourValue True (Some d)
    \<and> getMinutes d' = getMinutes d \<and> getSeconds d' = getSeconds d \<and> dt_day d' = dt_day d"
proof -
  note p = time_parts [OF assms(1)]
  consider "ampm = ''AM''" "12 \<le> getHours d" "d' = setHours (getHours d - 12) d"
    | "ampm = ''PM''" "getHours d < 12" "d' = setHours (getHours d + 12) d"
    | "ampm = (if 12 \<le> getHours d then ''PM'' else ''AM'')" "d' = d"
  proof (cases "ampm = ''AM''"; cases "12 \<le> getHours d")
    assume "ampm = ''AM''" "12 \<le> getHours d"
    with assms(3) show ?thesis by (intro that(1)) (simp_all add: handleAmPmChange_def)
  next
    assume "ampm \<noteq> ''AM''" "12 \<le> getHours d"
    with assms(2,3) show ?thesis by (intro that(3)) (simp_all add: handleAmPmChange_def)
  next
    assume "ampm = ''AM''" "\<not> 12 \<le> getHours d"
    with assms(3) show ?thesis by (intro that(3)) (simp_all add: handleAmPmChange_def)
  next
    assume "ampm \<noteq> ''AM''" "\<not> 12 \<le> getHours d"
    with assms(2,3) show ?thesis by (intro that(2)) (simp_all add: handleAmPmChange_def)
  qed
  then show ?thesis
  proof cases
    case 1
    moreover have "(getHours d - 12) mod 12 = getHours d mod 12" by presburger
    ultimately show ?thesis
      using base_hours [OF assms(1), of "getHours d - 12"] p(3) by (simp add: ampmValue_def hourValue_def display_hour_def)
  next
    case 2
    then show ?thesis
      using base_hours [OF assms(1), of "getHours d + 12"] p(2) by (simp add: ampmValue_def hourValue_def display_hour_def)
  next
    case 3
    then show ?thesis by (simp add: ampmValue_def)
  qed
qed

text \<open>
  With twelve hours the list goes from 00 to 11, but noon and midnight are shown as 12, which is not in the
  list.
\<close>

theorem twelve_is_not_offered:
  "hour_options True False 1 [] = Some hs \<Longrightarrow> getHours d = 12 \<Longrightarrow> hourValue True (Some d) \<notin> set hs"
proof -
  assume hs: "hour_options True False 1 [] = Some hs" and d: "getHours d = 12"
  from hs time_options_exact [where maximum = 11 and hide = False and step = 1 and disabledOptions = "[]"]
  obtain ns where ns: "hs = map pad2 ns" "set ns = {n. 0 \<le> n \<and> n \<le> 11}"
    by (auto simp: hour_options_def)
  have "pad2 12 \<noteq> pad2 n" if "0 \<le> n" "n \<le> 11" for n
    using that pad2_value [of n] pad2_value [of 12] by auto
  then have "pad2 12 \<notin> set hs" by (simp add: ns image_iff)
  then show ?thesis by (simp add: hourValue_def d display_hour_def)
qed

subsection \<open>Typing\<close>

lemma colon_not_digit: "list_all digit s \<Longrightarrow> CHR '':'' \<notin> set s"
  by (auto simp: list_all_iff digit_def)

lemma trim_digit_ends: "list_all digit a \<Longrightarrow> list_all digit b \<Longrightarrow> a \<noteq> [] \<Longrightarrow> b \<noteq> [] \<Longrightarrow> js_trim (a @ s @ b) = a @ s @ b"
  by (cases a; cases b rule: rev_cases) (simp_all add: js_trim_def digit_not_space)

lemma digits12_pad2: "0 \<le> n \<Longrightarrow> n < 100 \<Longrightarrow> digits12 (pad2 n)"
  by (simp add: digits12_def pad2_digits pad2_length)

text \<open>
  Typing a time with seconds does not set it: the whole match is read as the hour and every group is taken one
  place too late, so the minute becomes the hour again and the second the minute.
\<close>

theorem typed_time_is_shifted:
  assumes "has_part fmt ''ss''" "0 \<le> h" "h < 24" "0 \<le> m" "m < 60" "0 \<le> s" "s < 60"
  shows "parseTimeInput False fmt val now (pad2 h @ '':'' @ pad2 m @ '':'' @ pad2 s)
    = Some (set_time h h m (base_date val now))"
proof -
  let ?t = "pad2 h @ '':'' @ pad2 m @ '':'' @ pad2 s"
  have ne: "pad2 h \<noteq> []" "pad2 s \<noteq> []" using pad2_length [of h] pad2_length [of s] assms by auto
  have split: "split_on CHR '':'' ?t = [pad2 h, pad2 m, pad2 s]"
    using assms by (simp add: split_on_append split_on_none colon_not_digit pad2_digits)
  have trim: "js_trim ?t = ?t"
    using trim_digit_ends [OF pad2_digits pad2_digits ne, of "'':'' @ pad2 m @ '':''"] assms by simp
  have "match_time False True ?t = Some [Some ?t, Some (pad2 h), Some (pad2 m), Some (pad2 s)]"
    unfolding match_time_def split Let_def using assms by (simp add: digits12_pad2)
  moreover have "int_prefix ?t = h"
    using assms pad2_digits [of h] by (simp add: int_prefix_def takeWhile_append2 list_all_iff digit_def pad2_value [of h])
  ultimately show ?thesis
    using assms trim unfolding parseTimeInput_def
    by (simp add: group_at_def nth_opt_def base_date_def Let_def split: option.split)
qed

theorem typed_time_is_shifted_witness:
  "parseTimeInput False ''HH:mm:ss'' None \<lparr>dt_day = 0, dt_secs = 0\<rparr> (pad2 10 @ '':'' @ pad2 20 @ '':'' @ pad2 30)
    = Some (set_time 10 10 20 \<lparr>dt_day = 0, dt_secs = 0\<rparr>)"
  using typed_time_is_shifted [of "''HH:mm:ss''" 10 20 30 None "\<lparr>dt_day = 0, dt_secs = 0\<rparr>"]
  by (simp add: has_part_def str_includes_def to_lower_def lower_char_def starts_with_def base_date_def)

end
