(* ===== verification/Input_Select.thy ===== *)
theory Input_Select
  imports Js_String
begin

text \<open>
  The input that selects tags (\<open>components/ui/input-select.tsx\<close>): texts, numbers or dates, one or several.
  The value belongs to the form around the input, which takes over what \<open>onChange\<close> is given. A date is its
  number of milliseconds, \<open>None\<close> for an invalid one; what \<open>new Date\<close> reads from a text is the argument
  \<open>pdate\<close>, the present time is \<open>now\<close>.
\<close>

section \<open>Values\<close>

datatype input_type = Text_Input | Number_Input | Date_Input | Datetime_Input

datatype tag = Text_Tag string | Number_Tag jsnum | Date_Tag "int option"

datatype tag_value = No_Value | One_Value tag | Many_Values "tag list"

record select_option =
  so_value :: string
  so_label :: string

record input_props =
  ip_options :: "select_option list"
  ip_multi :: bool
  ip_type :: input_type

record input_select =
  is_value :: tag_value
  is_input :: string
  is_open :: bool
  is_focused :: bool

definition is_date_type :: "input_type \<Rightarrow> bool" where
  "is_date_type ty = (ty = Date_Input \<or> ty = Datetime_Input)"

text \<open>\<open>Number(v)\<close> and \<open>new Date(v)\<close> of a tag.\<close>

fun to_number :: "tag \<Rightarrow> jsnum" where
  "to_number (Text_Tag s) = js_Number s"
| "to_number (Number_Tag n) = n"
| "to_number (Date_Tag (Some t)) = Fin (of_int t)"
| "to_number (Date_Tag None) = NaN"

fun to_date :: "(string \<Rightarrow> int option) \<Rightarrow> tag \<Rightarrow> int option" where
  "to_date pdate (Text_Tag s) = pdate s"
| "to_date pdate (Number_Tag (Fin q)) = Some \<lfloor>q\<rfloor>"
| "to_date pdate (Number_Tag _) = None"
| "to_date pdate (Date_Tag t) = t"

fun to_text :: "tag \<Rightarrow> string" where
  "to_text (Text_Tag s) = s"
| "to_text (Number_Tag n) = num_str n"
| "to_text (Date_Tag t) = (case t of Some n \<Rightarrow> int_str n | None \<Rightarrow> ''Invalid Date'')"

text \<open>Equality of numbers and of times: what is not a number equals nothing.\<close>

definition num_seq :: "jsnum \<Rightarrow> jsnum \<Rightarrow> bool" where
  "num_seq a b = (a = b \<and> a \<noteq> NaN)"

definition time_seq :: "int option \<Rightarrow> int option \<Rightarrow> bool" where
  "time_seq a b = (a = b \<and> a \<noteq> None)"

definition normalizedValue :: "(string \<Rightarrow> int option) \<Rightarrow> input_type \<Rightarrow> tag_value \<Rightarrow> tag list" where
  "normalizedValue pdate ty v =
     (case v of
        Many_Values ts \<Rightarrow> ts
      | One_Value t \<Rightarrow>
          (if ty = Number_Input then [Number_Tag (to_number t)]
           else if is_date_type ty then [Date_Tag (to_date pdate t)]
           else [Text_Tag (to_text t)])
      | No_Value \<Rightarrow> [])"

text \<open>The value handed on for the tags that are left: all of them, or the first one or an empty one.\<close>

definition or_else :: "tag option \<Rightarrow> tag \<Rightarrow> tag" where
  "or_else t d =
     (case t of
        Some (Text_Tag s) \<Rightarrow> if s \<noteq> [] then Text_Tag s else d
      | Some (Number_Tag n) \<Rightarrow> if n \<noteq> Fin 0 \<and> n \<noteq> NaN then Number_Tag n else d
      | Some (Date_Tag t) \<Rightarrow> Date_Tag t
      | None \<Rightarrow> d)"

definition left_over :: "input_props \<Rightarrow> int \<Rightarrow> tag list \<Rightarrow> tag_value" where
  "left_over p now newValue =
     (if ip_multi p then Many_Values newValue
      else One_Value (or_else (hd_opt newValue)
        (if ip_type p = Number_Input then Number_Tag (Fin 0)
         else if is_date_type (ip_type p) then Date_Tag (Some now) else Text_Tag [])))"

section \<open>Handlers\<close>

definition handleRemoveTag ::
  "(string \<Rightarrow> int option) \<Rightarrow> input_props \<Rightarrow> int \<Rightarrow> tag \<Rightarrow> input_select \<Rightarrow> input_select" where
  "handleRemoveTag pdate p now t s =
     s\<lparr>is_value := left_over p now
       (filter (\<lambda>v. if ip_type p = Number_Input then v \<noteq> t \<or> v = Number_Tag NaN
                   else if is_date_type (ip_type p) then \<not> time_seq (to_date pdate v) (to_date pdate t)
                   else v \<noteq> t)
         (normalizedValue pdate (ip_type p) (is_value s)))\<rparr>"

definition handleAddTag ::
  "(string \<Rightarrow> int option) \<Rightarrow> input_props \<Rightarrow> tag \<Rightarrow> input_select \<Rightarrow> input_select" where
  "handleAddTag pdate p optionValue s =
     (let vs = normalizedValue pdate (ip_type p) (is_value s);
          new_value =
            (if ip_type p = Number_Input then
               (let n = to_number optionValue in
                if n = NaN then None
                else if ip_multi p then (if Number_Tag n \<in> set vs then None else Some (Many_Values (vs @ [Number_Tag n])))
                else Some (One_Value (Number_Tag n)))
             else if is_date_type (ip_type p) then
               (let d = to_date pdate optionValue in
                if ip_multi p then
                  (if list_ex (\<lambda>v. time_seq (to_date pdate v) d) vs then None else Some (Many_Values (vs @ [Date_Tag d])))
                else Some (One_Value (Date_Tag d)))
             else if ip_multi p then (if optionValue \<in> set vs then None else Some (Many_Values (vs @ [optionValue])))
             else Some (One_Value optionValue))
      in (case new_value of Some v \<Rightarrow> s\<lparr>is_value := v\<rparr> | None \<Rightarrow> s)\<lparr>is_input := [], is_open := False\<rparr>)"

definition input_changed :: "string \<Rightarrow> input_select \<Rightarrow> input_select" where
  "input_changed newValue s = s\<lparr>is_input := newValue, is_open := (newValue \<noteq> [])\<rparr>"

text \<open>Whether a text, read as a tag, equals a tag that is there.\<close>

definition same_as :: "(string \<Rightarrow> int option) \<Rightarrow> input_type \<Rightarrow> tag \<Rightarrow> tag \<Rightarrow> bool" where
  "same_as pdate ty v w =
     (if ty = Number_Input then num_seq (to_number v) (to_number w)
      else if is_date_type ty then time_seq (to_date pdate v) (to_date pdate w)
      else to_text v = to_text w)"

definition typed_tag :: "(string \<Rightarrow> int option) \<Rightarrow> input_type \<Rightarrow> string \<Rightarrow> tag option" where
  "typed_tag pdate ty i =
     (if ty = Number_Input then (if js_Number i = NaN then None else Some (Number_Tag (js_Number i)))
      else if is_date_type ty then (case pdate i of None \<Rightarrow> None | Some t \<Rightarrow> Some (Date_Tag (Some t)))
      else Some (Text_Tag i))"

definition matched_option :: "input_props \<Rightarrow> string \<Rightarrow> select_option option" where
  "matched_option p i = find (\<lambda>opt. to_lower (so_label opt) = to_lower i) (ip_options p)"

definition enter_key :: "(string \<Rightarrow> int option) \<Rightarrow> input_props \<Rightarrow> input_select \<Rightarrow> input_select" where
  "enter_key pdate p s =
     (case typed_tag pdate (ip_type p) (is_input s) of
        None \<Rightarrow> s
      | Some valueToAdd \<Rightarrow>
          (case matched_option p (is_input s) of
             Some opt \<Rightarrow> handleAddTag pdate p (Text_Tag (so_value opt)) s
           | None \<Rightarrow>
               if list_ex (\<lambda>v. same_as pdate (ip_type p) v valueToAdd) (normalizedValue pdate (ip_type p) (is_value s))
               then s else handleAddTag pdate p valueToAdd s))"

definition key_down :: "(string \<Rightarrow> int option) \<Rightarrow> input_props \<Rightarrow> int \<Rightarrow> string \<Rightarrow> input_select \<Rightarrow> input_select" where
  "key_down pdate p now key s =
     (let vs = normalizedValue pdate (ip_type p) (is_value s) in
      if key = ''Backspace'' \<and> is_input s = [] \<and> vs \<noteq> [] then s\<lparr>is_value := left_over p now (butlast vs)\<rparr>
      else if key = ''Enter'' \<and> js_trim (is_input s) \<noteq> [] then enter_key pdate p s
      else if key = ''Escape'' then s\<lparr>is_open := False\<rparr>
      else s)"

definition container_click :: "input_select \<Rightarrow> input_select" where
  "container_click s = s\<lparr>is_open := True, is_focused := True\<rparr>"

definition blur_timeout :: "input_select \<Rightarrow> input_select" where
  "blur_timeout s = s\<lparr>is_open := False, is_focused := False\<rparr>"

section \<open>Options\<close>

definition availableOptions :: "(string \<Rightarrow> int option) \<Rightarrow> input_props \<Rightarrow> input_select \<Rightarrow> select_option list" where
  "availableOptions pdate p s =
     (if ip_multi p then
        filter (\<lambda>opt. \<not> list_ex (\<lambda>v. same_as pdate (ip_type p) v (Text_Tag (so_value opt)))
            (normalizedValue pdate (ip_type p) (is_value s))) (ip_options p)
      else ip_options p)"

definition filteredOptions :: "(string \<Rightarrow> int option) \<Rightarrow> input_props \<Rightarrow> input_select \<Rightarrow> select_option list" where
  "filteredOptions pdate p s =
     filter (\<lambda>opt. is_input s = [] \<or> str_includes (to_lower (so_label opt)) (to_lower (is_input s)))
       (availableOptions pdate p s)"

definition showInputAsOption :: "(string \<Rightarrow> int option) \<Rightarrow> input_props \<Rightarrow> input_select \<Rightarrow> bool" where
  "showInputAsOption pdate p s =
     (let i = is_input s; vs = normalizedValue pdate (ip_type p) (is_value s) in
      i \<noteq> []
      \<and> \<not> list_ex (\<lambda>opt. to_lower (so_label opt) = to_lower i) (ip_options p)
      \<and> \<not> (if ip_type p = Number_Input then js_Number i \<noteq> NaN \<and> Number_Tag (js_Number i) \<in> set vs
          else if is_date_type (ip_type p) then list_ex (\<lambda>v. time_seq (to_date pdate v) (pdate i)) vs
          else Text_Tag i \<in> set vs)
      \<and> js_trim i \<noteq> [])"

definition pick_option :: "(string \<Rightarrow> int option) \<Rightarrow> input_props \<Rightarrow> select_option \<Rightarrow> input_select \<Rightarrow> input_select" where
  "pick_option pdate p opt s =
     (case typed_tag pdate (ip_type p) (so_value opt) of Some t \<Rightarrow> handleAddTag pdate p t s | None \<Rightarrow> s)"

definition pick_input :: "(string \<Rightarrow> int option) \<Rightarrow> input_props \<Rightarrow> input_select \<Rightarrow> input_select" where
  "pick_input pdate p s =
     handleAddTag pdate p
       (if ip_type p = Number_Input then Number_Tag (js_Number (is_input s))
        else if is_date_type (ip_type p) then Date_Tag (pdate (is_input s)) else Text_Tag (is_input s)) s"

text \<open>What is shown of the value; \<open>emp\<close> is \<open>isEmpty\<close> of lodash, which holds of numbers and of dates.\<close>

definition shows_single_value :: "(tag \<Rightarrow> bool) \<Rightarrow> (string \<Rightarrow> int option) \<Rightarrow> input_props \<Rightarrow> input_select \<Rightarrow> bool" where
  "shows_single_value emp pdate p s =
     (\<not> ip_multi p \<and> (case normalizedValue pdate (ip_type p) (is_value s) of [] \<Rightarrow> False | t # _ \<Rightarrow> \<not> emp t))"

definition tag_label :: "(string \<Rightarrow> int option) \<Rightarrow> input_props \<Rightarrow> tag \<Rightarrow> string" where
  "tag_label pdate p t =
     (case find (\<lambda>opt. if ip_type p = Number_Input \<or> is_date_type (ip_type p)
                       then same_as pdate (ip_type p) (Text_Tag (so_value opt)) t else so_value opt = to_text t)
        (ip_options p) of Some opt \<Rightarrow> so_label opt | None \<Rightarrow> to_text t)"

section \<open>Runs\<close>

datatype input_event =
    Type_Text string | Press_Key string | Remove_Tag tag | Pick_Option select_option | Pick_Input
  | Click_Container | Blur_Over

fun input_step :: "(string \<Rightarrow> int option) \<Rightarrow> input_props \<Rightarrow> int \<Rightarrow> input_event \<Rightarrow> input_select \<Rightarrow> input_select" where
  "input_step pdate p now (Type_Text x) s = input_changed x s"
| "input_step pdate p now (Press_Key k) s = key_down pdate p now k s"
| "input_step pdate p now (Remove_Tag t) s = handleRemoveTag pdate p now t s"
| "input_step pdate p now (Pick_Option opt) s =
     (if opt \<in> set (filteredOptions pdate p s) then pick_option pdate p opt s else s)"
| "input_step pdate p now Pick_Input s = (if showInputAsOption pdate p s then pick_input pdate p s else s)"
| "input_step pdate p now Click_Container s = container_click s"
| "input_step pdate p now Blur_Over s = blur_timeout s"

definition empty_input :: input_select where
  "empty_input = \<lparr>is_value = Many_Values [], is_input = [], is_open = False, is_focused = False\<rparr>"

definition good_tag :: "input_type \<Rightarrow> tag \<Rightarrow> bool" where
  "good_tag ty t =
     (case t of Text_Tag s \<Rightarrow> ty = Text_Input
      | Number_Tag n \<Rightarrow> ty = Number_Input \<and> n \<noteq> NaN
      | Date_Tag d \<Rightarrow> is_date_type ty \<and> d \<noteq> None)"

definition good_value :: "input_type \<Rightarrow> tag_value \<Rightarrow> bool" where
  "good_value ty v = (\<exists>ts. v = Many_Values ts \<and> distinct ts \<and> list_all (good_tag ty) ts)"

section \<open>Properties\<close>

definition typed_ok :: "(string \<Rightarrow> int option) \<Rightarrow> input_type \<Rightarrow> string \<Rightarrow> bool" where
  "typed_ok pdate ty x = (is_date_type ty \<and> x \<noteq> [] \<longrightarrow> pdate x \<noteq> None)"

fun event_ok :: "(string \<Rightarrow> int option) \<Rightarrow> input_type \<Rightarrow> input_event \<Rightarrow> bool" where
  "event_ok pdate ty (Type_Text x) = typed_ok pdate ty x"
| "event_ok pdate ty _ = True"

lemma type_cases: "ty = Text_Input \<or> ty = Number_Input \<or> is_date_type ty"
  by (cases ty) (simp_all add: is_date_type_def)

lemma type_distinct [simp]: "\<not> is_date_type Text_Input" "\<not> is_date_type Number_Input"
  "is_date_type ty \<Longrightarrow> ty \<noteq> Number_Input" "is_date_type ty \<Longrightarrow> ty \<noteq> Text_Input"
  by (auto simp: is_date_type_def)

definition suits_type :: "(string \<Rightarrow> int option) \<Rightarrow> input_type \<Rightarrow> tag \<Rightarrow> bool" where
  "suits_type pdate ty t =
     ((ty = Text_Input \<longrightarrow> (\<exists>s. t = Text_Tag s)) \<and> (is_date_type ty \<longrightarrow> to_date pdate t \<noteq> None))"

lemma add_good:
  assumes "good_value (ip_type p) (is_value s)" "ip_multi p" "suits_type pdate (ip_type p) t"
  shows "good_value (ip_type p) (is_value (handleAddTag pdate p t s))"
proof -
  from assms(1) obtain ts where ts: "is_value s = Many_Values ts" "distinct ts" "list_all (good_tag (ip_type p)) ts"
    by (auto simp: good_value_def)
  consider "ip_type p = Text_Input" | "ip_type p = Number_Input" | "is_date_type (ip_type p)"
    using type_cases by blast
  then show ?thesis
  proof cases
    case 1
    then show ?thesis
      using ts assms(2,3) by (auto simp: handleAddTag_def normalizedValue_def good_value_def good_tag_def suits_type_def Let_def)
  next
    case 2
    then show ?thesis
      using ts assms(2) by (auto simp: handleAddTag_def normalizedValue_def good_value_def good_tag_def Let_def)
  next
    case 3
    then have n: "ip_type p \<noteq> Number_Input" by simp
    let ?d = "to_date pdate t"
    have d: "?d \<noteq> None" using assms(3) 3 by (simp add: suits_type_def)
    have g: "list_all (good_tag (ip_type p)) (ts @ [Date_Tag ?d])"
      using ts(3) 3 d by (simp add: good_tag_def)
    show ?thesis
    proof (cases "list_ex (\<lambda>v. time_seq (to_date pdate v) ?d) ts")
      case True
      then show ?thesis
        using ts 3 n assms(2) by (simp add: handleAddTag_def normalizedValue_def good_value_def Let_def)
    next
      case False
      then have "Date_Tag ?d \<notin> set ts" using d by (auto simp: list_ex_iff time_seq_def)
      with False show ?thesis
        using ts g 3 n assms(2) by (simp add: handleAddTag_def normalizedValue_def good_value_def Let_def)
    qed
  qed
qed

lemma left_good:
  assumes "good_value (ip_type p) (is_value s)" "ip_multi p"
  shows "good_value (ip_type p) (left_over p now (filter P (normalizedValue pdate (ip_type p) (is_value s))))"
    and "good_value (ip_type p) (left_over p now (butlast (normalizedValue pdate (ip_type p) (is_value s))))"
  using assms
  by (auto simp: good_value_def left_over_def normalizedValue_def distinct_butlast list_all_iff dest: in_set_butlastD)

lemma typed_suits: "typed_tag pdate ty x = Some t \<Longrightarrow> suits_type pdate ty t"
  using type_cases [of ty]
  by (auto simp: typed_tag_def suits_type_def split: if_splits option.splits)

definition options_ok :: "(string \<Rightarrow> int option) \<Rightarrow> input_props \<Rightarrow> bool" where
  "options_ok pdate p = list_all (\<lambda>opt. is_date_type (ip_type p) \<longrightarrow> pdate (so_value opt) \<noteq> None) (ip_options p)"

lemma enter_good:
  assumes "good_value (ip_type p) (is_value s)" "ip_multi p" "options_ok pdate p"
  shows "good_value (ip_type p) (is_value (enter_key pdate p s))"
proof (cases "typed_tag pdate (ip_type p) (is_input s)")
  case None
  then show ?thesis using assms(1) by (simp add: enter_key_def)
next
  case (Some v)
  show ?thesis
  proof (cases "matched_option p (is_input s)")
    case None
    then show ?thesis
      using Some assms(1) add_good [OF assms(1,2) typed_suits [OF Some]] by (simp add: enter_key_def)
  next
    case (Some opt)
    then have "opt \<in> set (ip_options p)" using find_SomeD by (fastforce simp: matched_option_def)
    with assms(3) have "suits_type pdate (ip_type p) (Text_Tag (so_value opt))"
      by (auto simp: options_ok_def suits_type_def list_all_iff)
    from add_good [OF assms(1,2) this] show ?thesis
      using Some \<open>typed_tag _ _ _ = Some v\<close> by (simp add: enter_key_def)
  qed
qed

definition select_inv :: "(string \<Rightarrow> int option) \<Rightarrow> input_props \<Rightarrow> input_select \<Rightarrow> bool" where
  "select_inv pdate p s = (good_value (ip_type p) (is_value s) \<and> typed_ok pdate (ip_type p) (is_input s))"

lemma add_input [simp]: "is_input (handleAddTag pdate p t s) = []"
  by (simp add: handleAddTag_def Let_def)

lemma typed_ok_Nil [simp]: "typed_ok pdate ty []"
  by (simp add: typed_ok_def)

lemma enter_input: "typed_ok pdate ty (is_input s) \<Longrightarrow> typed_ok pdate ty (is_input (enter_key pdate p s))"
  by (simp add: enter_key_def split: option.split)

lemma input_step_inv:
  assumes "select_inv pdate p s" "ip_multi p" "options_ok pdate p" "event_ok pdate (ip_type p) e"
  shows "select_inv pdate p (input_step pdate p now e s)"
proof -
  from assms(1) have g: "good_value (ip_type p) (is_value s)" and i: "typed_ok pdate (ip_type p) (is_input s)"
    by (simp_all add: select_inv_def)
  show ?thesis
  proof (cases e)
    case (Press_Key k)
    then show ?thesis
      using g i left_good [OF g assms(2)] enter_good [OF g assms(2,3)] enter_input [OF i]
      by (simp add: select_inv_def key_down_def Let_def)
  next
    case (Pick_Option opt)
    then show ?thesis
      using g i add_good [OF g assms(2) typed_suits]
      by (auto simp: select_inv_def pick_option_def split: option.split)
  next
    case Pick_Input
    show ?thesis
    proof (cases "showInputAsOption pdate p s")
      case True
      then have "is_input s \<noteq> []" by (simp add: showInputAsOption_def Let_def)
      with i have "suits_type pdate (ip_type p)
          (if ip_type p = Number_Input then Number_Tag (js_Number (is_input s))
           else if is_date_type (ip_type p) then Date_Tag (pdate (is_input s)) else Text_Tag (is_input s))"
        by (auto simp: suits_type_def typed_ok_def)
      from add_good [OF g assms(2) this] Pick_Input True show ?thesis
        by (simp add: select_inv_def pick_input_def)
    next
      case False
      with Pick_Input g i show ?thesis by (simp add: select_inv_def)
    qed
  qed (use g i left_good [OF g assms(2)] assms(4) in
      \<open>simp_all add: select_inv_def input_changed_def handleRemoveTag_def container_click_def blur_timeout_def\<close>)
qed

text \<open>
  C38. Whatever is typed, picked, removed and pressed, the tags of an input for several values stay different
  from each other and of the type of the input, and none is no number or an invalid date. For dates the
  options and what the browser lets the user type must be dates.
\<close>

theorem tags_stay_good:
  assumes "ip_multi p" "options_ok pdate p" "list_all (event_ok pdate (ip_type p)) es"
  shows "good_value (ip_type p) (is_value (foldl (\<lambda>s e. input_step pdate p now e s) empty_input es))"
proof -
  have "list_all (event_ok pdate (ip_type p)) es \<Longrightarrow> select_inv pdate p s \<Longrightarrow>
      select_inv pdate p (foldl (\<lambda>s e. input_step pdate p now e s) s es)" for s
    by (induction es arbitrary: s) (simp_all add: input_step_inv [OF _ assms(1,2)])
  moreover have "select_inv pdate p empty_input"
    by (simp add: select_inv_def empty_input_def good_value_def)
  ultimately show ?thesis using assms(3) by (simp add: select_inv_def)
qed

definition number_props :: input_props where
  "number_props = \<lparr>ip_options = [\<lparr>so_value = ''7'', so_label = ''seven''\<rparr>], ip_multi = True, ip_type = Number_Input\<rparr>"

theorem tags_stay_good_witness:
  "good_value Number_Input (is_value (foldl (\<lambda>s e. input_step (\<lambda>_. None) number_props 0 e s) empty_input
     [Type_Text ''7'', Press_Key ''Enter'', Type_Text ''Seven'', Press_Key ''Enter'']))"
  using tags_stay_good [of number_props "\<lambda>_. None"
      "[Type_Text ''7'', Press_Key ''Enter'', Type_Text ''Seven'', Press_Key ''Enter'']" 0]
  by (simp add: number_props_def options_ok_def typed_ok_def)

text \<open>
  Picking an option puts its tag behind the others, closes the menu, and takes exactly the options that
  stand for this tag out of the menu.
\<close>

theorem picked_option_leaves_menu:
  assumes "ip_multi p" "good_value (ip_type p) (is_value s)" "opt \<in> set (filteredOptions pdate p s)"
    and "typed_tag pdate (ip_type p) (so_value opt) = Some t"
  shows "normalizedValue pdate (ip_type p) (is_value (pick_option pdate p opt s)) =
      normalizedValue pdate (ip_type p) (is_value s) @ [t]
    \<and> \<not> is_open (pick_option pdate p opt s)
    \<and> availableOptions pdate p (pick_option pdate p opt s) =
        filter (\<lambda>x. \<not> same_as pdate (ip_type p) t (Text_Tag (so_value x))) (availableOptions pdate p s)
    \<and> opt \<notin> set (availableOptions pdate p (pick_option pdate p opt s))"
proof -
  from assms(2) obtain ts where ts: "is_value s = Many_Values ts" "list_all (good_tag (ip_type p)) ts"
    by (auto simp: good_value_def)
  have no: "\<not> list_ex (\<lambda>v. same_as pdate (ip_type p) v (Text_Tag (so_value opt))) ts"
    using assms(1,3) ts by (simp add: filteredOptions_def availableOptions_def normalizedValue_def)
  have new: "is_value (handleAddTag pdate p t s) = Many_Values (ts @ [t])"
  proof -
    consider "ip_type p = Text_Input" | "ip_type p = Number_Input" | "is_date_type (ip_type p)"
      using type_cases by blast
    then show ?thesis
    proof cases
      case 1
      then show ?thesis
        using assms(1,4) ts no
        by (auto simp: handleAddTag_def normalizedValue_def typed_tag_def same_as_def list_ex_iff Let_def)
    next
      case 2
      then show ?thesis
        using assms(1,4) ts no
        by (auto simp: handleAddTag_def normalizedValue_def typed_tag_def same_as_def list_ex_iff Let_def num_seq_def
            split: if_splits)
    next
      case 3
      then show ?thesis
        using assms(1,4) ts no
        by (auto simp: handleAddTag_def normalizedValue_def typed_tag_def same_as_def Let_def split: option.splits)
    qed
  qed
  have self: "same_as pdate (ip_type p) t (Text_Tag (so_value opt))"
    using assms(4) type_cases [of "ip_type p"]
    by (auto simp: typed_tag_def same_as_def num_seq_def time_seq_def split: if_splits option.splits)
  show ?thesis
    using assms(1,4) ts(1) new self
    by (auto simp: pick_option_def normalizedValue_def availableOptions_def handleAddTag_def Let_def)
qed

theorem picked_option_leaves_menu_witness:
  "availableOptions (\<lambda>_. None) number_props (pick_option (\<lambda>_. None) number_props \<lparr>so_value = ''7'', so_label = ''seven''\<rparr> empty_input) = []"
proof -
  let ?opt = "\<lparr>so_value = ''7'', so_label = ''seven''\<rparr>"
  have n: "js_Number ''7'' = Fin 7"
    using js_Number_nat_str [of 7] by (simp add: nat_str.simps digit_char_def char_of_def bit_Suc_0_iff)
  have "?opt \<in> set (filteredOptions (\<lambda>_. None) number_props empty_input)"
    "typed_tag (\<lambda>_. None) Number_Input ''7'' = Some (Number_Tag (Fin 7))" "good_value Number_Input (is_value empty_input)"
    by (simp_all add: filteredOptions_def availableOptions_def number_props_def empty_input_def normalizedValue_def
        typed_tag_def n good_value_def)
  with picked_option_leaves_menu [of number_props empty_input ?opt "\<lambda>_. None" "Number_Tag (Fin 7)"] show ?thesis
    by (auto simp: number_props_def availableOptions_def empty_input_def normalizedValue_def same_as_def num_seq_def n)
qed

text \<open>A single number or date that is chosen is never shown: \<open>isEmpty\<close> holds of every number and date.\<close>

theorem single_number_not_shown:
  assumes "\<And>n. emp (Number_Tag n)" "\<And>d. emp (Date_Tag d)" "ip_type p \<noteq> Text_Input"
    and "is_value s = One_Value t"
  shows "\<not> shows_single_value emp pdate p s"
  using assms type_cases [of "ip_type p"] by (auto simp: shows_single_value_def normalizedValue_def)

text \<open>Removing the only number of a single input does not empty it: the value is then zero.\<close>

theorem removed_number_is_zero:
  assumes "\<not> ip_multi p" "ip_type p = Number_Input" "n \<noteq> NaN" "is_value s = One_Value (Number_Tag n)"
  shows "is_value (handleRemoveTag pdate p now (Number_Tag n) s) = One_Value (Number_Tag (Fin 0))"
  using assms by (simp add: handleRemoveTag_def left_over_def normalizedValue_def or_else_def)

end
