(* ===== verification/Dynamic_Form.thy ===== *)
theory Dynamic_Form
  imports Js_String "HOL-Library.Sublist"
begin

text \<open>
  Forms built from a list of fields (\<open>components/dynamic-form.tsx\<close>): the validation schema, the default
  values, the values that are handed on and the errors of a submission. Names of fields are paths with dots,
  so each of these is a tree that is written at the paths of the fields; the interface \<open>path_store\<close> says what
  writing promises. A schema is the sequence of calls of the validation package that makes it; what the
  package answers is an argument.
\<close>

section \<open>Fields\<close>

datatype field_type =
    F_Text | F_Email | F_Password | F_Number | F_Textarea | F_Select | F_MultiSelect | F_Checkbox | F_Switch
  | F_Tag | F_Segmented | F_Custom

datatype custom_result = Custom_Text string | Custom_Bool bool | Custom_Error string | Custom_Throw

record form_field =
  ff_name :: string
  ff_label :: string
  ff_type :: field_type
  ff_required :: bool
  ff_default :: jsv
  ff_schema :: "string option"
  ff_min_length :: "int option"
  ff_max_length :: "int option"
  ff_pattern :: "string option"
  ff_min :: "int option"
  ff_max :: "int option"
  ff_message :: string
  ff_should_render :: "(jsv \<Rightarrow> bool) option"
  ff_custom :: "(jsv \<Rightarrow> jsv \<Rightarrow> custom_result) option"
  ff_dependencies :: "string list"

definition FilterFormField :: string where
  "FilterFormField = ''RAG_DY_STATIC''"

definition keys_of :: "form_field \<Rightarrow> string list" where
  "keys_of f = split_on CHR ''.'' (ff_name f)"

section \<open>Nested values\<close>

definition nested_step :: "jsv \<Rightarrow> string \<Rightarrow> jsv" where
  "nested_step current k = (if truthy current then jget current k else JUndef)"

definition getNestedValue :: "jsv \<Rightarrow> string list \<Rightarrow> jsv" where
  "getNestedValue obj path = foldl nested_step obj path"

text \<open>
  Writing at a path, with objects made where a key has nothing; a property of a text, a number or \<open>true\<close>
  cannot be written. (A list on the way, which the fields never put there, is taken as such a value.)
\<close>

fun put_path :: "string list \<Rightarrow> jsv \<Rightarrow> jsv \<Rightarrow> jsv js" where
  "put_path [k] v (JObj ps) = Inr (JObj (obj_put k v ps))"
| "put_path (k # k' # ks) v (JObj ps) =
     js_bind (put_path (k' # ks) v (if truthy (jget (JObj ps) k) then jget (JObj ps) k else JObj []))
       (\<lambda>w. Inr (JObj (obj_put k w ps)))"
| "put_path _ v _ = Inl (TypeError ''Cannot create property'')"

section \<open>Default values\<close>

definition default_of :: "form_field \<Rightarrow> jsv" where
  "default_of f =
     (if ff_default f \<noteq> JUndef then ff_default f
      else if ff_type f = F_Checkbox \<or> ff_type f = F_Switch then JBool False
      else if ff_type f = F_Tag then JArr []
      else if ff_type f = F_MultiSelect \<and> CHR ''.'' \<notin> set (ff_name f) then JArr []
      else JStr [])"

definition generateDefaultValues :: "form_field list \<Rightarrow> jsv js" where
  "generateDefaultValues fs =
     foldl (\<lambda>m f. js_bind m (put_path (keys_of f) (default_of f))) (Inr (JObj [])) fs"

definition form_defaults :: "form_field list \<Rightarrow> jsv \<Rightarrow> jsv js" where
  "form_defaults fs formDefaultValues =
     js_bind (generateDefaultValues fs) (\<lambda>d. Inr (js_object [Spread d, Spread formDefaultValues]))"

section \<open>Values that are handed on\<close>

definition active_field :: "jsv \<Rightarrow> form_field \<Rightarrow> bool" where
  "active_field allValues f =
     (case ff_should_render f of None \<Rightarrow> True
      | Some r \<Rightarrow> r allValues \<and> \<not> str_includes (ff_name f) FilterFormField)"

fun path_exists :: "jsv \<Rightarrow> string list \<Rightarrow> bool" where
  "path_exists current [] = True"
| "path_exists current (k # ks) =
     (if truthy current \<and> jget current k \<noteq> JUndef then path_exists (jget current k) ks else False)"

definition filterActiveValues :: "form_field list \<Rightarrow> jsv \<Rightarrow> jsv js" where
  "filterActiveValues fs allValues =
     foldl (\<lambda>m f. if active_field allValues f \<and> path_exists allValues (keys_of f)
                  then js_bind m (put_path (keys_of f) (getNestedValue allValues (keys_of f))) else m)
       (Inr (JObj [])) fs"

definition onFieldUpdate :: "string \<Rightarrow> (form_field \<Rightarrow> form_field) \<Rightarrow> form_field list \<Rightarrow> form_field list" where
  "onFieldUpdate fieldName update prevFields = map (\<lambda>f. if ff_name f = fieldName then update f else f) prevFields"

section \<open>The validation schema\<close>

datatype z_base = Z_String | Z_Email | Z_Strings | Z_Number | Z_Boolean | Z_Given string

datatype z_call = Call_Min int string | Call_Max int string | Call_Regex string string | Must_Be_True string | Optional

type_synonym z_schema = "z_base \<times> z_call list"

text \<open>Which methods a schema has; for a schema that a field brings along, an argument says it.\<close>

definition z_has :: "(string \<Rightarrow> string \<Rightarrow> bool) \<Rightarrow> z_base \<Rightarrow> string \<Rightarrow> bool" where
  "z_has given m_base m =
     (case m_base of
        Z_String \<Rightarrow> True
      | Z_Email \<Rightarrow> True
      | Z_Strings \<Rightarrow> m \<noteq> ''regex''
      | Z_Number \<Rightarrow> m \<noteq> ''regex''
      | Z_Boolean \<Rightarrow> m \<noteq> ''regex'' \<and> m \<noteq> ''min'' \<and> m \<noteq> ''max''
      | Z_Given g \<Rightarrow> given g m)"

definition z_call :: "(string \<Rightarrow> string \<Rightarrow> bool) \<Rightarrow> string \<Rightarrow> z_call \<Rightarrow> z_schema \<Rightarrow> z_schema js" where
  "z_call given m c s =
     (if z_has given (fst s) m \<and> Optional \<notin> set (snd s) then Inr (fst s, snd s @ [c])
      else Inl (TypeError (m @ '' is not a function'')))"

definition or_message :: "string \<Rightarrow> string \<Rightarrow> string" where
  "or_message m d = (if m \<noteq> [] then m else d)"

definition field_base_schema :: "form_field \<Rightarrow> z_schema" where
  "field_base_schema f =
     (case ff_schema f of
        Some g \<Rightarrow> (Z_Given g, [])
      | None \<Rightarrow>
          (case ff_type f of
             F_Email \<Rightarrow> (Z_Email, [])
           | F_MultiSelect \<Rightarrow>
               if ff_required f then (Z_Strings, [Call_Min 1 (ff_label f @ '' is required'')]) else (Z_Strings, [Optional])
           | F_Segmented \<Rightarrow> (Z_String, [])
           | F_Number \<Rightarrow>
               (Z_Number,
                (case ff_min f of None \<Rightarrow> [] | Some n \<Rightarrow>
                   [Call_Min n (or_message (ff_message f) (''Value cannot be less than '' @ int_str n))])
                @ (case ff_max f of None \<Rightarrow> [] | Some n \<Rightarrow>
                   [Call_Max n (or_message (ff_message f) (''Value cannot be greater than '' @ int_str n))]))
           | F_Checkbox \<Rightarrow> (Z_Boolean, [])
           | F_Switch \<Rightarrow> (Z_Boolean, [])
           | F_Tag \<Rightarrow> (Z_Strings, [])
           | _ \<Rightarrow> (Z_String, [])))"

definition required_schema :: "(string \<Rightarrow> string \<Rightarrow> bool) \<Rightarrow> form_field \<Rightarrow> z_schema \<Rightarrow> z_schema js" where
  "required_schema given f s =
     (let m = or_message (ff_message f) (ff_label f @ '' is required'') in
      if \<not> ff_required f then Inr (fst s, snd s @ [Optional])
      else if ff_type f = F_Checkbox then z_call given ''refine'' (Must_Be_True m) s
      else z_call given ''min'' (Call_Min 1 m) s)"

definition length_rules :: "(string \<Rightarrow> string \<Rightarrow> bool) \<Rightarrow> form_field \<Rightarrow> z_schema \<Rightarrow> z_schema js" where
  "length_rules given f s =
     (if ff_type f \<in> {F_Number, F_Checkbox, F_Switch, F_Custom, F_Tag} \<or> \<not> ff_required f then Inr s
      else js_bind (case ff_min_length f of None \<Rightarrow> Inr s | Some n \<Rightarrow>
             z_call given ''min'' (Call_Min n (or_message (ff_message f) (''Enter at least '' @ int_str n @ '' characters''))) s)
       (\<lambda>s1. js_bind (case ff_max_length f of None \<Rightarrow> Inr s1 | Some n \<Rightarrow>
             z_call given ''max'' (Call_Max n (or_message (ff_message f) (''Enter up to '' @ int_str n @ '' characters''))) s1)
       (\<lambda>s2. case ff_pattern f of None \<Rightarrow> Inr s2 | Some r \<Rightarrow>
             z_call given ''regex'' (Call_Regex r (or_message (ff_message f) ''Invalid input format'')) s2)))"

definition field_schema :: "(string \<Rightarrow> string \<Rightarrow> bool) \<Rightarrow> form_field \<Rightarrow> z_schema js" where
  "field_schema given f = js_bind (required_schema given f (field_base_schema f)) (length_rules given f)"

text \<open>
  The object schema as a tree; a schema stands in its leaves. A property that is written to a leaf, which is
  an object of the package, changes no schema. Names without a dot are kept apart from the others until the
  end, when the nested schemas replace what has the same name.
\<close>

datatype z_tree = Z_Leaf z_schema | Z_Object "(string \<times> z_tree) list"

fun z_children :: "z_tree \<Rightarrow> (string \<times> z_tree) list" where
  "z_children (Z_Leaf s) = []"
| "z_children (Z_Object ts) = ts"

fun z_put :: "string list \<Rightarrow> z_schema \<Rightarrow> z_tree \<Rightarrow> z_tree" where
  "z_put _ s (Z_Leaf s') = Z_Leaf s'"
| "z_put [] s t = t"
| "z_put [k] s (Z_Object ts) = Z_Object (obj_put k (Z_Leaf s) ts)"
| "z_put (k # k' # ks) s (Z_Object ts) =
     Z_Object (obj_put k (z_put (k' # ks) s (case map_of ts k of Some t \<Rightarrow> t | None \<Rightarrow> Z_Object [])) ts)"

fun z_look :: "z_tree \<Rightarrow> string list \<Rightarrow> z_schema option" where
  "z_look (Z_Leaf s) [] = Some s"
| "z_look (Z_Object ts) (k # ks) = (case map_of ts k of Some t \<Rightarrow> z_look t ks | None \<Rightarrow> None)"
| "z_look _ _ = None"

type_synonym z_maps = "(string \<times> z_schema) list \<times> z_tree"

definition put_schema :: "string list \<Rightarrow> z_schema \<Rightarrow> z_maps \<Rightarrow> z_maps" where
  "put_schema keys s m = (if tl keys = [] then (obj_put (hd keys) s (fst m), snd m) else (fst m, z_put keys s (snd m)))"

definition buildNestedSchema :: "z_maps \<Rightarrow> z_tree" where
  "buildNestedSchema m = Z_Object (obj_assign (map (\<lambda>(k, s). (k, Z_Leaf s)) (fst m)) (z_children (snd m)))"

definition generateSchema :: "(string \<Rightarrow> string \<Rightarrow> bool) \<Rightarrow> form_field list \<Rightarrow> z_tree js" where
  "generateSchema given fs =
     js_bind (foldl (\<lambda>m f. js_bind m (\<lambda>t. js_bind (field_schema given f) (\<lambda>s. Inr (put_schema (keys_of f) s t))))
         (Inr ([], Z_Object [])) fs)
       (\<lambda>m. Inr (buildNestedSchema m))"

section \<open>Errors of a submission\<close>

definition custom_error :: "form_field \<Rightarrow> jsv \<Rightarrow> string option" where
  "custom_error f formData =
     (case ff_custom f of
        None \<Rightarrow> None
      | Some validate \<Rightarrow>
          if getNestedValue formData (keys_of f) \<noteq> JUndef
             \<and> (case ff_should_render f of None \<Rightarrow> True | Some r \<Rightarrow> r formData)
          then (case validate (getNestedValue formData (keys_of f)) formData of
                  Custom_Text m \<Rightarrow> Some m
                | Custom_Bool b \<Rightarrow> if b then None else Some (or_message (ff_message f) (ff_label f @ '' is invalid''))
                | Custom_Error m \<Rightarrow> Some m
                | Custom_Throw \<Rightarrow> Some ''Validation failed'')
          else None)"

text \<open>
  The values that are handed on and the errors by name; \<open>zod\<close> is what the package answers about the values
  of a schema. Of a list of errors the first one stays.
\<close>

definition custom_entry :: "string \<Rightarrow> jsv" where
  "custom_entry m = JObj [(''type'', JStr ''custom''), (''message'', JStr m)]"

definition first_error :: "jsv \<Rightarrow> jsv" where
  "first_error v = (case v of JArr [] \<Rightarrow> JUndef | JArr (x # xs) \<Rightarrow> x | _ \<Rightarrow> v)"

definition resolve_form ::
  "(string \<Rightarrow> string \<Rightarrow> bool) \<Rightarrow> (z_tree \<Rightarrow> jsv \<Rightarrow> (string \<times> jsv) list) \<Rightarrow> form_field list \<Rightarrow> jsv
   \<Rightarrow> (jsv \<times> (string \<times> jsv) list) js" where
  "resolve_form given zod fs formData =
     (let activeFields = filter (\<lambda>f. case ff_should_render f of None \<Rightarrow> True | Some r \<Rightarrow> r formData) fs in
      js_bind (generateSchema given activeFields) (\<lambda>activeSchema.
        let fieldErrors = foldl (\<lambda>es f. case custom_error f formData of
              Some m \<Rightarrow> obj_put (ff_name f) (custom_entry m) es | None \<Rightarrow> es) [] fs;
            combinedErrors = map (\<lambda>(k, v). (k, first_error v))
              (obj_assign (obj_assign [] (zod activeSchema formData)) fieldErrors)
        in Inr (if combinedErrors \<noteq> [] then JObj [] else formData, combinedErrors)))"

definition dependency_map :: "form_field list \<Rightarrow> (string \<times> string list) list" where
  "dependency_map fs =
     foldl (\<lambda>m f. foldl (\<lambda>m dep. obj_put dep ((case map_of m dep of Some xs \<Rightarrow> xs | None \<Rightarrow> []) @ [ff_name f]) m)
         m (ff_dependencies f)) [] fs"

section \<open>Writing at paths\<close>

definition apart :: "'a list \<Rightarrow> 'a list \<Rightarrow> bool" where
  "apart p q = (\<not> prefix p q \<and> \<not> prefix q p)"

lemma apart_Cons [simp]: "apart (k # p) (k' # q) \<longleftrightarrow> k \<noteq> k' \<or> apart p q"
  by (auto simp: apart_def)

lemma apart_Nil [simp]: "\<not> apart [] q" "\<not> apart p []"
  by (simp_all add: apart_def)

lemma apart_sym: "apart p q \<Longrightarrow> apart q p"
  by (simp add: apart_def)

text \<open>
  A tree that is written at paths: writing where there is room succeeds and is read back, and paths that
  are apart keep their value and their room.
\<close>

locale path_store =
  fixes put :: "'k list \<Rightarrow> 'v \<Rightarrow> 't \<Rightarrow> 't js" and look :: "'t \<Rightarrow> 'k list \<Rightarrow> 'v option"
    and room :: "'t \<Rightarrow> 'k list \<Rightarrow> bool" and fine :: "'v \<Rightarrow> bool"
  assumes put_room: "room t p \<Longrightarrow> fine v \<Longrightarrow> \<exists>t'. put p v t = Inr t' \<and> look t' p = Some v"
    and put_apart: "room t p \<Longrightarrow> put p v t = Inr t' \<Longrightarrow> apart p q \<Longrightarrow> look t' q = look t q"
    and room_apart: "room t p \<Longrightarrow> put p v t = Inr t' \<Longrightarrow> apart p q \<Longrightarrow> room t q \<Longrightarrow> room t' q"
begin

lemma put_all:
  assumes "sorted_wrt (\<lambda>a b. apart (fst a) (fst b)) es" "\<forall>e\<in>set es. room t (fst e) \<and> fine (snd e)"
  shows "\<exists>t'. foldl (\<lambda>m e. js_bind m (put (fst e) (snd e))) (Inr t) es = Inr t'
    \<and> (\<forall>e\<in>set es. look t' (fst e) = Some (snd e))
    \<and> (\<forall>q. (\<forall>e\<in>set es. apart (fst e) q) \<longrightarrow> look t' q = look t q)"
  using assms
proof (induction es arbitrary: t)
  case (Cons e es)
  from put_room Cons.prems(2) obtain t1 where t1: "put (fst e) (snd e) t = Inr t1" "look t1 (fst e) = Some (snd e)"
    by fastforce
  have "sorted_wrt (\<lambda>a b. apart (fst a) (fst b)) es" "\<forall>d\<in>set es. room t1 (fst d) \<and> fine (snd d)"
    using Cons.prems room_apart [OF _ t1(1)] by auto
  from Cons.IH [OF this] obtain t' where t':
    "foldl (\<lambda>m e. js_bind m (put (fst e) (snd e))) (Inr t1) es = Inr t'"
    "\<forall>d\<in>set es. look t' (fst d) = Some (snd d)"
    "\<forall>q. (\<forall>d\<in>set es. apart (fst d) q) \<longrightarrow> look t' q = look t1 q" by blast
  have "look t' (fst e) = Some (snd e)"
    using t'(3) t1(2) Cons.prems(1) apart_sym by fastforce
  moreover have "look t' q = look t q" if "\<forall>d\<in>set (e # es). apart (fst d) q" for q
    using that t'(3) put_apart [OF _ t1(1)] Cons.prems(2) by simp
  ultimately show ?case using t' t1(1) by auto
qed simp

end

lemma apart_irrefl [simp]: "\<not> apart p p"
  by (simp add: apart_def)

lemma sorted_wrt_apart:
  assumes "sorted_wrt (\<lambda>f g. apart (h f) (h g)) fs" "f \<in> set fs" "g \<in> set fs" "f \<noteq> g"
  shows "apart (h f) (h g)"
  using assms by (induction fs) (auto intro: apart_sym)

section \<open>Objects are written at paths\<close>

definition nested_option :: "jsv \<Rightarrow> string list \<Rightarrow> jsv option" where
  "nested_option t p = (if getNestedValue t p = JUndef then None else Some (getNestedValue t p))"

fun jsv_room :: "jsv \<Rightarrow> string list \<Rightarrow> bool" where
  "jsv_room (JObj ps) [k] = True"
| "jsv_room (JObj ps) (k # k' # ks) = (truthy (jget (JObj ps) k) \<longrightarrow> jsv_room (jget (JObj ps) k) (k' # ks))"
| "jsv_room _ _ = False"

lemma getNestedValue_simps [simp]:
  "getNestedValue t [] = t"
  "getNestedValue t (k # ks) = getNestedValue (nested_step t k) ks"
  by (simp_all add: getNestedValue_def)

lemma nested_step_JObj [simp]: "nested_step (JObj ps) k = jget (JObj ps) k"
  by (simp add: nested_step_def)

lemma getNestedValue_falsy: "\<not> truthy t \<Longrightarrow> p \<noteq> [] \<Longrightarrow> getNestedValue t p = JUndef"
proof (induction p arbitrary: t)
  case (Cons k p)
  then have "nested_step t k = JUndef" by (simp add: nested_step_def)
  then show ?case using Cons.IH [of JUndef] by (cases p) simp_all
qed simp

lemma getNestedValue_empty: "p \<noteq> [] \<Longrightarrow> getNestedValue (JObj []) p = JUndef"
proof (cases p)
  case (Cons k q)
  then show ?thesis using getNestedValue_falsy [of JUndef q] by (cases q) simp_all
qed simp

lemma put_path_deeper:
  assumes "put_path (k # k' # ks) v (JObj ps) = Inr t'"
  obtains w where "put_path (k' # ks) v (if truthy (jget (JObj ps) k) then jget (JObj ps) k else JObj []) = Inr w"
    "t' = JObj (obj_put k w ps)"
  using assms
  by (cases "put_path (k' # ks) v (if truthy (jget (JObj ps) k) then jget (JObj ps) k else JObj [])")
    (simp_all del: jget.simps)

lemma jsv_room_empty: "p \<noteq> [] \<Longrightarrow> jsv_room (JObj []) p"
  by (cases p; cases "tl p") auto

lemma apart_nonempty: "apart p q \<Longrightarrow> p \<noteq> [] \<and> q \<noteq> []"
  by (auto simp: apart_def)

lemma put_path_room: "jsv_room t p \<Longrightarrow> \<exists>t'. put_path p v t = Inr t' \<and> getNestedValue t' p = v"
proof (induction p v t rule: put_path.induct)
  case (2 k k' ks v ps)
  let ?c = "if truthy (jget (JObj ps) k) then jget (JObj ps) k else JObj []"
  have "jsv_room ?c (k' # ks)" using 2(2) jsv_room_empty by auto
  from 2(1) [OF this] show ?case by (auto simp del: jget.simps)
qed (auto simp del: jget.simps elim: jsv_room.elims)

lemma put_path_apart: "put_path p v t = Inr t' \<Longrightarrow> apart p q \<Longrightarrow> getNestedValue t' q = getNestedValue t q"
proof (induction p v t arbitrary: t' q rule: put_path.induct)
  case (1 k v ps)
  then show ?case using apart_nonempty by (cases q) (auto simp del: jget.simps)
next
  case (2 k k' ks v ps)
  let ?c = "if truthy (jget (JObj ps) k) then jget (JObj ps) k else JObj []"
  from 2(2) obtain w where w: "put_path (k' # ks) v ?c = Inr w" "t' = JObj (obj_put k w ps)"
    by (rule put_path_deeper)
  obtain k2 q' where q: "q = k2 # q'" using 2(3) apart_nonempty by (cases q) auto
  show ?case
  proof (cases "k2 = k")
    case True
    then have ap: "apart (k' # ks) q'" using 2(3) q by simp
    then have "getNestedValue w q' = getNestedValue ?c q'" using 2(1) w(1) by blast
    moreover have "q' \<noteq> []" using ap apart_nonempty by blast
    then have "getNestedValue ?c q' = getNestedValue (jget (JObj ps) k) q'"
      by (simp add: getNestedValue_falsy getNestedValue_empty del: jget.simps)
    ultimately show ?thesis using q True w(2) by (simp del: jget.simps)
  qed (simp add: q w(2) del: jget.simps)
qed auto

lemma put_path_room_apart: "put_path p v t = Inr t' \<Longrightarrow> apart p q \<Longrightarrow> jsv_room t q \<Longrightarrow> jsv_room t' q"
proof (induction p v t arbitrary: t' q rule: put_path.induct)
  case (1 k v ps)
  then show ?case using apart_nonempty by (cases q; cases "tl q") (auto simp del: jget.simps)
next
  case (2 k k' ks v ps)
  let ?c = "if truthy (jget (JObj ps) k) then jget (JObj ps) k else JObj []"
  from 2(2) obtain w where w: "put_path (k' # ks) v ?c = Inr w" "t' = JObj (obj_put k w ps)"
    by (rule put_path_deeper)
  obtain k2 q' where q: "q = k2 # q'" using 2(3) apart_nonempty by (cases q) auto
  show ?case
  proof (cases "k2 = k \<and> q' \<noteq> []")
    case True
    then obtain a b where q': "q' = a # b" by (cases q') auto
    have ap: "apart (k' # ks) q'" using 2(3) q True by simp
    have "jsv_room ?c q'" using 2(4) q q' True jsv_room_empty by auto
    from 2(1) [OF w(1) ap this] show ?thesis using q q' True w(2) by (auto simp del: jget.simps)
  next
    case False
    then show ?thesis using 2(4) by (cases q') (auto simp: q w(2) simp del: jget.simps)
  qed
qed auto

interpretation written_object: path_store put_path nested_option jsv_room "\<lambda>v. v \<noteq> JUndef"
proof unfold_locales
  fix t p v assume "jsv_room t p" "v \<noteq> JUndef"
  then show "\<exists>t'. put_path p v t = Inr t' \<and> nested_option t' p = Some v"
    using put_path_room [of t p v] by (auto simp: nested_option_def)
next
  fix t :: jsv and p q :: "string list" and v t'
  assume "put_path p v t = Inr t'" "apart p q"
  then show "nested_option t' q = nested_option t q"
    using put_path_apart by (simp add: nested_option_def)
next
  fix t :: jsv and p q :: "string list" and v t'
  assume "put_path p v t = Inr t'" "apart p q" "jsv_room t q"
  then show "jsv_room t' q" by (rule put_path_room_apart)
qed

section \<open>Schemas are registered under paths\<close>

fun z_room :: "z_tree \<Rightarrow> string list \<Rightarrow> bool" where
  "z_room (Z_Object ts) [k] = True"
| "z_room (Z_Object ts) (k # k' # ks) = (case map_of ts k of Some t \<Rightarrow> z_room t (k' # ks) | None \<Rightarrow> True)"
| "z_room _ _ = False"

lemma z_room_empty: "p \<noteq> [] \<Longrightarrow> z_room (Z_Object []) p"
  by (cases p; cases "tl p") auto

lemma z_look_empty: "z_look (Z_Object []) p = None"
  by (cases p) auto

lemma z_put_room: "z_room t p \<Longrightarrow> z_look (z_put p s t) p = Some s"
  by (induction p s t rule: z_put.induct) (auto simp: z_room_empty split: option.splits elim: z_room.elims)

lemma z_put_apart: "z_room t p \<Longrightarrow> apart p q \<Longrightarrow> z_look (z_put p s t) q = z_look t q"
proof (induction p s t arbitrary: q rule: z_put.induct)
  case (3 k s ts)
  then show ?case using apart_nonempty by (cases q) auto
next
  case (4 k k' ks s ts)
  let ?c = "case map_of ts k of Some t \<Rightarrow> t | None \<Rightarrow> Z_Object []"
  obtain k2 q' where q: "q = k2 # q'" using 4(3) apart_nonempty by (cases q) auto
  have "z_room ?c (k' # ks)" using 4(2) by (simp add: z_room_empty split: option.splits)
  then have "k2 = k \<Longrightarrow> z_look (z_put (k' # ks) s ?c) q' = z_look ?c q'"
    using 4(1) 4(3) q by simp
  then show ?case using q by (auto simp: z_look_empty split: option.splits)
qed auto

lemma z_put_room_apart: "z_room t p \<Longrightarrow> apart p q \<Longrightarrow> z_room t q \<Longrightarrow> z_room (z_put p s t) q"
proof (induction p s t arbitrary: q rule: z_put.induct)
  case (3 k s ts)
  then show ?case using apart_nonempty by (cases q; cases "tl q") (auto split: option.splits)
next
  case (4 k k' ks s ts)
  let ?c = "case map_of ts k of Some t \<Rightarrow> t | None \<Rightarrow> Z_Object []"
  obtain k2 q' where q: "q = k2 # q'" using 4(3) apart_nonempty by (cases q) auto
  show ?case
  proof (cases "k2 = k \<and> q' \<noteq> []")
    case True
    then obtain a b where q': "q' = a # b" by (cases q') auto
    have "z_room ?c (k' # ks)" using 4(2) by (simp add: z_room_empty split: option.splits)
    moreover have "z_room ?c q'" using 4(4) q q' True by (simp add: z_room_empty split: option.splits)
    ultimately have "z_room (z_put (k' # ks) s ?c) q'" using 4(1) 4(3) q True by simp
    then show ?thesis using q q' True by simp
  next
    case False
    then show ?thesis using 4(4) q by (cases q') auto
  qed
qed auto

text \<open>The two maps together: a name without a dot has room unless a nested schema begins with it.\<close>

fun maps_room :: "z_maps \<Rightarrow> string list \<Rightarrow> bool" where
  "maps_room (flat, Z_Object ts) [k] = (wf_obj ts \<and> map_of ts k = None)"
| "maps_room (flat, Z_Object ts) (k # k' # ks) = (wf_obj ts \<and> z_room (Z_Object ts) (k # k' # ks))"
| "maps_room _ _ = False"

lemma map_of_leaves: "map_of (map (\<lambda>(k, s). (k, Z_Leaf s)) flat) k = map_option Z_Leaf (map_of flat k)"
  by (induction flat) auto

lemma built_look:
  "wf_obj ts \<Longrightarrow> z_look (buildNestedSchema (flat, Z_Object ts)) (k # ks) =
     (case map_of ts k of Some t \<Rightarrow> z_look t ks
      | None \<Rightarrow> (case map_of flat k of Some s \<Rightarrow> z_look (Z_Leaf s) ks | None \<Rightarrow> None))"
  by (simp add: buildNestedSchema_def map_of_obj_assign map_add_def map_of_leaves split: option.splits)

lemma maps_room_wf: "maps_room (flat, t) p \<Longrightarrow> \<exists>ts. t = Z_Object ts \<and> wf_obj ts"
  by (cases "((flat, t), p)" rule: maps_room.cases) auto

lemma put_schema_simps [simp]:
  "put_schema [k] s (flat, t) = (obj_put k s flat, t)"
  "put_schema (k # k' # ks) s (flat, t) = (flat, z_put (k # k' # ks) s t)"
  by (simp_all add: put_schema_def)

abbreviation built :: "z_maps \<Rightarrow> string list \<Rightarrow> z_schema option" where
  "built m p \<equiv> z_look (buildNestedSchema m) p"

lemma put_schema_room: "maps_room m p \<Longrightarrow> built (put_schema p s m) p = Some s"
proof (induction m p rule: maps_room.induct)
  case (2 flat ts k k' ks)
  let ?w = "z_put (k' # ks) s (case map_of ts k of Some t \<Rightarrow> t | None \<Rightarrow> Z_Object [])"
  have "z_look ?w (k' # ks) = Some s"
    using 2 by (intro z_put_room) (auto simp: z_room_empty split: option.splits)
  with 2 show ?case by (simp add: built_look)
qed (simp_all add: built_look)

lemma put_schema_apart: "maps_room m p \<Longrightarrow> apart p q \<Longrightarrow> built (put_schema p s m) q = built m q"
proof (induction m p rule: maps_room.induct)
  case (1 flat ts k)
  then show ?case using apart_nonempty by (cases q) (auto simp: built_look split: option.splits)
next
  case (2 flat ts k k' ks)
  let ?c = "case map_of ts k of Some t \<Rightarrow> t | None \<Rightarrow> Z_Object []"
  obtain k2 q' where q: "q = k2 # q'" using 2(2) apart_nonempty by (cases q) auto
  have room: "z_room ?c (k' # ks)" using 2(1) by (simp add: z_room_empty split: option.splits)
  show ?case
  proof (cases "k2 = k")
    case True
    then have ap: "apart (k' # ks) q'" using 2(2) q by simp
    obtain a b where "q' = a # b" using apart_nonempty [OF ap] by (cases q') auto
    moreover have "z_look (z_put (k' # ks) s ?c) q' = z_look ?c q'"
      using z_put_apart [OF room ap] .
    ultimately show ?thesis using q True 2(1) by (auto simp: built_look split: option.splits)
  qed (use q 2(1) in \<open>simp add: built_look\<close>)
qed simp_all

lemma put_schema_room_apart: "maps_room m p \<Longrightarrow> apart p q \<Longrightarrow> maps_room m q \<Longrightarrow> maps_room (put_schema p s m) q"
proof (induction m p rule: maps_room.induct)
  case (1 flat ts k)
  then show ?case by (cases "((flat, Z_Object ts), q)" rule: maps_room.cases) auto
next
  case (2 flat ts k k' ks)
  let ?p = "k # k' # ks"
  show ?case
  proof (cases "((flat, Z_Object ts), q)" rule: maps_room.cases)
    case (1 flat' ts' k2)
    then show ?thesis using 2 by auto
  next
    case (2 flat' ts' k2 k3 q')
    then have "z_room (z_put ?p s (Z_Object ts)) q"
      using \<open>maps_room (flat, Z_Object ts) ?p\<close> \<open>maps_room (flat, Z_Object ts) q\<close> \<open>apart ?p q\<close>
      by (intro z_put_room_apart) auto
    then show ?thesis using 2 \<open>maps_room (flat, Z_Object ts) ?p\<close> by simp
  qed (use 2 in auto)
qed simp_all

interpretation registered_schemas: path_store "\<lambda>p s m. Inr (put_schema p s m)" "\<lambda>m. z_look (buildNestedSchema m)"
  maps_room "\<lambda>_. True"
proof unfold_locales
  fix m :: z_maps and p s assume "maps_room m p"
  then show "\<exists>m'. Inr (put_schema p s m) = Inr m' \<and> z_look (buildNestedSchema m') p = Some s"
    using put_schema_room by simp
next
  fix m m' :: z_maps and p q s
  assume *: "maps_room m p" "Inr (put_schema p s m) = Inr m'" "apart p q"
  show "z_look (buildNestedSchema m') q = z_look (buildNestedSchema m) q"
    using put_schema_apart [OF *(1) *(3), of s] *(2) by simp
next
  fix m m' :: z_maps and p q s
  assume *: "maps_room m p" "Inr (put_schema p s m) = Inr m'" "apart p q" "maps_room m q"
  show "maps_room m' q" using put_schema_room_apart [OF *(1) *(3) *(4), of s] *(2) by simp
qed

section \<open>What the form does with its fields\<close>

definition apart_fields :: "form_field list \<Rightarrow> bool" where
  "apart_fields fs = sorted_wrt (\<lambda>f g. apart (keys_of f) (keys_of g)) fs"

lemma keys_of_nonempty [simp]: "keys_of f \<noteq> []"
  by (simp add: keys_of_def)

lemma default_of_defined [simp]: "default_of f \<noteq> JUndef"
  by (simp add: default_of_def)

lemma apart_fields_map:
  "apart_fields fs \<Longrightarrow> sorted_wrt (\<lambda>a b. apart (fst a) (fst b)) (map (\<lambda>f. (keys_of f, h f)) fs)"
  by (simp add: apart_fields_def sorted_wrt_map)

lemma apart_fields_filter: "apart_fields fs \<Longrightarrow> apart_fields (filter P fs)"
  by (simp add: apart_fields_def sorted_wrt_filter)

lemma written_fields:
  assumes "apart_fields fs" "\<forall>f\<in>set fs. h f \<noteq> JUndef"
  shows "\<exists>d. foldl (\<lambda>m f. js_bind m (put_path (keys_of f) (h f))) (Inr (JObj [])) fs = Inr d
    \<and> (\<forall>f\<in>set fs. getNestedValue d (keys_of f) = h f)
    \<and> (\<forall>q. q \<noteq> [] \<and> (\<forall>f\<in>set fs. apart (keys_of f) q) \<longrightarrow> getNestedValue d q = JUndef)"
proof -
  let ?es = "map (\<lambda>f. (keys_of f, h f)) fs"
  have "\<forall>e\<in>set ?es. jsv_room (JObj []) (fst e) \<and> snd e \<noteq> JUndef"
    using assms(2) by (simp add: jsv_room_empty)
  from written_object.put_all [OF apart_fields_map [OF assms(1)] this]
  obtain d where d: "foldl (\<lambda>m e. js_bind m (put_path (fst e) (snd e))) (Inr (JObj [])) ?es = Inr d"
    "\<forall>e\<in>set ?es. nested_option d (fst e) = Some (snd e)"
    "\<forall>q. (\<forall>e\<in>set ?es. apart (fst e) q) \<longrightarrow> nested_option d q = nested_option (JObj []) q" by blast
  have "foldl (\<lambda>m f. js_bind m (put_path (keys_of f) (h f))) (Inr (JObj [])) fs = Inr d"
    using d(1) by (simp add: foldl_map)
  moreover have "\<forall>f\<in>set fs. getNestedValue d (keys_of f) = h f"
    using d(2) by (auto simp: nested_option_def split: if_splits)
  moreover have "getNestedValue d q = JUndef" if "q \<noteq> []" "\<forall>f\<in>set fs. apart (keys_of f) q" for q
  proof -
    have "nested_option d q = nested_option (JObj []) q" using d(3) that(2) by simp
    then show ?thesis using that(1) by (simp add: nested_option_def getNestedValue_empty split: if_splits)
  qed
  ultimately show ?thesis by blast
qed

text \<open>
  The default values of a form whose field names are apart (none is the beginning of another) can be
  built, and every field finds its own default value under its name.
\<close>

theorem default_values_read_back:
  assumes "apart_fields fs"
  shows "\<exists>d. generateDefaultValues fs = Inr d \<and> (\<forall>f\<in>set fs. getNestedValue d (keys_of f) = default_of f)"
  using written_fields [OF assms, of default_of] by (auto simp: generateDefaultValues_def)

lemma path_exists_iff: "p \<noteq> [] \<Longrightarrow> path_exists t p \<longleftrightarrow> getNestedValue t p \<noteq> JUndef"
proof (induction p arbitrary: t)
  case (Cons k p)
  show ?case
  proof (cases "truthy t \<and> jget t k \<noteq> JUndef")
    case True
    then show ?thesis using Cons.IH by (cases p) (simp_all add: nested_step_def)
  next
    case False
    then have "nested_step t k = JUndef" by (auto simp: nested_step_def)
    then have "getNestedValue t (k # p) = JUndef" using getNestedValue_falsy [of JUndef p] by (cases p) simp_all
    then show ?thesis using False by auto
  qed
qed simp


lemma fold_schemas:
  "\<forall>f\<in>set fs. \<exists>s. g f = Inr s \<Longrightarrow>
     foldl (\<lambda>m f. js_bind m (\<lambda>t. js_bind (g f) (\<lambda>s. Inr (h f s t)))) m0 fs
     = foldl (\<lambda>m f. js_bind m (\<lambda>t. Inr (h f (projr (g f)) t))) m0 fs"
  by (induction fs arbitrary: m0) auto

lemma fold_schemas_error:
  "(\<exists>f\<in>set fs. \<exists>e. g f = Inl e) \<or> (\<exists>e. m0 = Inl e) \<Longrightarrow>
     \<exists>e. foldl (\<lambda>m f. js_bind m (\<lambda>t. js_bind (g f) (\<lambda>s. Inr (h f s t)))) m0 fs = Inl e"
proof (induction fs arbitrary: m0)
  case (Cons f fs)
  show ?case unfolding foldl_Cons
  proof (rule Cons.IH)
    show "(\<exists>f\<in>set fs. \<exists>e. g f = Inl e) \<or> (\<exists>e. js_bind m0 (\<lambda>t. js_bind (g f) (\<lambda>s. Inr (h f s t))) = Inl e)"
      using Cons.prems by (cases m0) auto
  qed
qed simp

lemma z_call_ok: "Optional \<notin> set (snd s) \<Longrightarrow> z_has given (fst s) m \<Longrightarrow> z_call given m c s = Inr (fst s, snd s @ [c])"
  by (simp add: z_call_def)

text \<open>A field without a schema of its own throws when it is a required switch or a required choice with a pattern.\<close>

lemma field_schema_fails:
  assumes "ff_schema f = None"
  shows "(\<exists>s. field_schema given f = Inr s) \<longleftrightarrow>
    \<not> (ff_required f \<and> (ff_type f = F_Switch \<or> ff_type f = F_MultiSelect \<and> ff_pattern f \<noteq> None))"
  using assms
  by (cases "ff_type f"; cases "ff_required f")
    (auto simp: field_schema_def required_schema_def field_base_schema_def length_rules_def z_call_def z_has_def js_bind_Inr
       split: option.splits if_splits)

definition refused_by_package :: "form_field \<Rightarrow> bool" where
  "refused_by_package f =
     (ff_required f \<and> (ff_type f = F_Switch \<or> ff_type f = F_MultiSelect \<and> ff_pattern f \<noteq> None))"

lemma all_schemas:
  assumes "apart_fields fs" "\<forall>f\<in>set fs. \<exists>s. field_schema given f = Inr s"
  shows "\<exists>t. generateSchema given fs = Inr t
    \<and> (\<forall>f\<in>set fs. \<exists>s. field_schema given f = Inr s \<and> z_look t (keys_of f) = Some s)"
proof -
  let ?es = "map (\<lambda>f. (keys_of f, projr (field_schema given f))) fs"
  have "\<forall>e\<in>set ?es. maps_room ([], Z_Object []) (fst e) \<and> True"
  proof clarsimp
    fix f
    obtain k ks where "keys_of f = k # ks" by (cases "keys_of f") auto
    then show "maps_room ([], Z_Object []) (keys_of f)" by (cases ks) (auto simp: wf_obj_def)
  qed
  from registered_schemas.put_all [OF apart_fields_map [OF assms(1)] this]
  obtain m where m:
    "foldl (\<lambda>m e. js_bind m (\<lambda>t. Inr (put_schema (fst e) (snd e) t))) (Inr ([], Z_Object [])) ?es = Inr m"
    "\<forall>e\<in>set ?es. z_look (buildNestedSchema m) (fst e) = Some (snd e)" by blast
  have "generateSchema given fs = Inr (buildNestedSchema m)"
    using m(1) unfolding generateSchema_def fold_schemas [OF assms(2)] by (simp add: foldl_map)
  moreover have "\<exists>s. field_schema given f = Inr s \<and> z_look (buildNestedSchema m) (keys_of f) = Some s"
    if "f \<in> set fs" for f
    using that assms(2) m(2) by fastforce
  ultimately show ?thesis by blast
qed

text \<open>
  C40. For fields whose names are apart and that bring no schema along, building the validation schema
  throws exactly when a switch, or a multiple choice with a pattern, is required; otherwise the schema has
  under the name of every field the schema of this field.
\<close>

theorem schema_of_every_field:
  assumes "apart_fields fs" "list_all (\<lambda>f. ff_schema f = None) fs"
  shows "case generateSchema given fs of
      Inl e \<Rightarrow> list_ex refused_by_package fs
    | Inr t \<Rightarrow> \<not> list_ex refused_by_package fs
        \<and> list_all (\<lambda>f. z_look t (keys_of f) = Some (projr (field_schema given f))) fs"
proof (cases "list_ex refused_by_package fs")
  case True
  then obtain f e where "f \<in> set fs" "field_schema given f = Inl e"
    using assms(2) field_schema_fails unfolding list_ex_iff list_all_iff refused_by_package_def
    by (metis obj_sumE)
  then have "(\<exists>f\<in>set fs. \<exists>e. field_schema given f = Inl e) \<or> (\<exists>e. Inr ([], Z_Object []) = Inl e)" by blast
  from fold_schemas_error [OF this, of "\<lambda>f. put_schema (keys_of f)"]
  have "\<exists>e. generateSchema given fs = Inl e" unfolding generateSchema_def by auto
  with True show ?thesis by auto
next
  case False
  then have "\<forall>f\<in>set fs. \<exists>s. field_schema given f = Inr s"
    using assms(2) field_schema_fails unfolding list_ex_iff list_all_iff refused_by_package_def by blast
  from all_schemas [OF assms(1) this] obtain t where t: "generateSchema given fs = Inr t"
    "\<forall>f\<in>set fs. \<exists>s. field_schema given f = Inr s \<and> z_look t (keys_of f) = Some s" by blast
  have "z_look t (keys_of f) = Some (projr (field_schema given f))" if "f \<in> set fs" for f
    using t(2) that by fastforce
  with t(1) False show ?thesis by (simp add: list_all_iff)
qed

section \<open>Fields of the modal of a model provider\<close>

definition plain_field :: "string \<Rightarrow> field_type \<Rightarrow> bool \<Rightarrow> jsv \<Rightarrow> form_field" where
  "plain_field n ty req d =
     \<lparr>ff_name = n, ff_label = n, ff_type = ty, ff_required = req, ff_default = d, ff_schema = None, ff_min_length = None,
      ff_max_length = None, ff_pattern = None, ff_min = None, ff_max = None, ff_message = [], ff_should_render = None,
      ff_custom = None, ff_dependencies = []\<rparr>"

lemma plain_field_sel [simp]:
  "ff_name (plain_field n ty req d) = n" "ff_type (plain_field n ty req d) = ty"
  "ff_required (plain_field n ty req d) = req" "ff_default (plain_field n ty req d) = d"
  "ff_schema (plain_field n ty req d) = None" "ff_should_render (plain_field n ty req d) = None"
  by (simp_all add: plain_field_def)

definition model_fields :: "form_field list" where
  "model_fields =
     [plain_field ''name'' F_Text True JUndef, plain_field ''config.tokens'' F_Number True (JInt 512),
      plain_field ''config.vision'' F_Switch False JUndef]"

lemma model_fields_apart: "apart_fields model_fields"
  by (simp add: apart_fields_def model_fields_def keys_of_def)

lemma default_values_read_back_witness:
  "\<exists>d. generateDefaultValues model_fields = Inr d
     \<and> (\<forall>f\<in>set model_fields. getNestedValue d (keys_of f) = default_of f)"
  by (rule default_values_read_back [OF model_fields_apart])

definition model_values :: jsv where
  "model_values = JObj [(''name'', JStr ''m''), (''config'', JObj [(''tokens'', JInt 5), (''extra'', JBool True)])]"


lemma schema_of_every_field_witness:
  "case generateSchema (\<lambda>_ _. False) model_fields of
      Inl e \<Rightarrow> list_ex refused_by_package model_fields
    | Inr t \<Rightarrow> \<not> list_ex refused_by_package model_fields
        \<and> list_all (\<lambda>f. z_look t (keys_of f) = Some (projr (field_schema (\<lambda>_ _. False) f))) model_fields"
  by (rule schema_of_every_field [OF model_fields_apart]) (simp add: model_fields_def)

text \<open>
  A number that is required gets a second bound, which is at least one, so that the zero its own bound
  allows is refused.
\<close>

definition zero_allowed :: form_field where
  "zero_allowed = (plain_field ''max_tokens'' F_Number True JUndef)\<lparr>ff_min := Some 0\<rparr>"

theorem required_number_at_least_one:
  "field_schema given zero_allowed
     = Inr (Z_Number, [Call_Min 0 ''Value cannot be less than 0'', Call_Min 1 ''max_tokens is required''])"
  by (simp add: zero_allowed_def plain_field_def field_schema_def required_schema_def field_base_schema_def
      length_rules_def z_call_def z_has_def or_message_def int_str_def nat_str.simps digit_char_def char_of_def
      bit_Suc_0_iff)

text \<open>
  A static field that has no condition of its own is handed on, though the static fields are said to be
  filtered out.
\<close>

theorem static_field_handed_on:
  "filterActiveValues [plain_field ''RAG_DY_STATIC_a'' F_Text False JUndef] (JObj [(''RAG_DY_STATIC_a'', JStr ''x'')])
     = Inr (JObj [(''RAG_DY_STATIC_a'', JStr ''x'')])"
  by (simp add: filterActiveValues_def active_field_def keys_of_def obj_put_def)

text \<open>A multiple choice starts with a list, but with a text when its name has a dot.\<close>

theorem nested_choice_starts_as_text:
  "default_of (plain_field ''tags'' F_MultiSelect False JUndef) = JArr []"
  "default_of (plain_field ''a.tags'' F_MultiSelect False JUndef) = JStr []"
  by (simp_all add: default_of_def)

end
