(* ===== verification/Operator_Forms.thy ===== *)
theory Operator_Forms
  imports Variable_Options Agent_Constants Code_Output
begin

text \<open>
  The forms of the operators (\<open>pages/agent/form\<close>): what a form starts with when a node is opened
  (\<open>use-values.ts\<close>) and what is written to the node when the form changes (\<open>use-watch-change.ts\<close>,
  \<open>use-watch-form-change.ts\<close>). The effects are functions from the values of the form to the values that
  are written; \<open>write_form\<close> is the write to the store. \<open>om\<close> is lodash's \<open>omit\<close>, \<open>emp\<close> its \<open>isEmpty\<close>, \<open>t\<close>
  the translation function. A list of records becomes an object keyed by their names, and back.
\<close>

section \<open>Lists and objects\<close>

text \<open>The elements a callback sees; a missing list is empty, and \<open>null\<close> throws.\<close>

definition list_default :: "jsv \<Rightarrow> jsv list js" where
  "list_default v =
     (case v of JUndef \<Rightarrow> Inr [] | JArr xs \<Rightarrow> Inr xs | _ \<Rightarrow> Inl (TypeError ''reduce is not a function''))"

text \<open>\<open>Object.entries\<close>; of \<open>undefined\<close> and \<open>null\<close> it throws.\<close>

definition entries_of :: "jsv \<Rightarrow> props js" where
  "entries_of v =
     (if nullish v then Inl (TypeError ''Cannot convert undefined or null to object'') else Inr (props_of v))"

definition keyed :: "(jsv \<Rightarrow> (string \<times> jsv) js) \<Rightarrow> jsv list \<Rightarrow> jsv js" where
  "keyed entry xs = js_bind (js_mapM entry xs) (\<lambda>es. Inr (JObj (obj_of es)))"

definition input_entry :: "omit_fn \<Rightarrow> jsv \<Rightarrow> (string \<times> jsv) js" where
  "input_entry om cur = js_bind (jprop cur ''key'') (\<lambda>k. Inr (str_of k, JObj (om (props_of cur) [''key''])))"

definition transferInputsArrayToObject :: "omit_fn \<Rightarrow> jsv \<Rightarrow> jsv js" where
  "transferInputsArrayToObject om inputs = js_bind (list_default inputs) (keyed (input_entry om))"

definition request_outputs :: "string \<Rightarrow> jsv list \<Rightarrow> props \<Rightarrow> props js" where
  "request_outputs key xs outputs =
     foldl (\<lambda>m cur. js_bind m (\<lambda>o1. js_bind (jprop cur ''key'') (\<lambda>k.
        Inr (obj_put (key @ ''.'' @ str_of k) (JObj [(''type'', jget cur ''type'')]) o1)))) (Inr outputs) xs"

definition transformRequestSchemaToOutput :: "jsv \<Rightarrow> jsv js" where
  "transformRequestSchemaToOutput schema =
     js_bind (foldl (\<lambda>m (key, v). case v of JArr xs \<Rightarrow> js_bind m (request_outputs key xs) | _ \<Rightarrow> m)
         (Inr []) (props_of (js_or schema (JObj []))))
       (\<lambda>ps. Inr (JObj ps))"

definition argument_entry :: "jsv \<Rightarrow> (string \<times> jsv) js" where
  "argument_entry cur = js_bind (jprop cur ''name'') (\<lambda>nm. Inr (str_of nm, jget cur ''type''))"

definition convertToObject :: "jsv \<Rightarrow> jsv js" where
  "convertToObject xs = js_bind (list_default xs) (keyed argument_entry)"

definition convertToArray :: "jsv \<Rightarrow> jsv js" where
  "convertToArray args =
     js_bind (entries_of args) (\<lambda>ps. Inr (JArr (map (\<lambda>(k, v). JObj [(''name'', JStr k), (''type'', v)]) ps)))"

definition output_entry :: "jsv \<Rightarrow> (string \<times> jsv) js" where
  "output_entry cur =
     js_bind (jprop cur ''name'') (\<lambda>nm.
       Inr (str_of nm, JObj [(''ref'', jget cur ''ref''), (''type'', jget cur ''type'')]))"

text \<open>Here the list has no default.\<close>

definition transferToObject :: "jsv \<Rightarrow> jsv js" where
  "transferToObject v =
     (case v of JArr xs \<Rightarrow> keyed output_entry xs | _ \<Rightarrow> Inl (TypeError ''reduce is not a function''))"

definition convertOutputsToArray :: "jsv \<Rightarrow> jsv js" where
  "convertOutputsToArray outputObject =
     js_bind (entries_of outputObject) (\<lambda>ps.
       js_bind (js_mapM (\<lambda>(k, v). js_bind (jprop v ''ref'') (\<lambda>r.
           Inr (JObj [(''name'', JStr k), (''ref'', r), (''type'', jget v ''type'')]))) ps)
         (\<lambda>xs. Inr (JArr xs)))"

text \<open>
  The outputs of a loop and of an aggregator: entries without a name are left out, and without a list there
  are none.
\<close>

definition named_outputs :: "string \<Rightarrow> (jsv \<Rightarrow> jsv) \<Rightarrow> jsv list \<Rightarrow> props js" where
  "named_outputs field entry xs =
     foldl (\<lambda>m cur. js_bind m (\<lambda>pre. js_bind (jprop cur field) (\<lambda>nm.
        Inr (if truthy nm then obj_put (str_of nm) (entry cur) pre else pre)))) (Inr []) xs"

definition outputs_of_list :: "string \<Rightarrow> (jsv \<Rightarrow> jsv) \<Rightarrow> jsv \<Rightarrow> jsv js" where
  "outputs_of_list field entry v =
     (if nullish v then Inr JUndef
      else case v of JArr xs \<Rightarrow> js_bind (named_outputs field entry xs) (\<lambda>ps. Inr (JObj ps))
           | _ \<Rightarrow> Inl (TypeError ''reduce is not a function''))"

section \<open>What a form starts with\<close>

definition useFormValues :: "(jsv \<Rightarrow> bool) \<Rightarrow> jsv \<Rightarrow> jsv \<Rightarrow> jsv" where
  "useFormValues emp defaultValues formData = (if emp formData then defaultValues else formData)"

definition begin_defaults :: "(string \<Rightarrow> string) \<Rightarrow> jsv" where
  "begin_defaults t =
     JObj [(''enablePrologue'', JBool True), (''prologue'', JStr (t ''chat.setAnOpenerInitial'')),
       (''mode'', JStr ''conversational''), (''inputs'', JArr [])]"

definition begin_values :: "(jsv \<Rightarrow> bool) \<Rightarrow> (string \<Rightarrow> string) \<Rightarrow> jsv \<Rightarrow> jsv" where
  "begin_values emp t formData =
     (if emp formData then begin_defaults t
      else js_object [Spread formData, Prop ''inputs'' (JArr (buildBeginInputListFromObject (jget formData ''inputs'')))])"

definition fill_up_values :: "(jsv \<Rightarrow> bool) \<Rightarrow> jsv \<Rightarrow> jsv" where
  "fill_up_values emp formData =
     (if emp formData then initialUserFillUpValues
      else js_object [Spread formData, Prop ''inputs'' (JArr (buildBeginInputListFromObject (jget formData ''inputs'')))])"

definition contract_value :: "CodeOutputContract \<Rightarrow> jsv" where
  "contract_value c = JObj [(''name'', JStr (co_name c)), (''type'', JStr (co_type c))]"

definition code_values :: "(jsv \<Rightarrow> bool) \<Rightarrow> jsv \<Rightarrow> (jsv \<times> string list) js" where
  "code_values emp formData =
     (if emp formData then
        js_bind (convertToArray (jget initialCodeValues ''arguments'')) (\<lambda>args.
          Inr (js_object [Spread initialCodeValues, Prop ''arguments'' args,
                 Prop ''output'' (contract_value buildDefaultCodeOutput)], []))
      else (let d = deserializeCodeOutputContract formData in
        js_bind (convertToArray (jget formData ''arguments'')) (\<lambda>args.
          Inr (js_object [Spread formData, Prop ''arguments'' args,
                 Prop ''output'' (contract_value
                   (case dr_contract d of Some c \<Rightarrow> c | None \<Rightarrow> buildDefaultCodeOutput))], dr_legacyOutputs d))))"

definition iteration_values :: "(jsv \<Rightarrow> bool) \<Rightarrow> jsv \<Rightarrow> jsv js" where
  "iteration_values emp formData =
     (if emp formData then Inr (js_object [Spread initialIterationValues, Prop ''outputs'' (JArr [])])
      else js_bind (convertOutputsToArray (jget formData ''outputs'')) (\<lambda>xs.
             Inr (js_object [Spread formData, Prop ''outputs'' xs])))"

definition omitToolsAndMcp :: "omit_fn \<Rightarrow> jsv \<Rightarrow> jsv" where
  "omitToolsAndMcp om values = JObj (om (props_of values) [''mcp'', ''tools'', ''outputs''])"

definition agent_values :: "omit_fn \<Rightarrow> (jsv \<Rightarrow> bool) \<Rightarrow> lget_fn \<Rightarrow> (string \<Rightarrow> string) \<Rightarrow> jsv \<Rightarrow> jsv \<Rightarrow> jsv" where
  "agent_values om emp lget t llmId formData =
     (if emp formData
      then js_object [Spread (omitToolsAndMcp om (initialAgentValues t)), Prop ''llm_id'' llmId, Prop ''prompts'' (JStr [])]
      else js_object [Spread (omitToolsAndMcp om formData),
             Prop ''prompts'' (lget formData [''prompts'', ''0'', ''content''] (JStr []))])"

definition message_values :: "(jsv \<Rightarrow> bool) \<Rightarrow> jsv \<Rightarrow> jsv" where
  "message_values emp formData =
     (if emp formData then initialMessageValues
      else js_object [Spread formData, Prop ''content'' (convertToObjectArray (jget formData ''content''))])"

definition tavily_values :: "(jsv \<Rightarrow> bool) \<Rightarrow> jsv \<Rightarrow> jsv" where
  "tavily_values emp formData =
     (if emp formData then initialTavilyValues
      else js_object [Spread formData,
             Prop ''include_domains'' (convertToObjectArray (jget formData ''include_domains'')),
             Prop ''exclude_domains'' (convertToObjectArray (jget formData ''exclude_domains''))])"

definition transferDelimiters :: "jsv \<Rightarrow> jsv js" where
  "transferDelimiters formData =
     js_bind (jprop formData ''method'') (\<lambda>m.
       if m = JStr ''merge'' then jprop (jget formData ''delimiters'') ''0'' else Inr (jget formData ''delimiters''))"

definition string_values :: "(jsv \<Rightarrow> bool) \<Rightarrow> jsv \<Rightarrow> jsv js" where
  "string_values emp formData =
     js_bind (transferDelimiters formData) (\<lambda>d.
       Inr (js_object [Spread (if emp formData then initialStringTransformValues else formData), Prop ''delimiters'' d]))"

definition switch_values :: "(jsv \<Rightarrow> bool) \<Rightarrow> jsv \<Rightarrow> jsv" where
  "switch_values emp formData = (if emp formData then initialSwitchValues else formData)"

definition categorize_defaults :: jsv where
  "categorize_defaults =
     JObj [(''parameter'', JStr ''Precise''), (''message_history_window_size'', JInt 1),
       (''temperatureEnabled'', JBool True), (''topPEnabled'', JBool True), (''presencePenaltyEnabled'', JBool True),
       (''frequencyPenaltyEnabled'', JBool True), (''maxTokensEnabled'', JBool True), (''items'', JArr [])]"

definition categorize_values :: "(jsv \<Rightarrow> bool) \<Rightarrow> jsv \<Rightarrow> jsv" where
  "categorize_values emp formData =
     (if emp formData then categorize_defaults else case formData of JObj ps \<Rightarrow> formData | _ \<Rightarrow> JUndef)"

definition loop_values :: "omit_fn \<Rightarrow> (jsv \<Rightarrow> bool) \<Rightarrow> jsv \<Rightarrow> jsv \<Rightarrow> jsv" where
  "loop_values om emp defaultValues formData =
     JObj (om (props_of (if emp formData then defaultValues else formData)) [''outputs''])"

definition retrieval_values :: "(jsv \<Rightarrow> bool) \<Rightarrow> jsv \<Rightarrow> jsv" where
  "retrieval_values emp formData = (if emp formData then js_object [Spread initialRetrievalValues] else formData)"

text \<open>The size of the letters, \<open>num\<close> being \<open>Number\<close>, is a number from 12.\<close>

definition doc_generator_values :: "(jsv \<Rightarrow> jsnum) \<Rightarrow> jsv \<Rightarrow> jsv" where
  "doc_generator_values num formData =
     (let nextValues = js_object [Spread initialDocGeneratorValues, Spread formData];
          n = num (jget nextValues ''font_size'')
      in JObj ([(''output_format'',
               (if jget nextValues ''output_format'' \<in> JStr ` {''pdf'', ''docx'', ''txt'', ''markdown'', ''html''}
                then jget nextValues ''output_format'' else jget initialDocGeneratorValues ''output_format''))]
           @ map (\<lambda>k. (k, jget nextValues k))
               [''content'', ''filename'', ''header_text'', ''footer_text'', ''watermark_text'', ''add_page_numbers'',
                ''add_timestamp'']
           @ [(''font_size'', JNum (if n = NaN \<or> n = Fin 0 then Fin 12 else if num_le (Fin 12) n then n else Fin 12)),
              (''outputs'', jget initialDocGeneratorValues ''outputs'')]))"

section \<open>What is written to the node\<close>

definition begin_synced :: "omit_fn \<Rightarrow> (jsv \<Rightarrow> bool) \<Rightarrow> jsv \<Rightarrow> jsv js" where
  "begin_synced om emp formValues =
     js_bind (if jget formValues ''mode'' = JStr ''Webhook'' \<and> \<not> emp (jget formValues ''schema'')
              then transformRequestSchemaToOutput (jget formValues ''schema'') else Inr (JObj [])) (\<lambda>outputs.
     js_bind (transferInputsArrayToObject om (jget formValues ''inputs'')) (\<lambda>inputs.
       Inr (js_object [Spread formValues, Prop ''inputs'' inputs, Prop ''outputs'' outputs])))"

definition fill_up_synced :: "omit_fn \<Rightarrow> jsv \<Rightarrow> jsv js" where
  "fill_up_synced om formValues =
     js_bind (transferInputsArrayToObject om (jget formValues ''inputs'')) (\<lambda>inputs.
       Inr (js_object [Spread formValues, Prop ''inputs'' inputs, Prop ''outputs'' inputs]))"

definition trimmed :: "jsv \<Rightarrow> string" where
  "trimmed v = (case v of JStr s \<Rightarrow> js_trim s | _ \<Rightarrow> [])"

text \<open>
  The outputs of the code operator: several outputs of old are kept as long as the output is not touched, a
  complete contract is written, and an incomplete one leaves what is there.
\<close>

definition code_outputs :: "bool \<Rightarrow> jsv \<Rightarrow> jsv \<Rightarrow> jsv" where
  "code_outputs output_touched currentOutputs out =
     (let nm = trimmed (jget out ''name''); ty = trimmed (jget out ''type'') in
      if hasLegacyMultiOutputs (props_of currentOutputs) \<and> \<not> output_touched then currentOutputs
      else if nm \<noteq> [] \<and> ty \<noteq> [] then serializeCodeOutputContract (Some \<lparr>co_name = nm, co_type = ty\<rparr>)
      else js_coalesce currentOutputs (serializeCodeOutputContract (Some buildDefaultCodeOutput)))"

definition code_synced :: "bool \<Rightarrow> jsv \<Rightarrow> jsv \<Rightarrow> jsv js" where
  "code_synced output_touched currentOutputs formValues =
     js_bind (convertToObject (jget formValues ''arguments'')) (\<lambda>args.
       Inr (JObj (obj_del ''output'' (props_of (js_object [Spread formValues, Prop ''arguments'' args,
              Prop ''outputs'' (code_outputs output_touched currentOutputs (jget formValues ''output''))])))))"

definition iteration_synced :: "jsv \<Rightarrow> jsv js" where
  "iteration_synced formValues =
     js_bind (transferToObject (jget formValues ''outputs'')) (\<lambda>outputs.
       Inr (js_object [Spread formValues, Prop ''outputs'' outputs]))"

definition agent_synced :: "jsv \<Rightarrow> jsv" where
  "agent_synced formValues =
     js_object [Spread formValues,
       Prop ''prompts'' (JArr [JObj [(''role'', JStr ''user''), (''content'', jget formValues ''prompts'')]])]"

definition message_synced :: "jsv \<Rightarrow> jsv js" where
  "message_synced formValues =
     js_bind (convertToStringArray (jget formValues ''content'')) (\<lambda>c.
       Inr (js_object [Spread formValues, Prop ''content'' c]))"

definition tavily_synced :: "jsv \<Rightarrow> jsv js" where
  "tavily_synced formValues =
     js_bind (convertToStringArray (jget formValues ''include_domains'')) (\<lambda>i.
     js_bind (convertToStringArray (jget formValues ''exclude_domains'')) (\<lambda>e.
       Inr (js_object [Spread formValues, Prop ''include_domains'' i, Prop ''exclude_domains'' e])))"

definition string_synced :: "jsv \<Rightarrow> jsv" where
  "string_synced formValues =
     (if jget formValues ''delimiters'' \<noteq> JUndef \<and> jget formValues ''method'' = JStr ''merge''
      then jset formValues ''delimiters'' (JArr [jget formValues ''delimiters'']) else formValues)"

definition switch_synced :: "jsv \<Rightarrow> jsv" where
  "switch_synced formValues =
     js_object [Spread formValues, Prop ''conditions''
       (case jget formValues ''conditions'' of JArr xs \<Rightarrow> JArr (map (\<lambda>x. js_object [Spread x]) xs) | _ \<Rightarrow> JArr [])]"

definition categorize_synced :: "jsv \<Rightarrow> jsv" where
  "categorize_synced formValues =
     js_object [Spread formValues, Prop ''items'' (js_or (jget formValues ''items'') (JArr []))]"

definition loop_synced :: "jsv \<Rightarrow> jsv js" where
  "loop_synced formValues =
     js_bind (outputs_of_list ''variable'' (\<lambda>cur. JObj [(''type'', jget cur ''type''), (''value'', JStr [])])
         (jget formValues ''loop_variables'')) (\<lambda>outputs.
       Inr (js_object [Spread formValues, Prop ''outputs'' outputs]))"

definition aggregator_synced :: "jsv \<Rightarrow> jsv js" where
  "aggregator_synced formValues =
     js_bind (outputs_of_list ''group_name'' (\<lambda>cur. JObj [(''type'', jget cur ''type'')])
         (jget formValues ''groups'')) (\<lambda>outputs.
       Inr (js_object [Spread formValues, Prop ''outputs'' (js_coalesce outputs (JObj []))]))"

section \<open>All forms\<close>

datatype form_kind =
    Begin_Form | Fill_Up_Form | Code_Form bool | Iteration_Form | Agent_Form | Message_Form | Tavily_Form | String_Form
  | Switch_Form | Categorize_Form | Loop_Form | Aggregator_Form | Plain_Form | Replacing_Form

text \<open>Which values a form writes, and whether they go over the old form or replace it.\<close>

fun synced :: "omit_fn \<Rightarrow> (jsv \<Rightarrow> bool) \<Rightarrow> form_kind \<Rightarrow> jsv \<Rightarrow> jsv \<Rightarrow> jsv js" where
  "synced om emp Begin_Form old v = begin_synced om emp v"
| "synced om emp Fill_Up_Form old v = fill_up_synced om v"
| "synced om emp (Code_Form touched) old v = code_synced touched (jget old ''outputs'') v"
| "synced om emp Iteration_Form old v = iteration_synced v"
| "synced om emp Agent_Form old v = Inr (agent_synced v)"
| "synced om emp Message_Form old v = message_synced v"
| "synced om emp Tavily_Form old v = tavily_synced v"
| "synced om emp String_Form old v = Inr (string_synced v)"
| "synced om emp Switch_Form old v = Inr (switch_synced v)"
| "synced om emp Categorize_Form old v = Inr (categorize_synced v)"
| "synced om emp Loop_Form old v = loop_synced v"
| "synced om emp Aggregator_Form old v = aggregator_synced v"
| "synced om emp Plain_Form old v = Inr v"
| "synced om emp Replacing_Form old v = Inr v"

definition replaces :: "form_kind \<Rightarrow> bool" where
  "replaces k = (k \<in> {Loop_Form, Aggregator_Form, Replacing_Form})"

text \<open>What a form starts with; \<open>defaults\<close> are those of the forms without values of their own.\<close>

fun opened ::
  "omit_fn \<Rightarrow> (jsv \<Rightarrow> bool) \<Rightarrow> lget_fn \<Rightarrow> (string \<Rightarrow> string) \<Rightarrow> jsv \<Rightarrow> jsv \<Rightarrow> form_kind \<Rightarrow> jsv \<Rightarrow> jsv js" where
  "opened om emp lget t llmId defaults Begin_Form f = Inr (begin_values emp t f)"
| "opened om emp lget t llmId defaults Fill_Up_Form f = Inr (fill_up_values emp f)"
| "opened om emp lget t llmId defaults (Code_Form touched) f = js_bind (code_values emp f) (\<lambda>r. Inr (fst r))"
| "opened om emp lget t llmId defaults Iteration_Form f = iteration_values emp f"
| "opened om emp lget t llmId defaults Agent_Form f = Inr (agent_values om emp lget t llmId f)"
| "opened om emp lget t llmId defaults Message_Form f = Inr (message_values emp f)"
| "opened om emp lget t llmId defaults Tavily_Form f = Inr (tavily_values emp f)"
| "opened om emp lget t llmId defaults String_Form f = string_values emp f"
| "opened om emp lget t llmId defaults Switch_Form f = Inr (switch_values emp f)"
| "opened om emp lget t llmId defaults Categorize_Form f = Inr (categorize_values emp f)"
| "opened om emp lget t llmId defaults Loop_Form f = Inr (loop_values om emp defaults f)"
| "opened om emp lget t llmId defaults Aggregator_Form f = Inr (useFormValues emp defaults f)"
| "opened om emp lget t llmId defaults Plain_Form f = Inr (useFormValues emp defaults f)"
| "opened om emp lget t llmId defaults Replacing_Form f = Inr (useFormValues emp defaults f)"

text \<open>
  The effect that runs when the user has changed the values of a form, on the store: an error leaves the
  store as it is. (Some of the effects run when the form is opened, too.)
\<close>

definition write_form :: "omit_fn \<Rightarrow> (jsv \<Rightarrow> bool) \<Rightarrow> lset_fn \<Rightarrow> form_kind \<Rightarrow> string \<Rightarrow> jsv \<Rightarrow> rf_state \<Rightarrow> rf_state js" where
  "write_form om emp lset k i v s =
     js_bind (synced om emp k (case getNode s (Some i) of Some n \<Rightarrow> node_form n | None \<Rightarrow> JUndef) v) (\<lambda>w.
       Inr (if replaces k then replaceNodeForm i w s else updateNodeForm lset i w [] s))"

section \<open>Further writes of the forms\<close>

definition handleModeChange :: "lset_fn \<Rightarrow> string \<Rightarrow> jsv \<Rightarrow> jsv" where
  "handleModeChange lset m formValues =
     (if m = ''Webhook'' then
        foldl (\<lambda>v (path, x). lset v path x) formValues
          [([''methods''], JArr [JStr ''GET'']), ([''schema''], JObj []), ([''security'', ''auth_type''], JStr ''basic''),
           ([''security'', ''rate_limit'', ''per''], JStr ''second''), ([''security'', ''rate_limit'', ''limit''], JInt 10),
           ([''security'', ''max_body_size''], JStr ''1MB''), ([''response'', ''status''], JInt 200),
           ([''execution_mode''], JStr ''Immediately''), ([''content_types''], JStr ''application/json'')]
      else formValues)"

end
