(* ===== verification/Operator_Forms_Proofs.thy ===== *)
theory Operator_Forms_Proofs
  imports Operator_Forms Store_Proofs
begin

text \<open>
  Opening a form shows what was entered: for every kind of form, what is written to the node and read again
  has the values the form had. The interface \<open>kept_form\<close> states this of one form and carries it to any
  sequence of changes; \<open>forms\<close> is its interpretation for all kinds at once.
\<close>

section \<open>Objects\<close>

lemma jget_obj: "jget (JObj ps) k = (case map_of ps k of None \<Rightarrow> JUndef | Some v \<Rightarrow> v)"
  by simp

lemma obj_assign_append: "obj_assign a (b @ c) = obj_assign (obj_assign a b) c"
  by (simp add: obj_assign_def)

lemma map_of_obj_of: "wf_obj ps \<Longrightarrow> map_of (obj_of ps) = map_of ps"
  by (simp add: obj_of_def map_of_obj_assign)

lemma jget_spread_prop:
  "wf_obj ps \<Longrightarrow> jget (js_object [Spread (JObj ps), Prop k v]) k' = (if k' = k then v else jget (JObj ps) k')"
  by (simp add: js_object_def obj_of_def obj_assign_append map_of_obj_assign)

lemma jget_spread_prop2:
  "wf_obj ps \<Longrightarrow> jget (js_object [Spread (JObj ps), Prop k v, Prop l w]) k'
     = (if k' = l then w else if k' = k then v else jget (JObj ps) k')"
  by (simp add: js_object_def obj_of_def obj_assign_append map_of_obj_assign)

lemma jget_spread: "wf_obj ps \<Longrightarrow> jget (js_object [Spread (JObj ps)]) k = jget (JObj ps) k"
  by (simp add: js_object_def obj_of_def map_of_obj_assign)

lemma js_object_cases: obtains ps where "js_object parts = JObj ps" "wf_obj ps"
  using js_object_wf by blast

text \<open>Objects whose keys are no array indices keep the order in which their keys are put.\<close>

lemma obj_put_last: "k \<notin> fst ` set ps \<Longrightarrow> \<not> is_index_key k \<Longrightarrow> obj_put k v ps = ps @ [(k, v)]"
proof -
  assume k: "k \<notin> fst ` set ps" "\<not> is_index_key k"
  have "insert_key k v ps = ps @ [(k, v)]" using k(2) by (induction ps) (auto simp: key_before_def)
  with k(1) show ?thesis by (simp add: obj_put_def)
qed

lemma obj_of_names:
  assumes "distinct (map fst es)" "\<forall>e\<in>set es. \<not> is_index_key (fst e)"
  shows "obj_of es = es"
proof -
  have "obj_assign a es = a @ es" if "fst ` set a \<inter> fst ` set es = {}" for a
    using assms that
  proof (induction es arbitrary: a)
    case (Cons e es)
    obtain k v where e: "e = (k, v)" by (cases e)
    have put: "obj_put k v a = a @ [(k, v)]" using Cons.prems e by (intro obj_put_last) auto
    have "obj_assign (a @ [(k, v)]) es = (a @ [(k, v)]) @ es"
      using Cons.prems e by (intro Cons.IH) auto
    with e put show ?case by simp
  qed simp
  then show ?thesis by (simp add: obj_of_def)
qed

section \<open>What counts as the same\<close>

text \<open>Lists of records may come back with the properties of a record in another order.\<close>

definition same_record :: "jsv \<Rightarrow> jsv \<Rightarrow> bool" where
  "same_record a b = (\<forall>k. jget a k = jget b k)"

definition same_value :: "jsv \<Rightarrow> jsv \<Rightarrow> bool" where
  "same_value a b = (a = b \<or> (\<exists>xs ys. a = JArr xs \<and> b = JArr ys \<and> list_all2 same_record xs ys))"

lemma same_value_refl [simp]: "same_value a a"
  by (simp add: same_value_def)

lemma same_value_lists: "list_all2 same_record xs ys \<Longrightarrow> same_value (JArr xs) (JArr ys)"
  by (simp add: same_value_def)

text \<open>A field of the values is shown when the opened form has the same value there.\<close>

definition shows_values :: "string set \<Rightarrow> jsv \<Rightarrow> jsv \<Rightarrow> bool" where
  "shows_values derived u v = (\<forall>k\<in>fst ` set (props_of v). k \<notin> derived \<longrightarrow> same_value (jget u k) (jget v k))"

section \<open>The interface\<close>

locale kept_form =
  fixes store :: "'f \<Rightarrow> 'v \<Rightarrow> 'f js" and load :: "'f \<Rightarrow> 'u js" and sound :: "'f \<Rightarrow> bool"
    and fits :: "'v \<Rightarrow> bool" and shown :: "'u \<Rightarrow> 'v \<Rightarrow> bool"
  assumes store_sound: "sound f \<Longrightarrow> fits v \<Longrightarrow> \<exists>f'. store f v = Inr f' \<and> sound f'"
    and store_shown: "sound f \<Longrightarrow> fits v \<Longrightarrow> store f v = Inr f' \<Longrightarrow> \<exists>u. load f' = Inr u \<and> shown u v"
begin

lemma stores_sound:
  "sound f \<Longrightarrow> \<forall>v\<in>set vs. fits v \<Longrightarrow> \<exists>f'. foldl (\<lambda>m v. js_bind m (\<lambda>f. store f v)) (Inr f) vs = Inr f' \<and> sound f'"
proof (induction vs arbitrary: f)
  case (Cons v vs)
  from store_sound Cons.prems obtain f1 where "store f v = Inr f1" "sound f1" by fastforce
  with Cons.IH [of f1] Cons.prems show ?case by simp
qed simp

lemma last_change_shown:
  assumes "sound f" "\<forall>v\<in>set (vs @ [v]). fits v"
  shows "\<exists>f' u. foldl (\<lambda>m v. js_bind m (\<lambda>f. store f v)) (Inr f) (vs @ [v]) = Inr f' \<and> sound f'
    \<and> load f' = Inr u \<and> shown u v"
proof -
  from stores_sound assms obtain f1 where f1:
    "foldl (\<lambda>m v. js_bind m (\<lambda>f. store f v)) (Inr f) vs = Inr f1" "sound f1" by fastforce
  from store_sound [OF f1(2)] assms(2) obtain f2 where f2: "store f1 v = Inr f2" "sound f2" by auto
  from store_shown [OF f1(2) _ f2(1)] assms(2) show ?thesis using f1(1) f2 by auto
qed

end

section \<open>Lists of records as objects and back\<close>

fun named_record :: "string \<Rightarrow> jsv \<Rightarrow> bool" where
  "named_record field (JObj ps) = (wf_obj ps \<and> (case map_of ps field of Some (JStr s) \<Rightarrow> \<not> is_index_key s | _ \<Rightarrow> False))"
| "named_record field _ = False"

definition named_records :: "string \<Rightarrow> jsv list \<Rightarrow> bool" where
  "named_records field xs = (list_all (named_record field) xs \<and> distinct (map (\<lambda>x. jget x field) xs))"

lemma named_recordE:
  assumes "named_record field x"
  obtains ps s where "x = JObj ps" "wf_obj ps" "map_of ps field = Some (JStr s)" "\<not> is_index_key s"
proof (cases x)
  case (JObj ps)
  with assms obtain v where v: "map_of ps field = Some v" by (auto split: option.splits)
  with assms JObj show ?thesis by (cases v) (auto intro: that)
qed (use assms in simp_all)

lemma named_recordsE:
  assumes "named_records field xs" "x \<in> set xs"
  obtains ps s where "x = JObj ps" "wf_obj ps" "map_of ps field = Some (JStr s)" "\<not> is_index_key s"
proof -
  have "named_record field x" using assms by (simp add: named_records_def list_all_iff)
  then show ?thesis by (rule named_recordE) (rule that)
qed

definition name_of :: "string \<Rightarrow> jsv \<Rightarrow> string" where
  "name_of field x = str_of (jget x field)"

lemma name_of_record:
  assumes "named_records field xs" "x \<in> set xs"
  shows "jget x field = JStr (name_of field x)" "\<not> is_index_key (name_of field x)"
  by (rule named_recordsE [OF assms], simp add: name_of_def str_of_def)+

lemma named_records_distinct:
  assumes "named_records field xs"
  shows "distinct (map (name_of field) xs)"
proof -
  have d: "distinct (map (\<lambda>x. jget x field) xs)" using assms by (simp add: named_records_def)
  have "inj_on (name_of field) (set xs)"
  proof (rule inj_onI)
    fix x y assume xy: "x \<in> set xs" "y \<in> set xs" "name_of field x = name_of field y"
    then have "jget x field = jget y field"
      using name_of_record(1) [OF assms xy(1)] name_of_record(1) [OF assms xy(2)] by simp
    with xy d show "x = y" by (simp add: distinct_map inj_on_def)
  qed
  with d show ?thesis by (simp add: distinct_map)
qed

text \<open>An object keyed by the names of the records lists them again in their order.\<close>

lemma keyed_records:
  assumes "named_records field xs" "\<And>x. x \<in> set xs \<Longrightarrow> entry x = Inr (name_of field x, g x)"
  shows "keyed entry xs = Inr (JObj (map (\<lambda>x. (name_of field x, g x)) xs))"
proof -
  have "js_mapM entry xs = Inr (map (\<lambda>x. (name_of field x, g x)) xs)"
    using assms(2) by (induction xs) auto
  moreover have "obj_of (map (\<lambda>x. (name_of field x, g x)) xs) = map (\<lambda>x. (name_of field x, g x)) xs"
  proof (rule obj_of_names)
    show "distinct (map fst (map (\<lambda>x. (name_of field x, g x)) xs))"
      using named_records_distinct [OF assms(1)] by (simp add: comp_def)
    show "\<forall>e\<in>set (map (\<lambda>x. (name_of field x, g x)) xs). \<not> is_index_key (fst e)"
      using name_of_record(2) [OF assms(1)] by auto
  qed
  ultimately show ?thesis by (simp add: keyed_def)
qed

lemma same_records_map: "(\<And>x. x \<in> set xs \<Longrightarrow> same_record (h x) x) \<Longrightarrow> same_value (JArr (map h xs)) (JArr xs)"
  by (intro same_value_lists) (simp add: list_all2_map1 list.rel_refl_strong)

lemma inputs_kept:
  assumes om: "omit_laws om" and xs: "named_records ''key'' xs"
  shows "\<exists>inputs. transferInputsArrayToObject om (JArr xs) = Inr inputs
    \<and> same_value (JArr (buildBeginInputListFromObject inputs)) (JArr xs)"
proof -
  let ?g = "\<lambda>x. JObj (om (props_of x) [''key''])"
  have "input_entry om x = Inr (name_of ''key'' x, ?g x)" if "x \<in> set xs" for x
    by (rule named_recordsE [OF xs that]) (simp add: input_entry_def jprop_def nullish_def name_of_def)
  from keyed_records [OF xs this]
  have "transferInputsArrayToObject om (JArr xs) = Inr (JObj (map (\<lambda>x. (name_of ''key'' x, ?g x)) xs))"
    by (simp add: transferInputsArrayToObject_def list_default_def)
  moreover have "same_record (js_object [Spread (?g x), Prop ''key'' (JStr (name_of ''key'' x))]) x" if "x \<in> set xs" for x
  proof -
    from xs that obtain ps s where x: "x = JObj ps" "wf_obj ps" "map_of ps ''key'' = Some (JStr s)"
      by (rule named_recordsE)
    have "wf_obj (om ps [''key''])" "\<And>k. map_of (om ps [''key'']) k = (if k = ''key'' then None else map_of ps k)"
      using om x(2) by (auto simp: omit_laws_def)
    then show ?thesis using x by (simp add: same_record_def jget_spread_prop name_of_def str_of_def)
  qed
  ultimately show ?thesis
    by (intro exI conjI) (auto simp: buildBeginInputListFromObject_def js_or_def comp_def intro!: same_records_map)
qed

definition only_fields :: "string list \<Rightarrow> jsv \<Rightarrow> bool" where
  "only_fields ks x = list_all (\<lambda>(k, _). k \<in> set ks) (props_of x)"

lemma only_fields_get: "only_fields ks (JObj ps) \<Longrightarrow> k \<notin> set ks \<Longrightarrow> map_of ps k = None"
  by (auto simp: only_fields_def list_all_iff map_of_eq_None_iff)

lemma arguments_kept:
  assumes xs: "named_records ''name'' xs" and only: "list_all (only_fields [''name'', ''type'']) xs"
  shows "\<exists>args ys. convertToObject (JArr xs) = Inr args \<and> convertToArray args = Inr ys \<and> same_value ys (JArr xs)"
proof -
  have "argument_entry x = Inr (name_of ''name'' x, jget x ''type'')" if "x \<in> set xs" for x
    by (rule named_recordsE [OF xs that]) (simp add: argument_entry_def jprop_def nullish_def name_of_def)
  from keyed_records [OF xs this]
  have obj: "convertToObject (JArr xs) = Inr (JObj (map (\<lambda>x. (name_of ''name'' x, jget x ''type'')) xs))"
    by (simp add: convertToObject_def list_default_def)
  let ?h = "\<lambda>x. JObj [(''name'', JStr (name_of ''name'' x)), (''type'', jget x ''type'')]"
  have "same_record (?h x) x" if x: "x \<in> set xs" for x
  proof (rule named_recordsE [OF xs x])
    fix ps s assume ps: "x = JObj ps" "map_of ps ''name'' = Some (JStr s)"
    have "only_fields [''name'', ''type''] x" using only x by (simp add: list_all_iff)
    from only_fields_get [OF this [unfolded ps(1)]] ps show ?thesis
      by (auto simp: same_record_def name_of_def str_of_def)
  qed
  then have "same_value (JArr (map ?h xs)) (JArr xs)" by (rule same_records_map)
  then show ?thesis
    unfolding obj by (simp add: convertToArray_def entries_of_def nullish_def comp_def)
qed

lemma outputs_kept:
  assumes xs: "named_records ''name'' xs" and only: "list_all (only_fields [''name'', ''ref'', ''type'']) xs"
  shows "\<exists>outs ys. transferToObject (JArr xs) = Inr outs \<and> convertOutputsToArray outs = Inr ys \<and> same_value ys (JArr xs)"
proof -
  let ?g = "\<lambda>x. JObj [(''ref'', jget x ''ref''), (''type'', jget x ''type'')]"
  have "output_entry x = Inr (name_of ''name'' x, ?g x)" if "x \<in> set xs" for x
    by (rule named_recordsE [OF xs that]) (simp add: output_entry_def jprop_def nullish_def name_of_def)
  from keyed_records [OF xs this]
  have obj: "transferToObject (JArr xs) = Inr (JObj (map (\<lambda>x. (name_of ''name'' x, ?g x)) xs))"
    by (simp add: transferToObject_def)
  let ?h = "\<lambda>x. JObj [(''name'', JStr (name_of ''name'' x)), (''ref'', jget x ''ref''), (''type'', jget x ''type'')]"
  have "same_record (?h x) x" if x: "x \<in> set xs" for x
  proof (rule named_recordsE [OF xs x])
    fix ps s assume ps: "x = JObj ps" "map_of ps ''name'' = Some (JStr s)"
    have "only_fields [''name'', ''ref'', ''type''] x" using only x by (simp add: list_all_iff)
    from only_fields_get [OF this [unfolded ps(1)]] ps show ?thesis
      by (auto simp: same_record_def name_of_def str_of_def)
  qed
  then have "same_value (JArr (map ?h xs)) (JArr xs)" by (rule same_records_map)
  moreover have "js_mapM (\<lambda>(k, v). js_bind (jprop v ''ref'') (\<lambda>r.
      Inr (JObj [(''name'', JStr k), (''ref'', r), (''type'', jget v ''type'')])))
      (map (\<lambda>x. (name_of ''name'' x, ?g x)) ys) = Inr (map ?h ys)" for ys
    by (induction ys) (simp_all add: jprop_def nullish_def)
  ultimately show ?thesis
    unfolding obj by (simp add: convertOutputsToArray_def entries_of_def nullish_def)
qed

text \<open>A list of texts and the rows of a form, each with one field.\<close>

definition value_rows :: "jsv \<Rightarrow> bool" where
  "value_rows v = (case v of JArr xs \<Rightarrow> list_all (\<lambda>x. x = JObj [(''value'', jget x ''value'')]) xs | _ \<Rightarrow> False)"

lemma rows_kept:
  assumes "value_rows v"
  shows "\<exists>ys. convertToStringArray v = Inr (JArr ys) \<and> convertToObjectArray (JArr ys) = v"
proof -
  obtain xs where xs: "v = JArr xs" "list_all (\<lambda>x. x = JObj [(''value'', jget x ''value'')]) xs"
    using assms by (cases v) (auto simp: value_rows_def)
  have "js_mapM (\<lambda>x. jprop x ''value'') xs = Inr (map (\<lambda>x. jget x ''value'') xs)
    \<and> map (\<lambda>x. JObj [(''value'', x)]) (map (\<lambda>x. jget x ''value'') xs) = xs"
    using xs(2)
  proof (induction xs)
    case (Cons x xs)
    then have "x = JObj [(''value'', jget x ''value'')]" by (simp only: list.pred_inject)
    then obtain w where x: "x = JObj [(''value'', w)]" by blast
    from Cons show ?case by (simp add: x jprop_def nullish_def)
  qed simp
  with xs(1) show ?thesis by (simp add: convertToStringArray_def convertToObjectArray_def)
qed

section \<open>What is stored\<close>

lemma merged:
  assumes "wf_obj ps" "wf_obj ws"
  shows "wf_obj (obj_assign ps ws)"
    and "jget (JObj (obj_assign ps ws)) k = (if k \<in> fst ` set ws then jget (JObj ws) k else jget (JObj ps) k)"
proof -
  have "k \<in> fst ` set ws \<longleftrightarrow> map_of ws k \<noteq> None" by (simp add: map_of_eq_None_iff)
  then show "jget (JObj (obj_assign ps ws)) k = (if k \<in> fst ` set ws then jget (JObj ws) k else jget (JObj ps) k)"
    using assms by (auto simp: map_of_obj_assign map_add_def split: option.splits)
qed (use assms in simp)

definition merged_form :: "jsv \<Rightarrow> jsv \<Rightarrow> jsv" where
  "merged_form f w = JObj (obj_assign (props_of f) (props_of w))"

lemma merged_form_sound: "wf_obj ps \<Longrightarrow> \<exists>fs. merged_form (JObj ps) w = JObj fs \<and> wf_obj fs"
  by (simp add: merged_form_def)

lemma merged_form_get:
  assumes "wf_obj ps" "wf_obj ws"
  shows "jget (merged_form (JObj ps) (JObj ws)) k = (if k \<in> fst ` set ws then jget (JObj ws) k else jget (JObj ps) k)"
  using merged(2) [OF assms] by (simp add: merged_form_def del: jget.simps)

lemma js_object_keys: "fst ` set (props_of (js_object parts)) = fst ` set (concat (map part_props parts))"
  by (simp add: js_object_def obj_of_def)

lemma merged_form_object:
  assumes "wf_obj ps"
  shows "jget (merged_form (JObj ps) (js_object parts)) k
    = (if k \<in> fst ` set (concat (map part_props parts)) then jget (js_object parts) k else jget (JObj ps) k)"
proof (rule js_object_cases [of parts])
  fix ws assume ws: "js_object parts = JObj ws" "wf_obj ws"
  then show ?thesis
    using merged_form_get [OF assms ws(2)] js_object_keys [of parts] by (simp del: jget.simps)
qed

lemma merged_form_empty: "merged_form f w = JObj [] \<Longrightarrow> props_of w = []"
proof -
  assume "merged_form f w = JObj []"
  then have "fst ` set (obj_assign (props_of f) (props_of w)) = {}" by (simp add: merged_form_def)
  then show ?thesis by simp
qed

definition isEmpty_laws :: "(jsv \<Rightarrow> bool) \<Rightarrow> bool" where
  "isEmpty_laws emp = (\<forall>ps. emp (JObj ps) = (ps = []))"

lemma merged_two:
  assumes "wf_obj ps" "wf_obj vs" "a \<noteq> b"
  obtains fs where "merged_form (JObj ps) (js_object [Spread (JObj vs), Prop a x, Prop b y]) = JObj fs" "wf_obj fs"
    "fs \<noteq> []" "jget (JObj fs) a = x" "jget (JObj fs) b = y"
    "\<And>k. k \<in> fst ` set vs \<Longrightarrow> k \<noteq> a \<Longrightarrow> k \<noteq> b \<Longrightarrow> jget (JObj fs) k = jget (JObj vs) k"
proof -
  let ?w = "js_object [Spread (JObj vs), Prop a x, Prop b y]"
  obtain fs where fs: "merged_form (JObj ps) ?w = JObj fs" "wf_obj fs"
    using merged_form_sound [OF assms(1)] by blast
  have get: "jget (JObj fs) k = (if k = b then y else if k = a then x else jget (JObj vs) k)"
    if "k \<in> insert a (insert b (fst ` set vs))" for k
    using merged_form_object [OF assms(1), of "[Spread (JObj vs), Prop a x, Prop b y]" k]
      jget_spread_prop2 [OF assms(2), of a x b y k] that by (auto simp: fs(1) simp del: jget.simps)
  have "fs \<noteq> []" using merged_form_empty [of "JObj ps" ?w] fs(1) js_object_keys [of "[Spread (JObj vs), Prop a x, Prop b y]"]
    by auto
  then show ?thesis using get assms(3) by (intro that [OF fs]) (auto simp del: jget.simps)
qed

lemma merged_one:
  assumes "wf_obj ps" "wf_obj vs"
  obtains fs where "merged_form (JObj ps) (js_object [Spread (JObj vs), Prop a x]) = JObj fs" "wf_obj fs"
    "fs \<noteq> []" "jget (JObj fs) a = x" "\<And>k. k \<in> fst ` set vs \<Longrightarrow> k \<noteq> a \<Longrightarrow> jget (JObj fs) k = jget (JObj vs) k"
proof -
  let ?w = "js_object [Spread (JObj vs), Prop a x]"
  obtain fs where fs: "merged_form (JObj ps) ?w = JObj fs" "wf_obj fs"
    using merged_form_sound [OF assms(1)] by blast
  have get: "jget (JObj fs) k = (if k = a then x else jget (JObj vs) k)" if "k \<in> insert a (fst ` set vs)" for k
    using merged_form_object [OF assms(1), of "[Spread (JObj vs), Prop a x]" k]
      jget_spread_prop [OF assms(2), of a x k] that by (auto simp: fs(1) simp del: jget.simps)
  have "fs \<noteq> []" using merged_form_empty [of "JObj ps" ?w] fs(1) js_object_keys [of "[Spread (JObj vs), Prop a x]"]
    by auto
  then show ?thesis using get by (intro that [OF fs]) (auto simp del: jget.simps)
qed

lemma merged_plain:
  assumes "wf_obj ps" "wf_obj vs"
  obtains fs where "merged_form (JObj ps) (JObj vs) = JObj fs" "wf_obj fs" "fs = [] \<Longrightarrow> vs = []"
    "\<And>k. k \<in> fst ` set vs \<Longrightarrow> jget (JObj fs) k = jget (JObj vs) k"
  using merged_form_sound [OF assms(1), of "JObj vs"] merged_form_get [OF assms]
    merged_form_empty [of "JObj ps" "JObj vs"] by (metis props_of_JObj)

lemma shows_valuesI:
  "(\<And>k. k \<in> fst ` set vs \<Longrightarrow> k \<notin> derived \<Longrightarrow> same_value (jget u k) (jget (JObj vs) k)) \<Longrightarrow> shows_values derived u (JObj vs)"
  by (simp add: shows_values_def)

section \<open>Each form\<close>

lemma begin_kept:
  assumes om: "omit_laws om" and emp: "isEmpty_laws emp" and wf: "wf_obj ps" "wf_obj vs"
    and inputs: "jget (JObj vs) ''inputs'' = JArr xs" "named_records ''key'' xs"
    and w: "begin_synced om emp (JObj vs) = Inr w"
  shows "shows_values {''outputs''} (begin_values emp t (merged_form (JObj ps) w)) (JObj vs)"
proof -
  from inputs_kept [OF om inputs(2)] obtain io where io: "transferInputsArrayToObject om (JArr xs) = Inr io"
    "same_value (JArr (buildBeginInputListFromObject io)) (JArr xs)" by blast
  from w obtain outputs where w': "w = js_object [Spread (JObj vs), Prop ''inputs'' io, Prop ''outputs'' outputs]"
    by (auto simp: begin_synced_def inputs(1) io(1) js_bind_Inr simp del: jget.simps)
  show ?thesis
  proof (rule merged_two [OF wf, of "''inputs''" "''outputs''" io outputs])
    fix fs assume fs: "merged_form (JObj ps) (js_object [Spread (JObj vs), Prop ''inputs'' io, Prop ''outputs'' outputs]) = JObj fs"
      "wf_obj fs" "fs \<noteq> []" "jget (JObj fs) ''inputs'' = io"
      "\<And>k. k \<in> fst ` set vs \<Longrightarrow> k \<noteq> ''inputs'' \<Longrightarrow> k \<noteq> ''outputs'' \<Longrightarrow> jget (JObj fs) k = jget (JObj vs) k"
    have u: "begin_values emp t (JObj fs)
        = js_object [Spread (JObj fs), Prop ''inputs'' (JArr (buildBeginInputListFromObject io))]"
      using emp fs(3,4) by (simp add: begin_values_def isEmpty_laws_def del: jget.simps)
    show ?thesis unfolding w' fs(1) u
      by (rule shows_valuesI) (use io(2) fs(5) inputs(1) in \<open>simp add: jget_spread_prop [OF fs(2)] del: jget.simps\<close>)
  qed simp
qed

lemma shown_one:
  assumes "wf_obj fs" "same_value y (jget (JObj vs) a)"
    "\<And>k. k \<in> fst ` set vs \<Longrightarrow> k \<noteq> a \<Longrightarrow> k \<notin> derived \<Longrightarrow> jget (JObj fs) k = jget (JObj vs) k"
  shows "shows_values derived (js_object [Spread (JObj fs), Prop a y]) (JObj vs)"
  by (rule shows_valuesI) (use assms(2,3) in \<open>simp add: jget_spread_prop [OF assms(1)] del: jget.simps\<close>)

lemma fill_up_kept:
  assumes om: "omit_laws om" and emp: "isEmpty_laws emp" and wf: "wf_obj ps" "wf_obj vs"
    and inputs: "jget (JObj vs) ''inputs'' = JArr xs" "named_records ''key'' xs"
  shows "\<exists>w. fill_up_synced om (JObj vs) = Inr w
    \<and> shows_values {''outputs''} (fill_up_values emp (merged_form (JObj ps) w)) (JObj vs)"
proof -
  from inputs_kept [OF om inputs(2)] obtain io where io: "transferInputsArrayToObject om (JArr xs) = Inr io"
    "same_value (JArr (buildBeginInputListFromObject io)) (JArr xs)" by blast
  let ?w = "js_object [Spread (JObj vs), Prop ''inputs'' io, Prop ''outputs'' io]"
  have w: "fill_up_synced om (JObj vs) = Inr ?w"
    by (simp add: fill_up_synced_def inputs(1) io(1) del: jget.simps)
  show ?thesis
  proof (rule merged_two [OF wf, of "''inputs''" "''outputs''" io io])
    fix fs assume fs: "merged_form (JObj ps) ?w = JObj fs" "wf_obj fs" "fs \<noteq> []" "jget (JObj fs) ''inputs'' = io"
      "\<And>k. k \<in> fst ` set vs \<Longrightarrow> k \<noteq> ''inputs'' \<Longrightarrow> k \<noteq> ''outputs'' \<Longrightarrow> jget (JObj fs) k = jget (JObj vs) k"
    have "fill_up_values emp (JObj fs)
        = js_object [Spread (JObj fs), Prop ''inputs'' (JArr (buildBeginInputListFromObject io))]"
      using emp fs(3,4) by (simp add: fill_up_values_def isEmpty_laws_def del: jget.simps)
    moreover have "shows_values {''outputs''} (js_object
        [Spread (JObj fs), Prop ''inputs'' (JArr (buildBeginInputListFromObject io))]) (JObj vs)"
      using io(2) fs(5) inputs(1) by (intro shown_one [OF fs(2)]) (simp_all del: jget.simps)
    ultimately show ?thesis using w fs(1) by simp
  qed simp
qed

lemma iteration_kept:
  assumes emp: "isEmpty_laws emp" and wf: "wf_obj ps" "wf_obj vs"
    and outputs: "jget (JObj vs) ''outputs'' = JArr xs" "named_records ''name'' xs"
      "list_all (only_fields [''name'', ''ref'', ''type'']) xs"
  shows "\<exists>w u. iteration_synced (JObj vs) = Inr w \<and> iteration_values emp (merged_form (JObj ps) w) = Inr u
    \<and> shows_values {} u (JObj vs)"
proof -
  from outputs_kept [OF outputs(2,3)] obtain oo ys where oo: "transferToObject (JArr xs) = Inr oo"
    "convertOutputsToArray oo = Inr ys" "same_value ys (JArr xs)" by blast
  let ?w = "js_object [Spread (JObj vs), Prop ''outputs'' oo]"
  have w: "iteration_synced (JObj vs) = Inr ?w" by (simp add: iteration_synced_def outputs(1) oo(1) del: jget.simps)
  show ?thesis
  proof (rule merged_one [OF wf, of "''outputs''" oo])
    fix fs assume fs: "merged_form (JObj ps) ?w = JObj fs" "wf_obj fs" "fs \<noteq> []" "jget (JObj fs) ''outputs'' = oo"
      "\<And>k. k \<in> fst ` set vs \<Longrightarrow> k \<noteq> ''outputs'' \<Longrightarrow> jget (JObj fs) k = jget (JObj vs) k"
    have "iteration_values emp (JObj fs) = Inr (js_object [Spread (JObj fs), Prop ''outputs'' ys])"
      using emp fs(3,4) oo(2) by (simp add: iteration_values_def isEmpty_laws_def del: jget.simps)
    moreover have "shows_values {} (js_object [Spread (JObj fs), Prop ''outputs'' ys]) (JObj vs)"
      using oo(3) fs(5) outputs(1) by (intro shown_one [OF fs(2)]) (simp_all del: jget.simps)
    ultimately show ?thesis using w fs(1) by auto
  qed
qed

lemma message_kept:
  assumes emp: "isEmpty_laws emp" and wf: "wf_obj ps" "wf_obj vs" and rows: "value_rows (jget (JObj vs) ''content'')"
  shows "\<exists>w. message_synced (JObj vs) = Inr w \<and> shows_values {} (message_values emp (merged_form (JObj ps) w)) (JObj vs)"
proof -
  from rows_kept [OF rows] obtain ys where ys: "convertToStringArray (jget (JObj vs) ''content'') = Inr (JArr ys)"
    "convertToObjectArray (JArr ys) = jget (JObj vs) ''content''" by blast
  let ?w = "js_object [Spread (JObj vs), Prop ''content'' (JArr ys)]"
  have w: "message_synced (JObj vs) = Inr ?w" by (simp add: message_synced_def ys(1) del: jget.simps)
  show ?thesis
  proof (rule merged_one [OF wf, of "''content''" "JArr ys"])
    fix fs assume fs: "merged_form (JObj ps) ?w = JObj fs" "wf_obj fs" "fs \<noteq> []" "jget (JObj fs) ''content'' = JArr ys"
      "\<And>k. k \<in> fst ` set vs \<Longrightarrow> k \<noteq> ''content'' \<Longrightarrow> jget (JObj fs) k = jget (JObj vs) k"
    have "message_values emp (JObj fs) = js_object [Spread (JObj fs), Prop ''content'' (jget (JObj vs) ''content'')]"
      using emp fs(3,4) ys(2) by (simp add: message_values_def isEmpty_laws_def del: jget.simps)
    moreover have "shows_values {} (js_object [Spread (JObj fs), Prop ''content'' (jget (JObj vs) ''content'')]) (JObj vs)"
      using fs(5) by (intro shown_one [OF fs(2)]) (simp_all del: jget.simps)
    ultimately show ?thesis using w fs(1) by simp
  qed
qed

lemma tavily_kept:
  assumes emp: "isEmpty_laws emp" and wf: "wf_obj ps" "wf_obj vs"
    and rows: "value_rows (jget (JObj vs) ''include_domains'')" "value_rows (jget (JObj vs) ''exclude_domains'')"
  shows "\<exists>w. tavily_synced (JObj vs) = Inr w \<and> shows_values {} (tavily_values emp (merged_form (JObj ps) w)) (JObj vs)"
proof -
  from rows_kept [OF rows(1)] obtain ic where i: "convertToStringArray (jget (JObj vs) ''include_domains'') = Inr (JArr ic)"
    "convertToObjectArray (JArr ic) = jget (JObj vs) ''include_domains''" by blast
  from rows_kept [OF rows(2)] obtain es where e: "convertToStringArray (jget (JObj vs) ''exclude_domains'') = Inr (JArr es)"
    "convertToObjectArray (JArr es) = jget (JObj vs) ''exclude_domains''" by blast
  let ?w = "js_object [Spread (JObj vs), Prop ''include_domains'' (JArr ic), Prop ''exclude_domains'' (JArr es)]"
  have w: "tavily_synced (JObj vs) = Inr ?w" by (simp add: tavily_synced_def i(1) e(1) del: jget.simps)
  show ?thesis
  proof (rule merged_two [OF wf, of "''include_domains''" "''exclude_domains''" "JArr ic" "JArr es"])
    fix fs assume fs: "merged_form (JObj ps) ?w = JObj fs" "wf_obj fs" "fs \<noteq> []"
      "jget (JObj fs) ''include_domains'' = JArr ic" "jget (JObj fs) ''exclude_domains'' = JArr es"
      "\<And>k. k \<in> fst ` set vs \<Longrightarrow> k \<noteq> ''include_domains'' \<Longrightarrow> k \<noteq> ''exclude_domains'' \<Longrightarrow>
        jget (JObj fs) k = jget (JObj vs) k"
    have "tavily_values emp (JObj fs) = js_object [Spread (JObj fs), Prop ''include_domains'' (jget (JObj vs) ''include_domains''),
        Prop ''exclude_domains'' (jget (JObj vs) ''exclude_domains'')]"
      using emp fs(3,4,5) i(2) e(2) by (simp add: tavily_values_def isEmpty_laws_def del: jget.simps)
    moreover have "shows_values {} (js_object [Spread (JObj fs),
        Prop ''include_domains'' (jget (JObj vs) ''include_domains''),
        Prop ''exclude_domains'' (jget (JObj vs) ''exclude_domains'')]) (JObj vs)"
      by (rule shows_valuesI) (use fs(6) in \<open>simp add: jget_spread_prop2 [OF fs(2)] del: jget.simps\<close>)
    ultimately show ?thesis using w fs(1) by simp
  qed simp
qed

lemma agent_kept:
  assumes om: "omit_laws om" and emp: "isEmpty_laws emp" and lget: "lget_laws lget" and wf: "wf_obj ps" "wf_obj vs"
    and prompts: "jget (JObj vs) ''prompts'' = JStr s"
  shows "shows_values {''mcp'', ''tools'', ''outputs''}
    (agent_values om emp lget t llmId (merged_form (JObj ps) (agent_synced (JObj vs)))) (JObj vs)"
proof -
  let ?pr = "JArr [JObj [(''role'', JStr ''user''), (''content'', JStr s)]]"
  have w: "agent_synced (JObj vs) = js_object [Spread (JObj vs), Prop ''prompts'' ?pr]"
    by (simp add: agent_synced_def prompts del: jget.simps)
  show ?thesis
  proof (rule merged_one [OF wf, of "''prompts''" ?pr])
    fix fs assume fs: "merged_form (JObj ps) (js_object [Spread (JObj vs), Prop ''prompts'' ?pr]) = JObj fs" "wf_obj fs"
      "fs \<noteq> []" "jget (JObj fs) ''prompts'' = ?pr"
      "\<And>k. k \<in> fst ` set vs \<Longrightarrow> k \<noteq> ''prompts'' \<Longrightarrow> jget (JObj fs) k = jget (JObj vs) k"
    have "get_path (JObj fs) [''prompts'', ''0'', ''content''] = JStr s"
      using fs(4) by (simp add: get_path_def is_index_key_def digit_def nat_of_digits_def digit_val_def)
    then have u: "agent_values om emp lget t llmId (JObj fs)
        = js_object [Spread (JObj (om fs [''mcp'', ''tools'', ''outputs''])), Prop ''prompts'' (JStr s)]"
      using emp lget fs(3) by (simp add: agent_values_def isEmpty_laws_def lget_laws_def omitToolsAndMcp_def)
    have om': "wf_obj (om fs [''mcp'', ''tools'', ''outputs''])"
      "jget (JObj (om fs [''mcp'', ''tools'', ''outputs''])) k = jget (JObj fs) k"
      if "k \<notin> {''mcp'', ''tools'', ''outputs''}" for k
      using om fs(2) that by (auto simp: omit_laws_def)
    have "wf_obj (om fs [''mcp'', ''tools'', ''outputs''])" using om fs(2) by (simp add: omit_laws_def)
    from shown_one [OF this, of "JStr s" vs "''prompts''" "{''mcp'', ''tools'', ''outputs''}"]
    show ?thesis unfolding w fs(1) u using prompts fs(5) om'(2) by (simp del: jget.simps)
  qed
qed

fun plain_record :: "jsv \<Rightarrow> bool" where
  "plain_record (JObj qs) = wf_obj qs"
| "plain_record _ = False"

lemma switch_kept:
  assumes emp: "isEmpty_laws emp" and wf: "wf_obj ps" "wf_obj vs" and conds: "jget (JObj vs) ''conditions'' = JArr xs"
    "list_all plain_record xs"
  shows "shows_values {} (switch_values emp (merged_form (JObj ps) (switch_synced (JObj vs)))) (JObj vs)"
proof -
  let ?cs = "JArr (map (\<lambda>x. js_object [Spread x]) xs)"
  have "same_record (js_object [Spread x]) x" if "x \<in> set xs" for x
  proof -
    have "plain_record x" using that conds(2) by (simp add: list_all_iff)
    then show ?thesis by (cases x) (simp_all add: same_record_def jget_spread del: jget.simps)
  qed
  then have same: "same_value ?cs (JArr xs)" by (rule same_records_map)
  have w: "switch_synced (JObj vs) = js_object [Spread (JObj vs), Prop ''conditions'' ?cs]"
    by (simp add: switch_synced_def conds(1) del: jget.simps)
  show ?thesis
  proof (rule merged_one [OF wf, of "''conditions''" ?cs])
    fix fs assume fs: "merged_form (JObj ps) (js_object [Spread (JObj vs), Prop ''conditions'' ?cs]) = JObj fs" "wf_obj fs"
      "fs \<noteq> []" "jget (JObj fs) ''conditions'' = ?cs"
      "\<And>k. k \<in> fst ` set vs \<Longrightarrow> k \<noteq> ''conditions'' \<Longrightarrow> jget (JObj fs) k = jget (JObj vs) k"
    have u: "switch_values emp (JObj fs) = JObj fs" using emp fs(3) by (simp add: switch_values_def isEmpty_laws_def)
    show ?thesis unfolding w fs(1) u
      by (rule shows_valuesI) (metis conds(1) fs(4,5) same same_value_refl)
  qed
qed

lemma categorize_kept:
  assumes emp: "isEmpty_laws emp" and wf: "wf_obj ps" "wf_obj vs" and items: "jget (JObj vs) ''items'' = JArr xs"
  shows "shows_values {} (categorize_values emp (merged_form (JObj ps) (categorize_synced (JObj vs)))) (JObj vs)"
proof -
  have w: "categorize_synced (JObj vs) = js_object [Spread (JObj vs), Prop ''items'' (JArr xs)]"
    by (simp add: categorize_synced_def items js_or_def del: jget.simps)
  show ?thesis
  proof (rule merged_one [OF wf, of "''items''" "JArr xs"])
    fix fs assume fs: "merged_form (JObj ps) (js_object [Spread (JObj vs), Prop ''items'' (JArr xs)]) = JObj fs" "wf_obj fs"
      "fs \<noteq> []" "jget (JObj fs) ''items'' = JArr xs"
      "\<And>k. k \<in> fst ` set vs \<Longrightarrow> k \<noteq> ''items'' \<Longrightarrow> jget (JObj fs) k = jget (JObj vs) k"
    have u: "categorize_values emp (JObj fs) = JObj fs" using emp fs(3) by (simp add: categorize_values_def isEmpty_laws_def)
    show ?thesis unfolding w fs(1) u by (rule shows_valuesI) (metis items fs(4,5) same_value_refl)
  qed
qed

lemma string_kept:
  assumes emp: "isEmpty_laws emp" and wf: "wf_obj ps" "wf_obj vs" and d: "jget (JObj vs) ''delimiters'' \<noteq> JUndef"
    and m: "''method'' \<in> fst ` set vs"
  shows "\<exists>u. string_values emp (merged_form (JObj ps) (string_synced (JObj vs))) = Inr u \<and> shows_values {} u (JObj vs)"
proof -
  let ?m = "jget (JObj vs) ''method'' = JStr ''merge''"
  let ?d = "jget (JObj vs) ''delimiters''"
  let ?w = "JObj (if ?m then obj_put ''delimiters'' (JArr [?d]) vs else vs)"
  have w: "string_synced (JObj vs) = ?w" using d by (simp add: string_synced_def del: jget.simps)
  have k: "''delimiters'' \<in> fst ` set vs"
    using d by (auto split: option.splits dest: map_of_SomeD simp: rev_image_eqI)
  have wfw: "wf_obj (if ?m then obj_put ''delimiters'' (JArr [?d]) vs else vs)" using wf(2) by simp
  show ?thesis
  proof (rule merged_plain [OF wf(1) wfw])
    fix fs assume fs: "merged_form (JObj ps) ?w = JObj fs" "wf_obj fs"
      "fs = [] \<Longrightarrow> (if ?m then obj_put ''delimiters'' (JArr [?d]) vs else vs) = []"
      "\<And>k. k \<in> fst ` set (if ?m then obj_put ''delimiters'' (JArr [?d]) vs else vs) \<Longrightarrow> jget (JObj fs) k = jget ?w k"
    have fd: "jget (JObj fs) ''delimiters'' = (if ?m then JArr [?d] else ?d)"
      using fs(4) [of "''delimiters''"] k by (auto simp del: jget.simps)
    have get: "jget (JObj fs) k = jget (JObj vs) k" if "k \<in> fst ` set vs" "k \<noteq> ''delimiters''" for k
      using fs(4) [of k] that by (auto simp del: jget.simps)
    have "fs \<noteq> []" using fd d by (auto split: if_splits)
    moreover have "transferDelimiters (JObj fs) = Inr ?d"
      using get [OF m] fd by (simp add: transferDelimiters_def jprop_def nullish_def is_index_key_def digit_def nat_of_digits_def
          digit_val_def del: jget.simps(1))
    ultimately have "string_values emp (JObj fs) = Inr (js_object [Spread (JObj fs), Prop ''delimiters'' ?d])"
      using emp by (simp add: string_values_def isEmpty_laws_def del: jget.simps)
    moreover have "shows_values {} (js_object [Spread (JObj fs), Prop ''delimiters'' ?d]) (JObj vs)"
      using get by (intro shown_one [OF fs(2)]) (simp_all del: jget.simps)
    ultimately show ?thesis unfolding w fs(1) by blast
  qed
qed

text \<open>The code operator, whose output is one contract that was touched.\<close>

definition fits_output :: "jsv \<Rightarrow> bool" where
  "fits_output out =
     (let n = str_of (jget out ''name''); ty = str_of (jget out ''type'') in
      out = JObj [(''name'', JStr n), (''type'', JStr ty)] \<and> js_trim n = n \<and> js_trim ty = ty \<and> ty \<noteq> []
      \<and> isValidCodeOutputName n)"

lemma fits_outputE:
  assumes "fits_output out"
  obtains n ty where "out = JObj [(''name'', JStr n), (''type'', JStr ty)]" "js_trim n = n" "js_trim ty = ty" "ty \<noteq> []"
    "isValidCodeOutputName n" "n \<noteq> []"
proof (rule that)
  let ?n = "str_of (jget out ''name'')" and ?ty = "str_of (jget out ''type'')"
  show "out = JObj [(''name'', JStr ?n), (''type'', JStr ?ty)]" "js_trim ?n = ?n" "js_trim ?ty = ?ty" "?ty \<noteq> []"
    "isValidCodeOutputName ?n" using assms unfolding fits_output_def Let_def by blast+
  then show "?n \<noteq> []" by (auto simp: isValidCodeOutputName_def Let_def)
qed

lemma contract_read:
  assumes "jget f ''outputs'' = JObj [(n, JObj [(''type'', JStr ty), (''value'', JNull)])]" "isValidCodeOutputName n"
    "js_trim n = n"
  shows "dr_contract (deserializeCodeOutputContract f) = Some \<lparr>co_name = n, co_type = ty\<rparr>"
proof -
  have "n \<notin> set CodeExecReservedOutputKeys" using assms(2,3) by (simp add: isValidCodeOutputName_def Let_def)
  then show ?thesis
    using assms(1) getBusinessOutputs_single
    by (simp add: deserializeCodeOutputContract_def Let_def output_type_def del: jget.simps(1)) simp
qed

lemma keys_obj_del: "fst ` set (obj_del k ps) = fst ` set ps - {k}"
  by (induction ps) (auto simp: obj_del_def)

lemma code_kept:
  assumes emp: "isEmpty_laws emp" and wf: "wf_obj ps" "wf_obj vs"
    and args: "jget (JObj vs) ''arguments'' = JArr xs" "named_records ''name'' xs"
      "list_all (only_fields [''name'', ''type'']) xs"
    and out: "fits_output (jget (JObj vs) ''output'')"
    and touched: "touched \<or> \<not> hasLegacyMultiOutputs (props_of old)"
  shows "\<exists>w u l. code_synced touched old (JObj vs) = Inr w \<and> code_values emp (merged_form (JObj ps) w) = Inr (u, l)
    \<and> shows_values {''outputs''} u (JObj vs)"
proof -
  from out obtain n ty where o: "jget (JObj vs) ''output'' = JObj [(''name'', JStr n), (''type'', JStr ty)]"
    "js_trim n = n" "js_trim ty = ty" "ty \<noteq> []" "isValidCodeOutputName n" "n \<noteq> []" by (rule fits_outputE)
  from arguments_kept [OF args(2,3)] obtain ao ys where ao: "convertToObject (JArr xs) = Inr ao"
    "convertToArray ao = Inr ys" "same_value ys (JArr xs)" by blast
  let ?oo = "JObj [(n, JObj [(''type'', JStr ty), (''value'', JNull)])]"
  let ?parts = "[Spread (JObj vs), Prop ''arguments'' ao, Prop ''outputs'' ?oo]"
  have outs: "code_outputs touched old (jget (JObj vs) ''output'') = ?oo"
    using o touched by (cases touched) (simp_all add: code_outputs_def o(1) trimmed_def serializeCodeOutputContract_def Let_def)
  obtain ws where ws: "js_object ?parts = JObj ws" "wf_obj ws" by (rule js_object_cases)
  have w: "code_synced touched old (JObj vs) = Inr (JObj (obj_del ''output'' ws))"
    by (simp add: code_synced_def args(1) ao(1) outs ws(1) del: jget.simps)
  have wsk: "jget (JObj ws) k = (if k = ''outputs'' then ?oo else if k = ''arguments'' then ao else jget (JObj vs) k)" for k
    using jget_spread_prop2 [OF wf(2), of "''arguments''" ao "''outputs''" ?oo k] by (simp only: ws(1))
  have keys: "fst ` set (obj_del ''output'' ws) = (insert ''arguments'' (insert ''outputs'' (fst ` set vs))) - {''output''}"
  proof -
    have "fst ` set ws = insert ''arguments'' (insert ''outputs'' (fst ` set vs))"
      using js_object_keys [of ?parts] by (simp add: ws(1))
    then show ?thesis by (simp add: keys_obj_del)
  qed
  obtain fs where fs: "merged_form (JObj ps) (JObj (obj_del ''output'' ws)) = JObj fs" "wf_obj fs"
    using merged_form_sound [OF wf(1)] by blast
  have get: "jget (JObj fs) k = jget (JObj ws) k" if "k \<in> insert ''arguments'' (insert ''outputs'' (fst ` set vs))" "k \<noteq> ''output''" for k
    using merged_form_get [OF wf(1) wf_obj_del [OF ws(2)], of "''output''" k] that
    by (auto simp: fs(1) keys)
  have fo: "jget (JObj fs) ''outputs'' = ?oo" and fa: "jget (JObj fs) ''arguments'' = ao"
    using get [of "''outputs''"] get [of "''arguments''"] wsk by (simp_all del: jget.simps)
  have ne: "fs \<noteq> []" using fo by auto
  let ?u = "js_object [Spread (JObj fs), Prop ''arguments'' ys, Prop ''output'' (JObj [(''name'', JStr n), (''type'', JStr ty)])]"
  have "code_values emp (JObj fs) = Inr (?u, dr_legacyOutputs (deserializeCodeOutputContract (JObj fs)))"
    using emp ne ao(2) contract_read [OF fo o(5,2)] fa
    by (simp add: code_values_def isEmpty_laws_def Let_def contract_value_def del: jget.simps)
  moreover have "shows_values {''outputs''} ?u (JObj vs)"
    by (rule shows_valuesI)
      (use ao(3) args(1) o(1) get wsk in \<open>simp add: jget_spread_prop2 [OF fs(2)] del: jget.simps\<close>)
  ultimately show ?thesis by (simp add: w fs(1) del: jget.simps)
qed

text \<open>The forms whose values replace the old form.\<close>

lemma named_outputs_total:
  assumes "list_all (\<lambda>x. \<not> nullish x) xs"
  shows "\<exists>ps. named_outputs field entry xs = Inr ps"
proof -
  have "\<exists>ps. foldl (\<lambda>m cur. js_bind m (\<lambda>pre. js_bind (jprop cur field) (\<lambda>nm.
        Inr (if truthy nm then obj_put (str_of nm) (entry cur) pre else pre)))) (Inr a) xs = Inr ps" for a
    using assms by (induction xs arbitrary: a) (auto simp: jprop_def simp del: jget.simps)
  then show ?thesis by (simp add: named_outputs_def)
qed

definition named_list :: "jsv \<Rightarrow> bool" where
  "named_list v = (case v of JArr xs \<Rightarrow> list_all (\<lambda>x. \<not> nullish x) xs | _ \<Rightarrow> False)"

lemma outputs_of_list_total: "named_list v \<Longrightarrow> \<exists>ps. outputs_of_list field entry v = Inr (JObj ps)"
proof (cases v)
  case (JArr xs)
  moreover assume "named_list v"
  ultimately obtain ps where "named_outputs field entry xs = Inr ps"
    using named_outputs_total [of xs field entry] by (auto simp: named_list_def)
  with JArr show ?thesis by (simp add: outputs_of_list_def nullish_def)
qed (simp_all add: named_list_def)

lemma replaced_one:
  assumes "wf_obj vs"
  obtains fs where "js_object [Spread (JObj vs), Prop a x] = JObj fs" "wf_obj fs" "fs \<noteq> []"
    "\<And>k. k \<noteq> a \<Longrightarrow> jget (JObj fs) k = jget (JObj vs) k"
proof (rule js_object_cases [of "[Spread (JObj vs), Prop a x]"])
  fix fs assume fs: "js_object [Spread (JObj vs), Prop a x] = JObj fs" "wf_obj fs"
  have "fst ` set fs = insert a (fst ` set vs)"
    using js_object_keys [of "[Spread (JObj vs), Prop a x]"] by (simp add: fs(1))
  then have "fs \<noteq> []" by auto
  moreover have "jget (JObj fs) k = jget (JObj vs) k" if "k \<noteq> a" for k
    using jget_spread_prop [OF assms, of a x k] that by (simp only: fs(1) if_False)
  ultimately show ?thesis using that [OF fs] by blast
qed

lemma loop_kept:
  assumes om: "omit_laws om" and emp: "isEmpty_laws emp" and wf: "wf_obj vs"
    and l: "named_list (jget (JObj vs) ''loop_variables'')"
  shows "\<exists>fs. loop_synced (JObj vs) = Inr (JObj fs) \<and> wf_obj fs
    \<and> shows_values {''outputs''} (loop_values om emp defaults (JObj fs)) (JObj vs)"
proof -
  from outputs_of_list_total [OF l] obtain os where os:
    "outputs_of_list ''variable'' (\<lambda>cur. JObj [(''type'', jget cur ''type''), (''value'', JStr [])])
       (jget (JObj vs) ''loop_variables'') = Inr (JObj os)" by blast
  show ?thesis
  proof (rule replaced_one [OF wf, of "''outputs''" "JObj os"])
    fix fs assume fs: "js_object [Spread (JObj vs), Prop ''outputs'' (JObj os)] = JObj fs" "wf_obj fs" "fs \<noteq> []"
      "\<And>k. k \<noteq> ''outputs'' \<Longrightarrow> jget (JObj fs) k = jget (JObj vs) k"
    have "loop_synced (JObj vs) = Inr (JObj fs)" by (simp add: loop_synced_def os fs(1) del: jget.simps)
    moreover have "loop_values om emp defaults (JObj fs) = JObj (om fs [''outputs''])"
      using emp fs(3) by (simp add: loop_values_def isEmpty_laws_def)
    moreover have "shows_values {''outputs''} (JObj (om fs [''outputs''])) (JObj vs)"
    proof (rule shows_valuesI)
      fix k assume k: "k \<notin> {''outputs''}"
      then have "jget (JObj (om fs [''outputs''])) k = jget (JObj fs) k" using om fs(2) by (simp add: omit_laws_def)
      then show "same_value (jget (JObj (om fs [''outputs''])) k) (jget (JObj vs) k)" using fs(4) k by (simp del: jget.simps)
    qed
    ultimately show ?thesis using fs(2) by simp
  qed
qed

lemma aggregator_kept:
  assumes emp: "isEmpty_laws emp" and wf: "wf_obj vs" and l: "named_list (jget (JObj vs) ''groups'')"
  shows "\<exists>fs. aggregator_synced (JObj vs) = Inr (JObj fs) \<and> wf_obj fs
    \<and> shows_values {''outputs''} (useFormValues emp defaults (JObj fs)) (JObj vs)"
proof -
  from outputs_of_list_total [OF l] obtain os where os:
    "outputs_of_list ''group_name'' (\<lambda>cur. JObj [(''type'', jget cur ''type'')]) (jget (JObj vs) ''groups'') = Inr (JObj os)"
    by blast
  show ?thesis
  proof (rule replaced_one [OF wf, of "''outputs''" "JObj os"])
    fix fs assume fs: "js_object [Spread (JObj vs), Prop ''outputs'' (JObj os)] = JObj fs" "wf_obj fs" "fs \<noteq> []"
      "\<And>k. k \<noteq> ''outputs'' \<Longrightarrow> jget (JObj fs) k = jget (JObj vs) k"
    have "aggregator_synced (JObj vs) = Inr (JObj fs)"
      by (simp add: aggregator_synced_def os fs(1) js_coalesce_def nullish_def del: jget.simps)
    moreover have "useFormValues emp defaults (JObj fs) = JObj fs"
      using emp fs(3) by (simp add: useFormValues_def isEmpty_laws_def)
    moreover have "shows_values {''outputs''} (JObj fs) (JObj vs)"
      by (rule shows_valuesI) (use fs(4) in \<open>simp del: jget.simps\<close>)
    ultimately show ?thesis using fs(2) by simp
  qed
qed

lemma plain_kept:
  assumes emp: "isEmpty_laws emp" and wf: "wf_obj ps" "wf_obj vs"
  shows "shows_values {} (useFormValues emp defaults (merged_form (JObj ps) (JObj vs))) (JObj vs)"
proof (rule merged_plain [OF wf])
  fix fs assume fs: "merged_form (JObj ps) (JObj vs) = JObj fs" "wf_obj fs" "fs = [] \<Longrightarrow> vs = []"
    "\<And>k. k \<in> fst ` set vs \<Longrightarrow> jget (JObj fs) k = jget (JObj vs) k"
  show ?thesis
  proof (cases "fs = []")
    case True
    with fs(3) show ?thesis by (intro shows_valuesI) simp
  next
    case False
    then have "useFormValues emp defaults (JObj fs) = JObj fs" using emp by (simp add: useFormValues_def isEmpty_laws_def)
    then show ?thesis using fs(1,4) by (intro shows_valuesI) (simp del: jget.simps)
  qed
qed

section \<open>All forms\<close>

definition form_store ::
  "omit_fn \<Rightarrow> (jsv \<Rightarrow> bool) \<Rightarrow> form_kind \<Rightarrow> jsv \<Rightarrow> jsv \<Rightarrow> jsv js" where
  "form_store om emp k f v =
     js_bind (synced om emp k f v) (\<lambda>w. Inr (if replaces k then w else merged_form f w))"

definition sound_form :: "jsv \<Rightarrow> bool" where
  "sound_form f = (case f of JObj ps \<Rightarrow> wf_obj ps | _ \<Rightarrow> False)"

text \<open>The fields of the values that the effect computes itself or that do not go through the form.\<close>

fun derived_fields :: "form_kind \<Rightarrow> string set" where
  "derived_fields Begin_Form = {''outputs''}"
| "derived_fields Fill_Up_Form = {''outputs''}"
| "derived_fields (Code_Form touched) = {''outputs''}"
| "derived_fields Agent_Form = {''mcp'', ''tools'', ''outputs''}"
| "derived_fields Loop_Form = {''outputs''}"
| "derived_fields Aggregator_Form = {''outputs''}"
| "derived_fields _ = {}"

definition rows_of :: "(jsv list \<Rightarrow> bool) \<Rightarrow> jsv \<Rightarrow> bool" where
  "rows_of P v = (case v of JArr xs \<Rightarrow> P xs | _ \<Rightarrow> False)"

fun fits_kind :: "(jsv \<Rightarrow> bool) \<Rightarrow> form_kind \<Rightarrow> jsv \<Rightarrow> bool" where
  "fits_kind emp Begin_Form v =
     (rows_of (named_records ''key'') (jget v ''inputs'')
      \<and> (jget v ''mode'' = JStr ''Webhook'' \<and> \<not> emp (jget v ''schema'') \<longrightarrow>
           (case transformRequestSchemaToOutput (jget v ''schema'') of Inr x \<Rightarrow> True | Inl e \<Rightarrow> False)))"
| "fits_kind emp Fill_Up_Form v = rows_of (named_records ''key'') (jget v ''inputs'')"
| "fits_kind emp (Code_Form touched) v =
     (touched \<and> rows_of (\<lambda>xs. named_records ''name'' xs \<and> list_all (only_fields [''name'', ''type'']) xs) (jget v ''arguments'')
      \<and> fits_output (jget v ''output''))"
| "fits_kind emp Iteration_Form v =
     rows_of (\<lambda>xs. named_records ''name'' xs \<and> list_all (only_fields [''name'', ''ref'', ''type'']) xs) (jget v ''outputs'')"
| "fits_kind emp Agent_Form v = is_string (jget v ''prompts'')"
| "fits_kind emp Message_Form v = value_rows (jget v ''content'')"
| "fits_kind emp Tavily_Form v = (value_rows (jget v ''include_domains'') \<and> value_rows (jget v ''exclude_domains''))"
| "fits_kind emp String_Form v = (jget v ''delimiters'' \<noteq> JUndef \<and> jget v ''method'' \<noteq> JUndef)"
| "fits_kind emp Switch_Form v = rows_of (list_all plain_record) (jget v ''conditions'')"
| "fits_kind emp Categorize_Form v = is_array (jget v ''items'')"
| "fits_kind emp Loop_Form v = named_list (jget v ''loop_variables'')"
| "fits_kind emp Aggregator_Form v = named_list (jget v ''groups'')"
| "fits_kind emp _ v = True"

definition fits_form :: "(jsv \<Rightarrow> bool) \<Rightarrow> form_kind \<Rightarrow> jsv \<Rightarrow> bool" where
  "fits_form emp k v = (sound_form v \<and> fits_kind emp k v)"

lemma rows_ofE: "rows_of P v \<Longrightarrow> (\<And>xs. v = JArr xs \<Longrightarrow> P xs \<Longrightarrow> thesis) \<Longrightarrow> thesis"
  by (cases v) (simp_all add: rows_of_def)

lemma sound_formE: "sound_form f \<Longrightarrow> (\<And>ps. f = JObj ps \<Longrightarrow> wf_obj ps \<Longrightarrow> thesis) \<Longrightarrow> thesis"
  by (cases f) (simp_all add: sound_form_def)

lemma sound_merged: "sound_form f \<Longrightarrow> sound_form (merged_form f w)"
  by (cases f) (simp_all add: sound_form_def merged_form_def)

text \<open>One change of one form is stored and shown.\<close>

lemma form_kept:
  assumes laws: "omit_laws om" "isEmpty_laws emp" "lget_laws lget" and f: "sound_form f" and v: "fits_form emp k v"
  shows "\<exists>f' u. form_store om emp k f v = Inr f' \<and> sound_form f' \<and> opened om emp lget t llmId defaults k f' = Inr u
    \<and> shows_values (derived_fields k) u v"
proof -
  obtain ps where ps: "f = JObj ps" "wf_obj ps" using f by (rule sound_formE)
  obtain vs where vs: "v = JObj vs" "wf_obj vs" using v by (auto simp: fits_form_def elim: sound_formE)
  have kv: "fits_kind emp k (JObj vs)" using v vs(1) by (simp add: fits_form_def)
  note wf = ps(2) vs(2)
  have sm: "sound_form (merged_form (JObj ps) w)" for w using f ps(1) sound_merged by blast
  note defs = form_store_def replaces_def ps(1) vs(1)
  show ?thesis
  proof (cases k)
    case Begin_Form
    then obtain xs where xs: "jget (JObj vs) ''inputs'' = JArr xs" "named_records ''key'' xs"
      using kv by (auto simp del: jget.simps elim: rows_ofE)
    from inputs_kept [OF laws(1) xs(2)] obtain io where io: "transferInputsArrayToObject om (JArr xs) = Inr io" by blast
    have "\<exists>w. begin_synced om emp (JObj vs) = Inr w"
      using kv Begin_Form by (auto simp: begin_synced_def xs(1) io simp del: jget.simps split: sum.splits)
    then obtain w where w: "begin_synced om emp (JObj vs) = Inr w" by blast
    from begin_kept [OF laws(1,2) wf xs w] show ?thesis
      using w sm Begin_Form by (simp add: defs del: jget.simps)
  next
    case Fill_Up_Form
    then obtain xs where xs: "jget (JObj vs) ''inputs'' = JArr xs" "named_records ''key'' xs"
      using kv by (auto simp del: jget.simps elim: rows_ofE)
    from fill_up_kept [OF laws(1,2) wf xs] show ?thesis
      using sm Fill_Up_Form by (auto simp: defs simp del: jget.simps)
  next
    case (Code_Form touched)
    then obtain xs where xs: "jget (JObj vs) ''arguments'' = JArr xs" "named_records ''name'' xs"
        "list_all (only_fields [''name'', ''type'']) xs"
      and out: "fits_output (jget (JObj vs) ''output'')" and touched: "touched"
      using kv by (auto simp del: jget.simps elim: rows_ofE)
    from code_kept [OF laws(2) wf xs out, of touched "jget f ''outputs''"] touched show ?thesis
      using sm Code_Form by (auto simp: defs simp del: jget.simps)
  next
    case Iteration_Form
    then obtain xs where xs: "jget (JObj vs) ''outputs'' = JArr xs" "named_records ''name'' xs"
        "list_all (only_fields [''name'', ''ref'', ''type'']) xs"
      using kv by (auto simp del: jget.simps elim: rows_ofE)
    from iteration_kept [OF laws(2) wf xs] show ?thesis
      using sm Iteration_Form by (auto simp: defs simp del: jget.simps)
  next
    case Agent_Form
    then obtain s where "jget (JObj vs) ''prompts'' = JStr s"
      using kv by (cases "jget (JObj vs) ''prompts''") (simp_all del: jget.simps)
    from agent_kept [OF laws wf this] show ?thesis
      using sm Agent_Form by (simp add: defs)
  next
    case Message_Form
    with kv message_kept [OF laws(2) wf] show ?thesis using sm by (auto simp: defs simp del: jget.simps)
  next
    case Tavily_Form
    with kv tavily_kept [OF laws(2) wf] show ?thesis using sm by (auto simp: defs simp del: jget.simps)
  next
    case String_Form
    then have "jget (JObj vs) ''delimiters'' \<noteq> JUndef" and m: "jget (JObj vs) ''method'' \<noteq> JUndef"
      using kv by (simp_all del: jget.simps)
    moreover have "''method'' \<in> fst ` set vs"
      using m by (auto split: option.splits dest: map_of_SomeD simp: rev_image_eqI)
    ultimately show ?thesis using string_kept [OF laws(2) wf] sm String_Form by (auto simp: defs simp del: jget.simps)
  next
    case Switch_Form
    then obtain xs where "jget (JObj vs) ''conditions'' = JArr xs" "list_all plain_record xs"
      using kv by (auto simp del: jget.simps elim: rows_ofE)
    from switch_kept [OF laws(2) wf this] show ?thesis using sm Switch_Form by (simp add: defs)
  next
    case Categorize_Form
    then obtain xs where "jget (JObj vs) ''items'' = JArr xs"
      using kv by (cases "jget (JObj vs) ''items''") (simp_all del: jget.simps)
    from categorize_kept [OF laws(2) wf this] show ?thesis using sm Categorize_Form by (simp add: defs)
  next
    case Loop_Form
    then have "named_list (jget (JObj vs) ''loop_variables'')" using kv by (simp del: jget.simps)
    from loop_kept [OF laws(1,2) vs(2) this, of defaults] Loop_Form show ?thesis
      by (auto simp: defs sound_form_def simp del: jget.simps)
  next
    case Aggregator_Form
    then have "named_list (jget (JObj vs) ''groups'')" using kv by (simp del: jget.simps)
    from aggregator_kept [OF laws(2) vs(2) this, of defaults] Aggregator_Form show ?thesis
      by (auto simp: defs sound_form_def simp del: jget.simps)
  next
    case Plain_Form
    with plain_kept [OF laws(2) wf] show ?thesis using sm by (simp add: defs)
  next
    case Replacing_Form
    have "shows_values {} (useFormValues emp defaults (JObj vs)) (JObj vs)"
    proof (cases "vs = []")
      case False
      then have "useFormValues emp defaults (JObj vs) = JObj vs" using laws(2) by (simp add: useFormValues_def isEmpty_laws_def)
      then show ?thesis by (simp add: shows_values_def)
    qed (simp add: shows_values_def)
    with Replacing_Form vs(2) show ?thesis by (simp add: defs sound_form_def)
  qed
qed

definition isEmpty_ref :: "jsv \<Rightarrow> bool" where
  "isEmpty_ref v = (case v of JObj ps \<Rightarrow> ps = [] | JArr xs \<Rightarrow> xs = [] | JStr s \<Rightarrow> s = [] | _ \<Rightarrow> True)"

lemma isEmpty_ref_laws [simp]: "isEmpty_laws isEmpty_ref"
  by (simp add: isEmpty_laws_def isEmpty_ref_def)

text \<open>
  The interface for one kind of form, with the reference functions of the packages; the theorem below has
  it for all functions under the laws.
\<close>

lemma kept_form_of:
  assumes "omit_laws om" "isEmpty_laws emp" "lget_laws lget"
  shows "kept_form (form_store om emp k) (opened om emp lget t llmId defaults k) sound_form (fits_form emp k)
    (shows_values (derived_fields k))"
proof
  fix f v assume "sound_form f" "fits_form emp k v"
  from form_kept [OF assms this] show "\<exists>f'. form_store om emp k f v = Inr f' \<and> sound_form f'" by blast
next
  fix f v f' assume "sound_form f" "fits_form emp k v" "form_store om emp k f v = Inr f'"
  with form_kept [OF assms this(1,2), of t llmId defaults]
  show "\<exists>u. opened om emp lget t llmId defaults k f' = Inr u \<and> shows_values (derived_fields k) u v" by auto
qed

interpretation forms: kept_form "form_store omit_ref isEmpty_ref k" "opened omit_ref isEmpty_ref lget_ref t llmId defaults k"
  sound_form "fits_form isEmpty_ref k" "shows_values (derived_fields k)" for k t llmId defaults
  by (rule kept_form_of) simp_all

section \<open>Through the store\<close>

definition with_form :: "jsv \<Rightarrow> agent_node \<Rightarrow> agent_node" where
  "with_form f n = n\<lparr>ndata := (ndata n)\<lparr>form := f\<rparr>\<rparr>"

lemma with_form_simps [simp]: "nid (with_form f n) = nid n" "node_form (with_form f n) = f"
  by (simp_all add: with_form_def)

lemma with_form_twice [simp]: "with_form f (with_form g n) = with_form f n"
  by (simp add: with_form_def)

lemma find_map_node:
  "(\<And>x. nid (g x) = nid x) \<Longrightarrow> find (\<lambda>x. nid x = j) (map (\<lambda>x. if nid x = i then g x else x) ns)
     = map_option (\<lambda>x. if nid x = i then g x else x) (find (\<lambda>x. nid x = j) ns)"
  by (induction ns) auto

lemma find_other_node:
  "j \<noteq> i \<Longrightarrow> map_option (\<lambda>x. if nid x = i then g x else x) (find (\<lambda>x. nid x = j) ns)
     = find (\<lambda>x. nid x = j) ns"
  by (induction ns) auto

lemma find_update_first_node:
  "(\<And>x. nid (g x) = nid x) \<Longrightarrow> find (\<lambda>x. nid x = j) (update_first (\<lambda>x. nid x = i) g ns)
     = map_option (\<lambda>x. if nid x = i then g x else x) (find (\<lambda>x. nid x = j) ns)"
proof (induction ns)
  case (Cons n ns)
  show ?case
  proof (cases "nid n = i \<and> j \<noteq> i")
    case True
    with find_other_node [of j i g ns] show ?thesis using Cons.prems by auto
  qed (use Cons in auto)
qed simp

lemma write_form_node:
  assumes "getNode s (Some i) = Some n" "i \<noteq> []" "form_store om emp k (node_form n) v = Inr f'"
  shows "\<exists>s'. write_form om emp lset k i v s = Inr s' \<and> getNode s' (Some i) = Some (with_form f' n)
    \<and> (\<forall>j. j \<noteq> i \<longrightarrow> getNode s' (Some j) = getNode s (Some j))"
proof -
  from assms(3) obtain w where w: "synced om emp k (node_form n) v = Inr w"
    "f' = (if replaces k then w else merged_form (node_form n) w)"
    by (auto simp: form_store_def js_bind_Inr)
  have ni: "nid n = i" using assms(1) by (auto simp: getNode_def find_Some_iff)
  let ?s = "if replaces k then replaceNodeForm i w s else updateNodeForm lset i w [] s"
  have other: "map_option (\<lambda>x. if nid x = i then g x else x) (find (\<lambda>x. nid x = j) (st_nodes s))
      = find (\<lambda>x. nid x = j) (st_nodes s)" if "j \<noteq> i" for g j
    using that by (rule find_other_node)
  have "write_form om emp lset k i v s = Inr ?s" by (simp add: write_form_def assms(1) w(1))
  moreover have "getNode ?s (Some i) = Some (with_form f' n)"
  proof (cases "replaces k")
    case True
    then show ?thesis using assms(1,2) w(2) ni
      by (simp add: getNode_def replaceNodeForm_def find_update_first_node with_form_def)
  next
    case False
    have "set_form lset w [] x = with_form (merged_form (node_form x) w) x" for x
      by (simp add: set_form_def Let_def with_form_def merged_form_def)
    with False show ?thesis using assms(1) w(2) ni by (simp add: getNode_def updateNodeForm_def find_map_node)
  qed
  moreover have "getNode ?s (Some j) = getNode s (Some j)" if "j \<noteq> i" for j
  proof (cases "replaces k")
    case True
    then show ?thesis using assms(2) other [OF that]
      by (simp add: getNode_def replaceNodeForm_def find_update_first_node)
  next
    case False
    have "nid (set_form lset w [] x) = nid x" for x by (simp add: set_form_def Let_def)
    with False show ?thesis using other [OF that] by (simp add: getNode_def updateNodeForm_def find_map_node)
  qed
  ultimately show ?thesis by blast
qed

lemma write_forms:
  assumes "getNode s (Some i) = Some n" "i \<noteq> []"
    "foldl (\<lambda>m v. js_bind m (\<lambda>f. form_store om emp k f v)) (Inr (node_form n)) vs = Inr f'"
  shows "\<exists>s' n'. foldl (\<lambda>m v. js_bind m (write_form om emp lset k i v)) (Inr s) vs = Inr s'
    \<and> getNode s' (Some i) = Some n' \<and> node_form n' = f' \<and> (\<forall>j. j \<noteq> i \<longrightarrow> getNode s' (Some j) = getNode s (Some j))"
  using assms
proof (induction vs arbitrary: s n)
  case (Cons v vs)
  have err: "foldl (\<lambda>m v. js_bind m (\<lambda>f. form_store om emp k f v)) (Inl e) us = Inl e" for e us
    by (induction us) simp_all
  obtain f1 where f1: "form_store om emp k (node_form n) v = Inr f1"
    using Cons.prems(3) err by (cases "form_store om emp k (node_form n) v") auto
  from write_form_node [OF Cons.prems(1,2) f1] obtain s1 where s1: "write_form om emp lset k i v s = Inr s1"
    "getNode s1 (Some i) = Some (with_form f1 n)" "\<forall>j. j \<noteq> i \<longrightarrow> getNode s1 (Some j) = getNode s (Some j)" by blast
  from Cons.IH [OF s1(2) Cons.prems(2)] Cons.prems(3) f1 s1(1,3) show ?case by simp
qed simp


definition form_canvas :: rf_state where
  "form_canvas = mk_state [mk_node ''begin'' OpBegin None (JObj [(''mode'', JStr ''conversational'')])] []"

definition begin_input :: "string \<Rightarrow> jsv" where
  "begin_input k = JObj [(''key'', JStr k), (''type'', JStr ''line'')]"

definition begin_input_values :: jsv where
  "begin_input_values = JObj [(''mode'', JStr ''Task''), (''inputs'', JArr [begin_input ''a'', begin_input ''b''])]"

lemma begin_values_fit: "fits_form isEmpty_ref Begin_Form begin_input_values"
  by (simp add: fits_form_def begin_input_values_def begin_input_def sound_form_def wf_obj_def rows_of_def
      named_records_def is_index_key_def digit_def)


section \<open>Where forms go wrong\<close>

text \<open>The string form has values for a missing form, but reads the missing form before it takes them.\<close>

theorem missing_string_form_throws: "\<exists>e. string_values emp JUndef = Inl (TypeError e)"
  by (simp add: string_values_def transferDelimiters_def jprop_def nullish_def)

text \<open>
  An empty message form starts with bare texts where rows are expected, so writing what it starts with
  leaves nothing of them.
\<close>

theorem message_defaults_are_lost:
  assumes "isEmpty_laws emp"
  shows "message_synced (message_values emp (JObj [])) = Inr (JObj [(''content'', JArr [JUndef])])"
  using assms by (simp add: isEmpty_laws_def message_values_def initialMessageValues_def message_synced_def
      convertToStringArray_def jprop_def nullish_def js_object_def obj_of_def obj_put_def is_index_key_def digit_def)

text \<open>Arguments whose names are numbers change places with the others.\<close>

theorem numeric_names_come_first:
  "js_bind (convertToObject (JArr [JObj [(''name'', JStr ''b''), (''type'', JNull)], JObj [(''name'', JStr ''1''), (''type'', JNull)]]))
     convertToArray
   = Inr (JArr [JObj [(''name'', JStr ''1''), (''type'', JNull)], JObj [(''name'', JStr ''b''), (''type'', JNull)]])"
  by (simp add: convertToObject_def list_default_def keyed_def argument_entry_def jprop_def nullish_def str_of_def
      obj_of_def obj_put_def key_before_def is_index_key_def digit_def nat_of_digits_def digit_val_def
      convertToArray_def entries_of_def)

text \<open>An output named like one of the reserved ones is written as no output and comes back as \<open>result\<close>.\<close>

theorem reserved_output_is_lost:
  "code_outputs True old (JObj [(''name'', JStr ''content''), (''type'', JStr ''String'')]) = JObj []"
  "dr_contract (deserializeCodeOutputContract (JObj [(''outputs'', JObj [])])) = Some buildDefaultCodeOutput"
  by (simp_all add: code_outputs_def trimmed_def js_trim_def is_space_def serializeCodeOutputContract_def Let_def
      isValidCodeOutputName_def CodeExecReservedOutputKeys_def deserializeCodeOutputContract_def getBusinessOutputs_def)

end
