(* ===== verification/Form_Actions.thy ===== *)
theory Form_Actions
  imports Operator_Forms Agent_Tools
begin

text \<open>
  What the forms of the agent do apart from keeping their values: the tools and the servers of tools an
  agent has (\<open>form/agent-form/tool-popover\<close>, \<open>form/tool-form\<close>), the names of nodes, tools and groups
  (\<open>hooks/use-change-node-name.ts\<close>, \<open>variable-aggregator-form\<close>), the dialogs that edit one record of a list
  (\<open>use-edit-query.ts\<close>, \<open>use-edit-variable.ts\<close>) and the prompts of the extractor. An action of the store that
  draws an id may draw for ever and is an option; \<open>init\<close> are the initial parameters of a tool.
\<close>

section \<open>Tools of an agent\<close>

definition has_component :: "string \<Rightarrow> jsv \<Rightarrow> bool js" where
  "has_component val x = js_bind (jprop x ''component_name'') (\<lambda>c. Inr (js_seq c (JStr val)))"

definition tool_value :: "string \<Rightarrow> string \<Rightarrow> jsv \<Rightarrow> string \<Rightarrow> jsv" where
  "tool_value val nm params i =
     JObj [(''component_name'', JStr val), (''name'', JStr nm), (''params'', params), (''id'', JStr i)]"

definition node_list :: "agent_node \<Rightarrow> string \<Rightarrow> jsv list js" where
  "node_list n field =
     (case jget (node_form n) field of JArr xs \<Rightarrow> Inr xs | _ \<Rightarrow> Inl (TypeError ''not a list''))"

definition appended_tool ::
  "(nat \<Rightarrow> string) \<Rightarrow> (string \<Rightarrow> jsv) \<Rightarrow> rf_state \<Rightarrow> string \<Rightarrow> string \<Rightarrow> jsv list \<Rightarrow> jsv list option js" where
  "appended_tool hid init s val nm tools =
     js_bind (generateAgentToolId hid s val) (\<lambda>i.
       Inr (map_option (\<lambda>i. tools @ [tool_value val nm (init val) i]) i))"

definition next_tools ::
  "(nat \<Rightarrow> string) \<Rightarrow> (string \<Rightarrow> jsv) \<Rightarrow> rf_state \<Rightarrow> string \<Rightarrow> string \<Rightarrow> jsv list \<Rightarrow> jsv list option js" where
  "next_tools hid init s nodeId val tools =
     (if val = ''Retrieval'' then
        js_bind (generateAgentToolName s nodeId val) (\<lambda>nm. appended_tool hid init s val nm tools)
      else
        js_bind (js_find (has_component val) tools) (\<lambda>found.
          if found \<noteq> None
          then js_bind (js_filter (\<lambda>x. js_bind (has_component val x) (\<lambda>b. Inr (\<not> b))) tools) (\<lambda>xs. Inr (Some xs))
          else appended_tool hid init s val val tools))"

definition updateNodeTools ::
  "lset_fn \<Rightarrow> (nat \<Rightarrow> string) \<Rightarrow> (string \<Rightarrow> jsv) \<Rightarrow> agent_node \<Rightarrow> string \<Rightarrow> rf_state \<Rightarrow> rf_state option js" where
  "updateNodeTools lset hid init n val s =
     (if nid n = [] then Inr (Some s)
      else js_bind (node_list n ''tools'') (\<lambda>tools.
        js_bind (next_tools hid init s (nid n) val tools) (\<lambda>xs.
          Inr (map_option (\<lambda>xs. updateNodeForm lset (nid n) (JArr xs) [''tools''] s) xs))))"

definition deleteNodeTool :: "lset_fn \<Rightarrow> agent_node \<Rightarrow> string \<Rightarrow> rf_state \<Rightarrow> rf_state js" where
  "deleteNodeTool lset n toolId s =
     js_bind (node_list n ''tools'') (\<lambda>tools.
       js_bind (js_filter (\<lambda>x. js_bind (jprop x ''id'') (\<lambda>i. Inr (\<not> js_seq i (JStr toolId)))) tools) (\<lambda>xs.
         Inr (if nid n = [] then s else updateNodeForm lset (nid n) (JArr xs) [''tools''] s)))"

definition agent_tool_names :: "lget_fn \<Rightarrow> agent_node \<Rightarrow> jsv list js" where
  "agent_tool_names lget n =
     js_mapM (\<lambda>x. jprop x ''component_name'') (array_elems (getAgentNodeTools lget (Some n)))"

section \<open>Servers of tools\<close>

text \<open>The servers that are known are objects; \<open>variables.tools\<close> of one that lacks variables throws.\<close>

definition has_mcp_id :: "string \<Rightarrow> jsv \<Rightarrow> bool js" where
  "has_mcp_id i x = js_bind (jprop x ''mcp_id'') (\<lambda>m. Inr (js_seq m (JStr i)))"

definition findMcpTools :: "jsv list \<Rightarrow> string \<Rightarrow> jsv js" where
  "findMcpTools servers i =
     js_bind (js_find (\<lambda>x. js_bind (jprop x ''id'') (\<lambda>m. Inr (js_seq m (JStr i)))) servers) (\<lambda>found.
       case found of None \<Rightarrow> Inr JUndef | Some mcp \<Rightarrow> jprop (jget mcp ''variables'') ''tools'')"

fun next_mcp :: "jsv list \<Rightarrow> jsv list \<Rightarrow> string list \<Rightarrow> jsv list \<Rightarrow> jsv list js" where
  "next_mcp servers mcpList [] pre = Inr pre"
| "next_mcp servers mcpList (cur # val) pre =
     js_bind (js_find (has_mcp_id cur) mcpList) (\<lambda>mcp. js_bind (findMcpTools servers cur) (\<lambda>tools.
       next_mcp servers mcpList val
         (pre @ (case mcp of Some m \<Rightarrow> [m]
                 | None \<Rightarrow> if truthy tools then [JObj [(''mcp_id'', JStr cur), (''tools'', JObj [])]] else []))))"

definition updateNodeMCP :: "lset_fn \<Rightarrow> jsv list \<Rightarrow> agent_node \<Rightarrow> string list \<Rightarrow> rf_state \<Rightarrow> rf_state js" where
  "updateNodeMCP lset servers n val s =
     (if nid n = [] then Inr s
      else if val = [] then Inr (updateNodeForm lset (nid n) (JArr []) [''mcp''] s)
      else js_bind (node_list n ''mcp'') (\<lambda>mcpList. js_bind (next_mcp servers mcpList val []) (\<lambda>xs.
        Inr (updateNodeForm lset (nid n) (JArr xs) [''mcp''] s))))"

definition deleteNodeMCP :: "lset_fn \<Rightarrow> agent_node \<Rightarrow> string \<Rightarrow> rf_state \<Rightarrow> rf_state js" where
  "deleteNodeMCP lset n i s =
     js_bind (node_list n ''mcp'') (\<lambda>mcpList.
       js_bind (js_filter (\<lambda>x. js_bind (has_mcp_id i x) (\<lambda>b. Inr (\<not> b))) mcpList) (\<lambda>xs.
         Inr (if nid n = [] then s else updateNodeForm lset (nid n) (JArr xs) [''mcp''] s)))"

text \<open>The form of a server: the names of the chosen tools; \<open>pk\<close> is lodash's \<open>pick\<close>.\<close>

definition mcp_values :: "(jsv \<Rightarrow> bool) \<Rightarrow> jsv list \<Rightarrow> string \<Rightarrow> jsv js" where
  "mcp_values emp mcpList toolId =
     js_bind (js_find (has_mcp_id toolId) mcpList) (\<lambda>found.
       let formData = js_or (case found of Some m \<Rightarrow> jget m ''tools'' | None \<Rightarrow> JUndef) (JObj []) in
       Inr (JObj [(''items'', JArr (if emp formData then [] else map JStr (obj_keys (props_of formData))))]))"

definition mcp_synced :: "(props \<Rightarrow> string list \<Rightarrow> props) \<Rightarrow> jsv \<Rightarrow> string list \<Rightarrow> jsv list \<Rightarrow> string \<Rightarrow> jsv list js" where
  "mcp_synced pk mcpTools items mcpList toolId =
     js_mapM (\<lambda>x. js_bind (has_mcp_id toolId x) (\<lambda>b.
       Inr (if b then js_object [Spread x, Prop ''tools'' (JObj (pk (props_of (js_or mcpTools (JArr []))) items))] else x)))
       mcpList"

text \<open>The form of a tool; \<open>i\<close> is the tool that was clicked, below the agent.\<close>

definition tool_values ::
  "(jsv \<Rightarrow> bool) \<Rightarrow> (string \<Rightarrow> jsv) \<Rightarrow> lget_fn \<Rightarrow> string \<Rightarrow> string \<Rightarrow> rf_state \<Rightarrow> jsv js" where
  "tool_values emp init lget clickedNode i s =
     js_bind (getAgentToolById lget s i
         (case findUpstreamNodeById s (Some clickedNode) of Some n \<Rightarrow> NodeRef n | None \<Rightarrow> NoRef)) (\<lambda>found.
       let formData = (case found of Some tool \<Rightarrow> jget tool ''params'' | None \<Rightarrow> JUndef);
           component = (case found of Some tool \<Rightarrow> js_or (jget tool ''component_name'') (JStr clickedNode) | None \<Rightarrow> JStr clickedNode)
       in Inr (if emp formData then init (str_of component) else js_object [Spread formData]))"

definition tool_synced :: "lget_fn \<Rightarrow> lset_fn \<Rightarrow> string \<Rightarrow> string \<Rightarrow> jsv \<Rightarrow> rf_state \<Rightarrow> rf_state js" where
  "tool_synced lget lset clickedNode i formValues s =
     (case findUpstreamNodeById s (Some clickedNode) of
        None \<Rightarrow> Inr s
      | Some n \<Rightarrow> updateAgentToolById lget lset (NodeRef n) i
          (JObj [(''params'', js_object [Spread (js_coalesce formValues (JObj []))])]) s)"

section \<open>Names\<close>

record name_edit =
  ne_ok :: bool
  ne_input :: string
  ne_message :: bool
  ne_state :: rf_state

text \<open>\<open>trim\<close> is lodash's; the previous name is missing for a node without data.\<close>

definition handleNameBlur ::
  "(string \<Rightarrow> string) \<Rightarrow> string \<Rightarrow> string option \<Rightarrow> string \<Rightarrow> rf_state \<Rightarrow> name_edit" where
  "handleNameBlur trim nm previousName i s =
     (let existsSameName = list_ex (\<lambda>x. node_name x = nm) (st_nodes s) in
      if trim nm = [] then \<lparr>ne_ok = True, ne_input = (case previousName of Some p \<Rightarrow> p | None \<Rightarrow> []), ne_message = False, ne_state = s\<rparr>
      else if existsSameName \<and> previousName \<noteq> Some nm
      then \<lparr>ne_ok = False, ne_input = nm, ne_message = True, ne_state = s\<rparr>
      else \<lparr>ne_ok = True, ne_input = nm, ne_message = False, ne_state = (if i = [] then s else updateNodeName i nm s)\<rparr>)"

definition has_name :: "string \<Rightarrow> jsv \<Rightarrow> bool js" where
  "has_name nm x = js_bind (jprop x ''name'') (\<lambda>v. Inr (js_seq v (JStr nm)))"

definition handleToolNameBlur ::
  "(string \<Rightarrow> string) \<Rightarrow> lget_fn \<Rightarrow> lset_fn \<Rightarrow> string \<Rightarrow> string option \<Rightarrow> agent_node option \<Rightarrow> string \<Rightarrow> rf_state
   \<Rightarrow> name_edit js" where
  "handleToolNameBlur trim lget lset nm previousName agentNode toolId s =
     js_bind (js_find (has_name (trim nm)) (array_elems (getAgentNodeTools lget agentNode))) (\<lambda>same.
       if trim nm = [] then Inr \<lparr>ne_ok = True, ne_input = (case previousName of Some p \<Rightarrow> p | None \<Rightarrow> []), ne_message = False, ne_state = s\<rparr>
       else if same \<noteq> None \<and> previousName \<noteq> Some nm
       then Inr \<lparr>ne_ok = False, ne_input = nm, ne_message = True, ne_state = s\<rparr>
       else js_bind (case agentNode of Some n \<Rightarrow>
               if nid n = [] then Inr s
               else updateAgentToolById lget lset (NodeRef n) toolId (JObj [(''name'', JStr nm)]) s | None \<Rightarrow> Inr s)
              (\<lambda>s'. Inr \<lparr>ne_ok = True, ne_input = nm, ne_message = False, ne_state = s'\<rparr>))"

text \<open>The name of a group of an aggregator: the name it has afterwards, and whether a message is shown.\<close>

definition group_name_char :: "char \<Rightarrow> bool" where
  "group_name_char c =
     ((CHR ''a'' \<le> c \<and> c \<le> CHR ''z'') \<or> (CHR ''A'' \<le> c \<and> c \<le> CHR ''Z'') \<or> (CHR ''0'' \<le> c \<and> c \<le> CHR ''9'') \<or> c = CHR ''_'')"

definition group_name_changed :: "string \<Rightarrow> string" where
  "group_name_changed val = filter group_name_char val"

definition group_name_blur :: "(string \<Rightarrow> string) \<Rightarrow> string list \<Rightarrow> string \<Rightarrow> string \<Rightarrow> string \<times> bool" where
  "group_name_blur trim names nm previousName =
     (if trim nm = [] \<or> nm \<in> set names then (previousName, nm \<in> set names \<and> previousName \<noteq> nm) else (nm, False))"

section \<open>Editing one record of a list\<close>

text \<open>The record of the dialog is missing for the empty record \<open>{}\<close>, and the index is -1 for a new one.\<close>

record 'r record_dialog =
  rd_visible :: bool
  rd_index :: int
  rd_record :: "'r option"

definition closed_dialog :: "'r record_dialog" where
  "closed_dialog = \<lparr>rd_visible = False, rd_index = -1, rd_record = None\<rparr>"

definition handleShowModal :: "nat option \<Rightarrow> 'r option \<Rightarrow> 'r record_dialog" where
  "handleShowModal idx r =
     \<lparr>rd_visible = True, rd_index = (case idx of Some i \<Rightarrow> int i | None \<Rightarrow> -1), rd_record = r\<rparr>"

definition otherThanCurrentQuery :: "'r record_dialog \<Rightarrow> 'r list \<Rightarrow> 'r list" where
  "otherThanCurrentQuery d xs = map snd (filter (\<lambda>(i, x). int i \<noteq> rd_index d) (enumerate 0 xs))"

definition handleEditRecord :: "'r record_dialog \<Rightarrow> 'r \<Rightarrow> 'r list \<Rightarrow> 'r record_dialog \<times> 'r list" where
  "handleEditRecord d r xs =
     (d\<lparr>rd_visible := False\<rparr>,
      if rd_index d > -1 then take (nat (rd_index d)) xs @ [r] @ drop (nat (rd_index d) + 1) xs else xs @ [r])"

definition handleDeleteRecord :: "nat \<Rightarrow> 'r list \<Rightarrow> 'r list" where
  "handleDeleteRecord idx xs = map snd (filter (\<lambda>(i, x). i \<noteq> idx) (enumerate 0 xs))"

section \<open>The prompts of the extractor\<close>

text \<open>Confirming and cancelling close the dialog; \<open>sw_names\<close> is the list of previous names, the chosen one last.\<close>

record switch_prompt =
  sw_names :: "string list"
  sw_visible :: bool
  sw_field :: string
  sw_prompts :: "string \<times> string"

definition handleFieldNameChange :: "string \<Rightarrow> switch_prompt \<Rightarrow> switch_prompt" where
  "handleFieldNameChange val w =
     (let chosen = w\<lparr>sw_field := val\<rparr> in
      if val = [] then chosen
      else chosen\<lparr>sw_names := (if length (sw_names w) > 1 then tl (sw_names w) else sw_names w) @ [val], sw_visible := True\<rparr>)"

definition confirmSwitch :: "(string \<Rightarrow> string) \<Rightarrow> switch_prompt \<Rightarrow> switch_prompt" where
  "confirmSwitch t w =
     w\<lparr>sw_prompts := (t (''flow.prompts.system.'' @ sw_field w), t (''flow.prompts.user.'' @ sw_field w)), sw_visible := False\<rparr>"

definition cancelSwitch :: "switch_prompt \<Rightarrow> switch_prompt" where
  "cancelSwitch w =
     (let ns = sw_names w; w' = w\<lparr>sw_visible := False\<rparr> in
      if length ns \<ge> 2 \<and> ns ! (length ns - 2) \<noteq> [] then w'\<lparr>sw_field := ns ! (length ns - 2)\<rparr> else w')"

section \<open>The structured output of an agent\<close>

definition handleStructuredOutputDialogOk :: "lset_fn \<Rightarrow> string \<Rightarrow> jsv \<Rightarrow> rf_state \<Rightarrow> rf_state" where
  "handleStructuredOutputDialogOk lset i schema s =
     (if i = [] then s else updateNodeForm lset i schema [''outputs'', ''structured''] s)"

definition handleShowStructuredOutput :: "lset_fn \<Rightarrow> (string \<Rightarrow> string) \<Rightarrow> string \<Rightarrow> bool \<Rightarrow> rf_state \<Rightarrow> rf_state" where
  "handleShowStructuredOutput lset t i val s =
     (if i = [] then s
      else if val then updateNodeForm lset i (JObj []) [''outputs'', ''structured''] s
      else updateNodeForm lset i (jget (initialAgentValues t) ''outputs'') [''outputs''] s)"

end
