(* ===== verification/Form_Actions_Proofs.thy ===== *)
theory Form_Actions_Proofs
  imports Form_Actions Operator_Forms_Proofs
begin

text \<open>
  What the actions of the forms keep: names stay different, at most one tool of each kind but retrieval is
  chosen, servers of tools keep what was chosen of them, and one record of a list is edited in its place.
\<close>

section \<open>Names of nodes\<close>

lemma update_first_names:
  assumes "distinct (map node_name ns)" "find (\<lambda>x. nid x = i) ns = Some n" "nm \<notin> node_name ` set ns \<or> nm = node_name n"
  shows "distinct (map node_name (update_first (\<lambda>x. nid x = i) (\<lambda>x. x\<lparr>ndata := (ndata x)\<lparr>name := nm\<rparr>\<rparr>) ns))
    \<and> node_name ` set (update_first (\<lambda>x. nid x = i) (\<lambda>x. x\<lparr>ndata := (ndata x)\<lparr>name := nm\<rparr>\<rparr>) ns)
        \<subseteq> insert nm (node_name ` set ns)"
  using assms
proof (induction ns)
  case (Cons x xs)
  show ?case
  proof (cases "nid x = i")
    case False
    then have f: "find (\<lambda>x. nid x = i) xs = Some n" using Cons.prems(2) by simp
    have "n \<in> set xs" using f by (auto simp: find_Some_iff)
    then have "node_name x \<noteq> node_name n" using Cons.prems(1) by force
    with Cons.IH [OF _ f] Cons.prems(1,3) False show ?thesis by auto
  qed (use Cons.prems in auto)
qed simp

text \<open>
  The field for the name of a node, left with a text in it: an empty text gives the old name back, the name of
  another node is refused, any other name is written; the names of the nodes stay different and a name that
  is accepted is the name of the node from then on.
\<close>

theorem renaming_keeps_names_distinct:
  assumes "distinct (map node_name (st_nodes s))" "getNode s (Some i) = Some n" "i \<noteq> []"
  shows "let r = handleNameBlur trim nm (Some (node_name n)) i s in
    distinct (map node_name (st_nodes (ne_state r)))
    \<and> (if trim nm = [] then ne_state r = s \<and> ne_input r = node_name n
       else if nm \<in> node_name ` (set (st_nodes s) - {n}) then \<not> ne_ok r \<and> ne_message r \<and> ne_state r = s
       else ne_ok r \<and> map_option node_name (getNode (ne_state r) (Some i)) = Some nm)"
proof -
  have f: "find (\<lambda>x. nid x = i) (st_nodes s) = Some n" using assms(2) by (simp add: getNode_def)
  have n: "n \<in> set (st_nodes s)" "nid n = i" using f by (auto simp: find_Some_iff)
  have "node_name x = node_name n \<longleftrightarrow> x = n" if "x \<in> set (st_nodes s)" for x
    using assms(1) n(1) that by (auto simp: distinct_map inj_on_def)
  then have other: "nm \<in> node_name ` (set (st_nodes s) - {n}) \<longleftrightarrow> nm \<in> node_name ` set (st_nodes s) \<and> nm \<noteq> node_name n"
    by (auto simp: image_iff)
  have names: "list_ex (\<lambda>x. node_name x = nm) (st_nodes s) \<longleftrightarrow> nm \<in> node_name ` set (st_nodes s)"
    by (auto simp: list_ex_iff)
  have "getNode (updateNodeName i nm s) (Some i) = Some (n\<lparr>ndata := (ndata n)\<lparr>name := nm\<rparr>\<rparr>)"
    using find_update_first_node [of "\<lambda>x. x\<lparr>ndata := (ndata x)\<lparr>name := nm\<rparr>\<rparr>" i i "st_nodes s"] assms(3)
    unfolding getNode_def updateNodeName_def f by (simp add: n(2))
  then have new: "map_option node_name (getNode (updateNodeName i nm s) (Some i)) = Some nm" by simp
  have kept: "distinct (map node_name (st_nodes (updateNodeName i nm s)))" if "nm \<notin> node_name ` set (st_nodes s) \<or> nm = node_name n"
    using update_first_names [OF assms(1) f that] assms(3) by (simp add: updateNodeName_def)
  note def = handleNameBlur_def Let_def names other
  consider "trim nm = []" | "trim nm \<noteq> []" "nm \<in> node_name ` set (st_nodes s)" "nm \<noteq> node_name n"
    | "trim nm \<noteq> []" "nm \<notin> node_name ` set (st_nodes s) \<or> nm = node_name n" by blast
  then show ?thesis
  proof cases
    case 1
    then show ?thesis using assms(1) by (simp add: def)
  next
    case 2
    then show ?thesis using assms(1) by (simp add: def)
  next
    case 3
    then show ?thesis using kept new assms(3) by (simp add: def)
  qed
qed

section \<open>Tools and servers of an agent\<close>

definition is_tool :: "string \<Rightarrow> jsv \<Rightarrow> bool" where
  "is_tool val x = js_seq (jget x ''component_name'') (JStr val)"

lemma has_component_plain [simp]: "\<not> nullish x \<Longrightarrow> has_component val x = Inr (is_tool val x)"
  by (simp add: has_component_def is_tool_def jprop_def)

lemma js_find_total: "(\<And>x. x \<in> set xs \<Longrightarrow> p x = Inr (q x)) \<Longrightarrow> js_find p xs = Inr (find q xs)"
  by (induction xs) auto

lemma is_tool_value [simp]: "is_tool val (tool_value val' nm params i) \<longleftrightarrow> val' = val"
  by (auto simp: is_tool_def tool_value_def)

lemma next_tools_toggle:
  assumes "list_all (\<lambda>x. \<not> nullish x) tools" "val \<noteq> ''Retrieval''"
  shows "next_tools hid init s i val tools =
    (if list_ex (is_tool val) tools then Inr (Some (filter (\<lambda>x. \<not> is_tool val x) tools))
     else appended_tool hid init s val val tools)"
proof -
  have plain: "has_component val x = Inr (is_tool val x)" if "x \<in> set tools" for x
    using assms(1) that by (simp add: list_all_iff)
  have "js_filter (\<lambda>x. js_bind (has_component val x) (\<lambda>b. Inr (\<not> b))) tools = Inr (filter (\<lambda>x. \<not> is_tool val x) tools)"
    by (intro js_filter_total) (simp add: plain)
  moreover have "js_find (has_component val) tools = Inr (find (is_tool val) tools)"
    by (rule js_find_total) (rule plain)
  moreover have "find (is_tool val) tools \<noteq> None \<longleftrightarrow> list_ex (is_tool val) tools"
    by (auto simp: find_None_iff list_ex_iff)
  ultimately show ?thesis using assms(2) by (simp add: next_tools_def)
qed

lemma appended_toolD:
  "appended_tool hid init s val nm tools = Inr (Some ts) \<Longrightarrow> \<exists>i. ts = tools @ [tool_value val nm (init val) i]"
  by (auto simp: appended_tool_def js_bind_Inr)

text \<open>
  Choosing a tool other than retrieval turns it on or off: the other tools are as before, in their order, and
  it is among the tools, once, exactly when it was not there; choosing it again takes it out again.
\<close>

theorem chosen_tool_toggles:
  assumes "list_all (\<lambda>x. \<not> nullish x) tools" "val \<noteq> ''Retrieval''"
    and "next_tools hid init s i val tools = Inr (Some ts)"
  shows "filter (\<lambda>x. \<not> is_tool val x) ts = filter (\<lambda>x. \<not> is_tool val x) tools
    \<and> length (filter (is_tool val) ts) = (if list_ex (is_tool val) tools then 0 else 1)
    \<and> next_tools hid' init' s' i' val ts
        = (if list_ex (is_tool val) tools then appended_tool hid' init' s' val val ts else Inr (Some tools))"
proof (cases "list_ex (is_tool val) tools")
  case True
  then have "ts = filter (\<lambda>x. \<not> is_tool val x) tools"
    using assms(3) by (simp add: next_tools_toggle [OF assms(1,2)])
  moreover have "list_all (\<lambda>x. \<not> nullish x) (filter (\<lambda>x. \<not> is_tool val x) tools)"
    using assms(1) by (simp add: list_all_iff)
  ultimately show ?thesis using True by (simp add: next_tools_toggle assms(2) list_ex_iff filter_False)
next
  case False
  then obtain k where k: "ts = tools @ [tool_value val val (init val) k]"
    using assms(3) appended_toolD [of hid init s val val tools ts] by (auto simp: next_tools_toggle [OF assms(1,2)])
  have "\<not> nullish (tool_value val val (init val) k)" by (simp add: tool_value_def nullish_def)
  then have "list_all (\<lambda>x. \<not> nullish x) ts" using k assms(1) by simp
  moreover have "filter (is_tool val) tools = []" "filter (\<lambda>x. \<not> is_tool val x) tools = tools"
    using False by (auto simp: filter_empty_conv filter_id_conv list_ex_iff)
  ultimately show ?thesis using False by (simp add: next_tools_toggle assms(2) k)
qed

lemma chosen_tool_toggles_witness:
  "next_tools (\<lambda>k. replicate k CHR ''x'') (\<lambda>_. JObj []) initial_state [] ''Google'' []
     = Inr (Some [tool_value ''Google'' ''Google'' (JObj []) ''Google:''])
   \<and> next_tools (\<lambda>k. replicate k CHR ''y'') (\<lambda>_. JNull) initial_state [] ''Google''
       [tool_value ''Google'' ''Google'' (JObj []) ''Google:''] = Inr (Some [])"
proof -
  have "draw_id ''Google'' (\<lambda>k. replicate k CHR ''x'') [] 0 = Some ''Google:''"
    by (subst draw_id.simps) simp
  then have "next_tools (\<lambda>k. replicate k CHR ''x'') (\<lambda>_. JObj []) initial_state [] ''Google'' []
      = Inr (Some [tool_value ''Google'' ''Google'' (JObj []) ''Google:''])"
    by (simp add: next_tools_def appended_tool_def generateAgentToolId_def getAllAgentTools_def initial_state_def)
  with chosen_tool_toggles [OF _ _ this, of "\<lambda>k. replicate k CHR ''y''" "\<lambda>_. JNull" initial_state "[]"] show ?thesis by simp
qed

text \<open>The servers of an agent; \<open>known i\<close> are the tools of a server, \<open>undefined\<close> when it is not known.\<close>

definition is_server :: "string \<Rightarrow> jsv \<Rightarrow> bool" where
  "is_server i x = (jget x ''mcp_id'' = JStr i)"

definition mcp_entry :: "(string \<Rightarrow> jsv) \<Rightarrow> jsv list \<Rightarrow> string \<Rightarrow> jsv list" where
  "mcp_entry known mcpList i =
     (case find (is_server i) mcpList of Some m \<Rightarrow> [m]
      | None \<Rightarrow> if truthy (known i) then [JObj [(''mcp_id'', JStr i), (''tools'', JObj [])]] else [])"

lemma has_mcp_id_plain [simp]: "\<not> nullish x \<Longrightarrow> has_mcp_id i x = Inr (is_server i x)"
  by (simp add: has_mcp_id_def is_server_def jprop_def)

lemma next_mcp_entries:
  assumes "list_all (\<lambda>x. \<not> nullish x) mcpList" "\<And>i. i \<in> set val \<Longrightarrow> findMcpTools servers i = Inr (known i)"
  shows "next_mcp servers mcpList val pre = Inr (pre @ concat (map (mcp_entry known mcpList) val))"
  using assms(2)
proof (induction val arbitrary: pre)
  case (Cons i val)
  have "js_find (has_mcp_id i) mcpList = Inr (find (is_server i) mcpList)"
    using assms(1) by (intro js_find_total) (simp add: list_all_iff)
  with Cons show ?case by (simp add: mcp_entry_def split: option.splits)
qed simp

text \<open>
  Choosing servers gives exactly the chosen ones that the agent has or that are known, in the order of the
  choice; one that the agent has keeps the tools chosen of it, and choosing what the agent has changes nothing.
\<close>

theorem chosen_servers_exact:
  assumes "list_all (\<lambda>x. \<not> nullish x) mcpList" "\<And>i. i \<in> set val \<Longrightarrow> findMcpTools servers i = Inr (known i)"
    and "\<And>m. m \<in> set mcpList \<Longrightarrow> \<exists>i. jget m ''mcp_id'' = JStr i" "distinct (map (\<lambda>m. jget m ''mcp_id'') mcpList)"
  shows "\<exists>ms. next_mcp servers mcpList val [] = Inr ms
    \<and> map (\<lambda>m. jget m ''mcp_id'') ms = map JStr (filter (\<lambda>i. list_ex (is_server i) mcpList \<or> truthy (known i)) val)
    \<and> (\<forall>m\<in>set mcpList. jget m ''mcp_id'' \<in> JStr ` set val \<longrightarrow> m \<in> set ms)
    \<and> (map JStr val = map (\<lambda>m. jget m ''mcp_id'') mcpList \<longrightarrow> ms = mcpList)"
proof (intro exI conjI)
  let ?ms = "concat (map (mcp_entry known mcpList) val)"
  show "next_mcp servers mcpList val [] = Inr ?ms" using next_mcp_entries [OF assms(1,2), where pre = "[]"] by simp
  have ex: "list_ex (is_server i) mcpList \<longleftrightarrow> find (is_server i) mcpList \<noteq> None" for i
    by (auto simp: find_None_iff list_ex_iff)
  have id: "jget m ''mcp_id'' = JStr i" if "find (is_server i) mcpList = Some m" for i m
    using that by (auto simp: find_Some_iff is_server_def)
  have "map (\<lambda>m. jget m ''mcp_id'') (mcp_entry known mcpList i)
      = (if list_ex (is_server i) mcpList \<or> truthy (known i) then [JStr i] else [])" for i
    using id by (auto simp: mcp_entry_def ex split: option.splits)
  then show "map (\<lambda>m. jget m ''mcp_id'') ?ms
      = map JStr (filter (\<lambda>i. list_ex (is_server i) mcpList \<or> truthy (known i)) val)"
    by (induction val) simp_all
  have entry: "mcp_entry known mcpList i = [m]" if "m \<in> set mcpList" "jget m ''mcp_id'' = JStr i" for m i
  proof -
    from that obtain m' where m': "find (is_server i) mcpList = Some m'"
      by (cases "find (is_server i) mcpList") (auto simp: find_None_iff is_server_def)
    then have 1: "m' \<in> set mcpList" by (auto simp: find_Some_iff)
    have 2: "inj_on (\<lambda>m. jget m ''mcp_id'') (set mcpList)" using assms(4) by (simp only: distinct_map)
    have "jget m' ''mcp_id'' = jget m ''mcp_id''" by (simp only: id [OF m'] that(2))
    then have "m' = m" by (rule inj_onD [OF 2 _ 1 that(1)])
    with m' show ?thesis by (simp add: mcp_entry_def)
  qed
  show "\<forall>m\<in>set mcpList. jget m ''mcp_id'' \<in> JStr ` set val \<longrightarrow> m \<in> set ?ms"
  proof (intro ballI impI)
    fix m
    assume m: "m \<in> set mcpList" and "jget m ''mcp_id'' \<in> JStr ` set val"
    then obtain i where i: "i \<in> set val" "jget m ''mcp_id'' = JStr i" by (auto simp del: jget.simps)
    then show "m \<in> set ?ms" using entry [OF m i(2)] by (auto intro!: bexI [of _ i])
  qed
  have "map JStr val = map (\<lambda>m. jget m ''mcp_id'') ns \<Longrightarrow> set ns \<subseteq> set mcpList \<Longrightarrow> ?ms = ns" for ns
  proof (induction ns arbitrary: val)
    case (Cons n ns)
    then obtain i v where "val = i # v" "JStr i = jget n ''mcp_id''" "map JStr v = map (\<lambda>m. jget m ''mcp_id'') ns"
      by (cases val) auto
    with Cons.IH [of v] Cons.prems(2) entry [of n i] show ?case by (simp del: jget.simps)
  qed simp
  then show "map JStr val = map (\<lambda>m. jget m ''mcp_id'') mcpList \<longrightarrow> ?ms = mcpList" by simp
qed

text \<open>
  \<open>pick\<close> of keys an object has; a server that is edited shows the tools that were picked.
\<close>

definition pick_laws :: "(props \<Rightarrow> string list \<Rightarrow> props) \<Rightarrow> bool" where
  "pick_laws pk \<longleftrightarrow> (\<forall>ps ks. wf_obj ps \<longrightarrow> set ks \<subseteq> fst ` set ps \<longrightarrow>
     wf_obj (pk ps ks) \<and> fst ` set (pk ps ks) = set ks \<and> (\<forall>k\<in>set ks. map_of (pk ps ks) k = map_of ps k))"

definition pick_ref :: "props \<Rightarrow> string list \<Rightarrow> props" where
  "pick_ref ps ks = filter (\<lambda>(k, v). k \<in> set ks) ps"

lemma pick_ref_laws: "pick_laws pick_ref"
proof -
  have "wf_obj (pick_ref ps ks) \<and> fst ` set (pick_ref ps ks) = set ks \<and> (\<forall>k\<in>set ks. map_of (pick_ref ps ks) k = map_of ps k)"
    if ps: "wf_obj ps" and ks: "set ks \<subseteq> fst ` set ps" for ps ks
  proof (intro conjI ballI)
    show "fst ` set (pick_ref ps ks) = set ks" using ks by (force simp: pick_ref_def)
    show "map_of (pick_ref ps ks) k = map_of ps k" if "k \<in> set ks" for k
      using that unfolding pick_ref_def by (induction ps) auto
    show "wf_obj (pick_ref ps ks)" using ps unfolding pick_ref_def wf_obj_def
      by (auto simp: distinct_map_filter)
  qed
  then show ?thesis by (simp add: pick_laws_def)
qed

theorem picked_tools_shown:
  assumes "pick_laws pk" "isEmpty_laws emp" "list_all sound_form mcpList" "distinct (map (\<lambda>m. jget m ''mcp_id'') mcpList)"
    and "m \<in> set mcpList" "jget m ''mcp_id'' = JStr toolId" "wf_obj ts" "set items \<subseteq> fst ` set ts"
  shows "\<exists>ms ks. mcp_synced pk (JObj ts) items mcpList toolId = Inr ms
    \<and> mcp_values emp ms toolId = Inr (JObj [(''items'', JArr (map JStr ks))]) \<and> set ks = set items
    \<and> list_all2 (\<lambda>x x'. jget x' ''mcp_id'' = jget x ''mcp_id'' \<and> (\<not> is_server toolId x \<longrightarrow> x' = x)) mcpList ms"
proof -
  define edit where "edit x = (if is_server toolId x then js_object [Spread x, Prop ''tools'' (JObj (pk ts items))] else x)" for x
  have sound: "sound_form x" if "x \<in> set mcpList" for x using assms(3) that by (simp add: list_all_iff)
  have plain: "\<exists>ps. x = JObj ps \<and> wf_obj ps" if "x \<in> set mcpList" for x using sound [OF that] by (auto elim: sound_formE)
  then have objects: "\<not> nullish x" if "x \<in> set mcpList" for x using that by (auto simp: nullish_def)
  have pk: "wf_obj (pk ts items)" "fst ` set (pk ts items) = set items" using assms(1,7,8) by (auto simp: pick_laws_def)
  have synced: "mcp_synced pk (JObj ts) items mcpList toolId = Inr (map edit mcpList)"
    unfolding mcp_synced_def by (intro js_mapM_Inr) (simp add: objects edit_def js_or_def)
  have same: "jget (edit x) ''mcp_id'' = jget x ''mcp_id'' \<and> (\<not> is_server toolId x \<longrightarrow> edit x = x)"
    and tools: "is_server toolId x \<Longrightarrow> jget (edit x) ''tools'' = JObj (pk ts items)"
    and obj: "\<not> nullish (edit x)" if "x \<in> set mcpList" for x
  proof -
    note x = that
    obtain ps where ps: "x = JObj ps" "wf_obj ps" using plain [OF x] by blast
    note new = jget_spread_prop [OF ps(2), of "''tools''" "JObj (pk ts items)"]
    show "jget (edit x) ''mcp_id'' = jget x ''mcp_id'' \<and> (\<not> is_server toolId x \<longrightarrow> edit x = x)"
      using new [of "''mcp_id''"] by (simp add: edit_def ps(1) del: jget.simps)
    show "is_server toolId x \<Longrightarrow> jget (edit x) ''tools'' = JObj (pk ts items)"
      using new [of "''tools''"] by (simp add: edit_def ps(1) del: jget.simps)
    show "\<not> nullish (edit x)" using objects [OF x] by (simp add: edit_def nullish_def js_object_def)
  qed
  have "is_server toolId m" using assms(6) by (simp add: is_server_def)
  moreover have "is_server toolId (edit x) \<longleftrightarrow> is_server toolId x" if "x \<in> set mcpList" for x
    using same [OF that] by (simp add: is_server_def)
  ultimately obtain m' where m': "find (is_server toolId) (map edit mcpList) = Some (edit m')" "m' \<in> set mcpList" "is_server toolId m'"
    using assms(5) by (cases "find (is_server toolId) (map edit mcpList)") (auto simp: find_None_iff find_Some_iff)
  have "js_find (has_mcp_id toolId) (map edit mcpList) = Inr (find (is_server toolId) (map edit mcpList))"
    by (intro js_find_total) (auto simp: obj)
  then have "mcp_values emp (map edit mcpList) toolId
      = Inr (JObj [(''items'', JArr (map JStr (obj_keys (pk ts items))))])"
    using assms(2) m'(1) tools [OF m'(2,3)]
    by (auto simp: mcp_values_def js_or_def isEmpty_laws_def obj_keys_def)
  moreover have "set (obj_keys (pk ts items)) = set items" using pk(2) by (simp add: obj_keys_def)
  moreover have "list_all2 (\<lambda>x x'. jget x' ''mcp_id'' = jget x ''mcp_id'' \<and> (\<not> is_server toolId x \<longrightarrow> x' = x)) mcpList (map edit mcpList)"
    using same by (simp add: list_all2_conv_all_nth)
  ultimately show ?thesis using synced by blast
qed

section \<open>Editing one record of a list\<close>

lemma others_nth: "map snd (filter (\<lambda>(i, x). i \<noteq> k) (enumerate m xs)) = (if m \<le> k \<and> k < m + length xs then take (k - m) xs @ drop (Suc k - m) xs else xs)"
proof (induction xs arbitrary: m)
  case (Cons x xs)
  show ?case
  proof (cases "m = k")
    case True
    then show ?thesis using Cons.IH [of "Suc m"] by simp
  next
    case False
    then show ?thesis using Cons.IH [of "Suc m"] by (cases "k - m") (auto simp: Suc_diff_le diff_Suc)
  qed
qed simp

text \<open>
  A record that is opened, edited to a key no other record has, and confirmed, takes its place in the list:
  the other records are as before and the keys stay different; a new one comes last. Deleting takes out the
  record that was clicked and nothing else.
\<close>

theorem edited_record_keeps_keys:
  assumes "distinct (map key xs)" "k < length xs \<or> idx = None" "idx = Some k \<or> idx = None"
    and "d = handleShowModal idx r0" "key r \<notin> key ` set (otherThanCurrentQuery d xs)"
  shows "distinct (map key (snd (handleEditRecord d r xs)))
    \<and> snd (handleEditRecord d r xs) = (case idx of Some i \<Rightarrow> xs[i := r] | None \<Rightarrow> xs @ [r])
    \<and> handleDeleteRecord k xs = (if k < length xs then take k xs @ drop (Suc k) xs else xs)"
proof -
  have del: "handleDeleteRecord k xs = (if k < length xs then take k xs @ drop (Suc k) xs else xs)"
    by (simp add: handleDeleteRecord_def others_nth)
  show ?thesis
  proof (cases idx)
    case None
    have "otherThanCurrentQuery d xs = xs"
      by (simp add: otherThanCurrentQuery_def assms(4) handleShowModal_def None enumerate_eq_zip)
    then show ?thesis using assms(1,5) None del by (simp add: assms(4) handleEditRecord_def handleShowModal_def)
  next
    case (Some i)
    then have i: "i = k" "k < length xs" using assms(2,3) by auto
    have others: "otherThanCurrentQuery d xs = take k xs @ drop (Suc k) xs"
      using others_nth [of k 0 xs] i
      by (simp add: otherThanCurrentQuery_def assms(4) handleShowModal_def Some case_prod_beta')
    have new: "snd (handleEditRecord d r xs) = xs[k := r]"
      using i Some by (simp add: assms(4) handleEditRecord_def handleShowModal_def upd_conv_take_nth_drop)
    have split: "map key xs = map key (take k xs) @ key (xs ! k) # map key (drop (Suc k) xs)"
      using i(2) by (metis append_take_drop_id Cons_nth_drop_Suc map_append list.simps(9))
    have "distinct (map key (xs[k := r]))"
      using assms(1,5) i(2) unfolding others split by (auto simp: upd_conv_take_nth_drop)
    then show ?thesis using new del Some i by simp
  qed
qed

section \<open>Groups and prompts\<close>

text \<open>
  The name a group has after its field was left: the old one or a text that no group had, that is not blank
  and consists of letters, digits and underscores.
\<close>

theorem group_name_stays_free:
  "group_name_blur trim names (group_name_changed v) old = (nm, shown) \<Longrightarrow>
     nm = old \<or> (nm \<notin> set names \<and> trim nm \<noteq> [] \<and> list_all group_name_char nm)"
  "distinct names \<Longrightarrow> k < length names \<Longrightarrow> distinct (names[k := fst (group_name_blur trim names v (names ! k))])"
proof -
  show "nm = old \<or> (nm \<notin> set names \<and> trim nm \<noteq> [] \<and> list_all group_name_char nm)"
    if "group_name_blur trim names (group_name_changed v) old = (nm, shown)"
    using that by (auto simp: group_name_blur_def group_name_changed_def list_all_iff split: if_splits)
  show "distinct (names[k := fst (group_name_blur trim names v (names ! k))])" if "distinct names" "k < length names"
    using that by (simp add: group_name_blur_def distinct_list_update)
qed

text \<open>A change of the field that is cancelled gives the field its old name back.\<close>

definition prompt_settled :: "switch_prompt \<Rightarrow> bool" where
  "prompt_settled w \<longleftrightarrow> sw_names w \<noteq> [] \<and> length (sw_names w) \<le> 2 \<and> last (sw_names w) = sw_field w"

lemma prompt_settledE:
  assumes "prompt_settled w"
  obtains "sw_names w = [sw_field w]" | a where "sw_names w = [a, sw_field w]"
  using assms by (cases "sw_names w"; cases "tl (sw_names w)") (auto simp: prompt_settled_def)

theorem cancelled_switch_restores:
  assumes "prompt_settled w" "sw_field w \<noteq> []" "v \<noteq> []"
  shows "sw_field (cancelSwitch (handleFieldNameChange v w)) = sw_field w
    \<and> \<not> sw_visible (cancelSwitch (handleFieldNameChange v w))
    \<and> sw_prompts (cancelSwitch (handleFieldNameChange v w)) = sw_prompts w
    \<and> prompt_settled (confirmSwitch t (handleFieldNameChange v w))"
  using assms(1)
  by (cases rule: prompt_settledE)
    (use assms(2,3) in \<open>simp_all add: handleFieldNameChange_def cancelSwitch_def confirmSwitch_def prompt_settled_def Let_def\<close>)

text \<open>But the refused name is not forgotten: cancelling a second change sets the name that was refused first.\<close>

theorem second_cancel_sets_refused_name:
  assumes "prompt_settled w" "sw_field w \<noteq> []" "v \<noteq> []" "v' \<noteq> []"
  shows "sw_field (cancelSwitch (handleFieldNameChange v' (cancelSwitch (handleFieldNameChange v w)))) = v"
  using assms(1)
  by (cases rule: prompt_settledE)
    (use assms(2,3,4) in \<open>simp_all add: handleFieldNameChange_def cancelSwitch_def Let_def\<close>)

section \<open>Names of tools\<close>

text \<open>
  The name of a tool is compared without the blanks around it but written with them, so a name with a blank
  is written even when another tool has it.
\<close>

theorem tool_name_compared_trimmed:
  assumes "array_elems (getAgentNodeTools lget (Some n)) = tools" "list_all (\<lambda>x. \<not> nullish x) tools"
    and "\<forall>x\<in>set tools. jget x ''name'' \<noteq> JStr (trim nm)" "trim nm \<noteq> []" "nid n \<noteq> []"
    and "updateAgentToolById lget lset (NodeRef n) toolId (JObj [(''name'', JStr nm)]) s = Inr s'"
  shows "handleToolNameBlur trim lget lset nm previousName (Some n) toolId s
    = Inr \<lparr>ne_ok = True, ne_input = nm, ne_message = False, ne_state = s'\<rparr>"
proof -
  have "js_find (has_name (trim nm)) tools = Inr None"
    using assms(2,3) by (intro js_find_none) (simp add: has_name_def jprop_def list_all_iff)
  with assms(1,4,5,6) show ?thesis by (simp add: handleToolNameBlur_def)
qed

definition blank_trim :: "string \<Rightarrow> string" where
  "blank_trim v = rev (dropWhile ((=) CHR '' '') (rev (dropWhile ((=) CHR '' '') v)))"

definition named_tool :: "string \<Rightarrow> string \<Rightarrow> jsv" where
  "named_tool i nm = JObj [(''id'', JStr i), (''name'', JStr nm)]"

lemma tool_name_compared_trimmed_witness:
  "\<exists>s'. handleToolNameBlur blank_trim (\<lambda>f ks d. jget f ''tools'') lset_ref ''a '' (Some ''b'')
      (Some (mk_node ''agent'' OpAgent None (JObj [(''tools'', JArr [named_tool ''t1'' ''a '', named_tool ''t2'' ''b''])]))) ''t2''
      initial_state = Inr \<lparr>ne_ok = True, ne_input = ''a '', ne_message = False, ne_state = s'\<rparr>"
proof -
  let ?n = "mk_node ''agent'' OpAgent None (JObj [(''tools'', JArr [named_tool ''t1'' ''a '', named_tool ''t2'' ''b''])])"
  have tools: "array_elems (getAgentNodeTools (\<lambda>f ks d. jget f ''tools'') (Some ?n)) = [named_tool ''t1'' ''a '', named_tool ''t2'' ''b'']"
    by (simp add: getAgentNodeTools_def array_elems_def mk_node_def)
  have "js_findIdx (has_tool_key ''t2'') [named_tool ''t1'' ''a '', named_tool ''t2'' ''b''] = Inr (Some 1)"
    by (simp add: has_tool_key_def tool_key_def named_tool_def jprop_def nullish_def)
  then have "\<exists>s'. updateAgentToolById (\<lambda>f ks d. jget f ''tools'') lset_ref (NodeRef ?n) ''t2'' (JObj [(''name'', JStr ''a '')]) initial_state = Inr s'"
    by (simp add: updateAgentToolById_def tools)
  then obtain s' where "updateAgentToolById (\<lambda>f ks d. jget f ''tools'') lset_ref (NodeRef ?n) ''t2'' (JObj [(''name'', JStr ''a '')]) initial_state = Inr s'" ..
  then show ?thesis
    by (intro exI [of _ s'] tool_name_compared_trimmed [OF tools])
      (simp_all add: named_tool_def nullish_def blank_trim_def mk_node_def)
qed

end
