(* ===== verification/List_Filters.thy ===== *)
theory List_Filters
  imports Js_Value Js_String "HOL-Library.Multiset"
begin

text \<open>
  The filters of lists (\<open>components/list-filter-bar\<close>, \<open>utils/list-filter-util.ts\<close>,
  \<open>dataset/use-select-filters.ts\<close>): the ids that can be chosen are counted from the list, searched, checked
  and unchecked, and what was chosen is cut down to the ids there are whenever the list changes.
\<close>

section \<open>Filters\<close>

text \<open>The label of an item is a text here; the type has elements of the page as well.\<close>

datatype filter_item =
  Filter_Item (fi_id: string) (fi_label: string) (fi_list: "filter_item list option") (fi_field: "string option")
    (fi_value: "string list") (fi_count: "int option")

record filter_collection =
  fc_field :: string
  fc_label :: string
  fc_list :: "filter_item list option"
  fc_canSearch :: bool

text \<open>What is chosen, by the names of the filters: ids, or again ids by names, or \<open>undefined\<close>.\<close>

datatype filter_value = Chosen "string list" | Grouped "(string \<times> filter_value) list" | Unset

section \<open>Searching in a filter\<close>

definition search_hit :: "string \<Rightarrow> filter_item \<Rightarrow> bool" where
  "search_hit term x = (str_includes (to_lower (fi_label x)) term \<or> str_includes (to_lower (fi_id x)) term)"

function filterNestedList :: "filter_item list \<Rightarrow> string \<Rightarrow> filter_item list" where
  "filterNestedList xs searchTerm =
     (if searchTerm = [] then xs
      else filter (\<lambda>x. search_hit (to_lower searchTerm) x
             \<or> (case fi_list x of None \<Rightarrow> False | Some ys \<Rightarrow> ys \<noteq> [] \<and> filterNestedList ys searchTerm \<noteq> [])) xs)"
  by pat_completeness auto

lemma size_sub_items: "x \<in> set xs \<Longrightarrow> fi_list x = Some ys \<Longrightarrow> size_list size ys < size_list size xs"
proof -
  assume x: "x \<in> set xs" "fi_list x = Some ys"
  have "size_list size ys < size x" using x(2) by (cases x) simp
  also have "size x \<le> size_list size xs" using x(1) by (rule size_list_estimation') simp
  finally show ?thesis .
qed

termination filterNestedList
  by (relation "measure (\<lambda>(xs, t). size_list size xs)") (auto dest: size_sub_items)

declare filterNestedList.simps [simp del]

definition handleSearchChange :: "string \<Rightarrow> string \<Rightarrow> (string \<Rightarrow> string option) \<Rightarrow> string \<Rightarrow> string option" where
  "handleSearchChange f v searchTerms = searchTerms(f \<mapsto> v)"

text \<open>A filter that can be searched and has a text is shown with what the search leaves of its list.\<close>

definition getFilteredFilters ::
  "(string \<Rightarrow> string option) \<Rightarrow> filter_collection list \<Rightarrow> filter_collection list" where
  "getFilteredFilters searchTerms =
     map (\<lambda>f. case searchTerms (fc_field f) of
         Some t \<Rightarrow> if fc_canSearch f \<and> t \<noteq> []
           then f\<lparr>fc_list := map_option (\<lambda>xs. filterNestedList xs t) (fc_list f)\<rparr> else f
       | None \<Rightarrow> f)"

definition notInfilterGroup :: "(string \<times> string list) list \<Rightarrow> filter_collection list \<Rightarrow> filter_collection list" where
  "notInfilterGroup filterGroup filters = filter (\<lambda>x. fc_field x \<notin> set (concat (map snd filterGroup))) filters"

section \<open>Choosing\<close>

definition has_nested :: "filter_collection \<Rightarrow> bool" where
  "has_nested f = (case fc_list f of None \<Rightarrow> False
     | Some xs \<Rightarrow> list_ex (\<lambda>x. case fi_list x of None \<Rightarrow> False | Some ys \<Rightarrow> ys \<noteq> []) xs)"

fun put_value :: "string \<Rightarrow> 'a \<Rightarrow> (string \<times> 'a) list \<Rightarrow> (string \<times> 'a) list" where
  "put_value k v [] = [(k, v)]"
| "put_value k v ((k', v') # ps) = (if k' = k then (k, v) # ps else (k', v') # put_value k v ps)"

text \<open>What the form starts with and what clearing it submits.\<close>

definition fieldsDict :: "filter_collection list \<Rightarrow> (string \<times> filter_value) list" where
  "fieldsDict filters =
     foldl (\<lambda>pre cur. put_value (fc_field cur) (if has_nested cur then Grouped [] else Chosen []) pre) [] filters"

text \<open>The boxes are never given as nested, so only the second branch of the handler runs.\<close>

definition chosen_ids :: "filter_value \<Rightarrow> string list" where
  "chosen_ids v = (case v of Chosen xs \<Rightarrow> xs | _ \<Rightarrow> [])"

definition handleCheckChange :: "bool \<Rightarrow> string \<Rightarrow> filter_value \<Rightarrow> filter_value" where
  "handleCheckChange checked i v =
     Chosen (if checked then chosen_ids v @ [i] else filter (\<lambda>x. x \<noteq> i) (chosen_ids v))"

text \<open>
  The number beside the filter: \<open>None\<close> is not a number, for a group within a group, and a missing list of a
  group throws.
\<close>

fun value_length :: "filter_value \<Rightarrow> nat option js" where
  "value_length (Chosen xs) = Inr (Some (length xs))"
| "value_length (Grouped ps) = Inr None"
| "value_length Unset = Inl (TypeError ''Cannot read properties of undefined, reading length'')"

fun add_count :: "nat option \<Rightarrow> nat option \<Rightarrow> nat option" where
  "add_count (Some a) (Some b) = Some (a + b)"
| "add_count _ _ = None"

fun counted :: "filter_value \<Rightarrow> nat option js" where
  "counted (Chosen xs) = Inr (Some (length xs))"
| "counted (Grouped ps) =
     foldl (\<lambda>m (k, v). js_bind m (\<lambda>n. js_bind (value_length v) (\<lambda>l. Inr (add_count n l)))) (Inr (Some 0)) ps"
| "counted Unset = Inr (Some 0)"

definition filterCount :: "(string \<times> filter_value) list \<Rightarrow> nat option js" where
  "filterCount val =
     foldl (\<lambda>m (k, v). js_bind m (\<lambda>n. js_bind (counted v) (\<lambda>l. Inr (add_count n l)))) (Inr (Some 0)) val"

section \<open>Keeping what there is\<close>

text \<open>
  The ids of a filter are those of its leaves; a filter without a list has itself, without an id, and such an
  id is never among the chosen ones.
\<close>

fun getFilterIds :: "filter_item \<Rightarrow> string list" where
  "getFilterIds (Filter_Item i l None f v c) = [i]"
| "getFilterIds (Filter_Item i l (Some xs) f v c) = concat (map getFilterIds xs)"

definition collection_ids :: "filter_collection \<Rightarrow> string option list" where
  "collection_ids f = (case fc_list f of None \<Rightarrow> [None] | Some xs \<Rightarrow> map Some (concat (map getFilterIds xs)))"

fun mergeFilterValue :: "(string \<times> filter_value) list \<Rightarrow> string list \<Rightarrow> (string \<times> filter_value) list" where
  "mergeFilterValue [] ids = []"
| "mergeFilterValue ((k, Chosen keyIds) # ps) ids =
     (k, Chosen (filter (\<lambda>i. i \<in> set keyIds) ids)) # mergeFilterValue ps ids"
| "mergeFilterValue ((k, Grouped qs) # ps) ids = (k, Grouped (mergeFilterValue qs ids)) # mergeFilterValue ps ids"
| "mergeFilterValue ((k, Unset) # ps) ids = mergeFilterValue ps ids"

record filter_session =
  fs_value :: "(string \<times> filter_value) list"
  fs_page :: nat

definition handleFilterSubmit :: "(string \<times> filter_value) list \<Rightarrow> filter_session \<Rightarrow> filter_session" where
  "handleFilterSubmit v s = s\<lparr>fs_value := v, fs_page := 1\<rparr>"

definition somes_of :: "'a option list \<Rightarrow> 'a list" where
  "somes_of xs = map the (filter (\<lambda>x. x \<noteq> None) xs)"

definition checkValue :: "filter_collection list \<Rightarrow> filter_session \<Rightarrow> filter_session" where
  "checkValue filters s =
     (let validFields = concat (map collection_ids filters) in
      if filters = [] \<or> validFields = [] then s
      else s\<lparr>fs_value := mergeFilterValue (fs_value s) (somes_of validFields)\<rparr>)"

text \<open>The status filter of a request for documents: the entry for missing metadata becomes a flag.\<close>

definition run_request :: "filter_value option \<Rightarrow> filter_value option \<times> bool" where
  "run_request run =
     (case run of
        Some (Chosen xs) \<Rightarrow> (Some (Chosen (remove1 ''empty_metadata'' xs)), ''empty_metadata'' \<in> set xs)
      | _ \<Rightarrow> (run, False))"

section \<open>Counting the values of a list\<close>

record counted_item =
  ci_id :: jsv
  ci_label :: jsv
  ci_count :: nat

fun count_in :: "jsv \<Rightarrow> jsv \<Rightarrow> counted_item list \<Rightarrow> counted_item list" where
  "count_in i l [] = [\<lparr>ci_id = i, ci_label = l, ci_count = 1\<rparr>]"
| "count_in i l (y # ys) =
     (if js_seq (ci_id y) i then y\<lparr>ci_count := ci_count y + 1\<rparr> # ys else y # count_in i l ys)"

definition groupListByType :: "jsv \<Rightarrow> string \<Rightarrow> string \<Rightarrow> counted_item list js" where
  "groupListByType v idField labelField =
     (case v of
        JArr xs \<Rightarrow> foldl (\<lambda>m x. js_bind m (\<lambda>ys. js_bind (jprop x idField) (\<lambda>i.
                     Inr (count_in i (jget x labelField) ys)))) (Inr []) xs
      | _ \<Rightarrow> Inr [])"

definition groupListByArray :: "jsv list \<Rightarrow> string \<Rightarrow> counted_item list js" where
  "groupListByArray xs idField =
     foldl (\<lambda>m x. js_bind m (\<lambda>ys. js_bind (jprop x idField) (\<lambda>v.
       Inr (case v of JArr js \<Rightarrow> foldl (\<lambda>zs j. count_in j j zs) ys js | _ \<Rightarrow> ys)))) (Inr []) xs"

definition buildOwnersFilter :: "jsv \<Rightarrow> string option \<Rightarrow> (string \<times> counted_item list \<times> string) js" where
  "buildOwnersFilter v nickName =
     js_bind (groupListByType v ''tenant_id'' (case nickName of Some nm \<Rightarrow> if nm = [] then ''nickname'' else nm | None \<Rightarrow> ''nickname''))
       (\<lambda>owners. Inr (''owner'', owners, ''Owner''))"

section \<open>The filters of the documents of a dataset\<close>

text \<open>The counts the server sends; \<open>up\<close> is \<open>toUpperCase\<close>, \<open>t\<close> the translation.\<close>

record document_counts =
  dc_suffix :: "(string \<times> int) list option"
  dc_run_status :: "(string \<times> int) list option"
  dc_metadata :: "(string \<times> (string \<times> int) list) list option"

definition suffix_items :: "(string \<Rightarrow> string) \<Rightarrow> document_counts \<Rightarrow> filter_item list option" where
  "suffix_items up d = map_option (map (\<lambda>(x, n). Filter_Item x (up x) None None [] (Some n))) (dc_suffix d)"

definition status_items :: "(string \<Rightarrow> string) \<Rightarrow> document_counts \<Rightarrow> filter_item list" where
  "status_items t d =
     (case dc_run_status d of None \<Rightarrow> []
      | Some rs \<Rightarrow> map (\<lambda>(x, n). Filter_Item x (t (''runningStatus'' @ x)) None None [] (Some n)) rs)
     @ (case dc_metadata d of None \<Rightarrow> []
        | Some ms \<Rightarrow> (case map_of ms ''empty_metadata'' of None \<Rightarrow> []
            | Some e \<Rightarrow> [Filter_Item ''empty_metadata'' (t ''emptyMetadata'') None None [] (map_of e ''true'')]))"

definition metadata_item :: "string \<times> (string \<times> int) list \<Rightarrow> filter_item" where
  "metadata_item p =
     Filter_Item (fst p) (fst p)
       (Some (map (\<lambda>(y, n). Filter_Item y y None (Some y) [y] (Some n)) (snd p)))
       (Some (fst p)) [] (Some (foldl (\<lambda>acc (y, n). acc + n) 0 (snd p)))"

definition metadata_list :: "document_counts \<Rightarrow> filter_item list option" where
  "metadata_list d =
     map_option (\<lambda>ms. map metadata_item (filter (\<lambda>(m, vs). m \<noteq> ''empty_metadata'') ms)) (dc_metadata d)"

definition dataset_filters ::
  "(string \<Rightarrow> string) \<Rightarrow> (string \<Rightarrow> string) \<Rightarrow> document_counts \<Rightarrow> filter_collection list" where
  "dataset_filters up t d =
     [\<lparr>fc_field = ''type'', fc_label = ''File Type'', fc_list = suffix_items up d, fc_canSearch = False\<rparr>,
      \<lparr>fc_field = ''run'', fc_label = ''Status'', fc_list = Some (status_items t d), fc_canSearch = False\<rparr>,
      \<lparr>fc_field = ''metadata'', fc_label = ''Metadata field'', fc_list = metadata_list d, fc_canSearch = True\<rparr>]"

section \<open>What the search finds\<close>

text \<open>An item and all items below it.\<close>

fun all_items :: "filter_item \<Rightarrow> filter_item list" where
  "all_items (Filter_Item i l None f v c) = [Filter_Item i l None f v c]"
| "all_items (Filter_Item i l (Some xs) f v c) = Filter_Item i l (Some xs) f v c # concat (map all_items xs)"

lemma all_items_sub: "all_items x = x # (case fi_list x of None \<Rightarrow> [] | Some ys \<Rightarrow> concat (map all_items ys))"
  by (cases x rule: all_items.cases) simp_all

text \<open>
  Searching a filter leaves exactly the items of which a label or an id, of themselves or of an item below
  them at any depth, contains the text, in any case, and leaves them in their order with all that is below.
\<close>

theorem search_finds_items_below:
  "searchTerm \<noteq> [] \<Longrightarrow> filterNestedList xs searchTerm
     = filter (\<lambda>x. list_ex (search_hit (to_lower searchTerm)) (all_items x)) xs"
proof (induction xs searchTerm rule: filterNestedList.induct)
  case (1 xs searchTerm)
  have "(case fi_list x of None \<Rightarrow> False | Some ys \<Rightarrow> ys \<noteq> [] \<and> filterNestedList ys searchTerm \<noteq> [])
      \<longleftrightarrow> list_ex (search_hit (to_lower searchTerm)) (case fi_list x of None \<Rightarrow> [] | Some ys \<Rightarrow> concat (map all_items ys))"
    if x: "x \<in> set xs" for x
  proof (cases "fi_list x")
    case (Some ys)
    from "1.IH" [OF "1.prems" x Some "1.prems"] show ?thesis
      using Some by (auto simp: filter_empty_conv list_ex_iff)
  qed simp
  then show ?case
    using "1.prems" by (subst filterNestedList.simps) (auto intro!: filter_cong simp: all_items_sub)
qed

lemma search_finds_items_below_witness:
  "filterNestedList [Filter_Item ''a'' ''A'' (Some [Filter_Item ''x'' ''Xy'' None None [] None]) None [] None,
      Filter_Item ''b'' ''B'' None None [] None] ''Y''
   = [Filter_Item ''a'' ''A'' (Some [Filter_Item ''x'' ''Xy'' None None [] None]) None [] None]"
  by (subst search_finds_items_below)
    (simp_all add: search_hit_def str_includes_def to_lower_def lower_char_def char_of_def bit_Suc_0_iff starts_with_def)

section \<open>What stays chosen\<close>

fun wf_values :: "(string \<times> filter_value) list \<Rightarrow> bool" where
  "wf_values [] = True"
| "wf_values ((k, Grouped qs) # ps) = (k \<notin> fst ` set ps \<and> wf_values qs \<and> wf_values ps)"
| "wf_values ((k, Chosen xs) # ps) = (k \<notin> fst ` set ps \<and> wf_values ps)"
| "wf_values ((k, Unset) # ps) = (k \<notin> fst ` set ps \<and> wf_values ps)"

fun chosen_at :: "string list \<Rightarrow> (string \<times> filter_value) list \<Rightarrow> string list option" where
  "chosen_at [] ps = None"
| "chosen_at (k # ks) ps =
     (case map_of ps k of
        Some (Chosen xs) \<Rightarrow> if ks = [] then Some xs else None
      | Some (Grouped qs) \<Rightarrow> chosen_at ks qs
      | _ \<Rightarrow> None)"

definition merged_value :: "string list \<Rightarrow> filter_value \<Rightarrow> filter_value option" where
  "merged_value ids v =
     (case v of Chosen ks \<Rightarrow> Some (Chosen (filter (\<lambda>i. i \<in> set ks) ids))
      | Grouped qs \<Rightarrow> Some (Grouped (mergeFilterValue qs ids)) | Unset \<Rightarrow> None)"

lemma merge_keys: "fst ` set (mergeFilterValue ps ids) \<subseteq> fst ` set ps"
  by (induction ps ids rule: mergeFilterValue.induct) auto

lemma map_of_merge:
  "wf_values ps \<Longrightarrow> map_of (mergeFilterValue ps ids) k = Option.bind (map_of ps k) (merged_value ids)"
proof (induction ps rule: wf_values.induct)
  case (2 k' qs ps)
  then show ?case using merge_keys by (auto simp: merged_value_def)
next
  case (4 k' ps)
  then have "map_of (mergeFilterValue ps ids) k' = None" "map_of ps k' = None"
    using merge_keys [of ps ids] by (auto simp: map_of_eq_None_iff)
  with 4 show ?case by (auto simp: merged_value_def)
qed (simp_all add: merged_value_def)

lemma wf_values_sub: "wf_values ps \<Longrightarrow> map_of ps k = Some (Grouped qs) \<Longrightarrow> wf_values qs"
  by (induction ps rule: wf_values.induct) (auto split: if_splits)

lemma wf_merged: "wf_values ps \<Longrightarrow> wf_values (mergeFilterValue ps ids)"
proof (induction ps ids rule: mergeFilterValue.induct)
  case (2 k ks ps ids)
  then show ?case using merge_keys [of ps ids] by auto
next
  case (3 k qs ps ids)
  then show ?case using merge_keys [of ps ids] by auto
qed auto

lemma chosen_at_merged:
  "wf_values ps \<Longrightarrow> chosen_at path (mergeFilterValue ps ids)
     = map_option (\<lambda>xs. filter (\<lambda>i. i \<in> set xs) ids) (chosen_at path ps)"
proof (induction path arbitrary: ps)
  case (Cons k ks)
  show ?case
  proof (cases "map_of ps k")
    case None
    then show ?thesis using Cons.prems by (simp add: map_of_merge)
  next
    case (Some v)
    show ?thesis
    proof (cases v)
      case (Grouped qs)
      with Some Cons show ?thesis by (simp add: map_of_merge merged_value_def wf_values_sub)
    qed (use Some Cons.prems in \<open>simp_all add: map_of_merge merged_value_def\<close>)
  qed
qed simp

lemma merge_again: "mergeFilterValue (mergeFilterValue ps ids) ids = mergeFilterValue ps ids"
proof (induction ps ids rule: mergeFilterValue.induct)
  case (2 k ks ps ids)
  then show ?case by (auto intro: filter_cong)
qed simp_all

datatype filter_event = Submitted "(string \<times> filter_value) list" | Filters_Changed "filter_collection list"

fun filter_step :: "filter_event \<Rightarrow> filter_session \<Rightarrow> filter_session" where
  "filter_step (Submitted v) s = handleFilterSubmit v s"
| "filter_step (Filters_Changed fs) s = checkValue fs s"

definition offered_ids :: "filter_collection list \<Rightarrow> string list" where
  "offered_ids fs = somes_of (concat (map collection_ids fs))"

lemma session_wf:
  "wf_values (fs_value s) \<Longrightarrow> (\<And>v. Submitted v \<in> set es \<Longrightarrow> wf_values v) \<Longrightarrow>
     wf_values (fs_value (fold filter_step es s))"
proof (induction es arbitrary: s)
  case (Cons e es)
  have "wf_values (fs_value (filter_step e s))"
    using Cons.prems by (cases e) (simp_all add: handleFilterSubmit_def checkValue_def Let_def wf_merged)
  then show ?case using Cons.IH Cons.prems(2) by simp
qed simp

lemma checkValue_merges:
  "concat (map collection_ids fs) \<noteq> [] \<Longrightarrow>
     checkValue fs s = s\<lparr>fs_value := mergeFilterValue (fs_value s) (offered_ids fs)\<rparr>"
  by (cases fs) (simp_all only: checkValue_def Let_def offered_ids_def, simp_all)

text \<open>
  C37. After any sequence of submitted choices and changes of the filters, a change of the filters leaves of
  what is chosen, filter by filter and group by group, exactly the ids that are offered, in the order in which
  they are offered; the page is kept, and checking once more changes nothing. Without any filter nothing is
  changed.
\<close>

theorem chosen_stays_offered:
  assumes "wf_values (fs_value s)" "\<And>v. Submitted v \<in> set es \<Longrightarrow> wf_values v"
    and "concat (map collection_ids fs) \<noteq> []"
  defines "before \<equiv> fold filter_step es s" and "after \<equiv> filter_step (Filters_Changed fs) (fold filter_step es s)"
  shows "chosen_at path (fs_value after)
      = map_option (\<lambda>xs. filter (\<lambda>i. i \<in> set xs) (offered_ids fs)) (chosen_at path (fs_value before))
    \<and> fs_page after = fs_page before
    \<and> filter_step (Filters_Changed fs) after = after"
proof -
  note merges = checkValue_merges [OF assms(3)]
  have after: "after = before\<lparr>fs_value := mergeFilterValue (fs_value before) (offered_ids fs)\<rparr>"
    by (simp add: after_def before_def merges)
  have "checkValue fs after = after" by (simp only: merges) (simp add: after merge_again)
  moreover have "wf_values (fs_value before)" unfolding before_def by (rule session_wf [OF assms(1,2)])
  ultimately show ?thesis by (simp add: after chosen_at_merged)
qed

definition one_filter :: "filter_collection list" where
  "one_filter = [\<lparr>fc_field = ''run'', fc_label = [], fc_list = Some [Filter_Item ''1'' [] None None [] None], fc_canSearch = False\<rparr>]"

lemma chosen_stays_offered_witness:
  "chosen_at [''run''] (fs_value (filter_step (Filters_Changed one_filter)
      (fold filter_step [Submitted [(''run'', Chosen [''2'', ''1''])]] \<lparr>fs_value = [], fs_page = 3\<rparr>))) = Some [''1'']"
proof -
  let ?s = "\<lparr>fs_value = [], fs_page = 3\<rparr>" and ?es = "[Submitted [(''run'', Chosen [''2'', ''1''])]]"
  have "chosen_at [''run''] (fs_value (filter_step (Filters_Changed one_filter) (fold filter_step ?es ?s)))
      = map_option (\<lambda>xs. filter (\<lambda>i. i \<in> set xs) (offered_ids one_filter)) (chosen_at [''run''] (fs_value (fold filter_step ?es ?s)))"
    using chosen_stays_offered [of ?s ?es one_filter "[''run'']"]
    by (auto simp: one_filter_def collection_ids_def simp del: filter_step.simps fold.simps chosen_at.simps)
  then show ?thesis by (simp add: handleFilterSubmit_def offered_ids_def one_filter_def collection_ids_def somes_of_def del: filter_step.simps(2))
qed

text \<open>Every change of the filters that offers ids leaves only ids that are offered, and none of the rest.\<close>

corollary unoffered_ids_go:
  assumes "wf_values (fs_value s)" "concat (map collection_ids fs) \<noteq> []"
    and "chosen_at path (fs_value (checkValue fs s)) = Some xs"
  shows "set xs \<subseteq> set (offered_ids fs)"
proof -
  have "chosen_at path (fs_value (checkValue fs s))
      = map_option (\<lambda>xs. filter (\<lambda>i. i \<in> set xs) (offered_ids fs)) (chosen_at path (fs_value s))"
    using assms(1) by (simp add: checkValue_merges [OF assms(2)] chosen_at_merged)
  with assms(3) show ?thesis by auto
qed

text \<open>Filters that are not loaded have an id, \<open>undefined\<close>, so they clear everything that is chosen.\<close>

theorem unloaded_filters_clear:
  assumes "fs \<noteq> []" "\<And>f. f \<in> set fs \<Longrightarrow> fc_list f = None" "wf_values (fs_value s)"
    and "chosen_at path (fs_value s) = Some xs"
  shows "chosen_at path (fs_value (checkValue fs s)) = Some []"
proof -
  have "concat (map collection_ids fs) = map (\<lambda>_. None) fs"
    using assms(2) by (induction fs) (simp_all add: collection_ids_def)
  with assms(1,3,4) show ?thesis
    by (simp add: checkValue_def Let_def chosen_at_merged somes_of_def comp_def)
qed

text \<open>The ids of all filters are taken together, so an id that two filters have is chosen twice by the first.\<close>

theorem shared_id_is_chosen_twice:
  "fs_value (checkValue
       [\<lparr>fc_field = ''run'', fc_label = [], fc_list = Some [Filter_Item ''1'' [] None None [] None], fc_canSearch = False\<rparr>,
        \<lparr>fc_field = ''metadata'', fc_label = [], fc_list = Some [Filter_Item ''year'' [] (Some [Filter_Item ''1'' [] None None [] None])
            None [] None], fc_canSearch = True\<rparr>]
       \<lparr>fs_value = [(''run'', Chosen [''1''])], fs_page = 1\<rparr>) = [(''run'', Chosen [''1'', ''1''])]"
  by (simp add: checkValue_def collection_ids_def somes_of_def)

section \<open>What is counted\<close>

definition count_of :: "jsv \<Rightarrow> counted_item list \<Rightarrow> nat" where
  "count_of k ys = sum_list (map ci_count (filter (\<lambda>y. ci_id y = k) ys))"

lemma js_seq_eq: "js_seq a b \<Longrightarrow> a = b"
  by (cases "(a, b)" rule: js_seq.cases) auto

lemma js_seq_iff: "js_seq b b \<Longrightarrow> js_seq a b \<longleftrightarrow> a = b"
  using js_seq_eq by blast

lemma count_in_count:
  "js_seq i i \<Longrightarrow> count_of k (count_in i l ys) = count_of k ys + (if k = i then 1 else 0)"
proof (induction ys)
  case (Cons y ys)
  then show ?case using js_seq_iff [OF Cons.prems, of "ci_id y"] by (auto simp: count_of_def)
qed (simp add: count_of_def)

lemma count_in_ids:
  "js_seq i i \<Longrightarrow> map ci_id (count_in i l ys) = (if i \<in> ci_id ` set ys then map ci_id ys else map ci_id ys @ [i])"
proof (induction ys)
  case (Cons y ys)
  then show ?case using js_seq_iff [OF Cons.prems, of "ci_id y"] by simp
qed simp

lemma count_of_member:
  "distinct (map ci_id ys) \<Longrightarrow> y \<in> set ys \<Longrightarrow> count_of (ci_id y) ys = ci_count y"
proof (induction ys)
  case (Cons z ys)
  have "filter (\<lambda>y. ci_id y = ci_id z) ys = []" using Cons.prems(1) by (simp add: filter_empty_conv image_iff) metis
  then have "count_of (ci_id z) ys = 0" by (simp add: count_of_def)
  with Cons show ?case by (auto simp: count_of_def)
qed simp

lemma count_pairs:
  assumes "\<And>i l. (i, l) \<in> set ps \<Longrightarrow> js_seq i i" "distinct (map ci_id ys)"
  shows "count_of k (foldl (\<lambda>zs (i, l). count_in i l zs) ys ps) = count_of k ys + count (mset (map fst ps)) k
    \<and> distinct (map ci_id (foldl (\<lambda>zs (i, l). count_in i l zs) ys ps))
    \<and> ci_id ` set (foldl (\<lambda>zs (i, l). count_in i l zs) ys ps) = ci_id ` set ys \<union> fst ` set ps"
  using assms
proof (induction ps arbitrary: ys)
  case (Cons p ps)
  obtain i l where p: "p = (i, l)" by (cases p)
  have i: "js_seq i i" using Cons.prems(1) [of i l] p by simp
  note step = count_in_count [OF i] count_in_ids [OF i]
  have "distinct (map ci_id (count_in i l ys))" using Cons.prems(2) by (simp add: step(2))
  then have dist: "distinct (map ci_id (count_in i l ys))" .
  have ids: "ci_id ` set (count_in i l ys) = insert i (ci_id ` set ys)"
    using arg_cong [OF step(2) [of l ys], of set] by (simp split: if_splits) (auto simp: insert_absorb)
  have "\<And>i l. (i, l) \<in> set ps \<Longrightarrow> js_seq i i" using Cons.prems(1) by auto
  from Cons.IH [OF this dist] show ?case by (simp add: p step(1) ids)
qed simp

lemma group_by_type:
  "list_all (\<lambda>x. \<not> nullish x) xs \<Longrightarrow> groupListByType (JArr xs) idField labelField
     = Inr (foldl (\<lambda>zs (i, l). count_in i l zs) [] (map (\<lambda>x. (jget x idField, jget x labelField)) xs))"
proof -
  assume "list_all (\<lambda>x. \<not> nullish x) xs"
  then have "foldl (\<lambda>m x. js_bind m (\<lambda>ys. js_bind (jprop x idField) (\<lambda>i. Inr (count_in i (jget x labelField) ys)))) (Inr ys) xs
      = Inr (foldl (\<lambda>zs (i, l). count_in i l zs) ys (map (\<lambda>x. (jget x idField, jget x labelField)) xs))" for ys
    by (induction xs arbitrary: ys) (simp_all add: jprop_def)
  then show ?thesis by (simp add: groupListByType_def)
qed

text \<open>
  Grouping the elements of a list by a field gives each value of the field once, with the number of the
  elements that have it.
\<close>

theorem grouped_counts_exact:
  assumes "list_all (\<lambda>x. \<not> nullish x) xs" "\<And>x. x \<in> set xs \<Longrightarrow> js_seq (jget x idField) (jget x idField)"
  shows "\<exists>ys. groupListByType (JArr xs) idField labelField = Inr ys \<and> distinct (map ci_id ys)
    \<and> ci_id ` set ys = (\<lambda>x. jget x idField) ` set xs
    \<and> (\<forall>y\<in>set ys. ci_count y = length (filter (\<lambda>x. jget x idField = ci_id y) xs))"
proof -
  let ?ps = "map (\<lambda>x. (jget x idField, jget x labelField)) xs"
  define ys where "ys = foldl (\<lambda>zs (i, l). count_in i l zs) [] ?ps"
  have "\<And>i l. (i, l) \<in> set ?ps \<Longrightarrow> js_seq i i" using assms(2) by auto
  then have all: "count_of k ys = count (mset (map fst ?ps)) k \<and> distinct (map ci_id ys) \<and> ci_id ` set ys = fst ` set ?ps" for k
    using count_pairs [of ?ps "[]" k] by (simp add: ys_def count_of_def)
  have "count (mset (map fst ?ps)) k = length (filter (\<lambda>x. jget x idField = k) xs)" for k
    by (induction xs) simp_all
  then have "count_of k ys = length (filter (\<lambda>x. jget x idField = k) xs)" for k using all [of k] by simp
  then have "\<forall>y\<in>set ys. ci_count y = length (filter (\<lambda>x. jget x idField = ci_id y) xs)"
    using all [of undefined] count_of_member [of ys] by (metis (no_types))
  moreover have "fst ` set ?ps = (\<lambda>x. jget x idField) ` set xs" by (simp add: image_image)
  moreover have "groupListByType (JArr xs) idField labelField = Inr ys" unfolding ys_def by (rule group_by_type [OF assms(1)])
  ultimately show ?thesis using all by (intro exI [of _ ys]) simp
qed

section \<open>The filters of the documents of a dataset\<close>

text \<open>Checking a box and unchecking it again gives what was chosen before.\<close>

theorem check_then_uncheck:
  "i \<notin> set xs \<Longrightarrow> handleCheckChange False i (handleCheckChange True i (Chosen xs)) = Chosen xs"
  "handleCheckChange True i (Chosen xs) = Chosen ys \<Longrightarrow> set ys = insert i (set xs)"
  by (auto simp: handleCheckChange_def chosen_ids_def filter_id_conv)

text \<open>
  What is offered for the documents: the suffixes, the statuses, the values of the metadata fields, and the
  entry for missing metadata when there are counts for it; the number of a field is the sum over its values.
\<close>

lemma file_type_ids: "concat (map getFilterIds (map (\<lambda>(x, n). Filter_Item x (g x) None None [] (h n)) ps)) = map fst ps"
  by (induction ps) auto

lemma metadata_item_ids: "getFilterIds (metadata_item p) = map fst (snd p)"
proof -
  have "concat (map getFilterIds (map (\<lambda>(y, n). Filter_Item y y None (Some y) [y] (Some n)) ps)) = map fst ps"
    for ps :: "(string \<times> int) list" by (induction ps) auto
  then show ?thesis by (simp add: metadata_item_def)
qed

theorem offered_document_filters:
  "dc_suffix d = Some ss \<Longrightarrow> dc_run_status d = Some rs \<Longrightarrow> dc_metadata d = Some ms \<Longrightarrow>
   offered_ids (dataset_filters up t d)
     = map fst ss @ map fst rs @ (if ''empty_metadata'' \<in> fst ` set ms then [''empty_metadata''] else [])
       @ concat (map (\<lambda>(m, vs). map fst vs) (filter (\<lambda>(m, vs). m \<noteq> ''empty_metadata'') ms))"
proof -
  have sum: "somes_of (map Some xs @ ys) = xs @ somes_of ys" for xs :: "string list" and ys
    by (induction xs) (simp_all add: somes_of_def)
  have "concat (map getFilterIds (map metadata_item qs)) = concat (map (\<lambda>(m, vs). map fst vs) qs)" for qs
    by (induction qs) (auto simp: metadata_item_ids)
  moreover have "map_of ms ''empty_metadata'' = None \<longleftrightarrow> ''empty_metadata'' \<notin> fst ` set ms" by (simp add: map_of_eq_None_iff)
  moreover assume "dc_suffix d = Some ss" "dc_run_status d = Some rs" "dc_metadata d = Some ms"
  ultimately show ?thesis
    using sum [of _ "[]"]
    by (auto simp: offered_ids_def dataset_filters_def collection_ids_def suffix_items_def status_items_def metadata_list_def
        file_type_ids sum somes_of_def [of "[]"] simp del: map_map split: option.splits)
qed

theorem metadata_field_count: "fi_count (metadata_item (m, vs)) = Some (sum_list (map snd vs))"
proof -
  have "foldl (\<lambda>acc (y, n). acc + n) a vs = a + sum_list (map snd vs)" for a :: int
    by (induction vs arbitrary: a) auto
  then show ?thesis by (simp add: metadata_item_def)
qed

text \<open>
  A choice of statuses that the offered filters were checked against, no id being offered twice, is sent
  without the entry for missing metadata, which is sent as the flag.
\<close>

theorem checked_run_is_sent:
  assumes "wf_values (fs_value s)" "concat (map collection_ids fs) \<noteq> []" "distinct (offered_ids fs)"
    and "chosen_at [''run''] (fs_value (checkValue fs s)) = Some xs"
  shows "run_request (map_of (fs_value (checkValue fs s)) ''run'')
    = (Some (Chosen (filter (\<lambda>x. x \<noteq> ''empty_metadata'') xs)), ''empty_metadata'' \<in> set xs)"
proof -
  have run: "map_of (fs_value (checkValue fs s)) ''run'' = Some (Chosen xs)"
    using assms(4) by (simp split: option.splits filter_value.splits)
  have "chosen_at [''run''] (fs_value (checkValue fs s))
      = map_option (\<lambda>xs. filter (\<lambda>i. i \<in> set xs) (offered_ids fs)) (chosen_at [''run''] (fs_value s))"
    using assms(1) by (simp only: checkValue_merges [OF assms(2)] filter_session.select_convs
        filter_session.update_convs filter_session.surjective) (simp add: chosen_at_merged del: chosen_at.simps)
  with assms(3,4) have "distinct xs" by (auto simp del: chosen_at.simps)
  then have "remove1 ''empty_metadata'' xs = filter (\<lambda>x. x \<noteq> ''empty_metadata'') xs"
    by (simp add: distinct_remove1_removeAll removeAll_filter_not_eq) (metis (mono_tags) filter_cong)
  with run show ?thesis by (simp add: run_request_def)
qed

end
