(* ===== verification/Dsl_Export.thy ===== *)
theory Dsl_Export
  imports Dsl_Build Dsl_Proofs Operator_Forms_Proofs
begin

text \<open>
  The export of an agent to a file and the import of such a file (\<open>pages/agent/hooks/use-export-json.ts\<close>,
  \<open>pages/agents/use-import-json.ts\<close>, \<open>pages/agents/hooks/use-create-agent.ts\<close>). \<open>cdw\<close> is lodash's
  \<open>cloneDeepWith\<close>. The text of the file is not modelled: what is written is what is read, as JSON values are.
  A node and an edge have no component name, so of a graph only the forms of the nodes can hold one.
\<close>

section \<open>Export\<close>

definition keyed_operators :: "string list" where
  "keyed_operators = [op_str OpTavilySearch, op_str OpTavilyExtract, op_str OpGoogle]"

definition named_keyed :: "jsv \<Rightarrow> bool" where
  "named_keyed v = (jget v ''component_name'' \<in> JStr ` set keyed_operators)"

definition api_key_of :: "jsv \<Rightarrow> jsv" where
  "api_key_of v = jget (jget v ''params'') ''api_key''"

text \<open>The callback of the clone: the value that is taken instead, if any.\<close>

definition clear_key :: "jsv \<Rightarrow> jsv option" where
  "clear_key v =
     (case v of
        JObj ps \<Rightarrow>
          if named_keyed v \<and> truthy (api_key_of v)
          then Some (js_object [Spread v, Prop ''params'' (js_object [Spread (jget v ''params''), Prop ''api_key'' (JStr [])])])
          else None
      | _ \<Rightarrow> None)"

type_synonym clone_fn = "(jsv \<Rightarrow> jsv option) \<Rightarrow> jsv \<Rightarrow> jsv"

definition clearSensitiveFields :: "clone_fn \<Rightarrow> jsv \<Rightarrow> jsv" where
  "clearSensitiveFields cdw v = cdw clear_key v"

definition EmptyDsl_globals :: jsv where
  "EmptyDsl_globals =
     JObj [(''sys.query'', JStr []), (''sys.user_id'', JStr []), (''sys.conversation_turns'', JInt 0),
       (''sys.files'', JArr []), (''sys.history'', JArr []), (''sys.date'', JStr [])]"

record exported =
  ex_nodes :: "agent_node list"
  ex_edges :: "edge list"
  ex_globals :: jsv
  ex_variables :: jsv

definition clear_node :: "clone_fn \<Rightarrow> agent_node \<Rightarrow> agent_node" where
  "clear_node cdw n = n\<lparr>ndata := (ndata n)\<lparr>form := clearSensitiveFields cdw (node_form n)\<rparr>\<rparr>"

definition handleExportJson ::
  "omit_fn \<Rightarrow> empty_fn \<Rightarrow> clone_fn \<Rightarrow> rf_state \<Rightarrow> jsv \<Rightarrow> exported run" where
  "handleExportJson om emp cdw s dsl =
     run_bind (buildDslData om emp s dsl None JUndef) (\<lambda>d.
       Some (Inr \<lparr>ex_nodes = map (clear_node cdw) (dd_nodes d), ex_edges = dd_edges d,
         ex_globals = js_object [Spread (clearSensitiveFields cdw (jget (JObj (dd_globals d)) ''globals'')), Spread EmptyDsl_globals],
         ex_variables = clearSensitiveFields cdw (jget (JObj (dd_globals d)) ''variables'')\<rparr>))"

section \<open>Import\<close>

text \<open>
  A file that was read: the graph, under \<open>graph\<close> or, in older files, the whole file, with its nodes and edges as
  far as they are lists, and the other members; \<open>None\<close> for a text that is no JSON or is empty.
\<close>

record import_file =
  if_nodes :: "agent_node list option"
  if_edges :: "edge list option"
  if_globals :: jsv
  if_variables :: jsv
  if_components :: jsv

text \<open>Of a DSL, retrieval, history and path are always empty.\<close>

record agent_request =
  ar_title :: string
  ar_nodes :: "agent_node list option"
  ar_edges :: "edge list option"
  ar_globals :: jsv
  ar_variables :: jsv
  ar_components :: jsv
  ar_category :: string

datatype import_result = Wrong_Type | Wrong_Content | Sent agent_request

definition hasNode :: "agent_node list \<Rightarrow> operator \<Rightarrow> bool" where
  "hasNode nodes p = list_ex (\<lambda>x. node_label x = op_str p) nodes"

definition empty_component :: "string \<Rightarrow> jsv" where
  "empty_component nm =
     JObj [(''obj'', JObj [(''component_name'', JStr nm), (''params'', JObj [])]), (''downstream'', JArr []), (''upstream'', JArr [])]"

definition is_agent_file :: "import_file \<Rightarrow> bool" where
  "is_agent_file f =
     (case if_nodes f of None \<Rightarrow> True | Some ns \<Rightarrow> \<not> (hasNode ns OpFile \<and> hasNode ns OpParser))"

text \<open>The components an empty DSL has, for an agent and for a data flow.\<close>

definition empty_components :: "bool \<Rightarrow> jsv" where
  "empty_components isAgent =
     (if isAgent then JObj [(''begin'', empty_component ''Begin'')] else JObj [(''File'', empty_component ''File'')])"

definition import_graph :: "omit_fn \<Rightarrow> empty_fn \<Rightarrow> string \<Rightarrow> import_file \<Rightarrow> agent_request run" where
  "import_graph om emp nm f =
     (let isAgent = is_agent_file f; old = js_coalesce (if_components f) (empty_components isAgent) in
      run_bind
        (case (if_nodes f, if_edges f) of
           (Some ns, Some es) \<Rightarrow> run_bind (buildDslComponentsByGraph om emp ns es old) (\<lambda>cs. Some (Inr (JObj cs)))
         | _ \<Rightarrow> Some (Inr (empty_components isAgent)))
        (\<lambda>cs. Some (Inr \<lparr>ar_title = nm, ar_nodes = if_nodes f, ar_edges = if_edges f,
           ar_globals = (if truthy (if_globals f) then if_globals f else if isAgent then EmptyDsl_globals else JObj []),
           ar_variables = (if truthy (if_variables f) then if_variables f else JArr []),
           ar_components = cs, ar_category = (if isAgent then ''agent_canvas'' else ''dataflow_canvas'')\<rparr>)))"

text \<open>
  An error is caught and shown; a recursion without an end runs out of stack, which is an error that is caught,
  too.
\<close>

definition onFileUploadOk ::
  "omit_fn \<Rightarrow> empty_fn \<Rightarrow> string \<Rightarrow> string \<Rightarrow> import_file option \<Rightarrow> import_result" where
  "onFileUploadOk om emp nm mime f =
     (if mime \<noteq> ''application/json'' then Wrong_Type
      else case f of None \<Rightarrow> Wrong_Content
        | Some f \<Rightarrow> (case import_graph om emp nm f of Some (Inr r) \<Rightarrow> Sent r | _ \<Rightarrow> Wrong_Content))"

section \<open>Keys\<close>

definition clone_laws :: "clone_fn \<Rightarrow> bool" where
  "clone_laws cdw \<longleftrightarrow> (\<forall>c v. cdw c v =
     (case c v of Some w \<Rightarrow> w
      | None \<Rightarrow> (case v of JArr xs \<Rightarrow> JArr (map (cdw c) xs) | JObj ps \<Rightarrow> JObj (map (\<lambda>(k, x). (k, cdw c x)) ps) | _ \<Rightarrow> v)))"

function clone_ref :: clone_fn where
  "clone_ref c v =
     (case c v of Some w \<Rightarrow> w
      | None \<Rightarrow> (case v of JArr xs \<Rightarrow> JArr (map (\<lambda>x. clone_ref c x) xs)
                         | JObj ps \<Rightarrow> JObj (map (\<lambda>p. (fst p, clone_ref c (snd p))) ps) | _ \<Rightarrow> v))"
  by pat_completeness auto

lemma size_member: "(k, x) \<in> set ps \<Longrightarrow> size x < Suc (size_list (size_prod (\<lambda>k. 0) size) ps)"
  by (induction ps) auto

termination clone_ref
  by (relation "measure (\<lambda>(c, v). size v)") (auto simp: less_Suc_eq_le size_list_estimation' dest: size_member)

declare clone_ref.simps [simp del]

lemma clone_ref_laws: "clone_laws clone_ref"
  unfolding clone_laws_def
  by (subst clone_ref.simps) (auto split: option.splits jsv.splits simp: case_prod_beta)

lemma clone_eq:
  "clone_laws cdw \<Longrightarrow> cdw c v = (case c v of Some w \<Rightarrow> w
      | None \<Rightarrow> (case v of JArr xs \<Rightarrow> JArr (map (cdw c) xs) | JObj ps \<Rightarrow> JObj (map (\<lambda>(k, x). (k, cdw c x)) ps) | _ \<Rightarrow> v))"
  by (simp add: clone_laws_def)

lemma clone_leaf:
  assumes "clone_laws cdw"
  shows "cdw clear_key JUndef = JUndef" "cdw clear_key JNull = JNull" "cdw clear_key (JBool b) = JBool b"
    "cdw clear_key (JNum n) = JNum n" "cdw clear_key (JStr t) = JStr t"
    "cdw clear_key (JArr xs) = JArr (map (cdw clear_key) xs)"
  by (subst clone_eq [OF assms]; simp add: clear_key_def)+

lemma clone_kept_obj:
  "clone_laws cdw \<Longrightarrow> clear_key (JObj ps) = None \<Longrightarrow> cdw clear_key (JObj ps) = JObj (map (\<lambda>(k, x). (k, cdw clear_key x)) ps)"
  by (subst clone_eq) simp_all

lemma clone_cleared_obj:
  "clone_laws cdw \<Longrightarrow> clear_key (JObj ps) = Some w \<Longrightarrow> cdw clear_key (JObj ps) = w"
  by (subst clone_eq) simp_all

lemma clear_key_obj: "clear_key v = Some w \<Longrightarrow> \<exists>ps. w = JObj ps"
  by (auto simp: clear_key_def js_object_def split: jsv.splits if_splits)

lemma clone_is_object: "clone_laws cdw \<Longrightarrow> \<exists>qs. cdw clear_key (JObj ps) = JObj qs"
  using clone_kept_obj clone_cleared_obj clear_key_obj by (cases "clear_key (JObj ps)") fastforce+

text \<open>The clone has the truth of the value, and of an object the members are cloned unless it was replaced.\<close>

lemma clone_truthy: "clone_laws cdw \<Longrightarrow> truthy (cdw clear_key v) = truthy v"
proof (cases v)
  case (JObj ps)
  assume "clone_laws cdw"
  from clone_is_object [OF this, of ps] show ?thesis using JObj by auto
qed (simp_all add: clone_leaf)

lemma jget_map: "jget (JObj (map (\<lambda>(k, x). (k, f x)) ps)) k = (case map_of ps k of None \<Rightarrow> JUndef | Some x \<Rightarrow> f x)"
  by (induction ps) auto

lemma jget_clone:
  assumes "clone_laws cdw" "clear_key (JObj ps) = None"
  shows "jget (cdw clear_key (JObj ps)) k = cdw clear_key (jget (JObj ps) k)"
  unfolding clone_kept_obj [OF assms] jget_map
  by (simp add: clone_leaf [OF assms(1)] split: option.splits)

text \<open>All objects inside a value have distinct keys, as objects have.\<close>

fun deep_wf :: "jsv \<Rightarrow> bool" where
  "deep_wf (JArr xs) = list_all deep_wf xs"
| "deep_wf (JObj ps) = (wf_obj ps \<and> list_all (\<lambda>(k, x). deep_wf x) ps)"
| "deep_wf _ = True"

text \<open>No object outside of those with a key of their own has a key.\<close>

fun keyless :: "jsv \<Rightarrow> bool" where
  "keyless (JArr xs) = list_all keyless xs"
| "keyless (JObj ps) =
     (if named_keyed (JObj ps) then \<not> truthy (api_key_of (JObj ps)) else list_all (\<lambda>(k, x). keyless x) ps)"
| "keyless _ = True"

lemma deep_wf_get: "deep_wf (JObj ps) \<Longrightarrow> deep_wf (jget (JObj ps) k)"
  by (auto simp: list_all_iff dest: map_of_SomeD split: option.splits)

lemma api_key_clone:
  assumes laws: "clone_laws cdw" and v: "deep_wf v"
  shows "truthy (jget (cdw clear_key v) ''api_key'') = truthy (jget v ''api_key'')"
proof (cases v)
  case (JObj ps)
  show ?thesis
  proof (cases "clear_key (JObj ps)")
    case None
    then show ?thesis by (simp only: JObj jget_clone [OF laws None] clone_truthy [OF laws])
  next
    case (Some w)
    then have "w = js_object [Spread (JObj ps), Prop ''params'' (js_object [Spread (jget (JObj ps) ''params''), Prop ''api_key'' (JStr [])])]"
      by (simp add: clear_key_def split: if_splits)
    with Some v JObj show ?thesis by (simp only: clone_cleared_obj [OF laws Some] jget_spread_prop deep_wf.simps) simp
  qed
next
  case (JArr xs)
  then show ?thesis by (simp add: clone_leaf [OF laws] is_index_key_def digit_def)
qed (simp_all add: clone_leaf [OF laws])

lemma component_clone:
  assumes "clone_laws cdw" "clear_key (JObj ps) = None"
  shows "named_keyed (cdw clear_key (JObj ps)) = named_keyed (JObj ps)"
proof -
  have "cdw clear_key v = JStr t \<longleftrightarrow> v = JStr t" for v t
  proof (cases v)
    case (JObj qs)
    then show ?thesis using clone_is_object [OF assms(1), of qs] by auto
  qed (simp_all add: clone_leaf [OF assms(1)])
  then show ?thesis by (auto simp: named_keyed_def jget_clone [OF assms] image_iff simp del: jget.simps)
qed

text \<open>Objects with a key are replaced by ones without, and in what is not replaced nothing is left.\<close>

lemma clone_keyless:
  assumes laws: "clone_laws cdw"
  shows "deep_wf v \<Longrightarrow> keyless (cdw clear_key v)"
proof (induction v)
  case (JArr xs)
  then show ?case by (simp add: clone_leaf [OF laws] list_all_iff)
next
  case (JObj ps)
  show ?case
  proof (cases "clear_key (JObj ps)")
    case None
    have key: "named_keyed (JObj ps) \<Longrightarrow> \<not> truthy (api_key_of (JObj ps))" using None by (simp add: clear_key_def split: if_splits)
    have "truthy (api_key_of (cdw clear_key (JObj ps))) = truthy (api_key_of (JObj ps))"
      using api_key_clone [OF laws deep_wf_get [OF JObj.prems, of "''params''"]]
      by (simp only: api_key_of_def jget_clone [OF laws None])
    moreover have "list_all (\<lambda>(k, x). keyless x) (map (\<lambda>(k, x). (k, cdw clear_key x)) ps)"
      using JObj by (fastforce simp: list_all_iff)
    ultimately show ?thesis
      using key component_clone [OF laws None] by (simp add: clone_kept_obj [OF laws None])
  next
    case (Some w)
    then have w: "w = js_object [Spread (JObj ps), Prop ''params'' (js_object [Spread (jget (JObj ps) ''params''), Prop ''api_key'' (JStr [])])]"
      and nm: "named_keyed (JObj ps)" and t: "truthy (api_key_of (JObj ps))"
      by (simp_all add: clear_key_def split: if_splits)
    have wf: "wf_obj ps" using JObj.prems by simp
    obtain qs where qs: "w = JObj qs" using clear_key_obj [OF Some] by blast
    have "named_keyed w" using nm by (simp only: w named_keyed_def jget_spread_prop [OF wf]) simp
    moreover have "api_key_of w = JStr []"
    proof -
      obtain rs where rs: "jget (JObj ps) ''params'' = JObj rs \<or> \<not> (\<exists>rs. jget (JObj ps) ''params'' = JObj rs)" by blast
      have "jget (js_object [Spread (jget (JObj ps) ''params''), Prop ''api_key'' (JStr [])]) ''api_key'' = JStr []"
        by (simp add: js_object_def obj_of_def obj_assign_def)
      then show ?thesis by (simp only: w api_key_of_def jget_spread_prop [OF wf]) simp
    qed
    ultimately show ?thesis using qs by (simp add: clone_cleared_obj [OF laws Some])
  qed
qed (simp_all add: clone_leaf [OF laws])

text \<open>A value in which no object has a key is cloned as it is.\<close>

fun no_keys :: "jsv \<Rightarrow> bool" where
  "no_keys (JArr xs) = list_all no_keys xs"
| "no_keys (JObj ps) =
     (\<not> (named_keyed (JObj ps) \<and> truthy (api_key_of (JObj ps))) \<and> list_all (\<lambda>(k, x). no_keys x) ps)"
| "no_keys _ = True"

lemma clone_same:
  assumes laws: "clone_laws cdw"
  shows "no_keys v \<Longrightarrow> cdw clear_key v = v"
proof (induction v)
  case (JArr xs)
  then show ?case by (simp add: clone_leaf [OF laws] list_all_iff map_idI)
next
  case (JObj ps)
  have "clear_key (JObj ps) = None" using JObj.prems by (simp add: clear_key_def)
  moreover have "map (\<lambda>(k, x). (k, cdw clear_key x)) ps = ps"
    using JObj by (intro map_idI) (fastforce simp: list_all_iff)
  ultimately show ?case by (simp add: clone_kept_obj [OF laws])
qed (simp_all add: clone_leaf [OF laws])

section \<open>What is exported\<close>

lemma exported_parts:
  assumes "handleExportJson om emp cdw s dsl = Some (Inr f)"
  shows "\<exists>d. buildDslData om emp s dsl None JUndef = Some (Inr d)
    \<and> ex_nodes f = map (clear_node cdw) (real_nodes (st_nodes s)) \<and> ex_edges f = real_edges (st_nodes s) (st_edges s)
    \<and> dd_nodes d = real_nodes (st_nodes s) \<and> dd_edges d = real_edges (st_nodes s) (st_edges s)
    \<and> buildDslComponentsByGraph om emp (dd_nodes d) (dd_edges d) (jget dsl ''components'') = Some (Inr (dd_components d))
    \<and> ex_globals f = js_object [Spread (clearSensitiveFields cdw (jget dsl ''globals'')), Spread EmptyDsl_globals]
    \<and> ex_variables f = clearSensitiveFields cdw (js_or (jget dsl ''variables'') (JObj []))"
proof -
  obtain d where d: "buildDslData om emp s dsl None JUndef = Some (Inr d)"
    using assms by (cases "buildDslData om emp s dsl None JUndef" rule: option.exhaust) (auto simp: handleExportJson_def run_bind_def split: option.splits sum.splits)
  obtain cs where cs: "buildDslComponentsByGraph om emp (real_nodes (st_nodes s)) (real_edges (st_nodes s) (st_edges s)) (jget dsl ''components'') = Some (Inr cs)"
    using d by (auto simp: buildDslData_def Let_def run_bind_def split: option.splits sum.splits)
  have g: "buildDslGlobalVariables dsl JUndef = Inr [(''globals'', jget dsl ''globals''), (''variables'', js_or (jget dsl ''variables'') (JObj []))]"
    by (simp add: buildDslGlobalVariables_def)
  have "d = \<lparr>dd_rest = props_of dsl, dd_globals = [(''globals'', jget dsl ''globals''), (''variables'', js_or (jget dsl ''variables'') (JObj []))],
      dd_nodes = real_nodes (st_nodes s), dd_edges = real_edges (st_nodes s) (st_edges s), dd_components = cs\<rparr>"
    using d by (simp add: buildDslData_def Let_def cs g)
  then show ?thesis using d cs assms by (auto simp: handleExportJson_def)
qed

text \<open>
  An exported file has no key of a web search in the tools of an agent, at any depth of any form; nodes and
  edges are those of the saved graph, and the forms are as they are but for these keys.
\<close>

theorem exported_tools_have_no_key:
  assumes "clone_laws cdw" "handleExportJson om emp cdw s dsl = Some (Inr f)"
    and "\<forall>n\<in>set (st_nodes s). deep_wf (node_form n)"
  shows "(\<forall>n\<in>set (ex_nodes f). keyless (node_form n))
    \<and> map nid (ex_nodes f) = map nid (real_nodes (st_nodes s)) \<and> ex_edges f = real_edges (st_nodes s) (st_edges s)
    \<and> (\<forall>n\<in>set (real_nodes (st_nodes s)). no_keys (node_form n) \<longrightarrow> n \<in> set (ex_nodes f))"
proof -
  from exported_parts [OF assms(2)] have f: "ex_nodes f = map (clear_node cdw) (real_nodes (st_nodes s))"
    "ex_edges f = real_edges (st_nodes s) (st_edges s)" by auto
  have "keyless (node_form (clear_node cdw n))" if "n \<in> set (real_nodes (st_nodes s))" for n
    using clone_keyless [OF assms(1)] assms(3) that by (simp add: clear_node_def clearSensitiveFields_def real_nodes_def)
  moreover have "nid (clear_node cdw n) = nid n" for n by (simp add: clear_node_def)
  moreover have "clear_node cdw n = n" if "no_keys (node_form n)" for n
    using clone_same [OF assms(1) that] by (simp add: clear_node_def clearSensitiveFields_def)
  ultimately show ?thesis by (force simp: f)
qed

text \<open>
  But an operator of the canvas has its key in its own form, which has no component name: such a key is in the
  exported file.
\<close>

theorem operator_key_is_exported:
  assumes "clone_laws cdw" "handleExportJson om emp cdw s dsl = Some (Inr f)"
    and "n \<in> set (real_nodes (st_nodes s))" "node_form n = JObj ps" "jget (node_form n) ''component_name'' = JUndef"
    and "jget (node_form n) ''api_key'' = JStr key"
  shows "\<exists>n'\<in>set (ex_nodes f). nid n' = nid n \<and> node_label n' = node_label n \<and> jget (node_form n') ''api_key'' = JStr key"
proof -
  have "\<not> named_keyed (JObj ps)" using assms(4,5) by (auto simp: named_keyed_def)
  then have "clear_key (JObj ps) = None" by (simp add: clear_key_def)
  then have "jget (cdw clear_key (node_form n)) ''api_key'' = JStr key"
    unfolding assms(4) by (simp only: jget_clone [OF assms(1)] assms(6) [unfolded assms(4)] clone_leaf [OF assms(1)])
  moreover have "clear_node cdw n \<in> set (ex_nodes f)" using exported_parts [OF assms(2)] assms(3) by auto
  ultimately show ?thesis
    by (intro bexI [of _ "clear_node cdw n"]) (simp_all add: clear_node_def clearSensitiveFields_def del: jget.simps)
qed

section \<open>What is imported again\<close>

definition file_of :: "exported \<Rightarrow> import_file" where
  "file_of f =
     \<lparr>if_nodes = Some (ex_nodes f), if_edges = Some (ex_edges f), if_globals = ex_globals f,
      if_variables = ex_variables f, if_components = JUndef\<rparr>"

lemma jget_two_spreads:
  assumes "wf_obj ps" "wf_obj qs"
  shows "jget (js_object [Spread (JObj ps), Spread (JObj qs)]) k
    = (if k \<in> fst ` set qs then jget (JObj qs) k else jget (JObj ps) k)"
proof -
  have "k \<in> fst ` set qs \<longleftrightarrow> map_of qs k \<noteq> None" by (simp add: map_of_eq_None_iff)
  with assms show ?thesis
    by (cases "map_of qs k") (simp_all add: js_object_def obj_of_def obj_assign_append map_of_obj_assign map_add_def)
qed

lemma truthy_spread: "truthy (js_object parts)"
  by (simp add: js_object_def)


text \<open>A data flow from which the parser was deleted is imported as an agent.\<close>

theorem dataflow_without_parser_is_agent:
  assumes "if_nodes g = Some ns" "\<not> hasNode ns OpParser" "onFileUploadOk om emp nm ''application/json'' (Some g) = Sent r"
  shows "ar_category r = ''agent_canvas''"
  using assms by (auto simp: onFileUploadOk_def import_graph_def Let_def is_agent_file_def run_bind_def
      split: option.splits sum.splits)

section \<open>An agent that is exported and imported\<close>

definition saved_dsl :: jsv where
  "saved_dsl = JObj [(''globals'', JObj [(''sys.query'', JStr ''q''), (''env.k'', JInt 1)])]"

lemma begin_message_components:
  "\<exists>cs. buildDslComponentsByGraph omit_ref (\<lambda>_. False) begin_message [mk_edge ''e'' ''b'' ''m'' ''start''] old = Some (Inr cs)"
  by (simp add: buildDslComponentsByGraph_def begin_message_def mk_defs in_dsl_def ExcludeOperators_def
      is_op_def isBottomSubAgent_def operator_params_def op_of_op_str [of OpBegin, simplified]
      op_of_op_str [of OpMessage, simplified] transformBeginParams_def js_coalesce_def nullish_def)

definition saved_state :: rf_state where
  "saved_state = mk_state begin_message [mk_edge ''e'' ''b'' ''m'' ''start'']"

lemma saved_state_graph:
  "real_nodes (st_nodes saved_state) = begin_message"
  "real_edges (st_nodes saved_state) (st_edges saved_state) = [mk_edge ''e'' ''b'' ''m'' ''start'']"
  "n \<in> set (st_nodes saved_state) \<Longrightarrow> no_keys (node_form n)" "n \<in> set begin_message \<Longrightarrow> no_keys (node_form n)"
  by (auto simp: saved_state_def begin_message_def mk_defs real_nodes_def real_edges_def is_placeholder_def is_op_def named_keyed_def)


end
