(* ===== verification/Pipeline_Result.thy ===== *)
theory Pipeline_Result
  imports Js_Json Js_String Operator_Forms_Proofs
begin

text \<open>
  The result of a data flow (\<open>pages/dataflow-result\<close>): the line of the components that ran, and the editor of
  the output of one of them, in which chunks are edited, added, chosen and removed and from which the data flow
  is run again. The editor assigns to an object that its state and a memoised value share, so it has a store:
  an address is a place in \<open>ce_heap\<close>.
\<close>

section \<open>The editor of an output\<close>

definition initialValue :: "jsv \<Rightarrow> jsv" where
  "initialValue d =
     (let params = jget (jget (jget d ''value'') ''obj'') ''params''; outputs = jget params ''outputs'';
          k = jget (jget outputs ''output_format'') ''value'' in
      if \<not> truthy outputs \<or> \<not> truthy k
      then JObj [(''key'', JStr []), (''type'', JStr []), (''value'', JArr [])]
      else let out = jget outputs (str_of k) in
           JObj [(''key'', k), (''type'', jget out ''type''), (''value'', jget out ''value''), (''params'', params)])"

record chunk_editor =
  ce_data :: jsv
  ce_heap :: "jsv list"
  ce_initial :: nat
  ce_text :: nat
  ce_selected :: "jsv list"
  ce_change :: bool

definition text_of :: "chunk_editor \<Rightarrow> jsv" where
  "text_of s = ce_heap s ! ce_text s"

definition initial_of :: "chunk_editor \<Rightarrow> jsv" where
  "initial_of s = ce_heap s ! ce_initial s"

definition open_editor :: "jsv \<Rightarrow> chunk_editor" where
  "open_editor d =
     \<lparr>ce_data = d, ce_heap = [initialValue d], ce_initial = 0, ce_text = 0, ce_selected = [], ce_change = False\<rparr>"

text \<open>New data: the memoised value is made anew and becomes the state.\<close>

definition data_changed :: "jsv \<Rightarrow> chunk_editor \<Rightarrow> chunk_editor" where
  "data_changed d s =
     s\<lparr>ce_data := d, ce_heap := ce_heap s @ [initialValue d], ce_initial := length (ce_heap s), ce_text := length (ce_heap s)\<rparr>"

definition new_text :: "jsv \<Rightarrow> chunk_editor \<Rightarrow> chunk_editor" where
  "new_text c s = s\<lparr>ce_heap := ce_heap s @ [c], ce_text := length (ce_heap s)\<rparr>"

definition handleSave_output :: "jsv \<Rightarrow> chunk_editor \<Rightarrow> chunk_editor" where
  "handleSave_output newContent s =
     (if \<not> json_same newContent (initial_of s) then (new_text newContent s)\<lparr>ce_change := True\<rparr> else s\<lparr>ce_change := False\<rparr>)"

text \<open>The field of a chunk that is edited.\<close>

definition parserKey :: "jsv \<Rightarrow> string js" where
  "parserKey c =
     (let default = (if jget c ''key'' \<in> JStr ` {''json'', ''chunks''} then ''text'' else ''undefined'') in
      if jget c ''key'' = JStr ''chunks''
      then js_bind (jprop (jget c ''params'') ''field_name'') (\<lambda>f. Inr (if truthy f then str_of f else default))
      else Inr default)"

definition edited_chunk :: "nat \<Rightarrow> string \<Rightarrow> string \<Rightarrow> jsv list \<Rightarrow> jsv list" where
  "edited_chunk activeEditIndex pk content xs =
     map (\<lambda>(index, item). if index = activeEditIndex then js_object [Spread item, Prop pk (JStr content)] else item)
       (enumerate 0 xs)"

definition save_chunk :: "nat \<Rightarrow> string \<Rightarrow> chunk_editor \<Rightarrow> chunk_editor js" where
  "save_chunk activeEditIndex content s =
     (case jget (text_of s) ''value'' of
        JArr xs \<Rightarrow> js_bind (parserKey (text_of s)) (\<lambda>pk.
          Inr (handleSave_output (js_object [Spread (text_of s), Prop ''value'' (JArr (edited_chunk activeEditIndex pk content xs))]) s))
      | _ \<Rightarrow> Inr s)"

definition save_object :: "string \<Rightarrow> chunk_editor \<Rightarrow> chunk_editor" where
  "save_object content s = handleSave_output (js_object [Spread (text_of s), Prop ''value'' (JStr content)]) s"

text \<open>Removing assigns to the object that the state is.\<close>

definition handleRemoveChunk :: "chunk_editor \<Rightarrow> chunk_editor js" where
  "handleRemoveChunk s =
     (if ce_selected s = [] then Inr s
      else case jget (text_of s) ''value'' of
        JArr xs \<Rightarrow> Inr (s\<lparr>ce_heap := (ce_heap s)[ce_text s := jset (text_of s) ''value''
            (JArr (map snd (filter (\<lambda>(index, item). JStr (nat_str index) \<notin> set (ce_selected s)) (enumerate 0 xs))))],
          ce_change := True, ce_selected := []\<rparr>)
      | _ \<Rightarrow> Inl (TypeError ''filter is not a function''))"

definition handleCheckboxClick :: "nat \<Rightarrow> bool \<Rightarrow> chunk_editor \<Rightarrow> chunk_editor" where
  "handleCheckboxClick i checked s =
     s\<lparr>ce_selected := (if checked then ce_selected s @ [JStr (nat_str i)]
                      else filter (\<lambda>x. str_of x \<noteq> nat_str i) (ce_selected s))\<rparr>"

definition selectAllChunk :: "bool \<Rightarrow> chunk_editor \<Rightarrow> chunk_editor js" where
  "selectAllChunk checked s =
     (if \<not> checked then Inr (s\<lparr>ce_selected := []\<rparr>)
      else case jget (text_of s) ''value'' of
        JArr xs \<Rightarrow> Inr (s\<lparr>ce_selected := map (\<lambda>i. JInt (int i)) [0..<length xs]\<rparr>)
      | _ \<Rightarrow> Inl (TypeError ''map is not a function''))"

definition handleCreateChunk :: "string \<Rightarrow> chunk_editor \<Rightarrow> chunk_editor js" where
  "handleCreateChunk content s =
     js_bind (case jget (text_of s) ''value'' of JArr xs \<Rightarrow> Inr xs | JStr t \<Rightarrow> Inr (map (\<lambda>c. JStr [c]) t)
              | _ \<Rightarrow> Inl (TypeError ''not iterable'')) (\<lambda>xs.
       Inr (new_text (js_object [Spread (text_of s), Prop ''value''
              (JArr (xs @ [JObj [(''text'', JStr (if content = [] then '' '' else content))]]))]) s))"

section \<open>Running again\<close>

definition handleReRunFunc :: "chunk_editor \<Rightarrow> (jsv \<times> chunk_editor) js" where
  "handleReRunFunc s =
     (let d = ce_data s; c = text_of s in
      js_bind (jprop (jget d ''value'') ''obj'') (\<lambda>obj.
        let params = jget obj ''params'' in
        Inr (js_object [Spread d, Prop ''value'' (js_object [Spread (jget d ''value''), Prop ''obj'' (js_object [Spread obj,
               Prop ''params'' (js_object [Spread (js_or params (JObj [])),
                 Prop ''outputs'' (js_object [Spread (js_or (jget params ''outputs'') (JObj [])),
                   Prop (str_of (jget c ''key'')) (JObj [(''type'', jget c ''type''), (''value'', jget c ''value'')])])])])])],
             s\<lparr>ce_change := False\<rparr>)))"

text \<open>The request: the DSL with one component replaced.\<close>

definition rerun_params :: "jsv \<Rightarrow> jsv \<Rightarrow> jsv js" where
  "rerun_params detail newData =
     js_bind (jprop (jget detail ''dsl'') ''components'') (\<lambda>components.
       let key = str_of (jget newData ''key'') in
       Inr (JObj [(''id'', jget detail ''id''),
         (''dsl'', js_object [Spread (jget detail ''dsl''),
            Prop ''components'' (js_object [Spread components, Prop key (jget newData ''value'')])]),
         (''component_id'', jget newData ''key'')]))"

section \<open>The line of components\<close>

text \<open>\<open>camel\<close> is lodash's \<open>camelCase\<close>, \<open>fmt\<close> the text of a time in seconds.\<close>

record timeline_node =
  line_id :: nat
  line_name :: string
  line_title :: jsv
  line_clickable :: "bool option"
  line_date :: string
  line_type :: string
  line_key :: string

definition node_type :: "string \<Rightarrow> string \<Rightarrow> string" where
  "node_type nm ty = (if nm \<in> {''parser'', ''tokenizer'', ''tokenChunker'', ''titleChunker''} then nm else ty)"

definition timeline_node_of ::
  "(string \<Rightarrow> string) \<Rightarrow> (jsv \<Rightarrow> string) \<Rightarrow> jsv list \<Rightarrow> string \<Rightarrow> jsv \<Rightarrow> nat \<Rightarrow> string \<Rightarrow> timeline_node js" where
  "timeline_node_of camel fmt graphNodes key obj index ty =
     js_bind (jprop obj ''component_name'') (\<lambda>component_name.
       let nm = camel (if nullish component_name then [] else str_of component_name) in
       Inr \<lparr>line_id = index, line_name = nm,
         line_title = (case find (\<lambda>x. jget x ''id'' = JStr key) graphNodes of
            None \<Rightarrow> JUndef | Some n \<Rightarrow> jget (jget n ''data'') ''name''),
         line_clickable = (if nm \<in> {''file'', ''tokenizer''} then Some False else None),
         line_date = fmt (js_or (jget (jget (jget (jget obj ''params'') ''outputs'') ''_elapsed_time'') ''value'') (JInt 0)),
         line_type = node_type nm ty, line_key = key\<rparr>)"

definition first_downstream :: "jsv \<Rightarrow> string option" where
  "first_downstream component = (case jget component ''downstream'' of JArr (x # xs) \<Rightarrow> Some (str_of x) | _ \<Rightarrow> None)"

text \<open>Following the first component downstream; \<open>None\<close> when it never ends.\<close>

partial_function (option) follow_line ::
  "(string \<Rightarrow> string) \<Rightarrow> (jsv \<Rightarrow> string) \<Rightarrow> jsv \<Rightarrow> jsv list \<Rightarrow> string \<Rightarrow> nat \<Rightarrow> string \<Rightarrow> timeline_node list js option" where
  "follow_line camel fmt comps graphNodes key index ty =
     (case js_bind (jprop (jget comps key) ''obj'') (\<lambda>obj. timeline_node_of camel fmt graphNodes key obj index ty) of
        Inl e \<Rightarrow> Some (Inl e)
      | Inr n \<Rightarrow>
          (case first_downstream (jget comps key) of
             None \<Rightarrow> Some (Inr [n])
           | Some nextKey \<Rightarrow>
               Option.bind (follow_line camel fmt comps graphNodes nextKey (index + 1) (line_type n))
                 (\<lambda>r. Some (js_bind r (\<lambda>ns. Inr (n # ns))))))"

definition timelineNodes :: "(string \<Rightarrow> string) \<Rightarrow> (jsv \<Rightarrow> string) \<Rightarrow> jsv \<Rightarrow> timeline_node list js option" where
  "timelineNodes camel fmt data =
     (let comps = jget (jget data ''dsl'') ''components'';
          graphNodes = (case jget (jget (jget data ''dsl'') ''graph'') ''nodes'' of JArr xs \<Rightarrow> xs | _ \<Rightarrow> []) in
      if \<not> truthy comps then Some (Inr []) else follow_line camel fmt comps graphNodes ''File'' 1 ''file'')"

definition currentTimeNode :: "nat \<Rightarrow> timeline_node list \<Rightarrow> timeline_node option" where
  "currentTimeNode activeStepId ns = find (\<lambda>n. line_id n = activeStepId) ns"

definition activeStep :: "nat \<Rightarrow> timeline_node list \<Rightarrow> nat" where
  "activeStep activeId ns = (case findIdx (\<lambda>n. line_id n = activeId) ns of Some i \<Rightarrow> i + 1 | None \<Rightarrow> 0)"

section \<open>Further parts of the page\<close>

definition summaryInfo :: "(string \<Rightarrow> string) \<Rightarrow> string \<Rightarrow> jsv \<Rightarrow> timeline_node option \<Rightarrow> string" where
  "summaryInfo t document_suffix comps node =
     (case node of None \<Rightarrow> [] | Some n \<Rightarrow>
       if line_type n \<noteq> ''parser'' then []
       else let setups = jget (jget (jget (jget (jget comps (line_key n)) ''obj'') ''params'') ''setups'') document_suffix in
         if \<not> truthy setups then []
         else join_with '' ''
           ((if truthy (jget setups ''parse_method'')
             then [t ''dataflowParser.parserMethod'' @ '': '' @ str_of (jget setups ''parse_method'')] else [])
            @ (if truthy (jget setups ''output_format'')
             then [t ''dataflowParser.outputFormat'' @ '': '' @ str_of (jget setups ''output_format'')] else [])))"

definition pipelineResult :: "jsv \<Rightarrow> jsv" where
  "pipelineResult data =
     (case data of
        JArr xs \<Rightarrow>
          if xs = [] then JUndef
          else (case jget (last xs) ''trace'' of
             JArr ts \<Rightarrow> if jget (last xs) ''component_id'' = JStr ''END'' \<and> ts \<noteq> [] then hd ts else JUndef
           | _ \<Rightarrow> JUndef)
      | _ \<Rightarrow> JUndef)"

section \<open>Removing, adding and changing chunks\<close>

text \<open>The state holds an address, and the chunks are a list of objects.\<close>

definition chunks_shown :: "chunk_editor \<Rightarrow> jsv list \<Rightarrow> bool" where
  "chunks_shown s xs \<longleftrightarrow> ce_text s < length (ce_heap s) \<and> ce_initial s < length (ce_heap s)
     \<and> (\<exists>ps. text_of s = JObj ps \<and> wf_obj ps) \<and> jget (text_of s) ''value'' = JArr xs"

lemma chunks_shownE:
  assumes "chunks_shown s xs"
  obtains ps where "text_of s = JObj ps" "wf_obj ps" "jget (text_of s) ''value'' = JArr xs" "ce_text s < length (ce_heap s)"
    "ce_initial s < length (ce_heap s)"
  using assms by (auto simp: chunks_shown_def)

lemma filter_enumerate_nths:
  "map snd (filter (\<lambda>(i, x). P i) (enumerate n xs)) = nths xs {i. P (n + i)}"
  by (induction xs arbitrary: n) (simp_all add: nths_Cons)

lemma replaced_value:
  assumes "wf_obj ps"
  shows "\<exists>qs. js_object [Spread (JObj ps), Prop ''value'' v] = JObj qs \<and> wf_obj qs
    \<and> jget (JObj qs) ''value'' = v \<and> (\<forall>k. k \<noteq> ''value'' \<longrightarrow> jget (JObj qs) k = jget (JObj ps) k)"
proof -
  obtain qs where "js_object [Spread (JObj ps), Prop ''value'' v] = JObj qs" "wf_obj qs" by (rule js_object_cases)
  then show ?thesis using jget_spread_prop [OF assms, of "''value''" v] by metis
qed

text \<open>
  Removing the chunks whose boxes were checked leaves the others in their order, in the state and, when the
  state still is the value the editor was opened with, in that value as well.
\<close>

theorem remove_checked_chunks:
  assumes "chunks_shown s xs" "ce_selected s \<noteq> []"
  shows "\<exists>s'. handleRemoveChunk s = Inr s' \<and> chunks_shown s' (nths xs {i. JStr (nat_str i) \<notin> set (ce_selected s)})
    \<and> ce_change s' \<and> ce_selected s' = []
    \<and> (if ce_initial s = ce_text s then initial_of s' = text_of s' else initial_of s' = initial_of s)"
proof -
  from assms(1) obtain ps where ps: "text_of s = JObj ps" "wf_obj ps" "jget (text_of s) ''value'' = JArr xs"
    "ce_text s < length (ce_heap s)" "ce_initial s < length (ce_heap s)" by (rule chunks_shownE)
  let ?ys = "nths xs {i. JStr (nat_str i) \<notin> set (ce_selected s)}"
  let ?s = "s\<lparr>ce_heap := (ce_heap s)[ce_text s := jset (text_of s) ''value'' (JArr ?ys)], ce_change := True, ce_selected := []\<rparr>"
  have "handleRemoveChunk s = Inr ?s"
    using assms(2) ps(3) filter_enumerate_nths [of "\<lambda>i. JStr (nat_str i) \<notin> set (ce_selected s)" 0 xs]
    by (simp add: handleRemoveChunk_def del: jget.simps)
  moreover have "chunks_shown ?s ?ys" using ps by (simp add: chunks_shown_def text_of_def wf_obj_put)
  moreover have "if ce_initial s = ce_text s then initial_of ?s = text_of ?s else initial_of ?s = initial_of s"
    using ps(4) by (simp add: initial_of_def text_of_def)
  ultimately show ?thesis by (intro exI [of _ ?s]) simp
qed

text \<open>
  But choosing all chunks chooses their indices as numbers and removing compares texts, so nothing is removed
  then, and the result is marked as changed.
\<close>

theorem remove_all_removes_nothing:
  assumes "chunks_shown s xs" "xs \<noteq> []"
  shows "\<exists>s'. js_bind (selectAllChunk True s) handleRemoveChunk = Inr s' \<and> chunks_shown s' xs \<and> ce_change s'"
proof -
  from assms(1) obtain ps where ps: "text_of s = JObj ps" "jget (text_of s) ''value'' = JArr xs" by (rule chunks_shownE)
  let ?s = "s\<lparr>ce_selected := map (\<lambda>i. JInt (int i)) [0..<length xs]\<rparr>"
  have sel: "selectAllChunk True s = Inr ?s" using ps(2) by (simp add: selectAllChunk_def del: jget.simps)
  have shown: "chunks_shown ?s xs" using assms(1) by (simp add: chunks_shown_def text_of_def)
  have "ce_selected ?s \<noteq> []" using assms(2) by simp
  from remove_checked_chunks [OF shown this] obtain s' where "handleRemoveChunk ?s = Inr s'" "ce_change s'"
    "chunks_shown s' (nths xs {i. JStr (nat_str i) \<notin> set (ce_selected ?s)})" by blast
  moreover have "{i. JStr (nat_str i) \<notin> set (ce_selected ?s)} = UNIV" by auto
  moreover have "nths xs UNIV = xs" by (simp add: nths_all)
  ultimately show ?thesis by (simp add: sel)
qed

text \<open>
  The value the editor was opened with loses the removed chunks as well, so leaving the text of a chunk
  unchanged afterwards takes the mark of a change away although chunks were removed.
\<close>

theorem removal_is_forgotten:
  assumes "chunks_shown s xs" "ce_initial s = ce_text s" "ce_selected s \<noteq> []" "handleRemoveChunk s = Inr s'"
    and "json_same c (text_of s')"
  shows "\<not> ce_change (handleSave_output c s') \<and> text_of (handleSave_output c s') = text_of s'"
proof -
  from remove_checked_chunks [OF assms(1,3)] assms(2,4) have "initial_of s' = text_of s'" by auto
  with assms(5) show ?thesis by (simp add: handleSave_output_def text_of_def)
qed

text \<open>A chunk that is changed back is taken for unchanged, but the changed chunk stays.\<close>

theorem change_back_keeps_change:
  assumes "\<not> json_same c (initial_of s)" "ce_initial s < length (ce_heap s)" "json_same c' (initial_of s)"
  shows "text_of (handleSave_output c' (handleSave_output c s)) = c \<and> \<not> ce_change (handleSave_output c' (handleSave_output c s))"
  using assms by (simp add: handleSave_output_def new_text_def initial_of_def text_of_def nth_append)

text \<open>Adding a chunk changes the text but not the mark, so the data flow cannot be run again for it.\<close>

theorem added_chunk_not_marked:
  assumes "chunks_shown s xs"
  shows "\<exists>s'. handleCreateChunk content s = Inr s' \<and> chunks_shown s' (xs @ [JObj [(''text'', JStr (if content = [] then '' '' else content))]])
    \<and> ce_change s' = ce_change s"
proof -
  from assms obtain ps where ps: "text_of s = JObj ps" "wf_obj ps" "jget (text_of s) ''value'' = JArr xs"
    "ce_initial s < length (ce_heap s)" by (rule chunks_shownE)
  from replaced_value [OF ps(2)] ps show ?thesis
    by (auto simp: handleCreateChunk_def new_text_def chunks_shown_def text_of_def nth_append jget_spread_prop simp del: jget.simps)
qed

text \<open>An edited chunk has the text in the field that is edited; the other chunks are as before.\<close>

theorem saved_chunk:
  assumes "chunks_shown s xs" "i < length xs" "parserKey (text_of s) = Inr pk"
    and "xs ! i = JObj qs" "wf_obj qs"
  shows "\<exists>s' c. save_chunk i content s = Inr s' \<and> s' = handleSave_output c s
    \<and> jget c ''value'' = JArr (xs[i := js_object [Spread (JObj qs), Prop pk (JStr content)]])
    \<and> jget (js_object [Spread (JObj qs), Prop pk (JStr content)]) pk = JStr content"
proof -
  from assms(1) obtain ps where ps: "text_of s = JObj ps" "wf_obj ps" "jget (text_of s) ''value'' = JArr xs" by (rule chunks_shownE)
  have "edited_chunk i pk content xs = xs[i := js_object [Spread (JObj qs), Prop pk (JStr content)]]"
    unfolding edited_chunk_def using assms(2,4)
    by (intro nth_equalityI) (auto simp: nth_enumerate_eq nth_list_update split: prod.splits)
  then have "save_chunk i content s = Inr (handleSave_output (js_object [Spread (JObj ps),
      Prop ''value'' (JArr (xs[i := js_object [Spread (JObj qs), Prop pk (JStr content)]]))]) s)"
    using ps assms(3) by (simp add: save_chunk_def del: jget.simps)
  moreover note jget_spread_prop [OF ps(2), of "''value''" _ "''value''"] jget_spread_prop [OF assms(5), of pk _ pk]
  ultimately show ?thesis by (metis (no_types))
qed

section \<open>Running again\<close>

definition has_outputs :: "jsv \<Rightarrow> props \<Rightarrow> props \<Rightarrow> props \<Rightarrow> props \<Rightarrow> props \<Rightarrow> string \<Rightarrow> bool" where
  "has_outputs d ds vs os ps outs k \<longleftrightarrow>
     d = JObj ds \<and> wf_obj ds \<and> jget (JObj ds) ''value'' = JObj vs \<and> wf_obj vs \<and> jget (JObj vs) ''obj'' = JObj os \<and> wf_obj os
     \<and> jget (JObj os) ''params'' = JObj ps \<and> wf_obj ps \<and> jget (JObj ps) ''outputs'' = JObj outs \<and> wf_obj outs
     \<and> jget (jget (JObj outs) ''output_format'') ''value'' = JStr k \<and> k \<noteq> [] \<and> k \<noteq> ''output_format''"

text \<open>What is sent, of an editor whose data has these objects.\<close>

definition sent_output :: "chunk_editor \<Rightarrow> jsv" where
  "sent_output s = JObj [(''type'', jget (text_of s) ''type''), (''value'', jget (text_of s) ''value'')]"

lemma handleReRunFunc_sends:
  assumes "has_outputs (ce_data s) ds vs os ps outs k" "jget (text_of s) ''key'' = JStr k"
  shows "handleReRunFunc s = Inr (js_object [Spread (JObj ds), Prop ''value'' (js_object [Spread (JObj vs),
      Prop ''obj'' (js_object [Spread (JObj os), Prop ''params'' (js_object [Spread (JObj ps),
        Prop ''outputs'' (js_object [Spread (JObj outs), Prop k (sent_output s)])])])])], s\<lparr>ce_change := False\<rparr>)"
proof -
  from assms(1) have h: "ce_data s = JObj ds" "jget (JObj ds) ''value'' = JObj vs" "jget (JObj vs) ''obj'' = JObj os"
    "jget (JObj os) ''params'' = JObj ps" "jget (JObj ps) ''outputs'' = JObj outs" by (auto simp: has_outputs_def)
  show ?thesis
    unfolding handleReRunFunc_def Let_def h(1) h(2) jprop_def h(3)
    by (simp add: h assms(2) nullish_def js_or_def str_of_def sent_output_def del: jget.simps)
qed

text \<open>
  C9. What is sent when the data flow is run again holds the edited output: the editor that opens the sent
  component shows the key, the type and the chunks that were edited, and the mark of a change is gone; the other
  outputs of the component are as before.
\<close>

theorem rerun_sends_edited_output:
  assumes "has_outputs (ce_data s) ds vs os ps outs k" "jget (text_of s) ''key'' = JStr k"
  shows "\<exists>d s' outs'. handleReRunFunc s = Inr (d, s') \<and> \<not> ce_change s' \<and> text_of s' = text_of s
    \<and> jget (initialValue d) ''key'' = JStr k \<and> jget (initialValue d) ''type'' = jget (text_of s) ''type''
    \<and> jget (initialValue d) ''value'' = jget (text_of s) ''value''
    \<and> jget (jget (jget (jget d ''value'') ''obj'') ''params'') ''outputs'' = outs'
    \<and> (\<forall>k'. k' \<noteq> k \<longrightarrow> jget outs' k' = jget (JObj outs) k')"
proof -
  note h = assms(1) [unfolded has_outputs_def]
  let ?o = "js_object [Spread (JObj outs), Prop k (sent_output s)]"
  let ?p = "js_object [Spread (JObj ps), Prop ''outputs'' ?o]"
  let ?v = "js_object [Spread (JObj vs), Prop ''obj'' (js_object [Spread (JObj os), Prop ''params'' ?p])]"
  let ?d = "js_object [Spread (JObj ds), Prop ''value'' ?v]"
  have params: "jget (jget (jget ?d ''value'') ''obj'') ''params'' = ?p"
    using h by (simp add: jget_spread_prop del: jget.simps)
  have outs: "jget ?p ''outputs'' = ?o" using h by (simp add: jget_spread_prop del: jget.simps)
  have at: "jget ?o k' = (if k' = k then sent_output s else jget (JObj outs) k')" for k'
    using h by (intro jget_spread_prop) blast
  have key: "jget (jget ?o ''output_format'') ''value'' = JStr k"
    using h by (auto simp: at simp del: jget.simps)
  have "truthy ?o" by (simp add: js_object_def)
  then have "initialValue ?d = JObj [(''key'', JStr k), (''type'', jget (sent_output s) ''type''),
      (''value'', jget (sent_output s) ''value''), (''params'', ?p)]"
    using h unfolding initialValue_def Let_def params outs key by (simp add: at str_of_def del: jget.simps)
  then have "jget (initialValue ?d) ''key'' = JStr k" "jget (initialValue ?d) ''type'' = jget (text_of s) ''type''"
    "jget (initialValue ?d) ''value'' = jget (text_of s) ''value''" by (simp_all add: sent_output_def)
  moreover have "\<forall>k'. k' \<noteq> k \<longrightarrow> jget ?o k' = jget (JObj outs) k'" by (simp only: at) simp
  moreover have "text_of (s\<lparr>ce_change := False\<rparr>) = text_of s" by (simp add: text_of_def)
  ultimately show ?thesis
    using handleReRunFunc_sends [OF assms] params outs
    by (intro exI [of _ ?d] exI [of _ "s\<lparr>ce_change := False\<rparr>"] exI [of _ ?o]) (simp del: jget.simps)
qed

definition sample_params :: props where
  "sample_params = [(''outputs'', JObj [(''output_format'', JObj [(''value'', JStr ''chunks'')]),
     (''chunks'', JObj [(''type'', JStr ''Array''), (''value'', JArr [JObj [(''text'', JStr ''a'')]])])])]"

definition sample_editor :: chunk_editor where
  "sample_editor = new_text (JObj [(''key'', JStr ''chunks''), (''type'', JStr ''Array''), (''value'', JArr [])])
     (open_editor (JObj [(''value'', JObj [(''obj'', JObj [(''params'', JObj sample_params)])])]))"

theorem rerun_sends_edited_output_witness:
  "\<exists>d s' outs'. handleReRunFunc sample_editor = Inr (d, s') \<and> jget (initialValue d) ''value'' = JArr []
     \<and> jget (jget (jget (jget d ''value'') ''obj'') ''params'') ''outputs'' = outs'
     \<and> jget outs' ''output_format'' = JObj [(''value'', JStr ''chunks'')]"
proof -
  let ?os = "[(''params'', JObj sample_params)]"
  have "has_outputs (ce_data sample_editor) [(''value'', JObj [(''obj'', JObj ?os)])] [(''obj'', JObj ?os)] ?os sample_params
    [(''output_format'', JObj [(''value'', JStr ''chunks'')]),
     (''chunks'', JObj [(''type'', JStr ''Array''), (''value'', JArr [JObj [(''text'', JStr ''a'')]])])] ''chunks''"
    by (simp add: has_outputs_def sample_editor_def sample_params_def open_editor_def new_text_def wf_obj_def is_index_key_def)
  from rerun_sends_edited_output [OF this] show ?thesis
    by (auto simp: sample_editor_def text_of_def new_text_def open_editor_def nth_append)
qed

section \<open>The line of components\<close>

text \<open>One step along the line, and whether the line ends.\<close>

inductive line_ends :: "jsv \<Rightarrow> string \<Rightarrow> bool" for comps where
  Last: "first_downstream (jget comps k) = None \<Longrightarrow> line_ends comps k"
| Next: "first_downstream (jget comps k) = Some k' \<Longrightarrow> line_ends comps k' \<Longrightarrow> line_ends comps k"

lemma follow_line_total: "line_ends comps k \<Longrightarrow> \<exists>r. follow_line camel fmt comps ns k i ty = Some r"
proof (induction arbitrary: i ty rule: line_ends.induct)
  case (Last k)
  then show ?case by (subst follow_line.simps) (auto split: sum.splits)
next
  case (Next k k')
  show ?case
  proof (cases "js_bind (jprop (jget comps k) ''obj'') (\<lambda>obj. timeline_node_of camel fmt ns k obj i ty)")
    case (Inl e)
    then show ?thesis by (subst follow_line.simps) (simp del: jget.simps)
  next
    case (Inr n)
    from Next.IH [of "i + 1" "line_type n"] obtain r where "follow_line camel fmt comps ns k' (i + 1) (line_type n) = Some r" by blast
    with Inr Next.hyps(1) show ?thesis by (subst follow_line.simps) (simp del: jget.simps)
  qed
qed

text \<open>What a line that was followed looks like.\<close>

fun along :: "jsv \<Rightarrow> string \<Rightarrow> nat \<Rightarrow> string \<Rightarrow> timeline_node list \<Rightarrow> bool" where
  "along comps k i ty [] = False"
| "along comps k i ty [n] \<longleftrightarrow>
     line_key n = k \<and> line_id n = i \<and> line_type n = node_type (line_name n) ty \<and> first_downstream (jget comps k) = None"
| "along comps k i ty (n # m # ns) \<longleftrightarrow> line_key n = k \<and> line_id n = i \<and> line_type n = node_type (line_name n) ty
     \<and> first_downstream (jget comps k) = Some (line_key m) \<and> along comps (line_key m) (i + 1) (node_type (line_name n) ty) (m # ns)"

lemma along_Cons:
  "along comps k' (i + 1) (node_type (line_name n) ty) ns \<Longrightarrow> first_downstream (jget comps k) = Some k'
    \<Longrightarrow> line_key n = k \<and> line_id n = i \<and> line_type n = node_type (line_name n) ty \<Longrightarrow> along comps k i ty (n # ns)"
  by (cases ns rule: remdups_adj.cases) auto

lemma along_ids: "along comps k i ty ns \<Longrightarrow> map line_id ns = [i ..< i + length ns] \<and> ns \<noteq> []"
proof (induction comps k i ty ns rule: along.induct)
  case (3 comps k i ty n m ns)
  then show ?case by (simp add: upt_conv_Cons del: upt_Suc)
qed simp_all

lemma along_ends: "along comps k i ty ns \<Longrightarrow> line_ends comps k"
proof (induction comps k i ty ns rule: along.induct)
  case (3 comps k i ty n m ns)
  then show ?case by (auto intro: line_ends.Next)
qed (auto intro: line_ends.Last)

lemma along_types:
  "along comps k i ty ns \<Longrightarrow> \<forall>j < length ns. line_type (ns ! j) = node_type (line_name (ns ! j)) (if j = 0 then ty else line_type (ns ! (j - 1)))"
proof (induction comps k i ty ns rule: along.induct)
  case (3 comps k i ty n m ns)
  then have IH: "\<forall>j < length (m # ns). line_type ((m # ns) ! j)
      = node_type (line_name ((m # ns) ! j)) (if j = 0 then line_type n else line_type ((m # ns) ! (j - 1)))" by simp
  show ?case
  proof (intro allI impI)
    fix j assume "j < length (n # m # ns)"
    then show "line_type ((n # m # ns) ! j)
        = node_type (line_name ((n # m # ns) ! j)) (if j = 0 then ty else line_type ((n # m # ns) ! (j - 1)))"
      using IH [rule_format, of "j - 1"] 3(2) by (cases j) (auto simp: nth_Cons')
  qed
qed simp_all

lemma along_keys:
  "along comps k i ty ns \<Longrightarrow> Suc j < length ns \<Longrightarrow> first_downstream (jget comps (line_key (ns ! j))) = Some (line_key (ns ! Suc j))"
proof (induction comps k i ty ns arbitrary: j rule: along.induct)
  case (3 comps k i ty n m ns)
  then show ?case by (cases j) (auto simp: nth_Cons')
qed simp_all

lemma timeline_node_of_fields:
  "js_bind (jprop x ''obj'') (\<lambda>obj. timeline_node_of camel fmt ns k obj i ty) = Inr n
    \<Longrightarrow> line_key n = k \<and> line_id n = i \<and> line_type n = node_type (line_name n) ty"
  by (auto simp: timeline_node_of_def jprop_def Let_def split: if_splits simp del: jget.simps)

lemma follow_line_along:
  assumes "follow_line camel fmt comps gs k i ty = Some r"
  shows "\<forall>ns. r = Inr ns \<longrightarrow> along comps k i ty ns"
  using assms
proof (rule follow_line.raw_induct [rotated])
  fix fl and camel :: "string \<Rightarrow> string" and fmt :: "jsv \<Rightarrow> string" and comps gs k and i :: nat and ty
    and r :: "timeline_node list js"
  assume IH: "\<And>camel fmt comps gs k i ty r. fl camel fmt comps gs k i ty = Some r \<Longrightarrow> \<forall>ns. r = Inr ns \<longrightarrow> along comps k i ty ns"
    and step: "(case js_bind (jprop (jget comps k) ''obj'') (\<lambda>obj. timeline_node_of camel fmt gs k obj i ty) of
        Inl e \<Rightarrow> Some (Inl e)
      | Inr n \<Rightarrow>
          (case first_downstream (jget comps k) of
             None \<Rightarrow> Some (Inr [n])
           | Some nextKey \<Rightarrow>
               Option.bind (fl camel fmt comps gs nextKey (i + 1) (line_type n))
                 (\<lambda>r. Some (js_bind r (\<lambda>ns. Inr (n # ns)))))) = Some r"
  show "\<forall>ns. r = Inr ns \<longrightarrow> along comps k i ty ns"
  proof (cases "js_bind (jprop (jget comps k) ''obj'') (\<lambda>obj. timeline_node_of camel fmt gs k obj i ty)")
    case (Inl e)
    with step show ?thesis by auto
  next
    case (Inr n)
    note n = timeline_node_of_fields [OF Inr]
    show ?thesis
    proof (cases "first_downstream (jget comps k)")
      case None
      with step Inr n show ?thesis by (auto simp del: jget.simps)
    next
      case (Some k')
      with step Inr obtain q where q: "fl camel fmt comps gs k' (i + 1) (line_type n) = Some q"
        "r = js_bind q (\<lambda>ns. Inr (n # ns))" by (simp add: bind_eq_Some_conv del: jget.simps) blast
      from IH [OF q(1)] Some n show ?thesis
        by (cases q) (auto simp: q(2) intro: along_Cons simp del: jget.simps)
    qed
  qed
qed

text \<open>The nodes have the numbers from 1 on, by which they are found.\<close>

lemma numbered_nodes:
  assumes "map line_id ns = [1 ..< 1 + length ns]" "i < length ns"
  shows "currentTimeNode (Suc i) ns = Some (ns ! i)" "activeStep (Suc i) ns = Suc i"
proof -
  have id: "line_id (ns ! j) = Suc j" if "j < length ns" for j
    using that nth_map [of j ns line_id] assms(1) by (simp del: upt_Suc)
  show "currentTimeNode (Suc i) ns = Some (ns ! i)"
    unfolding currentTimeNode_def find_Some_iff using assms(2) id by (intro exI [of _ i]) auto
  have "findIdx (\<lambda>n. line_id n = Suc i) ns = Some i"
  proof (cases "findIdx (\<lambda>n. line_id n = Suc i) ns")
    case None
    then have "\<forall>x \<in> set ns. line_id x \<noteq> Suc i" by (simp add: findIdx_None)
    with id [OF assms(2)] nth_mem [OF assms(2)] show ?thesis by blast
  next
    case (Some j)
    from findIdx_SomeD [OF Some] have j: "j < length ns" "line_id (ns ! j) = Suc i" by blast+
    with id [OF j(1)] Some show ?thesis by simp
  qed
  then show "activeStep (Suc i) ns = Suc i" by (simp add: activeStep_def)
qed

theorem timeline_of_a_line:
  assumes "timelineNodes camel fmt data = Some (Inr ns)" "truthy (jget (jget data ''dsl'') ''components'')"
  shows "line_ends (jget (jget data ''dsl'') ''components'') ''File'' \<and> ns \<noteq> []
    \<and> (\<forall>i < length ns. line_id (ns ! i) = Suc i \<and> currentTimeNode (Suc i) ns = Some (ns ! i) \<and> activeStep (Suc i) ns = Suc i)
    \<and> (\<forall>i. Suc i < length ns \<longrightarrow>
         first_downstream (jget (jget (jget data ''dsl'') ''components'') (line_key (ns ! i))) = Some (line_key (ns ! Suc i)))"
proof -
  let ?c = "jget (jget data ''dsl'') ''components''"
  from assms obtain gs where "follow_line camel fmt ?c gs ''File'' 1 ''file'' = Some (Inr ns)"
    by (auto simp: timelineNodes_def Let_def simp del: jget.simps)
  from follow_line_along [OF this] have a: "along ?c ''File'' 1 ''file'' ns" by simp
  from along_ids [OF a] have ids: "map line_id ns = [1 ..< 1 + length ns]" "ns \<noteq> []" by simp_all
  have "line_id (ns ! i) = Suc i" if "i < length ns" for i using that nth_map [of i ns line_id] ids(1) by (simp del: upt_Suc)
  with along_ends [OF a] along_keys [OF a] numbered_nodes [OF ids(1)] ids(2) show ?thesis by blast
qed

text \<open>
  A component gets its type from its name only when it is a parser, a chunker or a tokenizer. Every other one,
  the extractor included, is shown as the component before it in the line.
\<close>

theorem extractor_shown_as_previous:
  assumes "timelineNodes camel fmt data = Some (Inr ns)" "truthy (jget (jget data ''dsl'') ''components'')"
    and "Suc i < length ns" "line_name (ns ! Suc i) = ''extractor''"
  shows "line_type (ns ! Suc i) = line_type (ns ! i) \<and> line_type (ns ! Suc i) \<noteq> ''extractor''"
proof -
  let ?c = "jget (jget data ''dsl'') ''components''"
  from assms(1,2) obtain gs where "follow_line camel fmt ?c gs ''File'' 1 ''file'' = Some (Inr ns)"
    by (auto simp: timelineNodes_def Let_def simp del: jget.simps)
  from follow_line_along [OF this] have "along ?c ''File'' 1 ''file'' ns" by simp
  from along_types [OF this] have ty: "line_type (ns ! j)
      = node_type (line_name (ns ! j)) (if j = 0 then ''file'' else line_type (ns ! (j - 1)))" if "j < length ns" for j
    using that by blast
  have "line_type (ns ! j) \<noteq> ''extractor''" if "j < length ns" for j
    using that
  proof (induction j)
    case 0
    then show ?case using ty [of 0] by (auto simp: node_type_def)
  next
    case (Suc j)
    then show ?case using ty [of "Suc j"] by (auto simp: node_type_def)
  qed
  then show ?thesis using ty [of "Suc i"] assms(3,4) by (auto simp: node_type_def)
qed

text \<open>The line is shown whenever it ends; on a cycle the code overflows the stack, which no node survives.\<close>

theorem timeline_returns:
  "line_ends (jget (jget data ''dsl'') ''components'') ''File'' \<Longrightarrow> timelineNodes camel fmt data \<noteq> None"
  using follow_line_total [of "jget (jget data ''dsl'') ''components''" "''File''" camel fmt _ 1 "''file''"]
  by (auto simp: timelineNodes_def Let_def simp del: jget.simps)

end
