(* ===== verification/Search_Session.thy ===== *)
theory Search_Session
  imports Sse_Answer
begin

text \<open>
  A search with its answer (\<open>pages/next-search/hooks.ts\<close> and the page that calls it, \<open>search-view.tsx\<close>): the
  question, the stream of its answer, the retrieval of chunks page by page, the related questions and the mind
  map. What the page asks the server is a log; what the server delivers is a step.
\<close>

section \<open>What is asked for\<close>

record search_env =
  env_kb :: jsv
  env_tenant :: jsv
  env_search :: string
  env_shared :: bool
  env_related :: bool
  env_summary :: jsv

datatype search_request = Test jsv | Test_All jsv | Related_Questions string | Mind_Map jsv

text \<open>
  The request for chunks. The page and the size are those of the address: they come behind the values, so they
  replace a page and a size among them.
\<close>

definition test_request :: "jsv \<Rightarrow> nat \<Rightarrow> nat \<Rightarrow> jsv \<Rightarrow> jsv \<Rightarrow> jsv" where
  "test_request knowledgeBaseId pg pageSize tenantId vals =
     js_object [Spread vals, Prop ''kb_id'' (js_coalesce (jget vals ''kb_id'') knowledgeBaseId),
       Prop ''page'' (JInt (int pg)), Prop ''size'' (JInt (int pageSize)), Prop ''tenant_id'' tenantId]"

definition test_all_request :: "jsv \<Rightarrow> nat \<Rightarrow> nat \<Rightarrow> jsv \<Rightarrow> jsv \<Rightarrow> jsv" where
  "test_all_request knowledgeBaseId pg pageSize tenantId vals =
     js_object [Spread vals, Prop ''kb_id'' (js_coalesce (jget vals ''kb_id'') knowledgeBaseId),
       Prop ''doc_ids'' (JArr []),
       Prop ''page'' (JInt (int pg)), Prop ''size'' (JInt (int pageSize)), Prop ''tenant_id'' tenantId]"

definition no_chunks :: jsv where
  "no_chunks = JObj [(''chunks'', JArr []), (''documents'', JArr []), (''total'', JInt 0)]"

definition test_result :: "jsv \<Rightarrow> jsv js" where
  "test_result d =
     js_bind (jprop d ''code'') (\<lambda>code.
       if code = JInt 0
       then js_bind (jprop (jget d ''data'') ''doc_aggs'') (\<lambda>docs.
         Inr (js_object [Spread (jget d ''data''), Prop ''documents'' docs]))
       else Inr (js_coalesce (jget d ''data'') no_chunks))"

section \<open>The state\<close>

record search_session =
  ss_stream :: sse
  ss_sending :: bool
  ss_answer :: jsv
  ss_str :: string
  ss_text :: string
  ss_first :: bool
  ss_docs :: "string list"
  ss_page :: nat
  ss_size :: nat
  ss_log :: "search_request list"
  ss_errors :: "string list"
  ss_mind_ref :: jsv
  ss_mind :: jsv
  ss_mind_open :: bool

definition new_search :: search_session where
  "new_search = \<lparr>ss_stream = new_sse, ss_sending = False, ss_answer = no_answer, ss_str = [], ss_text = [],
     ss_first = True, ss_docs = [], ss_page = 1, ss_size = 50, ss_log = [], ss_errors = [], ss_mind_ref = JUndef,
     ss_mind = JUndef, ss_mind_open = False\<rparr>"

definition log_request :: "search_request \<Rightarrow> search_session \<Rightarrow> search_session" where
  "log_request r s = s\<lparr>ss_log := ss_log s @ [r]\<rparr>"

text \<open>The page of the address: a change of the size leads to the first page, and a size of nothing stays.\<close>

definition setPaginationParams :: "nat \<Rightarrow> nat option \<Rightarrow> search_session \<Rightarrow> search_session" where
  "setPaginationParams p sz s =
     s\<lparr>ss_page := (if p = 0 then 1 else p), ss_size := (case sz of Some n \<Rightarrow> if n = 0 then ss_size s else n | None \<Rightarrow> ss_size s)\<rparr>"

definition setPagination :: "nat \<Rightarrow> nat option \<Rightarrow> search_session \<Rightarrow> search_session" where
  "setPagination p sz s = setPaginationParams (if sz \<noteq> Some (ss_size s) then 1 else p) sz s"

text \<open>The text in the input follows the question when this changes.\<close>

definition set_str :: "string \<Rightarrow> search_session \<Rightarrow> search_session" where
  "set_str v s = (if v = ss_str s then s else s\<lparr>ss_str := v, ss_text := v\<rparr>)"

section \<open>Asking\<close>

definition ask_body :: "search_env \<Rightarrow> string \<Rightarrow> jsv" where
  "ask_body env q = JObj [(''kb_ids'', env_kb env), (''question'', JStr q), (''tenantId'', env_tenant env)]"

definition question_values :: "search_env \<Rightarrow> string \<Rightarrow> nat \<Rightarrow> jsv" where
  "question_values env q n =
     JObj [(''kb_id'', env_kb env), (''highlight'', JBool True), (''question'', JStr q), (''page'', JInt 1),
       (''size'', JInt (int n)), (''search_id'', JStr (env_search env))]"

definition retrieve :: "search_env \<Rightarrow> string \<Rightarrow> nat \<Rightarrow> search_session \<Rightarrow> search_session" where
  "retrieve env q n s =
     (let s1 = log_request (Test (question_values env q n)) s in
      if env_related env then log_request (Related_Questions q) s1 else s1)"

definition sendQuestion :: "search_env \<Rightarrow> string \<Rightarrow> bool \<Rightarrow> search_session \<Rightarrow> search_session" where
  "sendQuestion env question enableAI s =
     (let q = js_trim question in
      if q = [] then s
      else let s1 = (setPagination 1 None s)\<lparr>ss_first := False, ss_answer := no_answer\<rparr> in
        if enableAI then
          if \<not> env_shared env \<and> env_search env = [] then s1\<lparr>ss_errors := ss_errors s1 @ [''Search ID is required.'']\<rparr>
          else retrieve env q (ss_size s) (s1\<lparr>ss_sending := True, ss_stream := start_send (ask_body env q) (ss_stream s1)\<rparr>)
        else retrieve env q (ss_size s) s1)"

text \<open>A setting that is not there counts as set.\<close>

definition summary_on :: "search_env \<Rightarrow> bool" where
  "summary_on env = (env_summary env = JUndef \<or> truthy (env_summary env))"

definition handleSearch :: "search_env \<Rightarrow> string \<Rightarrow> search_session \<Rightarrow> search_session" where
  "handleSearch env v s = (set_str v (sendQuestion env v (summary_on env) s))\<lparr>ss_mind_open := False\<rparr>"

definition handleClickRelatedQuestion :: "search_env \<Rightarrow> string \<Rightarrow> search_session \<Rightarrow> search_session" where
  "handleClickRelatedQuestion env question s =
     (if ss_sending s then s else sendQuestion env question (summary_on env) (set_str question s))"

definition chunk_values :: "search_env \<Rightarrow> string \<Rightarrow> string list \<Rightarrow> nat \<Rightarrow> nat \<Rightarrow> jsv" where
  "chunk_values env q ids pg n =
     JObj [(''kb_id'', env_kb env), (''highlight'', JBool True), (''question'', JStr q), (''doc_ids'', JArr (map JStr ids)),
       (''page'', JInt (int pg)), (''size'', JInt (int n)), (''search_id'', JStr (env_search env))]"

definition handleTestChunk :: "search_env \<Rightarrow> string list option \<Rightarrow> nat \<Rightarrow> nat \<Rightarrow> search_session \<Rightarrow> search_session" where
  "handleTestChunk env documentIds pg n s =
     (let q = js_trim (ss_str s) in
      if ss_sending s \<or> q = [] then s
      else log_request (Test_All (chunk_values env q [] pg n))
        (log_request (Test (chunk_values env q (case documentIds of Some ids \<Rightarrow> ids | None \<Rightarrow> ss_docs s) pg n)) s))"

definition page_turned :: "search_env \<Rightarrow> nat \<Rightarrow> nat \<Rightarrow> search_session \<Rightarrow> search_session" where
  "page_turned env pageNumber pageSize s =
     handleTestChunk env (Some (ss_docs s)) pageNumber pageSize (setPagination pageNumber (Some pageSize) s)"

definition onValueChange :: "search_env \<Rightarrow> string list \<Rightarrow> search_session \<Rightarrow> search_session" where
  "onValueChange env ids s = (handleTestChunk env (Some ids) 1 10 s)\<lparr>ss_docs := ids\<rparr>"

section \<open>The mind map\<close>

definition mind_params :: "search_env \<Rightarrow> search_session \<Rightarrow> jsv" where
  "mind_params env s =
     JObj [(''question'', JStr (js_trim (ss_str s))), (''kb_ids'', env_kb env), (''searchId'', JStr (env_search env))]"

definition showMindMapModal :: "search_env \<Rightarrow> search_session \<Rightarrow> search_session" where
  "showMindMapModal env s =
     (let searchParams = mind_params env s;
          s1 = (if js_trim (ss_str s) \<noteq> [] \<and> searchParams \<noteq> ss_mind_ref s
            then log_request (Mind_Map searchParams) (s\<lparr>ss_mind_ref := searchParams\<rparr>) else s)
      in s1\<lparr>ss_mind_open := True\<rparr>)"

text \<open>The answer, or nothing when the request failed.\<close>

definition mind_answered :: "jsv option \<Rightarrow> search_session \<Rightarrow> search_session" where
  "mind_answered r s =
     s\<lparr>ss_mind := (case r of Some ret \<Rightarrow> js_coalesce (jget (jget ret ''data'') ''data'') (JObj []) | None \<Rightarrow> JArr [])\<rparr>"

section \<open>Steps\<close>

text \<open>The effects behind a step of the stream: a new answer that is not empty is shown, and at the end nothing is sent.\<close>

definition done_effect :: "sse \<Rightarrow> search_session \<Rightarrow> search_session" where
  "done_effect old s = (if sse_done (ss_stream s) \<and> \<not> sse_done old then s\<lparr>ss_sending := False\<rparr> else s)"

definition shown_effect :: "search_session \<Rightarrow> search_session" where
  "shown_effect s = (if props_of (sse_answer (ss_stream s)) \<noteq> [] then s\<lparr>ss_answer := sse_answer (ss_stream s)\<rparr> else s)"

definition stream_delivers :: "nat \<Rightarrow> delivery \<Rightarrow> search_session \<Rightarrow> search_session" where
  "stream_delivers i d s =
     (let s1 = done_effect (ss_stream s) (s\<lparr>ss_stream := deliver i d (ss_stream s)\<rparr>) in
      case d of Event (Some v) \<Rightarrow> if i < length (sse_active (ss_stream s)) \<and> \<not> nullish v then shown_effect s1 else s1
      | _ \<Rightarrow> s1)"

text \<open>
  What a user does on the page, and what the server and the timer do. The input is disabled while an answer
  runs. The cross beside the input calls a handler that only gives a function, so it just empties the input.
\<close>

datatype search_action = Type_Text string | Press_Enter | Press_Button | Press_Clear | Click_Related string
  | Turn_Page nat nat | Choose_Documents "string list" | Open_Mind | Close_Mind
  | Mind_Answer "jsv option" | Delivered nat delivery | Answer_Timeout | Send_Failed nat

fun search_step :: "search_env \<Rightarrow> search_action \<Rightarrow> search_session \<Rightarrow> search_session" where
  "search_step env (Type_Text v) s = (if ss_sending s then s else s\<lparr>ss_text := v\<rparr>)"
| "search_step env Press_Enter s = (if ss_sending s then s else handleSearch env (ss_text s) s)"
| "search_step env Press_Button s = (if ss_sending s then s else handleSearch env (ss_text s) s)"
| "search_step env Press_Clear s = s\<lparr>ss_text := []\<rparr>"
| "search_step env (Click_Related q) s = handleClickRelatedQuestion env q s"
| "search_step env (Turn_Page p n) s = page_turned env p n s"
| "search_step env (Choose_Documents ids) s = onValueChange env ids s"
| "search_step env Open_Mind s = showMindMapModal env s"
| "search_step env Close_Mind s = s\<lparr>ss_mind_open := False\<rparr>"
| "search_step env (Mind_Answer r) s = mind_answered r s"
| "search_step env (Delivered i d) s = stream_delivers i d s"
| "search_step env Answer_Timeout s = s\<lparr>ss_stream := reset_timeout (ss_stream s)\<rparr>"
| "search_step env (Send_Failed i) s = done_effect (ss_stream s) (s\<lparr>ss_stream := send_failed i (ss_stream s)\<rparr>)"

definition search_run :: "search_env \<Rightarrow> search_action list \<Rightarrow> search_session \<Rightarrow> search_session" where
  "search_run env as s = foldl (\<lambda>s a. search_step env a s) s as"

text \<open>The page is opened with the text that was typed on the home page.\<close>

definition open_search :: "search_env \<Rightarrow> string \<Rightarrow> search_session" where
  "open_search env searchText =
     (if searchText = [] then new_search else sendQuestion env searchText (summary_on env) (set_str searchText new_search))"

section \<open>Further parts\<close>

text \<open>The parameters of a shared search.\<close>

definition shared_data :: "(string \<times> string) list \<Rightarrow> jsv" where
  "shared_data entries =
     js_object (map (\<lambda>(k, v). Prop (drop 5 k) (JStr v)) (filter (\<lambda>(k, _). starts_with k ''data_'') entries))"

definition visibleAvatar :: "string option \<Rightarrow> bool" where
  "visibleAvatar p = (case p of Some v \<Rightarrow> if v = [] then True else v \<noteq> ''1'' | None \<Rightarrow> True)"

text \<open>A search without data sets or a name is to be set up first.\<close>

definition openSetting :: "jsv \<Rightarrow> bool js" where
  "openSetting d =
     (if \<not> truthy d then Inr False
      else js_bind (jprop (jget d ''search_config'') ''kb_ids'') (\<lambda>kb_ids.
        Inr (\<not> (truthy kb_ids \<and> (case kb_ids of JArr xs \<Rightarrow> xs \<noteq> [] | JStr x \<Rightarrow> x \<noteq> [] | _ \<Rightarrow> False) \<and> truthy (jget d ''name'')))))"

text \<open>The progress of a mind map counts seconds until its interval is cleared.\<close>

definition tick_second :: "nat \<times> bool \<Rightarrow> nat \<times> bool" where
  "tick_second p = (case p of (c, running) \<Rightarrow> if running then (c + 1, \<not> c > 40) else (c, running))"

definition mind_percent :: "nat \<Rightarrow> nat" where
  "mind_percent c = (200 * c + 43) div 86"

end
