(* ===== verification/Search_Proofs.thy ===== *)
theory Search_Proofs
  imports Search_Session
begin

text \<open>
  What holds in every run of the page of a search, what a question and its answer do, and which pages and
  documents are asked for.
\<close>

section \<open>Every run\<close>

definition asked_for :: "search_request \<Rightarrow> string" where
  "asked_for r =
     (case r of Test v \<Rightarrow> str_of (jget v ''question'') | Test_All v \<Rightarrow> str_of (jget v ''question'')
      | Related_Questions q \<Rightarrow> q | Mind_Map v \<Rightarrow> str_of (jget v ''question''))"

text \<open>The button stops exactly while a stream runs; only one runs, and nothing is asked without a question.\<close>

definition search_ok :: "search_session \<Rightarrow> bool" where
  "search_ok s \<longleftrightarrow> length (sse_active (ss_stream s)) \<le> 1 \<and> list_all no_box (sse_active (ss_stream s))
     \<and> (ss_sending s \<longleftrightarrow> sse_active (ss_stream s) \<noteq> []) \<and> (sse_done (ss_stream s) \<longleftrightarrow> sse_active (ss_stream s) = [])
     \<and> list_all (\<lambda>r. asked_for r \<noteq> []) (ss_log s)"

lemma no_box_ask [simp]: "no_box (ask_body env q)"
  by (simp add: no_box_def ask_body_def)

lemma asked_for_values [simp]:
  "asked_for (Test (question_values env q n)) = q" "asked_for (Test (chunk_values env q ids p n)) = q"
  "asked_for (Test_All (chunk_values env q ids p n)) = q" "asked_for (Related_Questions q) = q"
  "asked_for (Mind_Map (mind_params env s)) = js_trim (ss_str s)"
  by (simp_all add: asked_for_def question_values_def chunk_values_def mind_params_def str_of_def)

lemma log_fields [simp]:
  "ss_stream (log_request r s) = ss_stream s" "ss_sending (log_request r s) = ss_sending s"
  "ss_log (log_request r s) = ss_log s @ [r]"
  by (simp_all add: log_request_def)

lemma page_fields [simp]:
  "ss_stream (setPagination p n s) = ss_stream s" "ss_sending (setPagination p n s) = ss_sending s"
  "ss_log (setPagination p n s) = ss_log s" "ss_str (setPagination p n s) = ss_str s"
  "ss_docs (setPagination p n s) = ss_docs s" "ss_errors (setPagination p n s) = ss_errors s"
  "ss_size (setPagination p None s) = ss_size s" "ss_page (setPagination p None s) = Suc 0"
  "ss_text (setPagination p n s) = ss_text s"
  by (simp_all add: setPagination_def setPaginationParams_def)

lemma str_fields [simp]:
  "ss_stream (set_str v s) = ss_stream s" "ss_sending (set_str v s) = ss_sending s" "ss_log (set_str v s) = ss_log s"
  "ss_str (set_str v s) = v" "ss_answer (set_str v s) = ss_answer s" "ss_page (set_str v s) = ss_page s"
  "ss_size (set_str v s) = ss_size s" "ss_docs (set_str v s) = ss_docs s"
  by (simp_all add: set_str_def)

lemma search_ok_updates [simp]:
  "search_ok (s\<lparr>ss_answer := x1\<rparr>) = search_ok s"
  "search_ok (s\<lparr>ss_str := x2\<rparr>) = search_ok s"
  "search_ok (s\<lparr>ss_text := x3\<rparr>) = search_ok s"
  "search_ok (s\<lparr>ss_first := x4\<rparr>) = search_ok s"
  "search_ok (s\<lparr>ss_docs := x5\<rparr>) = search_ok s"
  "search_ok (s\<lparr>ss_page := x6\<rparr>) = search_ok s"
  "search_ok (s\<lparr>ss_size := x7\<rparr>) = search_ok s"
  "search_ok (s\<lparr>ss_errors := x8\<rparr>) = search_ok s"
  "search_ok (s\<lparr>ss_mind_ref := x9\<rparr>) = search_ok s"
  "search_ok (s\<lparr>ss_mind := x10\<rparr>) = search_ok s"
  "search_ok (s\<lparr>ss_mind_open := x11\<rparr>) = search_ok s"
  "search_ok (set_str v s) = search_ok s" "search_ok (setPagination p n s) = search_ok s"
  by (simp_all add: search_ok_def)

lemma retrieve_ok:
  "search_ok s \<Longrightarrow> q \<noteq> [] \<Longrightarrow> search_ok (retrieve env q n s)"
  by (simp add: search_ok_def retrieve_def Let_def)

lemma sendQuestion_ok:
  assumes "search_ok s" "\<not> ss_sending s"
  shows "search_ok (sendQuestion env v ai s)"
proof -
  let ?s = "(setPagination 1 None s)\<lparr>ss_first := False, ss_answer := no_answer\<rparr>"
  have "search_ok (?s\<lparr>ss_sending := True, ss_stream := start_send (ask_body env q) (ss_stream ?s)\<rparr>)" for q
    using assms no_box_ask [of env q] by (simp add: search_ok_def start_send_def setDoneValue_def no_box_def)
  then show ?thesis using assms(1) by (simp add: sendQuestion_def Let_def retrieve_ok)
qed

lemma handleTestChunk_ok: "search_ok s \<Longrightarrow> search_ok (handleTestChunk env ids p n s)"
  by (simp add: handleTestChunk_def Let_def search_ok_def)

lemma end_send_ok:
  assumes "search_ok s" and f: "\<And>x. sse_active (f x) = sse_active x \<and> sse_done (f x) = sse_done x"
  shows "search_ok (done_effect (ss_stream s) (s\<lparr>ss_stream := end_send i (f (ss_stream s))\<rparr>))"
proof (cases "sse_active (ss_stream s)")
  case Nil
  then show ?thesis using assms(1) by (simp add: f search_ok_def done_effect_def end_send_def)
next
  case (Cons b bs)
  then show ?thesis using assms(1)
    by (auto simp: f search_ok_def done_effect_def end_send_def setDoneValue_def resetAnswer_def no_box_def remove_at_def)
qed

lemma shown_effect_ok: "search_ok s \<Longrightarrow> search_ok (shown_effect s)"
  by (simp add: shown_effect_def)

lemma search_idle_ok: "search_ok s \<Longrightarrow> search_ok (done_effect (ss_stream s) s)"
  by (simp add: done_effect_def)

lemma stream_delivers_ok:
  assumes "search_ok s"
  shows "search_ok (stream_delivers i d s)"
proof (cases d)
  case (Event e)
  have *: "sse_active (deliver i (Event e) x) = sse_active x \<and> sse_done (deliver i (Event e) x) = sse_done x" for x
    by (simp add: deliver_def split: option.splits)
  from assms * have "search_ok (done_effect (ss_stream s) (s\<lparr>ss_stream := deliver i d (ss_stream s)\<rparr>))"
    by (simp add: Event search_ok_def done_effect_def)
  then show ?thesis by (cases e) (simp_all add: stream_delivers_def Event Let_def shown_effect_ok)
next
  case Stream_End
  have "sse_active (resetAnswer x) = sse_active x \<and> sse_done (resetAnswer x) = sse_done x" for x
    by (simp add: resetAnswer_def)
  from end_send_ok [OF assms this] search_idle_ok [OF assms] show ?thesis
    by (simp add: Stream_End stream_delivers_def deliver_def Let_def)
next
  case Stream_Abort
  from end_send_ok [OF assms, of "\<lambda>x. x"] search_idle_ok [OF assms] show ?thesis
    by (simp add: Stream_Abort stream_delivers_def deliver_def Let_def)
qed (use assms in \<open>simp_all add: stream_delivers_def deliver_def Let_def done_effect_def search_ok_def\<close>)

lemma reset_timeout_ok: "search_ok s \<Longrightarrow> search_ok (s\<lparr>ss_stream := reset_timeout (ss_stream s)\<rparr>)"
  by (simp add: search_ok_def reset_timeout_def)

lemma log_mind_ok: "search_ok s \<Longrightarrow> asked_for r \<noteq> [] \<Longrightarrow> search_ok (log_request r s)"
  by (simp add: search_ok_def)

lemma search_step_ok:
  assumes "search_ok s"
  shows "search_ok (search_step env a s)"
proof (cases a)
  case (Send_Failed i)
  from end_send_ok [OF assms, of "\<lambda>x. x"] show ?thesis by (simp add: Send_Failed send_failed_def)
qed (use assms in \<open>auto simp: handleSearch_def handleClickRelatedQuestion_def page_turned_def onValueChange_def
    sendQuestion_ok handleTestChunk_ok stream_delivers_ok showMindMapModal_def mind_answered_def Let_def
    intro: reset_timeout_ok log_mind_ok\<close>)

text \<open>
  Whatever is typed, pressed, chosen and delivered on the page of a search, at most one answer streams at a
  time, the page is waiting exactly while it does, and the server is never asked without a question.
\<close>

theorem search_session_invariant: "search_ok (search_run env as (open_search env t))"
proof -
  have "search_ok new_search" by (simp add: search_ok_def new_search_def new_sse_def)
  moreover have "\<not> ss_sending new_search" by (simp add: new_search_def)
  ultimately have "search_ok (open_search env t)" by (simp add: open_search_def sendQuestion_ok)
  then show ?thesis unfolding search_run_def
    by (induction as rule: rev_induct) (simp_all add: search_step_ok)
qed

section \<open>A question and its answer\<close>

lemma sendQuestion_asks:
  assumes "js_trim v \<noteq> []" "env_shared env \<or> env_search env \<noteq> []"
  shows "sendQuestion env v True s = retrieve env (js_trim v) (ss_size s) ((setPagination 1 None s)\<lparr>ss_first := False,
    ss_answer := no_answer, ss_sending := True, ss_stream := start_send (ask_body env (js_trim v)) (ss_stream s)\<rparr>)"
  using assms by (auto simp: sendQuestion_def Let_def)

lemma retrieve_fields [simp]:
  "ss_stream (retrieve env q n s) = ss_stream s" "ss_sending (retrieve env q n s) = ss_sending s"
  "ss_answer (retrieve env q n s) = ss_answer s" "ss_page (retrieve env q n s) = ss_page s"
  "ss_size (retrieve env q n s) = ss_size s" "ss_docs (retrieve env q n s) = ss_docs s"
  "ss_log (retrieve env q n s) = ss_log s @ Test (question_values env q n) # (if env_related env then [Related_Questions q] else [])"
  by (simp_all add: retrieve_def Let_def log_request_def)

definition answer_text :: "search_session \<Rightarrow> string" where
  "answer_text s = text_or_empty (jget (ss_answer s) ''answer'')"

text \<open>Pieces that arrive are shown.\<close>

lemma piece_shown:
  assumes "sse_active (ss_stream s) = [b]"
  shows "stream_delivers 0 (Event (Some (piece t))) s = s\<lparr>ss_stream := (ss_stream s)\<lparr>sse_answer :=
      next_answer b (piece t) (sse_answer (ss_stream s))\<rparr>, ss_answer := next_answer b (piece t) (sse_answer (ss_stream s))\<rparr>"
proof -
  let ?a = "next_answer b (piece t) (sse_answer (ss_stream s))"
  have "props_of ?a \<noteq> []"
  proof
    assume "props_of ?a = []"
    then have "?a = JObj [] \<or> (\<forall>ps. ?a \<noteq> JObj ps)" by (cases ?a) simp_all
    with next_answer_text [of b "piece t" "sse_answer (ss_stream s)"] show False by (auto simp: next_answer_def js_object_def)
  qed
  then show ?thesis
    using assms by (simp add: stream_delivers_def deliver_def done_effect_def shown_effect_def Let_def)
qed

lemma pieces_arrive:
  assumes "sse_active (ss_stream s) = [b]" "answer_text s = text_or_empty (jget (sse_answer (ss_stream s)) ''answer'')"
  shows "let s' = search_run env (map (\<lambda>t. Delivered 0 (Event (Some (piece t)))) ts) s in
    answer_text s' = foldl extend_text (answer_text s) ts
    \<and> answer_text s' = text_or_empty (jget (sse_answer (ss_stream s')) ''answer'')
    \<and> sse_active (ss_stream s') = [b] \<and> sse_done (ss_stream s') = sse_done (ss_stream s)
    \<and> sse_timer (ss_stream s') = sse_timer (ss_stream s)
    \<and> ss_sending s' = ss_sending s \<and> ss_str s' = ss_str s \<and> ss_page s' = ss_page s \<and> ss_log s' = ss_log s"
  using assms
proof (induction ts arbitrary: s)
  case (Cons t ts)
  let ?s = "stream_delivers 0 (Event (Some (piece t))) s"
  let ?a = "next_answer b (piece t) (sse_answer (ss_stream s))"
  note s = piece_shown [OF Cons.prems(1), of t]
  have e: "answer_text ?s = extend_text (answer_text s) t" using Cons.prems(2)
    by (simp add: s answer_text_def del: jget.simps)
  have same: "answer_text ?s = text_or_empty (jget (sse_answer (ss_stream ?s)) ''answer'')"
    by (simp add: s answer_text_def del: jget.simps)
  have act: "sse_active (ss_stream ?s) = [b]" using Cons.prems(1) by (simp add: s)
  have kept: "sse_done (ss_stream ?s) = sse_done (ss_stream s)" "sse_timer (ss_stream ?s) = sse_timer (ss_stream s)"
    "ss_sending ?s = ss_sending s" "ss_str ?s = ss_str s" "ss_page ?s = ss_page s" "ss_log ?s = ss_log s" by (simp_all add: s)
  have run: "search_run env (map (\<lambda>t. Delivered 0 (Event (Some (piece t)))) (t # ts)) s
      = search_run env (map (\<lambda>t. Delivered 0 (Event (Some (piece t)))) ts) ?s" by (simp add: search_run_def)
  from Cons.IH [OF act same, unfolded Let_def e kept] show ?case unfolding run Let_def foldl.simps .
qed (simp add: search_run_def)

text \<open>
  C15. A question that is typed and sent when nothing runs and no answer is left over asks for the chunks of its
  first page and for its answer, and at the end of the stream the text of the stream is shown and the next
  question can be sent.
\<close>

theorem question_answered:
  assumes "search_ok s" "\<not> ss_sending s" "sse_answer (ss_stream s) = no_answer" "js_trim v \<noteq> []"
    and "summary_on env" "env_shared env \<or> env_search env \<noteq> []"
    and "s' = search_run env ([Type_Text v, Press_Enter] @ map (\<lambda>t. Delivered 0 (Event (Some (piece t)))) ts @ [Delivered 0 Stream_End]) s"
  shows "answer_text s' = stream_text ts \<and> \<not> ss_sending s' \<and> ss_str s' = v \<and> ss_page s' = 1
    \<and> ss_log s' = ss_log s @ Test (question_values env (js_trim v) (ss_size s))
        # (if env_related env then [Related_Questions (js_trim v)] else [])"
proof -
  let ?a = "ask_body env (js_trim v)"
  let ?s1 = "search_run env [Type_Text v, Press_Enter] s"
  have act: "sse_active (ss_stream s) = []" using assms(1,2) by (simp add: search_ok_def)
  have s1: "?s1 = handleSearch env v (s\<lparr>ss_text := v\<rparr>)" using assms(2) by (simp add: search_run_def)
  have st: "ss_stream ?s1 = start_send ?a (ss_stream s)"
    unfolding s1 handleSearch_def using assms(4-6) by (simp add: sendQuestion_asks)
  have box: "''chatBoxId'' \<notin> fst ` set (props_of ?a)" using no_box_ask [of env "js_trim v"] by (simp add: no_box_def)
  have p: "sse_active (ss_stream ?s1) = [?a]" "sse_answer (ss_stream ?s1) = no_answer" "\<not> sse_done (ss_stream ?s1)"
    using act assms(3) box by (simp_all add: st start_send_def setDoneValue_def)
  have f: "ss_sending ?s1" "ss_str ?s1 = v" "ss_page ?s1 = 1" "ss_answer ?s1 = no_answer"
    "ss_log ?s1 = ss_log s @ Test (question_values env (js_trim v) (ss_size s))
        # (if env_related env then [Related_Questions (js_trim v)] else [])"
    unfolding s1 handleSearch_def using assms(4-6) by (simp_all add: sendQuestion_asks)
  let ?s2 = "search_run env (map (\<lambda>t. Delivered 0 (Event (Some (piece t)))) ts) ?s1"
  have none: "answer_text ?s1 = []" by (simp add: answer_text_def f(4) no_answer_def text_or_empty_def js_or_def str_of_def)
  have "answer_text ?s1 = text_or_empty (jget (sse_answer (ss_stream ?s1)) ''answer'')" by (simp only: answer_text_def f(4) p(2))
  from pieces_arrive [OF p(1) this, of env ts] none have q: "answer_text ?s2 = stream_text ts" "sse_active (ss_stream ?s2) = [?a]"
    "\<not> sse_done (ss_stream ?s2)" "ss_str ?s2 = ss_str ?s1" "ss_page ?s2 = ss_page ?s1" "ss_log ?s2 = ss_log ?s1"
    using p(3) unfolding Let_def stream_text_def by auto
  have "s' = search_step env (Delivered 0 Stream_End) ?s2" using assms(7) by (simp add: search_run_def)
  also have "\<dots> = ?s2\<lparr>ss_stream := deliver 0 Stream_End (ss_stream ?s2), ss_sending := False\<rparr>"
    using q(2,3) box
    by (simp add: stream_delivers_def done_effect_def deliver_def end_send_def setDoneValue_def resetAnswer_def)
  finally show ?thesis using q(1,4-6) f by (simp add: answer_text_def)
qed

definition sample_env :: search_env where
  "sample_env = \<lparr>env_kb = JArr [JStr ''k''], env_tenant = JStr ''t'', env_search = ''s'', env_shared = False,
     env_related = False, env_summary = JBool True\<rparr>"

theorem question_answered_witness:
  "answer_text (search_run sample_env ([Type_Text '' hi'', Press_Enter]
      @ map (\<lambda>t. Delivered 0 (Event (Some (piece t)))) [''He'', ''llo''] @ [Delivered 0 Stream_End]) new_search) = ''Hello''"
proof -
  have "search_ok new_search" by (simp add: search_ok_def new_search_def new_sse_def)
  moreover have "js_trim '' hi'' \<noteq> []" by (simp add: js_trim_def is_space_def)
  moreover have "stream_text [''He'', ''llo''] = ''Hello''" by (simp add: stream_text_def extend_text_def starts_with_def)
  ultimately show ?thesis
    using question_answered [of new_search "'' hi''" sample_env _ "[''He'', ''llo'']"]
    by (simp add: new_search_def new_sse_def sample_env_def summary_on_def)
qed

text \<open>
  The timer that clears the answer a second after a stream is not stopped by the next question. When it fires in
  the middle of the next answer, what came before is lost.
\<close>

theorem late_timer_loses_text:
  assumes "search_ok s" "\<not> ss_sending s" "sse_timer (ss_stream s)" "js_trim v \<noteq> []"
    and "summary_on env" "env_shared env \<or> env_search env \<noteq> []"
  shows "answer_text (search_run env [Type_Text v, Press_Enter, Delivered 0 (Event (Some (piece t))), Answer_Timeout,
      Delivered 0 (Event (Some (piece t')))] s) = t'"
proof -
  let ?a = "ask_body env (js_trim v)"
  have act: "sse_active (ss_stream s) = []" using assms(1,2) by (simp add: search_ok_def)
  have box: "''chatBoxId'' \<notin> fst ` set (props_of ?a)" using no_box_ask [of env "js_trim v"] by (simp add: no_box_def)
  let ?s1 = "handleSearch env v (s\<lparr>ss_text := v\<rparr>)"
  have st: "ss_stream ?s1 = start_send ?a (ss_stream s)"
    unfolding handleSearch_def using assms(4-6) by (simp add: sendQuestion_asks)
  have "sse_active (ss_stream ?s1) = [?a]" using act box by (simp add: st start_send_def setDoneValue_def)
  note first = piece_shown [OF this, of t]
  let ?s2 = "search_step env Answer_Timeout (stream_delivers 0 (Event (Some (piece t))) ?s1)"
  have s2: "sse_active (ss_stream ?s2) = [?a]" "sse_answer (ss_stream ?s2) = no_answer"
    using act box assms(3) by (simp_all add: first st start_send_def setDoneValue_def reset_timeout_def)
  have "answer_text (stream_delivers 0 (Event (Some (piece t'))) ?s2)
      = extend_text (text_or_empty (jget no_answer ''answer'')) t'"
    by (simp only: piece_shown [OF s2(1)] s2(2)) (simp add: answer_text_def del: jget.simps)
  then show ?thesis using assms(2)
    by (simp add: search_run_def extend_text_def no_answer_def text_or_empty_def js_or_def str_of_def)
qed

section \<open>What is asked for\<close>

text \<open>Without a search or a shared link an answer is refused, and the chunks are not asked for either.\<close>

theorem no_search_no_chunks:
  assumes "js_trim v \<noteq> []" "\<not> env_shared env" "env_search env = []"
  shows "ss_log (sendQuestion env v True s) = ss_log s \<and> ss_stream (sendQuestion env v True s) = ss_stream s
    \<and> ss_errors (sendQuestion env v True s) = ss_errors s @ [''Search ID is required.'']"
  using assms by (simp add: sendQuestion_def Let_def)

text \<open>
  Choosing documents asks for the first ten chunks of these, but the page and the size of the address replace
  both: on the third page the third page is asked for.
\<close>

theorem chosen_documents_page:
  assumes "js_trim (ss_str s) \<noteq> []" "\<not> ss_sending s"
  shows "\<exists>vals. Test vals \<in> set (ss_log (onValueChange env ids s)) \<and> jget vals ''page'' = JInt 1
    \<and> jget vals ''size'' = JInt 10 \<and> jget vals ''doc_ids'' = JArr (map JStr ids)
    \<and> jget (test_request kb (ss_page s) (ss_size s) tn vals) ''page'' = JInt (int (ss_page s))
    \<and> jget (test_request kb (ss_page s) (ss_size s) tn vals) ''size'' = JInt (int (ss_size s))"
  using assms
  by (intro exI [of _ "chunk_values env (js_trim (ss_str s)) ids 1 10"])
    (simp add: onValueChange_def handleTestChunk_def Let_def chunk_values_def test_request_def js_object_def obj_of_def
      obj_assign_def)

text \<open>The cross empties the input, but the question stays and is asked for when a page is turned.\<close>

theorem cleared_question_stays:
  assumes "\<not> ss_sending s" "js_trim (ss_str s) \<noteq> []"
  shows "ss_text (search_step env Press_Clear s) = []
    \<and> ss_log (search_run env [Press_Clear, Turn_Page p n] s)
      = ss_log s @ [Test (chunk_values env (js_trim (ss_str s)) (ss_docs s) p n), Test_All (chunk_values env (js_trim (ss_str s)) [] p n)]"
proof -
  have "ss_docs (setPagination p (Some n) (s\<lparr>ss_text := []\<rparr>)) = ss_docs s" by simp
  then show ?thesis using assms by (simp add: search_run_def page_turned_def handleTestChunk_def Let_def)
qed

text \<open>
  The documents that were chosen for one question are kept for the next one: its first page shows the chunks of
  all documents, its second page only those of the documents chosen before.
\<close>

theorem old_documents_on_second_page:
  assumes "search_ok s" "\<not> ss_sending s" "env_summary env = JBool False" "env_related env = False" "js_trim v \<noteq> []"
  shows "ss_log (search_run env [Type_Text v, Press_Enter, Turn_Page 2 n] s)
      = ss_log s @ [Test (question_values env (js_trim v) (ss_size s)), Test (chunk_values env (js_trim v) (ss_docs s) 2 n),
          Test_All (chunk_values env (js_trim v) [] 2 n)]
    \<and> jget (question_values env (js_trim v) (ss_size s)) ''doc_ids'' = JUndef"
proof -
  let ?s1 = "handleSearch env v (s\<lparr>ss_text := v\<rparr>)"
  have "\<not> ss_sending ?s1" "ss_str ?s1 = v" "ss_docs ?s1 = ss_docs s"
    "ss_log ?s1 = ss_log s @ [Test (question_values env (js_trim v) (ss_size s))]"
    using assms(2-5) by (simp_all add: handleSearch_def summary_on_def sendQuestion_def Let_def)
  moreover have "search_run env [Type_Text v, Press_Enter, Turn_Page 2 n] s = page_turned env 2 n ?s1"
    using assms(2) by (simp add: search_run_def)
  ultimately show ?thesis using assms(5)
    by (simp add: page_turned_def handleTestChunk_def Let_def question_values_def)
qed

section \<open>The mind map\<close>

text \<open>What a user and the server do to the mind map.\<close>

definition mind_action :: "search_action \<Rightarrow> bool" where
  "mind_action a = (case a of Open_Mind \<Rightarrow> True | Close_Mind \<Rightarrow> True | Mind_Answer _ \<Rightarrow> True | _ \<Rightarrow> False)"

definition mind_asked :: "search_env \<Rightarrow> search_session \<Rightarrow> bool" where
  "mind_asked env s \<longleftrightarrow> js_trim (ss_str s) = [] \<or> ss_mind_ref s = mind_params env s"

lemma mind_asked_updates [simp]:
  "mind_asked env (s\<lparr>ss_mind_open := b\<rparr>) = mind_asked env s" "mind_asked env (mind_answered r s) = mind_asked env s"
  by (simp_all add: mind_asked_def mind_params_def mind_answered_def)

lemma mind_asked_open: "mind_asked env (showMindMapModal env s)"
  by (simp add: mind_asked_def mind_params_def showMindMapModal_def log_request_def Let_def)

lemma mind_shown_again: "mind_asked env s \<Longrightarrow> showMindMapModal env s = s\<lparr>ss_mind_open := True\<rparr>"
  by (auto simp: mind_asked_def showMindMapModal_def Let_def)

lemma mind_asked_step:
  "mind_asked env s \<Longrightarrow> mind_action a \<Longrightarrow> mind_asked env (search_step env a s) \<and> ss_log (search_step env a s) = ss_log s"
  by (cases a) (simp_all add: mind_action_def mind_shown_again, simp add: mind_answered_def)

text \<open>
  Opening the mind map of a question again does not ask for it again, even when its request has failed.
\<close>

theorem failed_mind_map_not_asked_again:
  assumes "list_all mind_action as"
  shows "ss_log (search_run env (Open_Mind # Mind_Answer None # as) s) = ss_log (search_step env Open_Mind s)"
proof -
  let ?s = "search_step env (Mind_Answer None) (search_step env Open_Mind s)"
  have "mind_asked env ?s \<and> ss_log ?s = ss_log (search_step env Open_Mind s)"
    by (simp add: mind_asked_open) (simp add: mind_answered_def)
  then have "mind_asked env (foldl (\<lambda>s a. search_step env a s) ?s as)
      \<and> ss_log (foldl (\<lambda>s a. search_step env a s) ?s as) = ss_log (search_step env Open_Mind s)"
    using assms by (induction as rule: rev_induct) (simp_all add: mind_asked_step)
  then show ?thesis by (simp add: search_run_def)
qed

text \<open>The progress grows for forty-two seconds, stays below a hundred and then stops.\<close>

theorem mind_progress:
  "(tick_second ^^ n) (0, True) = (min n 42, n < 42) \<and> mind_percent (min n 42) \<le> 98"
proof
  show "(tick_second ^^ n) (0, True) = (min n 42, n < 42)" by (induction n) (auto simp: tick_second_def)
  have "200 * min n 42 + 43 \<le> 86 * 98 + (85 :: nat)" by simp
  then show "mind_percent (min n 42) \<le> 98" unfolding mind_percent_def by linarith
qed

section \<open>A shared link\<close>

lemma shared_data_get:
  "jget (shared_data es) k =
     (case map_of (rev (map (\<lambda>(k, v). (drop 5 k, v)) (filter (\<lambda>(k, _). starts_with k ''data_'') es))) k of
        Some v \<Rightarrow> JStr v | None \<Rightarrow> JUndef)"
proof -
  have "jget (js_object (map (\<lambda>(k, v). Prop (f k) (JStr v)) xs)) k = (case map_of (rev (map (\<lambda>(k, v). (f k, v)) xs)) k of
      Some v \<Rightarrow> JStr v | None \<Rightarrow> JUndef)" for f :: "string \<Rightarrow> string" and xs
  proof (induction xs rule: rev_induct)
    case (snoc x xs)
    then show ?case by (cases x) (auto simp: js_object_def obj_of_def obj_assign_def)
  qed (simp add: js_object_def obj_of_def)
  then show ?thesis by (simp add: shared_data_def)
qed

end
