(* ===== verification/Canvas_Drawers.thy ===== *)
theory Canvas_Drawers
  imports Agent_Store Variable_Options
begin

text \<open>
  The sheets beside the canvas (\<open>hooks/use-show-drawer.tsx\<close>, with the button of \<open>pages/agent/index.tsx\<close>, the sheet
  of \<open>run-sheet/index.tsx\<close> and \<open>hooks/use-save-graph.ts\<close>): the form of a node, the sheet that asks for the inputs
  of a run, the chat, the debugging of one node and the log. Saving takes time: it is sent in one step and answered
  in another, and sheets can be opened and closed between the two.
\<close>

section \<open>State\<close>

record drawers =
  dr_graph :: rf_state
  dr_drawer :: bool
  dr_run :: bool
  dr_chat :: bool
  dr_single :: bool
  dr_form :: bool
  dr_log :: bool
  dr_message :: string
  dr_button_saves :: nat
  dr_sheet_saves :: nat
  dr_single_saves :: nat

definition no_drawers :: "rf_state \<Rightarrow> drawers" where
  "no_drawers g = \<lparr>dr_graph = g, dr_drawer = False, dr_run = False, dr_chat = False, dr_single = False, dr_form = False,
     dr_log = False, dr_message = [], dr_button_saves = 0, dr_sheet_saves = 0, dr_single_saves = 0\<rparr>"

definition has_inputs :: "drawers \<Rightarrow> bool" where
  "has_inputs s = (selectBeginNodeDataInputs (dr_graph s) \<noteq> [])"

text \<open>The effects: of the drawer and the inputs, and of the nodes and the node that was clicked.\<close>

definition run_effect :: "drawers \<Rightarrow> drawers" where
  "run_effect s =
     (if dr_drawer s then if has_inputs s then s\<lparr>dr_run := True, dr_chat := False\<rparr> else s\<lparr>dr_chat := True, dr_run := False\<rparr>
      else s)"

definition deletion_effect :: "drawers \<Rightarrow> drawers" where
  "deletion_effect s =
     (if \<not> list_ex (\<lambda>x. Some (nid x) = clickedNodeId (dr_graph s)) (st_nodes (dr_graph s)) then s\<lparr>dr_form := False\<rparr> else s)"

section \<open>Handlers\<close>

definition showFormDrawer :: "string option \<Rightarrow> string option \<Rightarrow> string \<Rightarrow> drawers \<Rightarrow> drawers" where
  "showFormDrawer toolId tool nodeId s =
     (let operatorType = getOperatorTypeFromId (dr_graph s) (Some nodeId);
          no_tool = (tool = None \<or> tool = Some []) in
      if operatorType = Some (op_str OpTool) \<and> no_tool
        \<or> operatorType \<in> {Some (op_str OpLoopStart), Some (op_str OpExitLoop)}
      then s
      else s\<lparr>dr_graph := setClickedToolId (if toolId = None \<or> toolId = Some [] then tool else toolId)
               (setClickedNodeId (Some nodeId) (dr_graph s)), dr_form := True\<rparr>)"

definition excluded_labels :: "string set" where
  "excluded_labels = {op_str OpNote, op_str OpPlaceholder, op_str OpFile}"

definition onNodeClick :: "agent_node \<Rightarrow> string option \<Rightarrow> string option \<Rightarrow> bool \<Rightarrow> drawers \<Rightarrow> drawers" where
  "onNodeClick node toolId tool play s =
     (let s1 = (if node_label node \<notin> excluded_labels
            then showFormDrawer toolId tool (nid node) (s\<lparr>dr_single := False, dr_log := False\<rparr>) else s)
      in if play then s1\<lparr>dr_single_saves := dr_single_saves s1 + 1\<rparr> else s1)"

definition hideRunOrChatDrawer :: "drawers \<Rightarrow> drawers" where
  "hideRunOrChatDrawer s = s\<lparr>dr_chat := False, dr_run := False, dr_drawer := False\<rparr>"

definition showLogSheetExclusive :: "string \<Rightarrow> drawers \<Rightarrow> drawers" where
  "showLogSheetExclusive messageId s = s\<lparr>dr_form := False, dr_message := messageId, dr_log := True\<rparr>"

definition pane_click :: "drawers \<Rightarrow> drawers" where
  "pane_click s = s\<lparr>dr_form := False\<rparr>"

text \<open>The button: with inputs the sheet for them is opened, without them the canvas is saved and the agent reset.\<close>

definition run_button :: "drawers \<Rightarrow> drawers" where
  "run_button s = (if has_inputs s then run_effect (s\<lparr>dr_drawer := True\<rparr>) else s\<lparr>dr_button_saves := dr_button_saves s + 1\<rparr>)"

text \<open>The sheet: the inputs are written into the canvas, which is saved, and the sheet is closed.\<close>

definition run_sheet :: "(rf_state \<Rightarrow> rf_state) \<Rightarrow> drawers \<Rightarrow> drawers" where
  "run_sheet write s =
     (if dr_run s then hideRunOrChatDrawer (s\<lparr>dr_graph := write (dr_graph s), dr_sheet_saves := dr_sheet_saves s + 1\<rparr>) else s)"

text \<open>Both answers have to say that it went well.\<close>

definition saved_and_reset :: "jsv \<Rightarrow> jsv \<Rightarrow> bool" where
  "saved_and_reset saveRet resetRet = (jget saveRet ''code'' = JInt 0 \<and> jget resetRet ''code'' = JInt 0)"

definition button_saved :: "jsv \<Rightarrow> jsv \<Rightarrow> drawers \<Rightarrow> drawers" where
  "button_saved saveRet resetRet s =
     (if dr_button_saves s = 0 then s
      else let s1 = s\<lparr>dr_button_saves := dr_button_saves s - 1\<rparr> in
        if saved_and_reset saveRet resetRet then run_effect (s1\<lparr>dr_drawer := True\<rparr>) else s1)"

definition sheet_saved :: "jsv \<Rightarrow> jsv \<Rightarrow> drawers \<Rightarrow> drawers" where
  "sheet_saved saveRet resetRet s =
     (if dr_sheet_saves s = 0 then s
      else let s1 = s\<lparr>dr_sheet_saves := dr_sheet_saves s - 1\<rparr> in
        if saved_and_reset saveRet resetRet then s1\<lparr>dr_chat := True\<rparr> else s1)"

definition single_saved :: "jsv \<Rightarrow> drawers \<Rightarrow> drawers" where
  "single_saved saveRet s =
     (if dr_single_saves s = 0 then s
      else let s1 = s\<lparr>dr_single_saves := dr_single_saves s - 1\<rparr> in
        if jget saveRet ''code'' = JInt 0 then s1\<lparr>dr_single := True\<rparr> else s1)"

text \<open>Whether a change of the canvas is saved by itself.\<close>

definition saves_itself :: "drawers \<Rightarrow> bool" where
  "saves_itself s = (\<not> dr_drawer s)"

section \<open>Steps\<close>

datatype drawer_action = Click_Node nat "string option" "string option" bool | Open_Form nat "string option" "string option"
  | Click_Pane | Close_Form | Press_Run | Send_Inputs "rf_state \<Rightarrow> rf_state" | Close_Run_Or_Chat
  | Button_Saved jsv jsv | Sheet_Saved jsv jsv | Single_Saved jsv | Close_Single | Open_Log string | Close_Log
  | Canvas_Changes "rf_state \<Rightarrow> rf_state"

text \<open>A change of the canvas, with the effects behind it. A click is on a node that is there.\<close>

definition canvas_changes :: "(rf_state \<Rightarrow> rf_state) \<Rightarrow> drawers \<Rightarrow> drawers" where
  "canvas_changes f s = deletion_effect (run_effect (s\<lparr>dr_graph := f (dr_graph s)\<rparr>))"

fun drawer_step :: "drawer_action \<Rightarrow> drawers \<Rightarrow> drawers" where
  "drawer_step (Click_Node i toolId tool play) s =
     (if i < length (st_nodes (dr_graph s)) then onNodeClick (st_nodes (dr_graph s) ! i) toolId tool play s else s)"
| "drawer_step (Open_Form i toolId tool) s =
     (if i < length (st_nodes (dr_graph s)) then showFormDrawer toolId tool (nid (st_nodes (dr_graph s) ! i)) s else s)"
| "drawer_step Click_Pane s = pane_click s"
| "drawer_step Close_Form s = s\<lparr>dr_form := False\<rparr>"
| "drawer_step Press_Run s = run_button s"
| "drawer_step (Send_Inputs write) s = deletion_effect (run_sheet write s)"
| "drawer_step Close_Run_Or_Chat s = hideRunOrChatDrawer s"
| "drawer_step (Button_Saved a b) s = button_saved a b s"
| "drawer_step (Sheet_Saved a b) s = sheet_saved a b s"
| "drawer_step (Single_Saved a) s = single_saved a s"
| "drawer_step Close_Single s = s\<lparr>dr_single := False\<rparr>"
| "drawer_step (Open_Log i) s = showLogSheetExclusive i s"
| "drawer_step Close_Log s = s\<lparr>dr_log := False\<rparr>"
| "drawer_step (Canvas_Changes f) s = canvas_changes f s"

definition drawer_run :: "drawer_action list \<Rightarrow> drawers \<Rightarrow> drawers" where
  "drawer_run as s = foldl (\<lambda>s a. drawer_step a s) s as"

section \<open>What is open\<close>

definition form_has_node :: "drawers \<Rightarrow> bool" where
  "form_has_node s \<longleftrightarrow> dr_form s \<longrightarrow> (\<exists>x \<in> set (st_nodes (dr_graph s)). Some (nid x) = clickedNodeId (dr_graph s))"

lemma deletion_effect_ok: "form_has_node (deletion_effect s)"
  by (auto simp: form_has_node_def deletion_effect_def list_ex_iff)

lemma showFormDrawer_ok:
  "form_has_node s \<Longrightarrow> i \<in> nid ` set (st_nodes (dr_graph s)) \<Longrightarrow> form_has_node (showFormDrawer toolId tool i s)"
  by (auto simp: form_has_node_def showFormDrawer_def setClickedNodeId_def setClickedToolId_def Let_def)

lemma form_has_node_updates [simp]:
  "form_has_node (s\<lparr>dr_drawer := b\<rparr>) = form_has_node s" "form_has_node (s\<lparr>dr_run := b\<rparr>) = form_has_node s"
  "form_has_node (s\<lparr>dr_chat := b\<rparr>) = form_has_node s" "form_has_node (s\<lparr>dr_single := b\<rparr>) = form_has_node s"
  "form_has_node (s\<lparr>dr_log := b\<rparr>) = form_has_node s" "form_has_node (s\<lparr>dr_message := m\<rparr>) = form_has_node s"
  "form_has_node (s\<lparr>dr_button_saves := n\<rparr>) = form_has_node s" "form_has_node (s\<lparr>dr_sheet_saves := n\<rparr>) = form_has_node s"
  "form_has_node (s\<lparr>dr_single_saves := n\<rparr>) = form_has_node s" "form_has_node (s\<lparr>dr_form := False\<rparr>)"
  "form_has_node (run_effect s) = form_has_node s"
  by (simp_all add: form_has_node_def run_effect_def)

lemma drawer_step_form: "form_has_node s \<Longrightarrow> form_has_node (drawer_step a s)"
  by (cases a) (auto simp: onNodeClick_def pane_click_def run_button_def run_sheet_def hideRunOrChatDrawer_def
      button_saved_def sheet_saved_def single_saved_def showLogSheetExclusive_def canvas_changes_def deletion_effect_ok
      Let_def intro!: showFormDrawer_ok)

text \<open>Whatever is done, a form that is open has its node on the canvas, and the log closes it.\<close>

theorem open_form_has_node:
  "form_has_node (drawer_run as (no_drawers g))
   \<and> \<not> dr_form (drawer_step (Open_Log i) (drawer_run as (no_drawers g)))"
proof
  have "form_has_node (no_drawers g)" by (simp add: form_has_node_def no_drawers_def)
  then show "form_has_node (drawer_run as (no_drawers g))"
    unfolding drawer_run_def by (induction as rule: rev_induct) (simp_all add: drawer_step_form)
qed (simp add: showLogSheetExclusive_def)

text \<open>
  As long as the button is not pressed while a run of the sheet is being saved, the sheet for the inputs and the
  chat are never open together, and the sheet is open only when the drawer is.
\<close>

definition calm :: "drawer_action \<Rightarrow> drawers \<Rightarrow> bool" where
  "calm a s \<longleftrightarrow> (a = Press_Run \<or> (\<exists>x y. a = Button_Saved x y)) \<longrightarrow> dr_sheet_saves s = 0"

fun calm_run :: "drawer_action list \<Rightarrow> drawers \<Rightarrow> bool" where
  "calm_run [] s = True"
| "calm_run (a # as) s \<longleftrightarrow> calm a s \<and> calm_run as (drawer_step a s)"

definition one_sheet :: "drawers \<Rightarrow> bool" where
  "one_sheet s \<longleftrightarrow> \<not> (dr_run s \<and> dr_chat s) \<and> (dr_run s \<longrightarrow> dr_drawer s) \<and> (dr_sheet_saves s \<noteq> 0 \<longrightarrow> \<not> dr_drawer s)"

lemma one_sheet_same:
  "one_sheet s \<Longrightarrow> dr_run s' = dr_run s \<Longrightarrow> dr_chat s' = dr_chat s \<Longrightarrow> dr_drawer s' = dr_drawer s
    \<Longrightarrow> dr_sheet_saves s' = dr_sheet_saves s \<Longrightarrow> one_sheet s'"
  by (simp add: one_sheet_def)

lemma drawer_step_one_sheet: "one_sheet s \<Longrightarrow> calm a s \<Longrightarrow> one_sheet (drawer_step a s)"
  by (cases a) (auto simp: one_sheet_def calm_def onNodeClick_def showFormDrawer_def pane_click_def run_button_def
      run_sheet_def hideRunOrChatDrawer_def button_saved_def sheet_saved_def single_saved_def showLogSheetExclusive_def
      canvas_changes_def deletion_effect_def run_effect_def Let_def)

theorem run_and_chat_exclusive:
  assumes "calm_run as (no_drawers g)"
  shows "\<not> (dr_run (drawer_run as (no_drawers g)) \<and> dr_chat (drawer_run as (no_drawers g)))"
proof -
  have "one_sheet (foldl (\<lambda>s a. drawer_step a s) s as)" if "one_sheet s" "calm_run as s" for s
    using that by (induction as arbitrary: s) (simp_all add: drawer_step_one_sheet)
  from this [OF _ assms] have "one_sheet (drawer_run as (no_drawers g))"
    by (simp add: drawer_run_def one_sheet_def no_drawers_def)
  then show ?thesis by (simp add: one_sheet_def)
qed

text \<open>Pressing the button in between opens both.\<close>

theorem both_sheets_open:
  assumes "has_inputs s" "has_inputs (s\<lparr>dr_graph := write (dr_graph s)\<rparr>)" "saved_and_reset a b"
  shows "dr_run (drawer_run [Press_Run, Send_Inputs write, Press_Run, Sheet_Saved a b] s)
    \<and> dr_chat (drawer_run [Press_Run, Send_Inputs write, Press_Run, Sheet_Saved a b] s)"
  using assms
  by (simp add: drawer_run_def run_button_def run_effect_def run_sheet_def hideRunOrChatDrawer_def sheet_saved_def
      deletion_effect_def has_inputs_def Let_def)

text \<open>
  The canvas is not saved by itself while the drawer is open, that is during a chat without inputs. A chat that was
  started from the sheet is open without the drawer, and the canvas is saved under it.
\<close>

theorem saved_during_chat_with_inputs:
  assumes "has_inputs s" "saved_and_reset a b"
  shows "dr_chat (drawer_run [Press_Run, Send_Inputs write, Sheet_Saved a b] s)
    \<and> saves_itself (drawer_run [Press_Run, Send_Inputs write, Sheet_Saved a b] s)"
  using assms
  by (simp add: drawer_run_def run_button_def run_effect_def run_sheet_def hideRunOrChatDrawer_def sheet_saved_def
      deletion_effect_def has_inputs_def saves_itself_def Let_def)

theorem not_saved_during_chat_without_inputs:
  assumes "\<not> has_inputs s" "saved_and_reset a b"
  shows "dr_chat (drawer_run [Press_Run, Button_Saved a b] s) \<and> \<not> saves_itself (drawer_run [Press_Run, Button_Saved a b] s)"
  using assms
  by (simp add: drawer_run_def run_button_def run_effect_def button_saved_def has_inputs_def saves_itself_def Let_def)

text \<open>An input that is added during such a chat closes the chat and asks for the inputs of a new run.\<close>

theorem new_input_closes_chat:
  assumes "dr_drawer s" "dr_chat s" "has_inputs (s\<lparr>dr_graph := f (dr_graph s)\<rparr>)"
  shows "\<not> dr_chat (drawer_step (Canvas_Changes f) s) \<and> dr_run (drawer_step (Canvas_Changes f) s)"
  using assms by (simp add: canvas_changes_def run_effect_def deletion_effect_def)

end
