(* ===== verification/Spec2Isabelle.thy ===== *)
theory Spec2Isabelle
  imports Prelude Js_Value Js_String Js_Json Js_Regex Agent_Constants Code_Output Graph_Model Node_Names Node_Copy
    Graph_Walk Packages Agent_Store Agent_Tools Store_Proofs Store_Deletion Store_Tools History
    Add_Node Add_Node_Proofs Canvas_Hooks Canvas_Hooks_Proofs Connection Dsl_Params Dsl_Build
    Dsl_Proofs Canvas_Session Chat_Messages Chat_Events Chat_Session Json_Schema Schema_Infer
    Schema_Accept Schema_Edit Schema_Settings Schema_Validate Dataset_Metadata Metadata_Values
    Llm_Util Text_Units Variable_Options File_Upload Prompt_Editor Title_Chunker Llm_Settings Sse_Answer
    Dialog_Chat Graph_Combos Time_Picker Input_Select Dynamic_Form
    Operator_Forms Operator_Forms_Proofs Form_Actions Form_Actions_Proofs List_Filters Dsl_Export Pipeline_Result Search_Session Search_Proofs Canvas_Drawers
begin

text \<open>
  The agent editor and chat of the RAGFlow web client, \<open>web/src\<close>: a canvas of operators joined by
  edges, kept in a store, edited by hooks, turned into the DSL the server runs, and a chat that shows
  the stream of events of a run; and with them the builder of JSON schemas, the metadata of datasets and
  the utilities that requests and texts go through.

  \<^bold>\<open>Values.\<close> \<open>Js_Value\<close> has the dynamic values the forms hold (undefined, null, booleans, numbers,
  strings, arrays, objects as ordered properties), truthiness, strict equality, property access that
  fails on undefined and null, object literals with spreads, and \<open>Object.keys\<close> order. Numbers are exact
  rationals with NaN and the infinities; strings are lists of 8-bit characters; there is no prototype
  chain. \<open>Js_String\<close> has the string methods the sources use. A value copied in the sources is the same
  value here, and an action that changes an object in place is the state after the change; only where a
  changed object is seen from two places (\<open>Pipeline_Result\<close>) is there a store.

  \<^bold>\<open>Packages.\<close> Code of packages is an argument of the definitions that use it, with its documented
  behaviour as a named predicate and a reference function that has it: the path functions and
  comparisons of lodash (\<open>Packages\<close>), \<open>omit\<close>, \<open>addEdge\<close>, \<open>getOutgoers\<close> and \<open>deleteElements\<close> of the
  canvas library, the words drawn for ids and the translation function.

  \<^bold>\<open>Constants.\<close> \<open>Agent_Constants\<close> is \<open>constants/agent.tsx\<close> and \<open>pages/agent/constant\<close>: the operators,
  the tables over them and the initial forms. \<open>Code_Output\<close> is \<open>form/code-form/utils.ts\<close>.

  \<^bold>\<open>The graph.\<close> \<open>Graph_Model\<close> has nodes and edges, the well-formedness of a graph and the small helpers
  of \<open>pages/agent/utils.ts\<close>. \<open>Graph_Walk\<close> has the recursive walks (\<open>filter-downstream-nodes.ts\<close>,
  \<open>canvas-util.tsx\<close>) and what a deletion collects (\<open>delete-node.ts\<close>). A walk has a depth, the number of
  nested calls; depth \<open>length edges + 2\<close> is taken, and the interface \<open>finite_succs\<close> proves that it is
  enough whenever any depth is: the walk fails exactly when a cycle can be reached. \<open>Node_Names\<close> and
  \<open>Node_Copy\<close> have the naming and the copying of nodes.

  \<^bold>\<open>The store.\<close> \<open>Agent_Store\<close> and \<open>Agent_Tools\<close> are \<open>store.ts\<close>: one definition for each action, from state
  to state, partial where it walks. \<open>Store_Proofs\<close>, \<open>Store_Deletion\<close> and \<open>Store_Tools\<close> prove what the
  actions do: a switch node's form stays in step with its edges, edges of one node are replaced and
  the others kept, deletion removes what it should and, for agents and iterations, leaves edges it
  should not, tools have fresh ids and are updated at their index.

  \<^bold>\<open>The hooks.\<close> \<open>Add_Node\<close> is \<open>use-add-node.ts\<close> with the initial values of tools; \<open>Canvas_Hooks\<close> is the
  deletion guard, the placeholder manager and the drag of a connection; \<open>Connection\<close> is the check of a
  connection in \<open>hooks.tsx\<close>, whose search shares a set of visited ids (depth: the number of nodes plus
  two, proved enough); \<open>History\<close> is \<open>use-agent-history-manager.ts\<close>, proved to implement a timeline.
  \<open>Canvas_Session\<close> puts the actions together as a step relation: whatever is done, the edges stay free
  of cycles, so the walks, deletions and the DSL builder come back.

  \<open>Canvas_Drawers\<close> are the sheets beside the canvas (\<open>use-show-drawer.tsx\<close>, \<open>use-save-graph.ts\<close>): an open form
  has its node, and when the sheet for the inputs and the chat exclude each other.

  \<^bold>\<open>The DSL.\<close> \<open>Dsl_Params\<close> has the parameters of each operator, \<open>Dsl_Build\<close> the components and globals of
  \<open>utils.ts\<close> and \<open>use-build-dsl.ts\<close>; \<open>Dsl_Proofs\<close> shows which nodes become components, what their
  neighbours are, and that the saved graph has no placeholder.

  \<open>Dsl_Export\<close> is the export of an agent to a file and the import of such a file (\<open>use-export-json.ts\<close>,
  \<open>use-import-json.ts\<close>): tools lose their keys, and the rest comes back.

  \<open>Pipeline_Result\<close> is the page with the result of a data flow (\<open>pages/dataflow-result\<close>): the line of its
  components and the editor of an output. The editor assigns to a shared object, so its outputs lie in a store.

  \<open>Search_Session\<close> is the page of a search (\<open>pages/next-search\<close>) with its stream, its requests for chunks and its
  mind map; \<open>Search_Proofs\<close> shows that one answer runs at a time and what a question and its answer do.

  \<^bold>\<open>Variables.\<close> \<open>Variable_Options\<close> lists the variables a node can refer to (\<open>canvas-util.tsx\<close>,
  \<open>use-get-begin-query.tsx\<close>, \<open>use-build-structured-output.ts\<close>): exactly the outputs of the nodes above
  it, with those of a loop around it; and the search for the type of a field of a structured output,
  which agrees with following the names of the field one property at a time.

  \<^bold>\<open>The chat.\<close> \<open>Chat_Messages\<close> is the message list of \<open>logic-hooks.ts\<close>; \<open>Chat_Events\<close> is the text shown for
  a list of events, the cache of events and the reader of the stream. \<open>Chat_Session\<close> is the chat itself as
  a state machine over both (\<open>use-send-agent-message.ts\<close>, \<open>use-send-message.ts\<close>): the actions are what
  the user does, the events and the end of a stream and the timer that clears the answers. It shows one
  whole turn, that a question can be sent again after the end of one stream whatever came before, and
  where questions, answers and messages get lost.

  \<^bold>\<open>The schema builder.\<close> \<open>Js_Json\<close> and \<open>Js_Regex\<close> have what its sources use of JSON texts and of regular
  expressions (by derivatives). \<open>Json_Schema\<close>, \<open>Schema_Edit\<close> and \<open>Schema_Settings\<close> are the schemas, the
  handlers of the editors and the settings by type; the handlers of the object editor implement put,
  drop and mark on a table, stated as the interface \<open>field_editor\<close>. \<open>Schema_Infer\<close> infers a schema from a
  document; \<open>Schema_Accept\<close> specifies what a schema accepts and shows that the generated schema accepts
  its document. \<open>Schema_Validate\<close> is the tree of errors of a schema, with the parser of the validation
  package as an argument.

  \<^bold>\<open>Prompts and forms.\<close> \<open>Prompt_Editor\<close> is the editor of prompts (\<open>form/components/prompt-editor\<close>): a
  text becomes nodes and the nodes have the text, for every list of variables; a path typed behind a
  variable is merged into it and survives saving. \<open>Title_Chunker\<close> is the form of the title chunker: what is
  saved reads back as the form, and the level stays among those that can be chosen.

  \<^bold>\<open>Chat with a dialog.\<close> \<open>Sse_Answer\<close> is \<open>useSendMessageWithSse\<close>: the text that a stream builds up, the
  marks of what is done and the timer that clears the answer. \<open>Dialog_Chat\<close> puts it together with
  \<open>Chat_Messages\<close> (\<open>pages/next-chats/hooks\<close>): a whole turn, a refused turn, and where a quick second
  question, a question during an answer and a first question asked again go wrong.

  \<^bold>\<open>Models.\<close> \<open>Llm_Settings\<close> has the options of the model selectors, which offer exactly the available
  models of the wanted types, and the dialogs that add a provider, whose mark of saving is exact.

  \<^bold>\<open>Metadata of a dataset.\<close> \<open>Dataset_Metadata\<close> has the table of metadata, its conversions and the operations
  it records until they are sent; performing the recorded deletions gives the table that is shown.
  \<open>Metadata_Values\<close> is the dialog in which the values of a field are edited.

  \<^bold>\<open>Utilities.\<close> \<open>Llm_Util\<close> has the names of models, the cache of their list and the tenant parameters of a
  request. \<open>Text_Units\<close> has the functions that read a text by its code units, 16-bit words: citation
  markers, the direction of a text and byte arrays of 8-bit words.

  \<^bold>\<open>File upload.\<close> \<open>File_Upload\<close> is \<open>components/file-upload.tsx\<close> as a step function over its store: the
  limit of files holds in every run, each chosen file is accepted or rejected, and where a shared
  progress frame loses or overtakes what another callback said.

  \<^bold>\<open>Operator forms.\<close> \<open>Operator_Forms\<close> is what the form of each operator starts with when its node is opened
  and what is written to the node when the form changes (\<open>form/*/use-values.ts\<close>, \<open>use-watch-change.ts\<close>);
  \<open>Operator_Forms_Proofs\<close> has the interface \<open>kept_form\<close>, reading after writing, which all of them implement, so
  that opening a node shows the last values of its form. \<open>Form_Actions\<close> and \<open>Form_Actions_Proofs\<close> have the rest of
  what these forms do: the tools and servers of an agent, the names of nodes, tools and groups, the dialogs
  that edit one record of a list, the prompts of the extractor.

  \<^bold>\<open>Controls.\<close> \<open>Dynamic_Form\<close> is \<open>components/dynamic-form.tsx\<close>: schema, default values and handed-on values
  are trees written at the dotted names of the fields, which the interface \<open>path_store\<close> joins.
  \<open>Input_Select\<close> is the tag input (\<open>ui/input-select.tsx\<close>) as a step function over keys, clicks and picks;
  \<open>Time_Picker\<close> the text, parser, options and changes of \<open>ui/time-picker.tsx\<close>; \<open>Graph_Combos\<close> the groups of a
  knowledge graph (\<open>knowledge-graph/util.ts\<close>). \<open>List_Filters\<close> has the filters of lists
  (\<open>components/list-filter-bar\<close>): what they offer, the search in them, and that a choice is always cut down to
  what is offered.

  \<^bold>\<open>Not modelled.\<close> The React components, requests, timers as such (a time-out is a step of its own),
  the translations, the other dataset pages and the lists of searches, and the servers in other languages.
\<close>

end
